(* ===== verification/Prelude.thy ===== *)
theory Prelude
  imports Main "HOL-Library.State_Monad" "HOL-Library.AList"
begin

text \<open>
  Shared vocabulary of the development: Go errors as values, effectful code as programs of
  the state monad with a rely/guarantee judgement \<open>ensures\<close>, the byte-string routines of Go's
  \<^verbatim>\<open>strings\<close> and \<^verbatim>\<open>strconv\<close> packages that the modules call, and 64-bit integer
  wrap-around.
\<close>

named_theorems ensures_rules \<comment> \<open>one rule per program constructor and per primitive\<close>
named_theorems str_simps     \<comment> \<open>equations of the string routines\<close>

section \<open>Errors\<close>

text \<open>
  A Go error is its message together with the sentinel values it wraps, outermost first:
  \<^verbatim>\<open>errors.Is(err, s)\<close> asks whether \<open>s\<close> is among them.
\<close>

datatype sentinel =
    ErrNoSteps | ErrAsyncStepMissingPollConfig | ErrStepMissingAction | ErrStepMissingCompensate
  | ErrStepRetryable | ErrStepFatal | ErrCompensationFailed | ErrSigningFailed
  | ErrTransactionExecutionTimeout | ContextError
  | ErrTransactionFailed | ErrTransactionNotFound | ErrTransactionDisappeared
  | ErrMissingAuthHeader | ErrInvalidAuthFormat | ErrMissingTimestamp | ErrMissingNonce
  | ErrTimestampExpired | ErrNonceReused | ErrAKNotFound | ErrSignatureMismatch | ErrBodyTooLarge
  | ErrNotAcquired | ErrLockExpired
  | ErrQueueNotFound | ErrTaskNotFound | asynq_ErrQueueNotFound | asynq_ErrTaskNotFound
  | ErrServiceNameRequired | ErrInvalidLevel | ErrInvalidFormat
  | redsync_ErrLockAlreadyExpired | redsync_ErrExtendFailed | redsync_ErrTaken

datatype gerr = GErr (sentinels: "sentinel list") (msg: string)

definition errors_New :: "string \<Rightarrow> gerr" where
  "errors_New m = GErr [] m"

definition errors_Is :: "gerr \<Rightarrow> sentinel \<Rightarrow> bool" where
  "errors_Is e s \<longleftrightarrow> s \<in> set (sentinels e)"

text \<open>\<^verbatim>\<open>fmt.Errorf("prefix: %w", err)\<close> keeps the wrapped sentinels.\<close>

definition wrap_err :: "string \<Rightarrow> gerr \<Rightarrow> gerr" where
  "wrap_err p e = GErr (sentinels e) (p @ '': '' @ msg e)"

text \<open>\<^verbatim>\<open>fmt.Errorf("%w: %v", sentinel, err)\<close> keeps the sentinel and only the text of \<open>err\<close>.\<close>

definition mark_err :: "gerr \<Rightarrow> gerr \<Rightarrow> gerr" where
  "mark_err s e = GErr (sentinels s) (msg s @ '': '' @ msg e)"

lemma errors_Is_simps [simp]:
  "errors_Is (errors_New m) s = False"
  "errors_Is (GErr ss m) s = (s \<in> set ss)"
  "errors_Is (wrap_err p e) s = errors_Is e s"
  "errors_Is (mark_err e1 e2) s = errors_Is e1 s"
  by (simp_all add: errors_New_def errors_Is_def wrap_err_def mark_err_def)

lemma sentinels_wrap_err [simp]: "sentinels (wrap_err p e) = sentinels e"
  by (simp add: wrap_err_def)

section \<open>Programs\<close>

text \<open>
  Stateful Go code is a program of the state monad over an explicit state. A function that
  returns \<^verbatim>\<open>(T, error)\<close> is a program with result type \<open>gerr + T\<close>.
\<close>

definition reads :: "('s \<Rightarrow> 'a) \<Rightarrow> ('s, 'a) state" where
  "reads f = State (\<lambda>s. (f s, s))"

definition modifies :: "('s \<Rightarrow> 's) \<Rightarrow> ('s, unit) state" where
  "modifies f = State (\<lambda>s. ((), f s))"

lemma run_reads [simp]: "run_state (reads f) s = (f s, s)"
  by (simp add: reads_def)

lemma run_modifies [simp]: "run_state (modifies f) s = ((), f s)"
  by (simp add: modifies_def)

subsection \<open>The judgement\<close>

text \<open>
  \<open>ensures R P m Q\<close>: started in a state that satisfies \<open>P\<close>, the program \<open>m\<close> moves along
  \<open>R\<close> and ends with a result and a state that satisfy \<open>Q\<close>. \<open>keeps R P m\<close> is the case where
  \<open>P\<close> is kept.
\<close>

definition ensures ::
  "('s \<Rightarrow> 's \<Rightarrow> bool) \<Rightarrow> ('s \<Rightarrow> bool) \<Rightarrow> ('s, 'a) state \<Rightarrow> ('a \<Rightarrow> 's \<Rightarrow> bool) \<Rightarrow> bool" where
  "ensures R P m Q \<longleftrightarrow> (\<forall>s r s'. P s \<longrightarrow> run_state m s = (r, s') \<longrightarrow> R s s' \<and> Q r s')"

abbreviation keeps :: "('s \<Rightarrow> 's \<Rightarrow> bool) \<Rightarrow> ('s \<Rightarrow> bool) \<Rightarrow> ('s, 'a) state \<Rightarrow> bool" where
  "keeps R P m \<equiv> ensures R P m (\<lambda>_. P)"

lemma ensuresI:
  "(\<And>s r s'. P s \<Longrightarrow> run_state m s = (r, s') \<Longrightarrow> R s s' \<and> Q r s') \<Longrightarrow> ensures R P m Q"
  by (simp add: ensures_def)

lemma ensuresD:
  "ensures R P m Q \<Longrightarrow> P s \<Longrightarrow> run_state m s = (r, s') \<Longrightarrow> R s s' \<and> Q r s'"
  by (simp add: ensures_def)

lemma ensures_weaken:
  "ensures R P' m Q' \<Longrightarrow> (\<And>s. P s \<Longrightarrow> P' s) \<Longrightarrow> (\<And>r s. Q' r s \<Longrightarrow> Q r s) \<Longrightarrow> ensures R P m Q"
  by (fastforce simp: ensures_def)

lemma ensures_sum [ensures_rules]:
  "(\<And>e. r = Inl e \<Longrightarrow> ensures R P (f e) Q) \<Longrightarrow> (\<And>x. r = Inr x \<Longrightarrow> ensures R P (g x) Q)
    \<Longrightarrow> ensures R P (case r of Inl e \<Rightarrow> f e | Inr x \<Rightarrow> g x) Q"
  by (cases r) simp_all

lemma ensures_option [ensures_rules]:
  "(r = None \<Longrightarrow> ensures R P m Q) \<Longrightarrow> (\<And>x. r = Some x \<Longrightarrow> ensures R P (g x) Q)
    \<Longrightarrow> ensures R P (case r of None \<Rightarrow> m | Some x \<Rightarrow> g x) Q"
  by (cases r) simp_all

lemma ensures_prod [ensures_rules]:
  "(\<And>x y. r = (x, y) \<Longrightarrow> ensures R P (f x y) Q) \<Longrightarrow> ensures R P (case r of (x, y) \<Rightarrow> f x y) Q"
  by (cases r) simp_all

lemma ensures_if [ensures_rules]:
  "(b \<Longrightarrow> ensures R P m Q) \<Longrightarrow> (\<not> b \<Longrightarrow> ensures R P n Q) \<Longrightarrow> ensures R P (if b then m else n) Q"
  by simp

lemma ensures_let [ensures_rules]:
  "ensures R P (f x) Q \<Longrightarrow> ensures R P (let y = x in f y) Q"
  by simp

text \<open>
  The rules for sequencing need the relation to be a preorder. A relation that is one
  interprets this locale and gets them.
\<close>

locale transition =
  fixes R :: "'s \<Rightarrow> 's \<Rightarrow> bool"
  assumes refl_R: "R s s"
    and trans_R: "R s t \<Longrightarrow> R t u \<Longrightarrow> R s u"
begin

lemma ensures_return: "(\<And>s. P s \<Longrightarrow> Q x s) \<Longrightarrow> ensures R P (State_Monad.return x) Q"
  by (simp add: ensures_def refl_R)

lemma keeps_return: "keeps R P (State_Monad.return x)"
  by (simp add: ensures_def refl_R)

lemma ensures_bind:
  assumes "ensures R P m Q'" and "\<And>x. ensures R (Q' x) (f x) Q"
  shows "ensures R P (State_Monad.bind m f) Q"
proof (rule ensuresI)
  fix s r s'
  assume P: "P s" and run: "run_state (State_Monad.bind m f) s = (r, s')"
  obtain x t where m: "run_state m s = (x, t)" by fastforce
  with run have f: "run_state (f x) t = (r, s')" by simp
  from assms(1) P m have 1: "R s t \<and> Q' x t" by (rule ensuresD)
  from assms(2) 1 f have "R t s' \<and> Q r s'" by (blast dest: ensuresD)
  with 1 show "R s s' \<and> Q r s'" by (blast intro: trans_R)
qed

lemma keeps_bind:
  "keeps R P m \<Longrightarrow> (\<And>x. keeps R P (f x)) \<Longrightarrow> keeps R P (State_Monad.bind m f)"
  by (rule ensures_bind)

lemma keeps_bind_post:
  "keeps R P m \<Longrightarrow> (\<And>x. ensures R P (f x) Q) \<Longrightarrow> ensures R P (State_Monad.bind m f) Q"
  by (rule ensures_bind)

lemma keeps_reads: "keeps R P (reads f)"
  by (simp add: ensures_def refl_R)

lemmas keeps_rules = keeps_return keeps_bind keeps_reads

end

interpretation anywhere: transition "\<lambda>_ _. True"
  by unfold_locales simp_all

section \<open>Strings\<close>

text \<open>A Go string is a sequence of bytes; here a list of \<open>char\<close>.\<close>

definition has_prefix :: "string \<Rightarrow> string \<Rightarrow> bool" where
  "has_prefix s p \<longleftrightarrow> take (length p) s = p"

text \<open>\<^verbatim>\<open>strings.IndexByte\<close>, with \<open>None\<close> for -1.\<close>

fun index_byte :: "string \<Rightarrow> char \<Rightarrow> nat option" where
  "index_byte [] c = None"
| "index_byte (x # xs) c = (if x = c then Some 0 else map_option Suc (index_byte xs c))"

text \<open>
  The white space of \<^verbatim>\<open>strings.TrimSpace\<close> and \<^verbatim>\<open>bytes.TrimSpace\<close>: the characters of
  Unicode's White Space property (\<^verbatim>\<open>unicode.IsSpace\<close>), in UTF-8.
\<close>

definition white_space :: "string list" where
  "white_space =
     [[CHR 0x20], [CHR 0x09], [CHR 0x0A], [CHR 0x0B], [CHR 0x0C], [CHR 0x0D],
      [CHR 0xC2, CHR 0x85], [CHR 0xC2, CHR 0xA0], [CHR 0xE1, CHR 0x9A, CHR 0x80],
      [CHR 0xE2, CHR 0x80, CHR 0x80], [CHR 0xE2, CHR 0x80, CHR 0x81], [CHR 0xE2, CHR 0x80, CHR 0x82],
      [CHR 0xE2, CHR 0x80, CHR 0x83], [CHR 0xE2, CHR 0x80, CHR 0x84], [CHR 0xE2, CHR 0x80, CHR 0x85],
      [CHR 0xE2, CHR 0x80, CHR 0x86], [CHR 0xE2, CHR 0x80, CHR 0x87], [CHR 0xE2, CHR 0x80, CHR 0x88],
      [CHR 0xE2, CHR 0x80, CHR 0x89], [CHR 0xE2, CHR 0x80, CHR 0x8A], [CHR 0xE2, CHR 0x80, CHR 0xA8],
      [CHR 0xE2, CHR 0x80, CHR 0xA9], [CHR 0xE2, CHR 0x80, CHR 0xAF], [CHR 0xE2, CHR 0x81, CHR 0x9F],
      [CHR 0xE3, CHR 0x80, CHR 0x80]]"

text \<open>The text after the longest sequence of the strings \<open>ps\<close> it starts with.\<close>

function drop_any :: "string list \<Rightarrow> string \<Rightarrow> string" where
  "drop_any ps s =
     (case find (\<lambda>p. p \<noteq> [] \<and> has_prefix s p) ps of
        None \<Rightarrow> s
      | Some p \<Rightarrow> drop_any ps (drop (length p) s))"
  by pat_completeness auto
termination
proof (relation "measure (\<lambda>(ps, s). length s)")
  show "wf (measure (\<lambda>(ps, s). length s))" by simp
next
  fix ps p and s :: string
  assume "find (\<lambda>p. p \<noteq> [] \<and> has_prefix s p) ps = Some p"
  then have "p \<noteq> []" "has_prefix s p" by (auto simp: find_Some_iff)
  then show "((ps, drop (length p) s), ps, s) \<in> measure (\<lambda>(ps, s). length s)"
    by (cases s; cases p) (auto simp: has_prefix_def)
qed

declare drop_any.simps [simp del]

definition trim_space :: "string \<Rightarrow> string" where
  "trim_space s = rev (drop_any (map rev white_space) (rev (drop_any white_space s)))"

text \<open>\<^verbatim>\<open>strings.Split(s, sep)\<close> for a non-empty separator.\<close>

function split_str :: "string \<Rightarrow> string \<Rightarrow> string list" where
  "split_str sep s =
     (if sep \<noteq> [] \<and> has_prefix s sep then [] # split_str sep (drop (length sep) s)
      else case s of [] \<Rightarrow> [[]]
           | c # cs \<Rightarrow> (case split_str sep cs of [] \<Rightarrow> [[c]] | x # xs \<Rightarrow> (c # x) # xs))"
  by pat_completeness auto
termination
proof (relation "measure (\<lambda>(sep, s). length s)")
  show "wf (measure (\<lambda>(sep, s). length s))" by simp
next
  fix sep s :: string
  assume h: "sep \<noteq> [] \<and> has_prefix s sep"
  then have "s \<noteq> []" by (auto simp: has_prefix_def)
  with h show "((sep, drop (length sep) s), sep, s) \<in> measure (\<lambda>(sep, s). length s)"
    by (cases sep) auto
qed simp

declare split_str.simps [simp del]

text \<open>\<^verbatim>\<open>strings.SplitN(s, sep, 2)\<close> for a one-byte separator.\<close>

definition split2 :: "char \<Rightarrow> string \<Rightarrow> string list" where
  "split2 c s = (case index_byte s c of None \<Rightarrow> [s] | Some i \<Rightarrow> [take i s, drop (Suc i) s])"

text \<open>\<^verbatim>\<open>strings.Join\<close>.\<close>

fun join_str :: "string \<Rightarrow> string list \<Rightarrow> string" where
  "join_str sep [] = []"
| "join_str sep [x] = x"
| "join_str sep (x # xs) = x @ sep @ join_str sep xs"

text \<open>\<^verbatim>\<open>strings.ToUpper\<close> and \<^verbatim>\<open>strings.ToLower\<close>, for ASCII letters.\<close>

definition to_upper_char :: "char \<Rightarrow> char" where
  "to_upper_char c = (let n = of_char c :: nat in if 97 \<le> n \<and> n \<le> 122 then char_of (n - 32) else c)"

definition to_lower_char :: "char \<Rightarrow> char" where
  "to_lower_char c = (let n = of_char c :: nat in if 65 \<le> n \<and> n \<le> 90 then char_of (n + 32) else c)"

definition to_upper :: "string \<Rightarrow> string" where "to_upper = map to_upper_char"
definition to_lower :: "string \<Rightarrow> string" where "to_lower = map to_lower_char"

subsection \<open>Decimal numbers\<close>

definition digit_char :: "nat \<Rightarrow> char" where
  "digit_char d = char_of (48 + d)"

fun show_nat :: "nat \<Rightarrow> string" where
  "show_nat n = (if n < 10 then [digit_char n] else show_nat (n div 10) @ [digit_char (n mod 10)])"

declare show_nat.simps [simp del]

text \<open>\<^verbatim>\<open>strconv.Itoa\<close>, \<^verbatim>\<open>strconv.FormatInt(v, 10)\<close> and the verb \<^verbatim>\<open>%d\<close>.\<close>

definition itoa :: "int \<Rightarrow> string" where
  "itoa i = (if i < 0 then CHR ''-'' # show_nat (nat (- i)) else show_nat (nat i))"

definition is_digit :: "char \<Rightarrow> bool" where
  "is_digit c \<longleftrightarrow> 48 \<le> (of_char c :: nat) \<and> (of_char c :: nat) \<le> 57"

fun read_digits :: "nat \<Rightarrow> string \<Rightarrow> nat option" where
  "read_digits acc [] = Some acc"
| "read_digits acc (c # cs) =
     (if is_digit c then read_digits (acc * 10 + (of_char c - 48)) cs else None)"

definition int64_min :: int where "int64_min = - (2 ^ 63)"
definition int64_max :: int where "int64_max = 2 ^ 63 - 1"

text \<open>
  \<^verbatim>\<open>strconv.Atoi(s)\<close> and \<^verbatim>\<open>strconv.ParseInt(s, 10, 64)\<close>: an optional sign, at least one digit,
  only digits, and a value in the range of \<^verbatim>\<open>int64\<close>; \<open>None\<close> is the error.
\<close>

definition atoi :: "string \<Rightarrow> int option" where
  "atoi s =
     (let neg = (s \<noteq> [] \<and> hd s = CHR ''-'');
          body = (if s \<noteq> [] \<and> (hd s = CHR ''-'' \<or> hd s = CHR ''+'') then tl s else s)
      in if body = [] then None
         else case read_digits 0 body of
                None \<Rightarrow> None
              | Some n \<Rightarrow> (let v = (if neg then - int n else int n)
                          in if int64_min \<le> v \<and> v \<le> int64_max then Some v else None))"

subsection \<open>Facts about the string routines\<close>

lemma index_byte_notin [simp]: "c \<notin> set s \<Longrightarrow> index_byte s c = None"
  by (induction s) auto

lemma index_byte_append:
  "c \<notin> set p \<Longrightarrow> index_byte (p @ c # q) c = Some (length p)"
  by (induction p) auto

lemma digit_char_props:
  assumes "d < 10"
  shows "is_digit (digit_char d)" and "of_char (digit_char d) = 48 + d"
  using assms by (auto simp: is_digit_def digit_char_def)

lemma show_nat_digits: "\<forall>c \<in> set (show_nat n). is_digit c"
proof (induction n rule: show_nat.induct)
  case (1 n)
  then show ?case
    by (subst show_nat.simps) (auto simp: digit_char_props)
qed

lemma show_nat_nonempty [simp]: "show_nat n \<noteq> []"
  by (subst show_nat.simps) simp

lemma read_digits_append:
  "read_digits a (s @ t) = (case read_digits a s of None \<Rightarrow> None | Some n \<Rightarrow> read_digits n t)"
  by (induction s arbitrary: a) auto

lemma read_show_nat: "read_digits 0 (show_nat n) = Some n"
proof (induction n rule: show_nat.induct)
  case (1 n)
  show ?case
  proof (cases "n < 10")
    case True
    then show ?thesis by (subst show_nat.simps) (simp add: digit_char_props)
  next
    case False
    with 1 have "read_digits 0 (show_nat (n div 10)) = Some (n div 10)" by simp
    with False show ?thesis
      by (subst show_nat.simps) (simp add: read_digits_append digit_char_props)
  qed
qed

lemma read_digits_None: "c \<in> set s \<Longrightarrow> \<not> is_digit c \<Longrightarrow> read_digits a s = None"
  by (induction s arbitrary: a) auto

lemma not_digit_sign: "\<not> is_digit CHR ''-''" "\<not> is_digit CHR ''+''"
  by (simp_all add: is_digit_def)

lemma show_nat_hd: "hd (show_nat n) \<noteq> CHR ''-''" "hd (show_nat n) \<noteq> CHR ''+''"
  using show_nat_digits [of n] not_digit_sign hd_in_set [OF show_nat_nonempty [of n]] by metis+

lemma atoi_itoa: "int64_min \<le> i \<Longrightarrow> i \<le> int64_max \<Longrightarrow> atoi (itoa i) = Some i"
  by (auto simp: atoi_def itoa_def Let_def show_nat_hd read_show_nat)

text \<open>A string with a character that is neither a digit nor a sign is no number.\<close>

lemma atoi_None:
  assumes "c \<in> set s" "\<not> is_digit c" "c \<noteq> CHR ''-''" "c \<noteq> CHR ''+''"
  shows "atoi s = None"
proof -
  have "c \<in> set (tl s)" if "hd s = CHR ''-'' \<or> hd s = CHR ''+''"
    using assms that by (cases s) auto
  with assms show ?thesis
    by (auto simp: atoi_def Let_def read_digits_None)
qed

lemma itoa_chars: "\<not> is_digit c \<Longrightarrow> c \<noteq> CHR ''-'' \<Longrightarrow> c \<notin> set (itoa i)"
  using show_nat_digits by (auto simp: itoa_def)

section \<open>Association lists\<close>

lemma update_fresh: "k \<notin> fst ` set xs \<Longrightarrow> AList.update k v xs = xs @ [(k, v)]"
  by (induction xs) auto

section \<open>64-bit integers\<close>

text \<open>The two's complement value of an integer operation whose exact result is \<open>i\<close>.\<close>

definition wrap64 :: "int \<Rightarrow> int" where
  "wrap64 i = (i + 2 ^ 63) mod 2 ^ 64 - 2 ^ 63"

end
