(* ===== verification/Auth_Store.thy ===== *)
theory Auth_Store
  imports Prelude
begin

text \<open>
  \<^verbatim>\<open>auth/store.go\<close> and \<^verbatim>\<open>auth/nonce.go\<close>: credentials, and the memory of used nonces that
  prevents replays.
\<close>

section \<open>Credentials\<close>

record credential =
  AccessKey :: string
  SecretKey :: string
  Label :: string
  Enabled :: bool

text \<open>The interface \<^verbatim>\<open>CredentialStore\<close>: an error, no credential, or one.\<close>

type_synonym credential_store = "string \<Rightarrow> gerr + credential option"

type_synonym memory_store = "(string \<times> credential) list"

definition Add :: "memory_store \<Rightarrow> credential option \<Rightarrow> memory_store" where
  "Add s oc = (case oc of None \<Rightarrow> s | Some c \<Rightarrow> AList.update (AccessKey c) c s)"

text \<open>The constructor's loop registers its list with the same assignment.\<close>

definition NewMemoryStore :: "credential option list \<Rightarrow> memory_store" where
  "NewMemoryStore cs = foldl Add [] cs"

definition GetByAK :: "memory_store \<Rightarrow> credential_store" where
  "GetByAK s ak = Inr (map_of s ak)"

lemma GetByAK_Add:
  "GetByAK (Add s (Some c)) ak = (if ak = AccessKey c then Inr (Some c) else GetByAK s ak)"
  by (simp add: GetByAK_def Add_def update_conv')

lemma GetByAK_AccessKey:
  "GetByAK (NewMemoryStore cs) ak = Inr (Some c) \<Longrightarrow> AccessKey c = ak \<and> Some c \<in> set cs"
proof (induction cs rule: rev_induct)
  case Nil
  then show ?case by (simp add: GetByAK_def NewMemoryStore_def)
next
  case (snoc oc cs)
  have step: "NewMemoryStore (cs @ [oc]) = Add (NewMemoryStore cs) oc"
    by (simp add: NewMemoryStore_def)
  show ?case
  proof (cases oc)
    case None
    then show ?thesis using snoc step by (auto simp: Add_def)
  next
    case (Some c')
    then show ?thesis using snoc step by (auto simp: GetByAK_Add split: if_splits)
  qed
qed

section \<open>Nonces\<close>

record nonce_store =
  nonces :: "(string \<times> int) list" \<comment> \<open>nonce and \<open>expiresAt\<close>\<close>
  stopped :: bool
  stopCh_closed :: bool

definition NewMemoryNonceStore :: nonce_store where
  "NewMemoryNonceStore = \<lparr>nonces = [], stopped = False, stopCh_closed = False\<rparr>"

text \<open>\<^verbatim>\<open>CheckAndStore\<close> at clock \<open>t\<close>; \<^verbatim>\<open>ttl * 2\<close> is 64-bit arithmetic.\<close>

definition CheckAndStore :: "int \<Rightarrow> string \<Rightarrow> int \<Rightarrow> nonce_store \<Rightarrow> bool \<times> nonce_store" where
  "CheckAndStore t nonce ttl s =
     (if nonce \<in> fst ` set (nonces s) then (True, s)
      else (False, s\<lparr>nonces := AList.update nonce (t + wrap64 (ttl * 2)) (nonces s)\<rparr>))"

definition cleanup :: "int \<Rightarrow> nonce_store \<Rightarrow> nonce_store" where
  "cleanup t s = s\<lparr>nonces := filter (\<lambda>(n, e). \<not> e < t) (nonces s)\<rparr>"

text \<open>\<^verbatim>\<open>Stop\<close> closes the channel once; closing it a second time would panic (\<open>None\<close>).\<close>

definition Stop :: "nonce_store \<Rightarrow> nonce_store option" where
  "Stop s =
     (if stopped s then Some s
      else if stopCh_closed s then None
      else Some (s\<lparr>stopped := True, stopCh_closed := True\<rparr>))"

text \<open>A run of the store: any sequence of checks and clean-ups, each at its own clock reading.\<close>

datatype nonce_event = Check int string int | Cleanup int | StopStore

fun event_time :: "nonce_event \<Rightarrow> int option" where
  "event_time (Check t _ _) = Some t"
| "event_time (Cleanup t) = Some t"
| "event_time StopStore = None"

fun nonce_run :: "nonce_event list \<Rightarrow> nonce_store \<Rightarrow> nonce_store" where
  "nonce_run [] s = s"
| "nonce_run (Check t n ttl # es) s = nonce_run es (snd (CheckAndStore t n ttl s))"
| "nonce_run (Cleanup t # es) s = nonce_run es (cleanup t s)"
| "nonce_run (StopStore # es) s = nonce_run es (case Stop s of Some s' \<Rightarrow> s' | None \<Rightarrow> s)"

lemma wrap64_small [simp]: "int64_min \<le> i \<Longrightarrow> i \<le> int64_max \<Longrightarrow> wrap64 i = i"
  by (simp add: wrap64_def int64_min_def int64_max_def)

lemma Stop_nonces [simp]: "Stop s = Some s' \<Longrightarrow> nonces s' = nonces s"
  by (auto simp: Stop_def split: if_splits)

text \<open>A nonce known to expire at \<open>e\<close> survives every event up to that time.\<close>

lemma nonce_kept:
  assumes "(n, e) \<in> set (nonces s)" and "\<forall>ev \<in> set evs. \<forall>t. event_time ev = Some t \<longrightarrow> t \<le> e"
  shows "(n, e) \<in> set (nonces (nonce_run evs s))"
  using assms
proof (induction evs arbitrary: s)
  case (Cons ev evs)
  show ?case
  proof (cases ev)
    case (Check t m ttl)
    have "(n, e) \<in> set (nonces (snd (CheckAndStore t m ttl s)))"
    proof (cases "m \<in> fst ` set (nonces s)")
      case False
      then have "m \<noteq> n" using Cons.prems(1) by force
      with False show ?thesis using Cons.prems(1) by (simp add: CheckAndStore_def update_fresh)
    qed (use Cons.prems in \<open>simp add: CheckAndStore_def\<close>)
    then show ?thesis using Cons Check by simp
  next
    case (Cleanup t)
    then have "t \<le> e" using Cons.prems(2) by simp
    then have "(n, e) \<in> set (nonces (cleanup t s))" using Cons.prems(1) by (simp add: cleanup_def)
    then show ?thesis using Cons Cleanup by simp
  next
    case StopStore
    then show ?thesis using Cons by (auto split: option.splits)
  qed
qed simp

text \<open>
  A nonce that was accepted once is refused by every later check up to twice its
  time to live, whatever other nonces are checked and however often the store cleans up or is
  stopped in between.
\<close>

theorem nonce_single_use:
  assumes "CheckAndStore t n ttl s = (False, s')"
    and "0 \<le> ttl" and "2 * ttl \<le> int64_max"
    and "\<forall>ev \<in> set evs. \<forall>u. event_time ev = Some u \<longrightarrow> u \<le> t + 2 * ttl"
  shows "fst (CheckAndStore t' n ttl' (nonce_run evs s')) = True"
proof -
  have "wrap64 (ttl * 2) = 2 * ttl"
    using assms(2,3) by (simp add: int64_min_def mult.commute)
  then have "(n, t + 2 * ttl) \<in> set (nonces s')"
    using assms(1) by (auto simp: CheckAndStore_def update_fresh split: if_splits)
  then have "(n, t + 2 * ttl) \<in> set (nonces (nonce_run evs s'))"
    using assms(4) by (rule nonce_kept)
  then show ?thesis by (force simp: CheckAndStore_def)
qed

theorem nonce_single_use_witness:
  "fst (CheckAndStore 20 ''n'' 10 (nonce_run [Check 3 ''m'' 1, Cleanup 15, StopStore]
     (snd (CheckAndStore 0 ''n'' 10 NewMemoryNonceStore)))) = True"
  by (rule nonce_single_use [where t = 0 and ttl = 10 and s = NewMemoryNonceStore])
     (simp_all add: CheckAndStore_def NewMemoryNonceStore_def int64_max_def)

end
