(* ===== verification/Go_Value.thy ===== *)
theory Go_Value
  imports Prelude
begin

text \<open>
  Dynamic Go values as the saga module meets them (\<^verbatim>\<open>any\<close>, \<^verbatim>\<open>map[string]any\<close>, \<^verbatim>\<open>[]any\<close>), the
  lookups and conversions the module performs on them, and the codecs of Go's standard library
  that stay parameters of the model.
\<close>

section \<open>Values\<close>

text \<open>
  A \<^verbatim>\<open>float64\<close> is its mantissa and binary exponent (the value \<open>m * 2 ^ e\<close>), an infinity or NaN.
\<close>

datatype float64 = F64 int int | FInf bool | FNaN

text \<open>
  A Go map with string keys is an association list without duplicate keys; \<open>GNilMap\<close> is the
  nil \<^verbatim>\<open>map[string]any\<close> stored in an interface, which is not the nil interface \<open>GNil\<close>.
  \<open>GOther\<close> stands for a value of any other type, carrying what \<^verbatim>\<open>%v\<close> prints for it.
\<close>

datatype goval =
    GNil
  | GStr string
  | GFloat float64
  | GInt int
  | GInt64 int
  | GBool bool
  | GNilMap
  | GMap "(string \<times> goval) list"
  | GArr "goval list"
  | GOther string

type_synonym gomap = "(string \<times> goval) list option"

definition of_gomap :: "gomap \<Rightarrow> goval" where
  "of_gomap m = (case m of None \<Rightarrow> GNilMap | Some kvs \<Rightarrow> GMap kvs)"

text \<open>\<^verbatim>\<open>m[k]\<close> with its presence flag: a nil map has no keys.\<close>

definition gm_get :: "gomap \<Rightarrow> string \<Rightarrow> goval option" where
  "gm_get m k = (case m of None \<Rightarrow> None | Some kvs \<Rightarrow> map_of kvs k)"

text \<open>\<^verbatim>\<open>m[k].(string)\<close> with its ok flag.\<close>

definition gm_get_string :: "gomap \<Rightarrow> string \<Rightarrow> string option" where
  "gm_get_string m k = (case gm_get m k of Some (GStr s) \<Rightarrow> Some s | _ \<Rightarrow> None)"

lemma gm_get_simps [simp]:
  "gm_get None k = None"
  "gm_get (Some kvs) k = map_of kvs k"
  by (simp_all add: gm_get_def)

text \<open>The verb \<^verbatim>\<open>%T\<close>.\<close>

fun type_name :: "goval \<Rightarrow> string" where
  "type_name GNil = ''<nil>''"
| "type_name (GStr s) = ''string''"
| "type_name (GFloat f) = ''float64''"
| "type_name (GInt i) = ''int''"
| "type_name (GInt64 i) = ''int64''"
| "type_name (GBool b) = ''bool''"
| "type_name GNilMap = ''map[string]interface {}''"
| "type_name (GMap m) = ''map[string]interface {}''"
| "type_name (GArr a) = ''[]interface {}''"
| "type_name (GOther s) = ''other''"

section \<open>Floats that are integers\<close>

text \<open>
  \<^verbatim>\<open>v == float64(int64(v))\<close>: the value is an integer in the range of \<^verbatim>\<open>int64\<close>. Outside the
  range the conversion yields the least \<^verbatim>\<open>int64\<close> (amd64), which differs from the value.
\<close>

fun float_int :: "float64 \<Rightarrow> int option" where
  "float_int (F64 m e) =
     (if 0 \<le> e then (let v = m * 2 ^ nat e in if int64_min \<le> v \<and> v \<le> int64_max then Some v else None)
      else if m mod 2 ^ nat (- e) = 0
           then (let v = m div 2 ^ nat (- e)
                 in if int64_min \<le> v \<and> v \<le> int64_max then Some v else None)
           else None)"
| "float_int (FInf b) = None"
| "float_int FNaN = None"

text \<open>The float that holds a small integer, as \<^verbatim>\<open>json.Unmarshal\<close> produces it.\<close>

definition float_of_int :: "int \<Rightarrow> float64" where
  "float_of_int i = F64 i 0"

lemma float_int_of_int [simp]:
  "int64_min \<le> i \<Longrightarrow> i \<le> int64_max \<Longrightarrow> float_int (float_of_int i) = Some i"
  by (simp add: float_of_int_def Let_def)

section \<open>Codecs of the standard library\<close>

text \<open>
  The program calls these routines as black boxes; the model leaves them open.
  \<^item> \<open>json_marshal\<close>, \<open>json_unmarshal\<close>: \<^verbatim>\<open>encoding/json\<close> on dynamic values (\<open>None\<close>: an error).
  \<^item> \<open>jsonb\<close>: what a PostgreSQL \<^verbatim>\<open>JSONB\<close> column returns for the text stored in it.
  \<^item> \<open>format_float\<close>: \<^verbatim>\<open>strconv.FormatFloat(v, 'f', -1, 64)\<close>.
  \<^item> \<open>sprintf_v\<close>, \<open>sprintf_q\<close>: the verbs \<^verbatim>\<open>%v\<close> on composite values and \<^verbatim>\<open>%q\<close> on strings.
  \<^item> \<open>request_error\<close>: why \<^verbatim>\<open>http.NewRequestWithContext\<close> rejects a method and URL, if it does.
  \<^item> \<open>sha256_hex\<close>, \<open>hmac_sha256_hex\<close>: the hash of a byte string and the keyed hash, in hex.
  \<^item> \<open>url_path\<close>, \<open>url_query\<close>: path and raw query of a URL that \<^verbatim>\<open>net/url\<close> accepts.
  \<^item> \<open>parse_query\<close>: \<^verbatim>\<open>url.ParseQuery\<close> as the list of keys with their values, in the order the
    values appear (\<open>None\<close>: an error); \<open>query_escape\<close>: \<^verbatim>\<open>url.QueryEscape\<close>.
\<close>

record stdlib =
  json_marshal :: "goval \<Rightarrow> string option"
  json_unmarshal :: "string \<Rightarrow> goval option"
  jsonb :: "string \<Rightarrow> string"
  format_float :: "float64 \<Rightarrow> string"
  sprintf_v :: "goval \<Rightarrow> string"
  sprintf_q :: "string \<Rightarrow> string"
  request_error :: "string \<Rightarrow> string \<Rightarrow> string option"
  sha256_hex :: "string \<Rightarrow> string"
  hmac_sha256_hex :: "string \<Rightarrow> string \<Rightarrow> string"
  url_path :: "string \<Rightarrow> string"
  url_query :: "string \<Rightarrow> string"
  parse_query :: "string \<Rightarrow> (string \<times> string list) list option"
  query_escape :: "string \<Rightarrow> string"

text \<open>\<^verbatim>\<open>json.Unmarshal(text, &m)\<close> for \<^verbatim>\<open>m map[string]any\<close>: an object, or null for the nil map.\<close>

definition unmarshal_map :: "stdlib \<Rightarrow> string \<Rightarrow> gomap option" where
  "unmarshal_map L s =
     (case json_unmarshal L s of
        Some (GMap kvs) \<Rightarrow> Some (Some kvs)
      | Some GNil \<Rightarrow> Some None
      | _ \<Rightarrow> None)"

text \<open>
  One concrete choice of the codecs, on which the examples of the development compute: an encoding
  of the few JSON texts the examples use, and constant hashes.
\<close>

definition sample_lib :: stdlib where
  "sample_lib = \<lparr>
     json_marshal = (\<lambda>v. Some (case v of GNilMap \<Rightarrow> ''null'' | GNil \<Rightarrow> ''null'' | _ \<Rightarrow> ''{}'')),
     json_unmarshal = (\<lambda>s.
       if s = ''null'' then Some GNil
       else if s = ''{}'' then Some (GMap [])
       else if s = ''ok'' then Some (GMap [(''code'', GStr ''0'')])
       else if s = ''done'' then Some (GMap [(''code'', GStr ''0''), (''status'', GStr ''done'')])
       else None),
     jsonb = (\<lambda>s. s),
     format_float = (\<lambda>_. ''0.5''),
     sprintf_v = (\<lambda>_. ''?''),
     sprintf_q = (\<lambda>s. s),
     request_error = (\<lambda>m u. if u = '''' then Some ''empty url'' else None),
     sha256_hex = (\<lambda>_. ''e3b0''),
     hmac_sha256_hex = (\<lambda>_ _. ''a1b2''),
     url_path = (\<lambda>u. u),
     url_query = (\<lambda>_. ''''),
     parse_query = (\<lambda>_. Some []),
     query_escape = (\<lambda>s. s)\<rparr>"

end
