(* ===== verification/Http.thy ===== *)
theory Http
  imports Go_Value
begin

text \<open>
  The part of \<^verbatim>\<open>net/http\<close> the modules use: header maps with canonical keys, requests as the
  program builds them, and the random bytes and hexadecimal text behind nonces and trace ids.
\<close>

section \<open>Headers\<close>

type_synonym header = "(string \<times> string list) list"

definition token_char :: "char \<Rightarrow> bool" where
  "token_char c \<longleftrightarrow> c \<in> set ''!#$%&*+-.^_`|~0123456789abcdefghijklmnopqrstuvwxyzABCDEFGHIJKLMNOPQRSTUVWXYZ''
     \<or> c = CHR 0x27"

fun canonical_go :: "bool \<Rightarrow> string \<Rightarrow> string" where
  "canonical_go up [] = []"
| "canonical_go up (c # cs) =
     (if up then to_upper_char c else to_lower_char c) # canonical_go (c = CHR ''-'') cs"

text \<open>\<^verbatim>\<open>textproto.CanonicalMIMEHeaderKey\<close>.\<close>

definition canonical_key :: "string \<Rightarrow> string" where
  "canonical_key k = (if list_all token_char k then canonical_go True k else k)"

definition hdr_set :: "header \<Rightarrow> string \<Rightarrow> string \<Rightarrow> header" where
  "hdr_set h k v = AList.update (canonical_key k) [v] h"

definition hdr_get :: "header \<Rightarrow> string \<Rightarrow> string" where
  "hdr_get h k = (case map_of h (canonical_key k) of Some (v # _) \<Rightarrow> v | _ \<Rightarrow> '''')"

lemma hdr_get_set:
  "hdr_get (hdr_set h k v) k' = (if canonical_key k = canonical_key k' then v else hdr_get h k')"
  by (simp add: hdr_get_def hdr_set_def update_conv')

section \<open>Requests\<close>

record request =
  rq_method :: string
  rq_url :: string
  rq_header :: header
  rq_body :: "string option"
  rq_body_err :: "gerr option" \<comment> \<open>what the body reader ends with instead of EOF\<close>

text \<open>
  \<^verbatim>\<open>http.NewRequestWithContext\<close>: an error of the library, or a request without headers. The empty
  method means GET.
\<close>

definition NewRequest :: "stdlib \<Rightarrow> string \<Rightarrow> string \<Rightarrow> string option \<Rightarrow> gerr + request" where
  "NewRequest L method url body =
     (case request_error L method url of
        Some m \<Rightarrow> Inl (errors_New m)
      | None \<Rightarrow> Inr \<lparr>rq_method = (if method = '''' then ''GET'' else method), rq_url = url,
                      rq_header = [], rq_body = body, rq_body_err = None\<rparr>)"

definition set_header :: "request \<Rightarrow> string \<Rightarrow> string \<Rightarrow> request" where
  "set_header r k v = r\<lparr>rq_header := hdr_set (rq_header r) k v\<rparr>"

definition get_header :: "request \<Rightarrow> string \<Rightarrow> string" where
  "get_header r k = hdr_get (rq_header r) k"

lemma get_set_header:
  "get_header (set_header r k v) k' =
     (if canonical_key k = canonical_key k' then v else get_header r k')"
  by (simp add: get_header_def set_header_def hdr_get_set)

lemma set_header_frame [simp]:
  "rq_method (set_header r k v) = rq_method r"
  "rq_url (set_header r k v) = rq_url r"
  "rq_body (set_header r k v) = rq_body r"
  "rq_body_err (set_header r k v) = rq_body_err r"
  by (simp_all add: set_header_def)

section \<open>Hexadecimal text\<close>

definition hex_digit :: "nat \<Rightarrow> char" where
  "hex_digit n = (if n < 10 then char_of (48 + n) else char_of (87 + n))"

definition hex_byte :: "char \<Rightarrow> string" where
  "hex_byte b = [hex_digit (of_char b div 16), hex_digit (of_char b mod 16)]"

text \<open>\<^verbatim>\<open>hex.EncodeToString\<close>; a byte is a \<open>char\<close>.\<close>

definition hex_encode :: "string \<Rightarrow> string" where
  "hex_encode bs = concat (map hex_byte bs)"

definition is_hex_char :: "char \<Rightarrow> bool" where
  "is_hex_char c \<longleftrightarrow> (let n = of_char c :: nat in
     (48 \<le> n \<and> n \<le> 57) \<or> (97 \<le> n \<and> n \<le> 102) \<or> (65 \<le> n \<and> n \<le> 70))"

text \<open>\<^verbatim>\<open>hex.DecodeString(s)\<close> succeeds.\<close>

definition hex_decodes :: "string \<Rightarrow> bool" where
  "hex_decodes s \<longleftrightarrow> even (length s) \<and> list_all is_hex_char s"

lemma length_hex_encode [simp]: "length (hex_encode bs) = 2 * length bs"
  by (induction bs) (auto simp: hex_encode_def hex_byte_def)

lemma hex_digit_is_hex: "n < 16 \<Longrightarrow> is_hex_char (hex_digit n)"
  by (auto simp: is_hex_char_def hex_digit_def Let_def)

lemma hex_encode_is_hex: "list_all is_hex_char (hex_encode bs)"
proof (induction bs)
  case (Cons b bs)
  have "(of_char b :: nat) < 256" by (rule nat_of_char_less_256)
  then have "of_char b div 16 < (16 :: nat)" by (simp add: less_mult_imp_div_less)
  moreover have "of_char b mod 16 < (16 :: nat)" by simp
  ultimately show ?case using Cons by (simp add: hex_encode_def hex_byte_def hex_digit_is_hex)
qed (simp add: hex_encode_def)

lemma hex_encode_decodes [simp]: "hex_decodes (hex_encode bs)"
  by (simp add: hex_decodes_def hex_encode_is_hex)

text \<open>
  \<^verbatim>\<open>rand.Read\<close> takes bytes from a supply; an exhausted supply yields zero bytes, so every read
  returns as many bytes as it asks for.
\<close>

definition take_bytes :: "nat \<Rightarrow> string \<Rightarrow> string \<times> string" where
  "take_bytes n supply = (take n (supply @ replicate n (char_of (0 :: nat))), drop n supply)"

lemma length_take_bytes [simp]: "length (fst (take_bytes n s)) = n"
  by (simp add: take_bytes_def)

lemma take_bytes_nonempty: "0 < n \<Longrightarrow> fst (take_bytes n s) \<noteq> []"
  by (metis length_take_bytes less_numeral_extra(3) list.size(3))

end
