(* ===== verification/Auth_Sign.thy ===== *)
theory Auth_Sign
  imports Auth_Store Http "HOL-Library.Char_ord" "HOL-Library.List_Lexorder"
begin

text \<open>
  \<^verbatim>\<open>auth/aksk.go\<close>: the canonical form of a request, signing it and verifying it.
\<close>

section \<open>Constants\<close>

definition HeaderAuthorization :: string where "HeaderAuthorization = ''Authorization''"
definition HeaderTimestamp :: string where "HeaderTimestamp = ''X-NSP-Timestamp''"
definition HeaderNonce :: string where "HeaderNonce = ''X-NSP-Nonce''"
definition HeaderSignedHeaders :: string where "HeaderSignedHeaders = ''X-NSP-SignedHeaders''"
definition AuthScheme :: string where "AuthScheme = ''NSP-HMAC-SHA256''"

definition DefaultSignedHeaders :: string where
  "DefaultSignedHeaders = ''content-type;x-nsp-nonce;x-nsp-timestamp''"

definition DefaultTimestampTolerance :: int where "DefaultTimestampTolerance = 300 * 10 ^ 9"
definition DefaultNonceTTL :: int where "DefaultNonceTTL = 900 * 10 ^ 9"
definition MaxRequestBodySize :: nat where "MaxRequestBodySize = 10 * 1024 * 1024"

fun auth_msg :: "sentinel \<Rightarrow> string" where
  "auth_msg ErrMissingAuthHeader = ''authorization header is missing''"
| "auth_msg ErrInvalidAuthFormat = ''invalid authorization header format''"
| "auth_msg ErrMissingTimestamp = ''timestamp header is missing or malformed''"
| "auth_msg ErrMissingNonce = ''nonce header is missing''"
| "auth_msg ErrTimestampExpired = ''timestamp is expired or outside tolerance window''"
| "auth_msg ErrNonceReused = ''nonce has already been used''"
| "auth_msg ErrAKNotFound = ''access key not found or disabled''"
| "auth_msg ErrSignatureMismatch = ''signature does not match''"
| "auth_msg ErrBodyTooLarge = ''request body exceeds maximum allowed size''"
| "auth_msg _ = ''''"

definition auth_err :: "sentinel \<Rightarrow> gerr" where
  "auth_err s = GErr [s] (auth_msg s)"

section \<open>Canonical form\<close>

text \<open>Hashing consumes the body and puts the bytes back, except where it fails half-way.\<close>

definition hashRequestBody :: "stdlib \<Rightarrow> request \<Rightarrow> (gerr + string) \<times> request" where
  "hashRequestBody L r =
     (case rq_body r of
        None \<Rightarrow> (Inr (sha256_hex L ''''), r)
      | Some b \<Rightarrow>
          (if length b > MaxRequestBodySize
           then (Inl (auth_err ErrBodyTooLarge), r\<lparr>rq_body := Some (drop (MaxRequestBodySize + 1) b)\<rparr>)
           else case rq_body_err r of
                  Some e \<Rightarrow> (Inl e, r\<lparr>rq_body := Some ''''\<rparr>)
                | None \<Rightarrow> (Inr (sha256_hex L b), r)))"

definition buildCanonicalQueryString :: "stdlib \<Rightarrow> string \<Rightarrow> string" where
  "buildCanonicalQueryString L rawQuery =
     (if rawQuery = '''' then ''''
      else case parse_query L rawQuery of
             None \<Rightarrow> rawQuery
           | Some values \<Rightarrow>
               join_str ''&''
                 (concat (map (\<lambda>k. map (\<lambda>v. query_escape L k @ ''='' @ query_escape L v)
                                      (sort (case map_of values k of Some vs \<Rightarrow> vs | None \<Rightarrow> [])))
                              (sort (map fst values)))))"

definition buildCanonicalHeaders :: "header \<Rightarrow> string \<Rightarrow> string" where
  "buildCanonicalHeaders h signedHeaders =
     (if signedHeaders = '''' then ''''
      else concat (map (\<lambda>raw. (let k = trim_space raw
                                in to_lower k @ '':'' @ trim_space (hdr_get h k) @ [CHR 0x0A]))
                       (split_str '';'' signedHeaders)))"

definition buildStringToSign :: "stdlib \<Rightarrow> request \<Rightarrow> string \<Rightarrow> string \<Rightarrow> string" where
  "buildStringToSign L r signedHeaders bodyHash =
     to_upper (rq_method r) @ [CHR 0x0A] @
     (let uri = url_path L (rq_url r) in if uri = '''' then ''/'' else uri) @ [CHR 0x0A] @
     buildCanonicalQueryString L (url_query L (rq_url r)) @ [CHR 0x0A] @
     buildCanonicalHeaders (rq_header r) signedHeaders @
     signedHeaders @ [CHR 0x0A] @
     bodyHash"

definition computeHMACSHA256 :: "stdlib \<Rightarrow> string \<Rightarrow> string \<Rightarrow> string" where
  "computeHMACSHA256 L key text = hmac_sha256_hex L key text"

section \<open>Signing\<close>

record signer =
  accessKey :: string
  secretKey :: string

definition NewSigner :: "string \<Rightarrow> string \<Rightarrow> signer" where
  "NewSigner ak sk = \<lparr>accessKey = ak, secretKey = sk\<rparr>"

text \<open>
  The random source as a supply of bytes; its read error is the first argument (\<open>None\<close>: no error).
\<close>

definition generateNonce :: "gerr option \<Rightarrow> nat \<Rightarrow> string \<Rightarrow> (gerr + string) \<times> string" where
  "generateNonce rand_err n rnd =
     (case rand_err of
        Some e \<Rightarrow> (Inl e, rnd)
      | None \<Rightarrow> (case take_bytes n rnd of (b, rest) \<Rightarrow> (Inr (hex_encode b), rest)))"

definition auth_header :: "string \<Rightarrow> string \<Rightarrow> string" where
  "auth_header ak signature = AuthScheme @ '' AK='' @ ak @ '', Signature='' @ signature"

text \<open>Signing at clock \<open>t\<close> (nanoseconds): the signed request and the bytes left.\<close>

definition Sign ::
  "stdlib \<Rightarrow> gerr option \<Rightarrow> signer \<Rightarrow> int \<Rightarrow> string \<Rightarrow> request \<Rightarrow> (gerr + request) \<times> string" where
  "Sign L rand_err s t rnd r =
     (let r1 = set_header r HeaderTimestamp (itoa (t div 10 ^ 9)) in
      case generateNonce rand_err 16 rnd of
        (Inl e, rest) \<Rightarrow> (Inl (wrap_err ''failed to generate nonce'' e), rest)
      | (Inr nonce, rest) \<Rightarrow>
          (let r2 = set_header r1 HeaderNonce nonce in
           case hashRequestBody L r2 of
             (Inl e, _) \<Rightarrow> (Inl (wrap_err ''failed to hash request body'' e), rest)
           | (Inr bodyHash, r3) \<Rightarrow>
               (let r4 = set_header r3 HeaderSignedHeaders DefaultSignedHeaders;
                    sts = buildStringToSign L r4 DefaultSignedHeaders bodyHash;
                    signature = computeHMACSHA256 L (secretKey s) sts
                in (Inr (set_header r4 HeaderAuthorization (auth_header (accessKey s) signature)), rest))))"

section \<open>Parsing\<close>

fun parse_params :: "(string \<times> string) list \<Rightarrow> string list \<Rightarrow> (string \<times> string) list option" where
  "parse_params acc [] = Some acc"
| "parse_params acc (p # ps) =
     (case split2 (CHR ''='') p of
        [k, v] \<Rightarrow> parse_params (AList.update (trim_space k) (trim_space v) acc) ps
      | _ \<Rightarrow> None)"

definition parseAuthHeader :: "string \<Rightarrow> gerr + (string \<times> string)" where
  "parseAuthHeader header =
     (if header = '''' then Inl (auth_err ErrMissingAuthHeader)
      else if \<not> has_prefix header (AuthScheme @ '' '') then Inl (auth_err ErrInvalidAuthFormat)
      else case parse_params [] (split_str '', '' (drop (length (AuthScheme @ '' '')) header)) of
             None \<Rightarrow> Inl (auth_err ErrInvalidAuthFormat)
           | Some params \<Rightarrow>
               (case (map_of params ''AK'', map_of params ''Signature'') of
                  (Some ak, Some sig) \<Rightarrow>
                    (if ak = '''' \<or> sig = '''' then Inl (auth_err ErrInvalidAuthFormat)
                     else Inr (ak, sig))
                | _ \<Rightarrow> Inl (auth_err ErrInvalidAuthFormat)))"

text \<open>
  \<^verbatim>\<open>time.Unix(s, 0)\<close> keeps \<open>s\<close> plus the seconds from year 1 to 1970 in 64 bits, and
  \<^verbatim>\<open>now.Sub\<close> saturates at the least and greatest \<^verbatim>\<open>Duration\<close>; both clocks in nanoseconds since
  year 1.
\<close>

definition year1_seconds :: int where "year1_seconds = 62135596800"

definition unix_time :: "int \<Rightarrow> int" where
  "unix_time s = wrap64 (s + year1_seconds) * 10 ^ 9"

definition time_sub :: "int \<Rightarrow> int \<Rightarrow> int" where
  "time_sub a b =
     (let d = a - b in
      if int64_min \<le> d \<and> d \<le> int64_max then d else if a < b then int64_min else int64_max)"

text \<open>The check at clock \<open>t\<close> (nanoseconds since 1970); \<open>- diff\<close> is 64-bit arithmetic.\<close>

definition parseAndValidateTimestamp :: "int \<Rightarrow> string \<Rightarrow> int \<Rightarrow> gerr + int" where
  "parseAndValidateTimestamp t timestampStr tolerance =
     (if timestampStr = '''' then Inl (auth_err ErrMissingTimestamp)
      else case atoi timestampStr of
             None \<Rightarrow> Inl (auth_err ErrMissingTimestamp)
           | Some ts \<Rightarrow>
               (let d = time_sub (t + year1_seconds * 10 ^ 9) (unix_time ts);
                    diff = (if d < 0 then wrap64 (- d) else d)
                in if diff > tolerance then Inl (auth_err ErrTimestampExpired) else Inr ts))"

section \<open>Verifying\<close>

record verifier_config =
  TimestampTolerance :: int
  NonceTTL :: int

record 's verifier =
  v_store :: credential_store
  v_check :: "int \<Rightarrow> string \<Rightarrow> int \<Rightarrow> 's \<Rightarrow> (gerr + bool) \<times> 's"
  timestampTolerance :: int
  nonceTTL :: int

definition NewVerifier ::
  "credential_store \<Rightarrow> (int \<Rightarrow> string \<Rightarrow> int \<Rightarrow> 's \<Rightarrow> (gerr + bool) \<times> 's) \<Rightarrow> verifier_config option
    \<Rightarrow> 's verifier" where
  "NewVerifier store check cfg = \<lparr>v_store = store, v_check = check,
     timestampTolerance = (case cfg of
        Some c \<Rightarrow> (if TimestampTolerance c > 0 then TimestampTolerance c else DefaultTimestampTolerance)
      | None \<Rightarrow> DefaultTimestampTolerance),
     nonceTTL = (case cfg of
        Some c \<Rightarrow> (if NonceTTL c > 0 then NonceTTL c else DefaultNonceTTL)
      | None \<Rightarrow> DefaultNonceTTL)\<rparr>"

text \<open>
  Verification at clock \<open>t\<close>: the result and the state of the nonce store, which changes even
  when a later step refuses the request.
\<close>

definition Verify ::
  "stdlib \<Rightarrow> 's verifier \<Rightarrow> int \<Rightarrow> request \<Rightarrow> 's \<Rightarrow> (gerr + credential) \<times> 's" where
  "Verify L v t r s =
     (case parseAuthHeader (get_header r HeaderAuthorization) of
        Inl e \<Rightarrow> (Inl e, s)
      | Inr (ak, clientSignature) \<Rightarrow>
     (case parseAndValidateTimestamp t (get_header r HeaderTimestamp) (timestampTolerance v) of
        Inl e \<Rightarrow> (Inl e, s)
      | Inr _ \<Rightarrow>
     (let nonce = get_header r HeaderNonce in
      if nonce = '''' then (Inl (auth_err ErrMissingNonce), s)
      else case v_check v t nonce (nonceTTL v) s of
        (Inl e, s') \<Rightarrow> (Inl (wrap_err ''nonce check failed'' e), s')
      | (Inr True, s') \<Rightarrow> (Inl (auth_err ErrNonceReused), s')
      | (Inr False, s') \<Rightarrow>
     (case v_store v ak of
        Inl e \<Rightarrow> (Inl (wrap_err ''credential lookup failed'' e), s')
      | Inr None \<Rightarrow> (Inl (auth_err ErrAKNotFound), s')
      | Inr (Some cred) \<Rightarrow>
          (if \<not> Enabled cred then (Inl (auth_err ErrAKNotFound), s')
           else case hashRequestBody L r of
             (Inl e, _) \<Rightarrow> (Inl (wrap_err ''failed to hash request body'' e), s')
           | (Inr bodyHash, r') \<Rightarrow>
               (let sh = get_header r' HeaderSignedHeaders;
                    signedHeaders = (if sh = '''' then DefaultSignedHeaders else sh);
                    expected = computeHMACSHA256 L (SecretKey cred)
                                 (buildStringToSign L r' signedHeaders bodyHash)
                in if clientSignature \<noteq> expected then (Inl (auth_err ErrSignatureMismatch), s')
                   else (Inr cred, s')))))))"

definition ErrorToHTTPStatus :: "gerr \<Rightarrow> nat" where
  "ErrorToHTTPStatus e =
     (if errors_Is e ErrMissingAuthHeader \<or> errors_Is e ErrInvalidAuthFormat \<or>
         errors_Is e ErrMissingTimestamp \<or> errors_Is e ErrMissingNonce then 400
      else if errors_Is e ErrTimestampExpired \<or> errors_Is e ErrNonceReused \<or>
         errors_Is e ErrAKNotFound \<or> errors_Is e ErrSignatureMismatch then 401
      else 500)"

section \<open>Parsing what signing prints\<close>

lemma split_str_simple:
  "c \<notin> set y \<Longrightarrow> split_str (c # sep) y = [y]"
  by (induction y) (auto simp: split_str.simps [of "c # sep"] has_prefix_def)

lemma split_str_once:
  assumes "c \<notin> set x" and "c \<notin> set y"
  shows "split_str (c # sep) (x @ c # sep @ y) = [x, y]"
  using assms
proof (induction x)
  case Nil
  then show ?case
    by (simp add: split_str.simps [of "c # sep" "c # sep @ y"] has_prefix_def split_str_simple)
next
  case (Cons a x)
  then show ?case
    by (auto simp: split_str.simps [of "c # sep" "a # x @ c # sep @ y"] has_prefix_def)
qed

lemma split2_simple: "c \<notin> set x \<Longrightarrow> split2 c (x @ c # y) = [x, y]"
  by (simp add: split2_def index_byte_append)

lemma trim_space_id [simp]: "trim_space ''AK'' = ''AK''" "trim_space ''Signature'' = ''Signature''"
  by code_simp+

definition header_safe :: "string \<Rightarrow> bool" where
  "header_safe s \<longleftrightarrow> s \<noteq> '''' \<and> CHR '','' \<notin> set s \<and> trim_space s = s"

lemma parse_auth_header:
  assumes "header_safe ak" and "header_safe sig"
  shows "parseAuthHeader (auth_header ak sig) = Inr (ak, sig)"
proof -
  have 1: "split_str '', '' (''AK='' @ ak @ '', '' @ ''Signature='' @ sig) = [''AK='' @ ak, ''Signature='' @ sig]"
    using split_str_once [of "CHR '',''" "''AK='' @ ak" "''Signature='' @ sig" "'' ''"] assms
    by (simp add: header_safe_def)
  have 2: "split2 (CHR ''='') (''AK='' @ ak) = [''AK'', ak]"
    using split2_simple [of "CHR ''=''" "''AK''" ak] by simp
  have 3: "split2 (CHR ''='') (''Signature='' @ sig) = [''Signature'', sig]"
    using split2_simple [of "CHR ''=''" "''Signature''" sig] by simp
  have 4: "drop (length (AuthScheme @ '' '')) (auth_header ak sig)
      = ''AK='' @ ak @ '', '' @ ''Signature='' @ sig"
    by (simp add: auth_header_def AuthScheme_def)
  have 5: "has_prefix (auth_header ak sig) (AuthScheme @ '' '')" "auth_header ak sig \<noteq> ''''"
    by (simp_all add: auth_header_def AuthScheme_def has_prefix_def)
  show ?thesis
    unfolding parseAuthHeader_def 4 1
    using assms 2 3 5 by (simp add: header_safe_def)
qed

section \<open>The timestamp window\<close>

lemma unix_time_small:
  "- (2 ^ 62) \<le> s \<Longrightarrow> s \<le> 2 ^ 62 \<Longrightarrow> unix_time s = (s + year1_seconds) * 10 ^ 9"
  by (simp add: unix_time_def year1_seconds_def int64_min_def int64_max_def)

lemma time_window:
  assumes "atoi str = Some ts"
    and "t - ts * 10 ^ 9 \<in> {int64_min <.. int64_max}" and "\<bar>t\<bar> \<le> int64_max"
  shows "parseAndValidateTimestamp t str tol =
     (if \<bar>t - ts * 10 ^ 9\<bar> \<le> tol then Inr ts else Inl (auth_err ErrTimestampExpired))"
proof -
  have "\<bar>ts\<bar> \<le> 2 ^ 62" using assms(2,3) by (auto simp: int64_min_def int64_max_def abs_le_iff)
  then have u: "unix_time ts = (ts + year1_seconds) * 10 ^ 9" by (intro unix_time_small) auto
  have ne: "str \<noteq> []" using assms(1) by (auto simp: atoi_def Let_def)
  have d: "time_sub (t + year1_seconds * 10 ^ 9) (unix_time ts) = t - ts * 10 ^ 9"
    using assms(2) unfolding u by (simp add: time_sub_def Let_def algebra_simps)
  have w: "wrap64 (- (t - ts * 10 ^ 9)) = - (t - ts * 10 ^ 9)" if "t - ts * 10 ^ 9 < 0"
    using assms(2) that by (intro wrap64_small) (auto simp: int64_min_def int64_max_def)
  show ?thesis
    unfolding parseAndValidateTimestamp_def
    using ne assms(1) w by (auto simp: d [simplified] Let_def)
qed

text \<open>
  Up to 292 years around the clock the timestamp check is what it says: a request is in
  time exactly when its timestamp is at most the tolerance away from the clock, in either direction.
\<close>

theorem timestamp_window:
  assumes "int64_min \<le> ts" "ts \<le> int64_max"
    and "t - ts * 10 ^ 9 \<in> {int64_min <.. int64_max}" and "\<bar>t\<bar> \<le> int64_max"
  shows "parseAndValidateTimestamp t (itoa ts) tol =
     (if \<bar>t - ts * 10 ^ 9\<bar> \<le> tol then Inr ts else Inl (auth_err ErrTimestampExpired))"
  using assms(3,4) by (intro time_window atoi_itoa assms(1,2))

theorem timestamp_window_witness:
  "parseAndValidateTimestamp (1700000000 * 10 ^ 9) (itoa 1700000290) DefaultTimestampTolerance
     = Inr 1700000290"
  using timestamp_window [of 1700000290 "1700000000 * 10 ^ 9" DefaultTimestampTolerance]
  by (simp add: int64_min_def int64_max_def DefaultTimestampTolerance_def)

text \<open>
  C4. Beyond that range the check lets a timestamp through: one that lies more than 292
  years after the clock makes \<^verbatim>\<open>now.Sub\<close> saturate at the least duration, whose negation is again
  negative, so the request counts as in time whatever the tolerance is.
\<close>

theorem far_future_timestamp_accepted:
  assumes "0 \<le> t" and "t + 2 ^ 63 < ts * 10 ^ 9" and "ts \<le> int64_max - year1_seconds" and "0 \<le> tol"
  shows "parseAndValidateTimestamp t (itoa ts) tol = Inr ts"
proof -
  have pos: "0 \<le> ts" using assms(1,2) by simp
  have at: "atoi (itoa ts) = Some ts"
    using pos assms(3) by (intro atoi_itoa) (simp_all add: int64_min_def year1_seconds_def)
  have u: "unix_time ts = (ts + year1_seconds) * 10 ^ 9"
    using pos assms(3) by (simp add: unix_time_def year1_seconds_def int64_min_def)
  have "t + year1_seconds * 10 ^ 9 - unix_time ts < int64_min"
    using assms(2) unfolding u by (simp add: int64_min_def algebra_simps)
  then have d: "time_sub (t + year1_seconds * 10 ^ 9) (unix_time ts) = int64_min"
    by (simp add: time_sub_def Let_def int64_min_def)
  have m: "wrap64 (- int64_min) = int64_min" by (simp add: wrap64_def int64_min_def)
  have ne: "itoa ts \<noteq> ''''" by (simp add: itoa_def)
  show ?thesis
    unfolding parseAndValidateTimestamp_def using ne at d [simplified] m assms(4)
    by (simp add: Let_def) (simp add: int64_min_def)
qed

theorem far_future_timestamp_accepted_witness:
  "parseAndValidateTimestamp (1700000000 * 10 ^ 9) (itoa 1000000000000) DefaultTimestampTolerance
     = Inr 1000000000000"
  by (rule far_future_timestamp_accepted)
     (simp_all add: int64_max_def year1_seconds_def DefaultTimestampTolerance_def)

section \<open>What verification establishes\<close>

lemma hash_ok: "hashRequestBody L r = (Inr h, r') \<Longrightarrow> r' = r"
  by (auto simp: hashRequestBody_def split: option.splits if_splits)

text \<open>The headers the signature covers, as the server reads them.\<close>

definition signed_headers :: "request \<Rightarrow> string" where
  "signed_headers r =
     (let sh = get_header r HeaderSignedHeaders in if sh = '''' then DefaultSignedHeaders else sh)"

lemma verify_accepts:
  "fst (Verify L v t r s) = Inr cred \<longleftrightarrow>
     (\<exists>ak sig ts h.
        parseAuthHeader (get_header r HeaderAuthorization) = Inr (ak, sig) \<and>
        parseAndValidateTimestamp t (get_header r HeaderTimestamp) (timestampTolerance v) = Inr ts \<and>
        get_header r HeaderNonce \<noteq> '''' \<and>
        fst (v_check v t (get_header r HeaderNonce) (nonceTTL v) s) = Inr False \<and>
        v_store v ak = Inr (Some cred) \<and> Enabled cred \<and>
        fst (hashRequestBody L r) = Inr h \<and>
        sig = computeHMACSHA256 L (SecretKey cred) (buildStringToSign L r (signed_headers r) h))"
  by (auto simp: Verify_def Let_def signed_headers_def dest!: hash_ok
      split: sum.splits prod.splits option.splits bool.splits if_splits)

section \<open>A signed request verifies\<close>

lemma default_list:
  "split_str '';'' DefaultSignedHeaders = [''content-type'', ''x-nsp-nonce'', ''x-nsp-timestamp'']"
  by code_simp

lemma auth_keys_distinct [simp]:
  "canonical_key HeaderAuthorization \<noteq> canonical_key HeaderTimestamp"
  "canonical_key HeaderAuthorization \<noteq> canonical_key HeaderNonce"
  "canonical_key HeaderAuthorization \<noteq> canonical_key HeaderSignedHeaders"
  "canonical_key HeaderSignedHeaders \<noteq> canonical_key HeaderTimestamp"
  "canonical_key HeaderSignedHeaders \<noteq> canonical_key HeaderNonce"
  "canonical_key HeaderNonce \<noteq> canonical_key HeaderTimestamp"
  "DefaultSignedHeaders \<noteq> ''''"
  by code_simp+

lemma signed_keys_not_authorization:
  "canonical_key HeaderAuthorization \<noteq> canonical_key (trim_space ''content-type'')"
  "canonical_key HeaderAuthorization \<noteq> canonical_key (trim_space ''x-nsp-nonce'')"
  "canonical_key HeaderAuthorization \<noteq> canonical_key (trim_space ''x-nsp-timestamp'')"
  by code_simp+

lemma canonical_headers_authorization:
  "buildCanonicalHeaders (hdr_set h HeaderAuthorization a) DefaultSignedHeaders
     = buildCanonicalHeaders h DefaultSignedHeaders"
  unfolding buildCanonicalHeaders_def default_list
  by (simp add: hdr_get_set signed_keys_not_authorization Let_def del: auth_keys_distinct)

lemma string_to_sign_authorization:
  "buildStringToSign L (set_header r HeaderAuthorization a) DefaultSignedHeaders h
     = buildStringToSign L r DefaultSignedHeaders h"
  by (simp add: buildStringToSign_def set_header_def canonical_headers_authorization)

lemma hash_set_header:
  "fst (hashRequestBody L (set_header r k v)) = fst (hashRequestBody L r)"
  by (simp add: hashRequestBody_def set_header_def split: option.splits)

lemma hex_nonempty: "hex_encode bs = '''' \<longleftrightarrow> bs = []"
  by (metis length_hex_encode length_0_conv mult_is_0 numeral_eq_Suc zero_neq_numeral)

text \<open>What a successful signature put into the request.\<close>

lemma Sign_result:
  assumes "fst (Sign L rand_err s t rnd r) = Inr r'"
  obtains h where "fst (hashRequestBody L r') = Inr h"
    "get_header r' HeaderTimestamp = itoa (t div 10 ^ 9)"
    "get_header r' HeaderNonce = hex_encode (fst (take_bytes 16 rnd))"
    "get_header r' HeaderSignedHeaders = DefaultSignedHeaders"
    "get_header r' HeaderAuthorization = auth_header (accessKey s)
       (computeHMACSHA256 L (secretKey s) (buildStringToSign L r' DefaultSignedHeaders h))"
proof -
  let ?n = "hex_encode (fst (take_bytes 16 rnd))"
  let ?r2 = "set_header (set_header r HeaderTimestamp (itoa (t div 10 ^ 9))) HeaderNonce ?n"
  let ?r4 = "set_header ?r2 HeaderSignedHeaders DefaultSignedHeaders"
  obtain h r3 where h: "hashRequestBody L ?r2 = (Inr h, r3)"
    using assms by (cases "hashRequestBody L ?r2")
      (auto simp: Sign_def generateNonce_def case_prod_beta Let_def split: option.splits sum.splits)
  have "r3 = ?r2" using h by (rule hash_ok)
  then have r': "r' = set_header ?r4 HeaderAuthorization (auth_header (accessKey s)
      (computeHMACSHA256 L (secretKey s) (buildStringToSign L ?r4 DefaultSignedHeaders h)))"
    using assms h by (auto simp: Sign_def generateNonce_def case_prod_beta Let_def
        split: option.splits sum.splits)
  have "fst (hashRequestBody L r') = Inr h" using h by (simp add: r' hash_set_header)
  then show ?thesis
    by (rule that)
       (simp_all add: r' get_set_header string_to_sign_authorization)
qed

text \<open>What the server reads back from a signed request.\<close>

lemma signed_accepted:
  assumes "fst (Sign L rand_err s t rnd r) = Inr r'"
    and "\<And>k d. header_safe (hmac_sha256_hex L k d)" and "header_safe (accessKey s)"
    and "v_store v (accessKey s) = Inr (Some cred)" "Enabled cred" "SecretKey cred = secretKey s"
    and "0 \<le> t" "t \<le> int64_max" "0 \<le> t'" "t' \<le> int64_max"
    and "\<bar>t' - t div 10 ^ 9 * 10 ^ 9\<bar> \<le> timestampTolerance v"
    and "fst (v_check v t' (get_header r' HeaderNonce) (nonceTTL v) st) = Inr False"
  shows "fst (Verify L v t' r' st) = Inr cred"
proof -
  let ?ts = "t div 10 ^ 9"
  obtain h where h: "fst (hashRequestBody L r') = Inr h"
    "get_header r' HeaderTimestamp = itoa ?ts"
    "get_header r' HeaderNonce = hex_encode (fst (take_bytes 16 rnd))"
    "get_header r' HeaderSignedHeaders = DefaultSignedHeaders"
    "get_header r' HeaderAuthorization = auth_header (accessKey s)
       (computeHMACSHA256 L (secretKey s) (buildStringToSign L r' DefaultSignedHeaders h))"
    by (rule Sign_result [OF assms(1)])
  have "?ts * 10 ^ 9 \<le> t" "0 \<le> ?ts" using assms(7) by (auto simp: div_times_less_eq_dividend)
  then have "t' - ?ts * 10 ^ 9 \<in> {int64_min <.. int64_max}" "int64_min \<le> ?ts" "?ts \<le> int64_max"
    using assms(8-10) by (auto simp: int64_min_def int64_max_def)
  then have "parseAndValidateTimestamp t' (itoa ?ts) (timestampTolerance v) = Inr ?ts"
    using assms(9-11) time_window [OF atoi_itoa] by simp
  moreover have "parseAuthHeader (get_header r' HeaderAuthorization) = Inr (accessKey s,
      computeHMACSHA256 L (secretKey s) (buildStringToSign L r' DefaultSignedHeaders h))"
    using assms(2,3) unfolding h by (intro parse_auth_header) (simp_all add: computeHMACSHA256_def)
  moreover have "fst (take_bytes 16 rnd) \<noteq> []" by (rule take_bytes_nonempty) simp
  then have "get_header r' HeaderNonce \<noteq> ''''" using h(3) by (simp add: hex_nonempty)
  moreover have "signed_headers r' = DefaultSignedHeaders"
    using h(4) by (simp add: signed_headers_def)
  ultimately show ?thesis
    using assms(4-6,12) h(1,2) by (simp add: verify_accepts)
qed

text \<open>
  C2. What \<^verbatim>\<open>Sign\<close> produces, \<^verbatim>\<open>Verify\<close> accepts: a signed request that arrives
  unchanged within the tolerance, with its nonce unseen, is accepted as coming from the credential that
  holds the key pair.
\<close>

theorem sign_then_verify:
  assumes "fst (Sign L rand_err s t rnd r) = Inr r'"
    and "\<And>k d. header_safe (hmac_sha256_hex L k d)" and "header_safe (accessKey s)"
    and "v_store v (accessKey s) = Inr (Some cred)" "Enabled cred" "SecretKey cred = secretKey s"
    and "0 \<le> t" "t \<le> int64_max" "0 \<le> t'" "t' \<le> int64_max"
    and "\<bar>t' - t div 10 ^ 9 * 10 ^ 9\<bar> \<le> timestampTolerance v"
    and "fst (v_check v t' (get_header r' HeaderNonce) (nonceTTL v) st) = Inr False"
  shows "fst (Verify L v t' r' st) = Inr cred"
  using assms by (rule signed_accepted)

theorem sign_then_verify_witness:
  "fst (Verify sample_lib
     (NewVerifier (GetByAK (NewMemoryStore [Some \<lparr>AccessKey = ''ak'', SecretKey = ''sk'', Label = '''', Enabled = True\<rparr>]))
        (\<lambda>t n ttl s. case CheckAndStore t n ttl s of (b, s') \<Rightarrow> (Inr b, s')) None)
     (1700000100 * 10 ^ 9)
     (projr (fst (Sign sample_lib None (NewSigner ''ak'' ''sk'') (1700000000 * 10 ^ 9) ''seed''
        \<lparr>rq_method = ''POST'', rq_url = ''/x'', rq_header = [], rq_body = Some ''b'', rq_body_err = None\<rparr>)))
     NewMemoryNonceStore)
   = Inr \<lparr>AccessKey = ''ak'', SecretKey = ''sk'', Label = '''', Enabled = True\<rparr>"
  (is "fst (Verify _ ?v _ (projr (fst (Sign _ _ ?s _ _ ?r))) _) = Inr ?c")
proof (rule sign_then_verify [where rand_err = None and s = ?s and t = "1700000000 * 10 ^ 9"
      and rnd = "''seed''" and r = ?r])
  show "fst (Sign sample_lib None ?s (1700000000 * 10 ^ 9) ''seed'' ?r)
    = Inr (projr (fst (Sign sample_lib None ?s (1700000000 * 10 ^ 9) ''seed'' ?r)))"
    by (simp add: Sign_def generateNonce_def case_prod_beta Let_def hashRequestBody_def
        set_header_def MaxRequestBodySize_def)
  show "header_safe (hmac_sha256_hex sample_lib k d)" for k d
    by (simp add: sample_lib_def header_safe_def) code_simp
  show "header_safe (accessKey ?s)" by code_simp
qed (simp_all add: NewVerifier_def NewSigner_def GetByAK_def NewMemoryStore_def Add_def int64_max_def
    DefaultTimestampTolerance_def CheckAndStore_def NewMemoryNonceStore_def)

end
