(* ===== verification/Auth_Replay.thy ===== *)
theory Auth_Replay
  imports Auth_Sign "HOL-Library.Multiset"
begin

text \<open>
  What verification guarantees over time, proved from the contract of the interface
  \<^verbatim>\<open>NonceStore\<close> and interpreted on \<^verbatim>\<open>MemoryNonceStore\<close>; and the canonical query string.
\<close>

section \<open>A verifier at work\<close>

text \<open>Requests being verified and the nonce store being maintained, each at its clock reading.\<close>

datatype serve_event = Serve int request | Maintain int

fun serve_time :: "serve_event \<Rightarrow> int" where
  "serve_time (Serve t r) = t"
| "serve_time (Maintain t) = t"

fun serve :: "stdlib \<Rightarrow> 's verifier \<Rightarrow> (int \<Rightarrow> 's \<Rightarrow> 's) \<Rightarrow> serve_event list \<Rightarrow> 's \<Rightarrow> 's" where
  "serve L v maintain [] s = s"
| "serve L v maintain (Serve t r # es) s = serve L v maintain es (snd (Verify L v t r s))"
| "serve L v maintain (Maintain t # es) s = serve L v maintain es (maintain t s)"

lemma Verify_store_cases:
  "snd (Verify L v t r s) = s \<or>
   snd (Verify L v t r s) = snd (v_check v t (get_header r HeaderNonce) (nonceTTL v) s)"
  by (auto simp: Verify_def Let_def split: sum.splits prod.splits option.splits bool.splits)

lemma Verify_accepted_store:
  "Verify L v t r s = (Inr c, s') \<Longrightarrow>
   v_check v t (get_header r HeaderNonce) (nonceTTL v) s = (Inr False, s')"
  by (auto simp: Verify_def Let_def split: sum.splits prod.splits option.splits bool.splits if_splits)

section \<open>The contract of a nonce store\<close>

text \<open>
  \<open>knows s n e\<close>: the store will refuse \<open>n\<close> up to time \<open>e\<close>. The contract is the documented
  one: a nonce it accepts is remembered for its time to live, through other checks and maintenance.
\<close>

locale nonce_contract =
  fixes check :: "int \<Rightarrow> string \<Rightarrow> int \<Rightarrow> 's \<Rightarrow> (gerr + bool) \<times> 's"
    and maintain :: "int \<Rightarrow> 's \<Rightarrow> 's"
    and knows :: "'s \<Rightarrow> string \<Rightarrow> int \<Rightarrow> bool"
  assumes accepted_is_known:
      "check t n ttl s = (Inr False, s') \<Longrightarrow> 0 \<le> ttl \<Longrightarrow> 2 * ttl \<le> int64_max \<Longrightarrow> knows s' n (t + ttl)"
    and known_is_refused: "knows s n e \<Longrightarrow> t \<le> e \<Longrightarrow> fst (check t n ttl s) \<noteq> Inr False"
    and check_keeps: "knows s n e \<Longrightarrow> t \<le> e \<Longrightarrow> knows (snd (check t m ttl s)) n e"
    and maintain_keeps: "knows s n e \<Longrightarrow> t \<le> e \<Longrightarrow> knows (maintain t s) n e"
begin

lemma serve_keeps:
  assumes "v_check v = check" and "knows s n e" and "\<forall>ev \<in> set evs. serve_time ev \<le> e"
  shows "knows (serve L v maintain evs s) n e"
  using assms(2,3)
proof (induction evs arbitrary: s)
  case (Cons ev evs)
  show ?case
  proof (cases ev)
    case (Serve t r)
    with Cons.prems have "knows (snd (Verify L v t r s)) n e"
      using Verify_store_cases [of L v t r s] check_keeps [of s n e t] assms(1) by auto
    with Cons Serve show ?thesis by simp
  next
    case (Maintain t)
    with Cons show ?thesis by (simp add: maintain_keeps)
  qed
qed simp

lemma nonce_refused:
  assumes "v_check v = check" and "0 \<le> nonceTTL v" and "2 * nonceTTL v \<le> int64_max"
    and "Verify L v t r s = (Inr c, s1)"
    and "\<forall>ev \<in> set evs. serve_time ev \<le> t + nonceTTL v" and "t' \<le> t + nonceTTL v"
    and "get_header r' HeaderNonce = get_header r HeaderNonce"
  shows "fst (Verify L v t' r' (serve L v maintain evs s1)) \<noteq> Inr c'"
proof -
  have "knows s1 (get_header r HeaderNonce) (t + nonceTTL v)"
    using Verify_accepted_store [OF assms(4)] assms(1-3) by (intro accepted_is_known) auto
  then have "knows (serve L v maintain evs s1) (get_header r HeaderNonce) (t + nonceTTL v)"
    using assms(1,5) by (intro serve_keeps) auto
  from known_is_refused [OF this assms(6)] show ?thesis
    using assms(1,7) by (simp add: verify_accepts)
qed

end

section \<open>The in-memory store keeps the contract\<close>

definition mem_check :: "int \<Rightarrow> string \<Rightarrow> int \<Rightarrow> nonce_store \<Rightarrow> (gerr + bool) \<times> nonce_store" where
  "mem_check t n ttl s = (case CheckAndStore t n ttl s of (used, s') \<Rightarrow> (Inr used, s'))"

definition mem_knows :: "nonce_store \<Rightarrow> string \<Rightarrow> int \<Rightarrow> bool" where
  "mem_knows s n e \<longleftrightarrow> (\<exists>e' \<ge> e. (n, e') \<in> set (nonces s))"

lemma mem_knows_mono:
  "mem_knows s n e \<Longrightarrow> set (nonces s) \<subseteq> set (nonces s') \<Longrightarrow> mem_knows s' n e"
  by (auto simp: mem_knows_def)

lemma CheckAndStore_grows: "set (nonces s) \<subseteq> set (nonces (snd (CheckAndStore t n ttl s)))"
  by (auto simp: CheckAndStore_def update_fresh)

interpretation memory_nonces: nonce_contract mem_check cleanup mem_knows
proof
  fix t ttl e :: int and n m :: string and s s' :: nonce_store
  show "mem_knows s' n (t + ttl)"
    if "mem_check t n ttl s = (Inr False, s')" "0 \<le> ttl" "2 * ttl \<le> int64_max"
  proof -
    have "wrap64 (ttl * 2) = ttl * 2" using that(2,3) by (simp add: int64_min_def)
    with that show ?thesis
      by (auto simp: mem_check_def mem_knows_def CheckAndStore_def update_fresh case_prod_beta
          split: if_splits intro!: exI [of _ "t + ttl * 2"])
  qed
  show "fst (mem_check t n ttl s) \<noteq> Inr False" if "mem_knows s n e" "t \<le> e"
  proof -
    have "n \<in> fst ` set (nonces s)" using that(1) by (force simp: mem_knows_def)
    then show ?thesis by (simp add: mem_check_def CheckAndStore_def)
  qed
  show "mem_knows (snd (mem_check t m ttl s)) n e" if "mem_knows s n e" "t \<le> e"
    using mem_knows_mono [OF that(1) CheckAndStore_grows] by (simp add: mem_check_def case_prod_beta)
  show "mem_knows (cleanup t s) n e" if "mem_knows s n e" "t \<le> e"
    using that by (auto simp: mem_knows_def cleanup_def)
qed

text \<open>
  C3. A verifier with the in-memory nonce store never accepts the same request twice: once
  accepted, the request is refused at any later time, whatever else the verifier serves and however
  often the store is cleaned up in between - early because the nonce is remembered, later because the
  timestamp is too old. This needs a time to live of at least twice the tolerance (15 and 5 minutes by
  default) and a timestamp before the year 2262.
\<close>

theorem request_accepted_once:
  assumes "v_check v = mem_check" "2 * nonceTTL v \<le> int64_max"
    and "0 \<le> timestampTolerance v" "2 * timestampTolerance v \<le> nonceTTL v"
    and "0 \<le> t" "t \<le> t'" "t' \<le> int64_max"
    and "\<forall>ts. atoi (get_header r HeaderTimestamp) = Some ts \<longrightarrow> 0 \<le> ts \<and> ts * 10 ^ 9 \<le> int64_max"
    and "Verify L v t r s = (Inr c, s1)"
    and "\<forall>ev \<in> set evs. serve_time ev \<le> t'"
  shows "fst (Verify L v t' r (serve L v cleanup evs s1)) \<noteq> Inr c'"
proof (cases "t' \<le> t + nonceTTL v")
  case True
  with assms show ?thesis
    by (intro memory_nonces.nonce_refused [OF assms(1) _ assms(2) assms(9)]) auto
next
  case False
  have acc: "fst (Verify L v t r s) = Inr c" using assms(9) by simp
  then obtain ts where ts: "parseAndValidateTimestamp t (get_header r HeaderTimestamp)
      (timestampTolerance v) = Inr ts"
    by (auto simp: verify_accepts)
  then obtain u where u: "atoi (get_header r HeaderTimestamp) = Some u"
    by (auto simp: parseAndValidateTimestamp_def Let_def split: if_splits option.splits)
  with assms(8) have "0 \<le> u" "u * 10 ^ 9 \<le> int64_max" by auto
  then have r: "x - u * 10 ^ 9 \<in> {int64_min <.. int64_max}" "\<bar>x\<bar> \<le> int64_max"
    if "0 \<le> x" "x \<le> int64_max" for x
    using that by (auto simp: int64_min_def int64_max_def)
  have "\<bar>t - u * 10 ^ 9\<bar> \<le> timestampTolerance v"
    using ts time_window [OF u r] assms(5-7) by (auto split: if_splits)
  with False assms(4) have "\<not> \<bar>t' - u * 10 ^ 9\<bar> \<le> timestampTolerance v" by linarith
  then have "parseAndValidateTimestamp t' (get_header r HeaderTimestamp) (timestampTolerance v)
      = Inl (auth_err ErrTimestampExpired)"
    using time_window [OF u r] assms(5-7) by simp
  then show ?thesis by (simp add: verify_accepts)
qed

definition sample_request :: request where
  "sample_request = \<lparr>rq_method = ''POST'', rq_url = ''/x'',
     rq_header = [(''Authorization'', [''NSP-HMAC-SHA256 AK=ak, Signature=a1b2'']),
                  (''X-Nsp-Timestamp'', [''1700000000'']), (''X-Nsp-Nonce'', [''n1''])],
     rq_body = None, rq_body_err = None\<rparr>"

definition sample_verifier :: "nonce_store verifier" where
  "sample_verifier = NewVerifier (GetByAK (NewMemoryStore
     [Some \<lparr>AccessKey = ''ak'', SecretKey = ''sk'', Label = '''', Enabled = True\<rparr>])) mem_check None"

lemma sample_headers:
  "get_header sample_request HeaderAuthorization = auth_header ''ak'' ''a1b2''"
  "get_header sample_request HeaderTimestamp = ''1700000000''"
  "get_header sample_request HeaderNonce = ''n1''"
  "atoi ''1700000000'' = Some 1700000000"
  "hashRequestBody L sample_request = (Inr (sha256_hex L ''''), sample_request)"
  by (code_simp, code_simp, code_simp, simp add: atoi_def is_digit_def int64_min_def int64_max_def)
     (simp add: hashRequestBody_def sample_request_def)

lemma sample_accepted:
  "fst (Verify sample_lib sample_verifier (1700000000 * 10 ^ 9) sample_request NewMemoryNonceStore)
     = Inr \<lparr>AccessKey = ''ak'', SecretKey = ''sk'', Label = '''', Enabled = True\<rparr>"
proof -
  have "header_safe ''ak''" "header_safe ''a1b2''" by code_simp+
  then have "parseAuthHeader (auth_header ''ak'' ''a1b2'') = Inr (''ak'', ''a1b2'')"
    by (rule parse_auth_header)
  moreover have "parseAndValidateTimestamp (1700000000 * 10 ^ 9) ''1700000000'' DefaultTimestampTolerance
      = Inr 1700000000"
    using time_window [OF sample_headers(4), of "1700000000 * 10 ^ 9" DefaultTimestampTolerance]
    by (simp add: int64_min_def int64_max_def DefaultTimestampTolerance_def)
  ultimately show ?thesis
    by (simp add: verify_accepts sample_headers sample_verifier_def NewVerifier_def mem_check_def
        CheckAndStore_def NewMemoryNonceStore_def GetByAK_def NewMemoryStore_def Add_def
        computeHMACSHA256_def)
       (simp add: sample_lib_def)
qed

theorem request_accepted_once_witness:
  "fst (Verify sample_lib sample_verifier (1700000100 * 10 ^ 9) sample_request
     (serve sample_lib sample_verifier cleanup
       [Maintain (1700000050 * 10 ^ 9), Serve (1700000060 * 10 ^ 9) sample_request]
       (snd (Verify sample_lib sample_verifier (1700000000 * 10 ^ 9) sample_request NewMemoryNonceStore))))
     \<noteq> Inr \<lparr>AccessKey = ''ak'', SecretKey = ''sk'', Label = '''', Enabled = True\<rparr>"
  by (rule request_accepted_once [where t = "1700000000 * 10 ^ 9" and s = NewMemoryNonceStore
        and c = "\<lparr>AccessKey = ''ak'', SecretKey = ''sk'', Label = '''', Enabled = True\<rparr>"])
     (use sample_accepted in \<open>simp_all add: sample_headers sample_verifier_def NewVerifier_def
        int64_max_def DefaultNonceTTL_def DefaultTimestampTolerance_def prod_eq_iff\<close>)

section \<open>The canonical query string\<close>

definition param_values :: "(string \<times> string list) list \<Rightarrow> string \<Rightarrow> string list" where
  "param_values ps k = (case map_of ps k of Some vs \<Rightarrow> vs | None \<Rightarrow> [])"

definition same_params :: "(string \<times> string list) list \<Rightarrow> (string \<times> string list) list \<Rightarrow> bool" where
  "same_params ps qs \<longleftrightarrow>
     mset (map fst ps) = mset (map fst qs) \<and> (\<forall>k. mset (param_values ps k) = mset (param_values qs k))"

lemma sort_mset: "mset xs = mset ys \<Longrightarrow> sort xs = sort (ys :: 'a :: linorder list)"
  by (metis properties_for_sort mset_sort sorted_sort)

text \<open>
  The canonical query string does not depend on the order in which parameters, or the
  values of one parameter, are written: a proxy that reorders them does not break a signature.
\<close>

theorem canonical_query_order:
  assumes "parse_query L q1 = Some ps" "parse_query L q2 = Some qs" "q1 \<noteq> ''''" "q2 \<noteq> ''''"
    and "same_params ps qs"
  shows "buildCanonicalQueryString L q1 = buildCanonicalQueryString L q2"
proof -
  have "sort (map fst ps) = sort (map fst qs)"
    using assms(5) by (intro sort_mset) (simp add: same_params_def)
  moreover have "sort (param_values ps k) = sort (param_values qs k)" for k
    using assms(5) by (intro sort_mset) (simp add: same_params_def)
  ultimately show ?thesis
    using assms(1-4)
    by (simp add: buildCanonicalQueryString_def param_values_def [symmetric])
qed

theorem canonical_query_order_witness:
  "buildCanonicalQueryString
     (sample_lib\<lparr>parse_query := (\<lambda>q. Some (if q = ''a=1&b=2''
        then [(''a'', [''1'']), (''b'', [''2''])] else [(''b'', [''2'']), (''a'', [''1''])]))\<rparr>) ''a=1&b=2''
   = buildCanonicalQueryString
     (sample_lib\<lparr>parse_query := (\<lambda>q. Some (if q = ''a=1&b=2''
        then [(''a'', [''1'']), (''b'', [''2''])] else [(''b'', [''2'']), (''a'', [''1''])]))\<rparr>) ''b=2&a=1''"
  by (rule canonical_query_order
       [where ps = "[(''a'', [''1'']), (''b'', [''2''])]" and qs = "[(''b'', [''2'']), (''a'', [''1''])]"])
     (simp_all add: same_params_def param_values_def)

end
