(* ===== verification/Auth_Middleware.thy ===== *)
theory Auth_Middleware
  imports Auth_Replay
begin

text \<open>
  \<^verbatim>\<open>auth/middleware.go\<close>: the Gin middleware around the verifier, its skippers, and where
  handlers find the credential. Gin itself stays outside: a context is the part of it the middleware
  touches, and the outcome says whether the chain goes on or is aborted.
\<close>

record gin_context =
  gc_request :: request
  gc_keys :: "(string \<times> credential) list"
  gc_ctx_credential :: "credential option" \<comment> \<open>the value under \<open>credentialContextKey\<close>\<close>
  gc_response :: "(nat \<times> string) option" \<comment> \<open>status and message of the JSON reply\<close>

datatype outcome = Next gin_context | Abort gin_context

record middleware_option =
  Skipper :: "(gin_context \<Rightarrow> bool) option"
  OnAuthFailed :: "(gin_context \<Rightarrow> gerr \<Rightarrow> gin_context) option"

definition ginContextKey :: string where "ginContextKey = ''nsp.auth.credential''"

definition defaultAuthFailedHandler :: "gin_context \<Rightarrow> gerr \<Rightarrow> gin_context" where
  "defaultAuthFailedHandler c e = c\<lparr>gc_response := Some (ErrorToHTTPStatus e, msg e)\<rparr>"

definition ContextWithCredential :: "gin_context \<Rightarrow> credential \<Rightarrow> gin_context" where
  "ContextWithCredential c cred = c\<lparr>gc_ctx_credential := Some cred\<rparr>"

definition CredentialFromContext :: "gin_context \<Rightarrow> credential option" where
  "CredentialFromContext c = gc_ctx_credential c"

definition CredentialFromGin :: "gin_context \<Rightarrow> credential option" where
  "CredentialFromGin c = map_of (gc_keys c) ginContextKey"

definition AKSKAuthMiddleware ::
  "stdlib \<Rightarrow> 's verifier \<Rightarrow> middleware_option option \<Rightarrow> int \<Rightarrow> gin_context \<Rightarrow> 's \<Rightarrow> outcome \<times> 's" where
  "AKSKAuthMiddleware L v opt t c s =
     (if (case opt of None \<Rightarrow> False
          | Some p \<Rightarrow> (case Skipper p of None \<Rightarrow> False | Some f \<Rightarrow> f c))
      then (Next c, s)
      else case Verify L v t (gc_request c) s of
        (Inl e, s') \<Rightarrow>
          (Abort (case opt of
                    None \<Rightarrow> defaultAuthFailedHandler c e
                  | Some p \<Rightarrow> (case OnAuthFailed p of
                                 None \<Rightarrow> defaultAuthFailedHandler c e
                               | Some f \<Rightarrow> f c e)), s')
      | (Inr cred, s') \<Rightarrow>
          (Next (ContextWithCredential
                   (c\<lparr>gc_keys := AList.update ginContextKey cred (gc_keys c)\<rparr>) cred), s'))"

definition NewSkipperByPath :: "stdlib \<Rightarrow> string list \<Rightarrow> gin_context \<Rightarrow> bool" where
  "NewSkipperByPath L paths c \<longleftrightarrow> url_path L (rq_url (gc_request c)) \<in> set paths"

definition NewSkipperByPathPrefix :: "stdlib \<Rightarrow> string list \<Rightarrow> gin_context \<Rightarrow> bool" where
  "NewSkipperByPathPrefix L prefixes c \<longleftrightarrow>
     list_ex (has_prefix (url_path L (rq_url (gc_request c)))) prefixes"

definition HTTPStatusFromError :: "gerr \<Rightarrow> nat" where
  "HTTPStatusFromError e = ErrorToHTTPStatus e"

section \<open>Correctness\<close>

text \<open>
  The middleware lets a request through only when its path is skipped or the verifier
  accepts it; then handlers find, in the Gin context and in the request context alike, an enabled
  credential of the store whose key the request names, and that credential's secret signed the request.
  A skipped request is passed on untouched.
\<close>

theorem middleware_gate:
  assumes "fst (AKSKAuthMiddleware L v opt t c s) = Next c'"
  shows "(\<exists>p f. opt = Some p \<and> Skipper p = Some f \<and> f c \<and> c' = c) \<or>
    (\<exists>cred ak sig h.
       CredentialFromGin c' = Some cred \<and> CredentialFromContext c' = Some cred \<and>
       gc_request c' = gc_request c \<and>
       parseAuthHeader (get_header (gc_request c) HeaderAuthorization) = Inr (ak, sig) \<and>
       v_store v ak = Inr (Some cred) \<and> Enabled cred \<and>
       sig = computeHMACSHA256 L (SecretKey cred)
               (buildStringToSign L (gc_request c) (signed_headers (gc_request c)) h))"
proof (cases "\<exists>p f. opt = Some p \<and> Skipper p = Some f \<and> f c")
  case True
  with assms show ?thesis by (auto simp: AKSKAuthMiddleware_def)
next
  case False
  then have "\<not> (case opt of None \<Rightarrow> False
      | Some p \<Rightarrow> (case Skipper p of None \<Rightarrow> False | Some f \<Rightarrow> f c))"
    by (auto split: option.splits)
  with assms obtain cred where acc: "fst (Verify L v t (gc_request c) s) = Inr cred"
    and c': "c' = ContextWithCredential (c\<lparr>gc_keys := AList.update ginContextKey cred (gc_keys c)\<rparr>) cred"
    by (auto simp: AKSKAuthMiddleware_def case_prod_beta split: sum.splits)
  from acc obtain ak sig h where
    "parseAuthHeader (get_header (gc_request c) HeaderAuthorization) = Inr (ak, sig)"
    "v_store v ak = Inr (Some cred)" "Enabled cred"
    "sig = computeHMACSHA256 L (SecretKey cred)
       (buildStringToSign L (gc_request c) (signed_headers (gc_request c)) h)"
    by (auto simp: verify_accepts)
  then show ?thesis
    by (intro disjI2 exI [of _ cred] exI [of _ ak] exI [of _ sig] exI [of _ h])
       (simp add: c' CredentialFromGin_def CredentialFromContext_def ContextWithCredential_def
          update_conv')
qed

definition sample_gin :: gin_context where
  "sample_gin = \<lparr>gc_request = sample_request, gc_keys = [], gc_ctx_credential = None, gc_response = None\<rparr>"

theorem middleware_gate_witness:
  "(\<exists>p f. None = Some p \<and> Skipper p = Some f \<and> f sample_gin \<and> sample_gin = sample_gin) \<or>
    (\<exists>cred ak sig h.
       CredentialFromGin (ContextWithCredential (sample_gin\<lparr>gc_keys := [(ginContextKey,
         \<lparr>AccessKey = ''ak'', SecretKey = ''sk'', Label = '''', Enabled = True\<rparr>)]\<rparr>)
         \<lparr>AccessKey = ''ak'', SecretKey = ''sk'', Label = '''', Enabled = True\<rparr>) = Some cred \<and>
       parseAuthHeader (get_header sample_request HeaderAuthorization) = Inr (ak, sig) \<and>
       sig = computeHMACSHA256 sample_lib (SecretKey cred)
               (buildStringToSign sample_lib sample_request (signed_headers sample_request) h))"
proof -
  let ?c = "\<lparr>AccessKey = ''ak'', SecretKey = ''sk'', Label = '''', Enabled = True\<rparr>"
  have "fst (AKSKAuthMiddleware sample_lib sample_verifier None (1700000000 * 10 ^ 9) sample_gin
      NewMemoryNonceStore) = Next (ContextWithCredential (sample_gin\<lparr>gc_keys := [(ginContextKey, ?c)]\<rparr>) ?c)"
    using sample_accepted
    by (simp add: AKSKAuthMiddleware_def sample_gin_def case_prod_beta split: sum.splits)
  from middleware_gate [OF this] show ?thesis by (auto simp: sample_gin_def)
qed

definition request_fault :: "gerr \<Rightarrow> bool" where
  "request_fault e \<longleftrightarrow>
     list_ex (\<lambda>s. s \<in> {ErrMissingAuthHeader, ErrInvalidAuthFormat, ErrMissingTimestamp, ErrMissingNonce})
       (sentinels e)"

lemma status_400: "ErrorToHTTPStatus e = 400 \<longleftrightarrow> request_fault e"
  by (auto simp: ErrorToHTTPStatus_def request_fault_def errors_Is_def list_ex_iff)

lemma request_fault_simps [simp]:
  "request_fault (wrap_err p e) = request_fault e"
  "sentinels e = [] \<Longrightarrow> \<not> request_fault e"
  "request_fault (auth_err s) \<longleftrightarrow>
     s \<in> {ErrMissingAuthHeader, ErrInvalidAuthFormat, ErrMissingTimestamp, ErrMissingNonce}"
  by (simp_all add: request_fault_def auth_err_def)

lemma timestamp_fault:
  "parseAndValidateTimestamp t str tol = Inl x \<Longrightarrow> request_fault x \<longleftrightarrow> atoi str = None"
  by (auto simp: parseAndValidateTimestamp_def Let_def atoi_def split: if_splits option.splits)

text \<open>
  The status of a refused request tells whose fault it is: 400 exactly for a request
  that does not carry a well-formed authorization header, a numeric timestamp and (once that is in
  time) a nonce. This holds for stores and bodies whose own errors are none of the authentication
  errors.
\<close>

theorem refused_status_400:
  assumes "fst (Verify L v t r s) = Inl e"
    and "\<forall>ak x. v_store v ak = Inl x \<longrightarrow> sentinels x = []"
    and "\<forall>t n ttl s x. fst (v_check v t n ttl s) = Inl x \<longrightarrow> sentinels x = []"
    and "\<forall>x. rq_body_err r = Some x \<longrightarrow> sentinels x = []"
  shows "ErrorToHTTPStatus e = 400 \<longleftrightarrow>
     (\<exists>x. parseAuthHeader (get_header r HeaderAuthorization) = Inl x) \<or>
     atoi (get_header r HeaderTimestamp) = None \<or>
     ((\<exists>ts. parseAndValidateTimestamp t (get_header r HeaderTimestamp) (timestampTolerance v) = Inr ts)
       \<and> get_header r HeaderNonce = '''')"
proof -
  have body: "\<not> request_fault x" if "hashRequestBody L r = (Inl x, r')" for x r'
    using that assms(4) by (auto simp: hashRequestBody_def split: option.splits if_splits)
  have store: "\<not> request_fault x" if "v_store v ak = Inl x" for ak x
    using that assms(2) by simp
  have check: "\<not> request_fault x" if "v_check v t n ttl s = (Inl x, s')" for t n ttl s x s'
    using that assms(3) by (metis fst_conv request_fault_simps(2))
  show ?thesis
  proof (cases "parseAuthHeader (get_header r HeaderAuthorization)")
    case (Inl x)
    then have "request_fault x"
      by (auto simp: parseAuthHeader_def split: if_splits option.splits)
    then show ?thesis
      using assms(1) Inl by (simp add: Verify_def status_400)
  next
    case P: (Inr p)
    obtain ak sig where p: "p = (ak, sig)" by (cases p)
    show ?thesis
    proof (cases "parseAndValidateTimestamp t (get_header r HeaderTimestamp) (timestampTolerance v)")
      case (Inl x)
      then show ?thesis
        using assms(1) P p timestamp_fault by (simp add: Verify_def status_400)
    next
      case (Inr ts)
      then have "atoi (get_header r HeaderTimestamp) \<noteq> None"
        by (auto simp: parseAndValidateTimestamp_def split: if_splits option.splits)
      then show ?thesis
        using assms(1) P p Inr
        by (auto simp: Verify_def Let_def status_400 dest: body store check
            split: sum.splits prod.splits bool.splits option.splits if_splits)
    qed
  qed
qed

lemma sample_reused:
  "fst (Verify sample_lib sample_verifier (1700000000 * 10 ^ 9) sample_request
     (NewMemoryNonceStore\<lparr>nonces := [(''n1'', 0)]\<rparr>)) = Inl (auth_err ErrNonceReused)"
proof -
  obtain ak sig ts where
    "parseAuthHeader (get_header sample_request HeaderAuthorization) = Inr (ak, sig)"
    "parseAndValidateTimestamp (1700000000 * 10 ^ 9) (get_header sample_request HeaderTimestamp)
       (timestampTolerance sample_verifier) = Inr ts"
    using sample_accepted by (auto simp: verify_accepts)
  then show ?thesis
    by (simp add: Verify_def sample_headers Let_def)
       (simp add: sample_verifier_def NewVerifier_def mem_check_def CheckAndStore_def)
qed

theorem refused_status_400_witness:
  "ErrorToHTTPStatus (auth_err ErrNonceReused) = 400 \<longleftrightarrow>
     (\<exists>x. parseAuthHeader (get_header sample_request HeaderAuthorization) = Inl x) \<or>
     atoi (get_header sample_request HeaderTimestamp) = None \<or>
     ((\<exists>ts. parseAndValidateTimestamp (1700000000 * 10 ^ 9) (get_header sample_request HeaderTimestamp)
         (timestampTolerance sample_verifier) = Inr ts)
       \<and> get_header sample_request HeaderNonce = '''')"
proof (rule refused_status_400)
  let ?s = "NewMemoryNonceStore\<lparr>nonces := [(''n1'', 0)]\<rparr>"
  show "fst (Verify sample_lib sample_verifier (1700000000 * 10 ^ 9) sample_request ?s)
      = Inl (auth_err ErrNonceReused)"
    by (rule sample_reused)
qed (auto simp: sample_verifier_def NewVerifier_def GetByAK_def mem_check_def case_prod_beta
       sample_request_def)

end
