(* ===== verification/Auth_Binding.thy ===== *)
theory Auth_Binding
  imports Auth_Replay
begin

text \<open>
  What a signature of \<^verbatim>\<open>auth/aksk.go\<close> covers: the canonical form is taken apart line by line, and a
  request that is accepted under a signature agrees with the request the signature was made for.
\<close>

section \<open>Texts as lines\<close>

definition single_line :: "string \<Rightarrow> bool" where
  "single_line s \<longleftrightarrow> CHR 0x0A \<notin> set s"

lemma single_lineD: "single_line s \<Longrightarrow> CHR 0x0A \<notin> set s"
  by (simp add: single_line_def)

lemma front_eq:
  "c \<notin> set a \<Longrightarrow> c \<notin> set b \<Longrightarrow> a @ c # x = b @ c # y \<longleftrightarrow> a = b \<and> x = y"
proof (induction a arbitrary: b)
  case Nil
  then show ?case by (cases b) auto
next
  case (Cons d a)
  then show ?case by (cases b) auto
qed

lemma back_eq:
  assumes "c \<notin> set a" "c \<notin> set b"
  shows "x @ c # a = y @ c # b \<longleftrightarrow> x = y \<and> a = b"
proof -
  have "x @ c # a = y @ c # b \<longleftrightarrow> rev a @ c # rev x = rev b @ c # rev y"
    by (metis append.assoc append_Cons append_Nil rev.simps(2) rev_append rev_rev_ident)
  then show ?thesis using assms by (auto simp: front_eq)
qed

lemma join_Cons:
  "join_str [c] (x # xs) = (if xs = [] then x else x @ c # join_str [c] xs)"
  by (cases xs) auto

lemma join_eq:
  assumes "\<forall>s \<in> set xs. s \<noteq> [] \<and> c \<notin> set s" "\<forall>s \<in> set ys. s \<noteq> [] \<and> c \<notin> set s"
    and "join_str [c] xs = join_str [c] ys"
  shows "xs = ys"
  using assms
proof (induction xs arbitrary: ys)
  case Nil
  then show ?case by (cases ys) (auto simp: join_Cons split: if_splits)
next
  case (Cons x xs)
  then obtain y zs where ys: "ys = y # zs" by (cases ys) (auto simp: join_Cons split: if_splits)
  have c: "c \<notin> set x" "c \<notin> set y" using Cons.prems by (auto simp: ys)
  have "c \<in> set x" if "x = y @ c # u" for u using that by simp
  moreover have "c \<in> set y" if "y = x @ c # u" for u using that by simp
  ultimately have "x = y \<and> (xs = [] \<longleftrightarrow> zs = []) \<and> join_str [c] xs = join_str [c] zs"
    using Cons.prems(3) c by (auto simp: ys join_Cons front_eq split: if_splits)
  with Cons.IH [of zs] Cons.prems(1,2) show ?case by (simp add: ys)
qed

section \<open>The query\<close>

text \<open>The parameters of a query with their values; the order in which they are written does not count.\<close>

definition query_pairs :: "(string \<times> string list) list \<Rightarrow> (string \<times> string) multiset" where
  "query_pairs ps = mset (concat (map (\<lambda>(k, vs). map (Pair k) vs) ps))"

text \<open>What a query says: its parameters, or its text where it is no list of parameters.\<close>

definition query_content :: "stdlib \<Rightarrow> string \<Rightarrow> string + (string \<times> string) multiset" where
  "query_content L q =
     (if q = '''' then Inr {#}
      else case parse_query L q of None \<Rightarrow> Inl q | Some ps \<Rightarrow> Inr (query_pairs ps))"

text \<open>
  The documented behaviour of \<^verbatim>\<open>net/url\<close> and \<^verbatim>\<open>encoding/hex\<close>: \<^verbatim>\<open>QueryEscape\<close> is reversible and its
  text has none of the separators, a parsed query is a map, the canonical form of a query that parses
  parses too, and a hash is printed in one line.
\<close>

definition url_laws :: "stdlib \<Rightarrow> bool" where
  "url_laws L \<longleftrightarrow>
     inj (query_escape L) \<and>
     (\<forall>s. set (query_escape L s) \<inter> {CHR ''&'', CHR ''='', CHR 0x0A} = {}) \<and>
     (\<forall>q ps. parse_query L q = Some ps \<longrightarrow> distinct (map fst ps)) \<and>
     (\<forall>q. parse_query L q \<noteq> None \<longrightarrow> parse_query L (buildCanonicalQueryString L q) \<noteq> None) \<and>
     (\<forall>d. single_line (sha256_hex L d))"

definition encode_pair :: "stdlib \<Rightarrow> string \<times> string \<Rightarrow> string" where
  "encode_pair L kv = query_escape L (fst kv) @ ''='' @ query_escape L (snd kv)"

definition sorted_pairs :: "(string \<times> string list) list \<Rightarrow> (string \<times> string) list" where
  "sorted_pairs ps = concat (map (\<lambda>k. map (Pair k) (sort (param_values ps k))) (sort (map fst ps)))"

lemma canonical_query:
  "q \<noteq> '''' \<Longrightarrow> parse_query L q = Some ps \<Longrightarrow>
     buildCanonicalQueryString L q = join_str ''&'' (map (encode_pair L) (sorted_pairs ps))"
  by (simp add: buildCanonicalQueryString_def sorted_pairs_def map_concat comp_def encode_pair_def
      param_values_def)

lemma sum_list_sort:
  fixes f :: "string \<Rightarrow> 'a :: comm_monoid_add"
  shows "(\<Sum>x\<leftarrow>sort xs. f x) = (\<Sum>x\<leftarrow>xs. f x)"
proof -
  have "sum_mset (mset (map f (sort xs))) = sum_mset (mset (map f xs))" by simp
  then show ?thesis by (simp only: sum_mset_sum_list)
qed

lemma mset_sorted_pairs:
  assumes "distinct (map fst ps)"
  shows "mset (sorted_pairs ps) = query_pairs ps"
proof -
  have "mset (sorted_pairs ps)
      = (\<Sum>k\<leftarrow>sort (map fst ps). image_mset (Pair k) (mset (param_values ps k)))"
    by (simp add: sorted_pairs_def mset_concat comp_def)
  also have "\<dots> = (\<Sum>k\<leftarrow>map fst ps. image_mset (Pair k) (mset (param_values ps k)))"
    by (rule sum_list_sort)
  also have "\<dots> = (\<Sum>(k, vs)\<leftarrow>ps. image_mset (Pair k) (mset vs))"
    using assms by (auto simp: comp_def param_values_def intro!: arg_cong [where f = sum_list])
  finally show ?thesis by (simp add: query_pairs_def mset_concat comp_def case_prod_unfold)
qed

lemma encode_pair_inj:
  assumes "url_laws L"
  shows "inj (encode_pair L)"
proof (rule injI)
  fix x y assume eq: "encode_pair L x = encode_pair L y"
  have "inj (query_escape L)" "\<And>s. CHR ''='' \<notin> set (query_escape L s)"
    using assms by (auto simp: url_laws_def disjoint_iff)
  then show "x = y" using eq by (simp add: encode_pair_def front_eq prod_eq_iff inj_eq)
qed

lemma encode_pair_text:
  "url_laws L \<Longrightarrow> encode_pair L kv \<noteq> [] \<and> CHR ''&'' \<notin> set (encode_pair L kv) \<and> CHR 0x0A \<notin> set (encode_pair L kv)"
  by (auto simp: url_laws_def encode_pair_def disjoint_iff)

lemma set_join: "set (join_str [c] xs) \<subseteq> insert c (\<Union>(set ` set xs))"
  by (induction xs) (auto simp: join_Cons)

lemma canonical_query_line:
  assumes "url_laws L" "single_line q"
  shows "single_line (buildCanonicalQueryString L q)"
proof (cases "parse_query L q")
  case None
  with assms(2) show ?thesis by (simp add: buildCanonicalQueryString_def single_line_def)
next
  case (Some ps)
  show ?thesis
  proof (cases "q = ''''")
    case False
    then show ?thesis
      using set_join [of "CHR ''&''" "map (encode_pair L) (sorted_pairs ps)"] encode_pair_text [OF assms(1)]
      by (auto simp: canonical_query [OF _ Some] single_line_def)
  qed (simp add: buildCanonicalQueryString_def single_line_def)
qed

text \<open>The pairs a query stands for, \<open>None\<close> where it does not parse.\<close>

definition pairs_of :: "stdlib \<Rightarrow> string \<Rightarrow> (string \<times> string) list option" where
  "pairs_of L q = (if q = '''' then Some [] else map_option sorted_pairs (parse_query L q))"

lemma query_content_pairs:
  "url_laws L \<Longrightarrow> query_content L q = (case pairs_of L q of None \<Rightarrow> Inl q | Some ps \<Rightarrow> Inr (mset ps))"
  by (auto simp: query_content_def pairs_of_def mset_sorted_pairs url_laws_def split: option.splits)

lemma canonical_pairs:
  "buildCanonicalQueryString L q =
     (case pairs_of L q of None \<Rightarrow> q | Some ps \<Rightarrow> join_str ''&'' (map (encode_pair L) ps))"
  by (cases "q = ''''"; cases "parse_query L q")
     (simp_all add: pairs_of_def canonical_query, simp_all add: buildCanonicalQueryString_def)

lemma canonical_parses: "url_laws L \<Longrightarrow> pairs_of L q \<noteq> None \<Longrightarrow> pairs_of L (buildCanonicalQueryString L q) \<noteq> None"
  by (cases "q = ''''") (auto simp: pairs_of_def url_laws_def buildCanonicalQueryString_def [of L "''''"])

lemma canonical_query_content:
  assumes "url_laws L" and eq: "buildCanonicalQueryString L q1 = buildCanonicalQueryString L q2"
  shows "query_content L q1 = query_content L q2"
proof (cases "pairs_of L q1")
  case None
  then have "pairs_of L q2 = None" using canonical_parses [OF assms(1), of q2] eq
    by (cases "pairs_of L q2") (auto simp: canonical_pairs [of L q1])
  with None eq show ?thesis by (simp add: query_content_pairs [OF assms(1)] canonical_pairs)
next
  case (Some ps)
  moreover obtain qs where qs: "pairs_of L q2 = Some qs"
    using canonical_parses [OF assms(1), of q1] eq Some by (cases "pairs_of L q2") (auto simp: canonical_pairs [of L q2])
  ultimately have "join_str ''&'' (map (encode_pair L) ps) = join_str ''&'' (map (encode_pair L) qs)"
    using eq by (simp add: canonical_pairs)
  then have "map (encode_pair L) ps = map (encode_pair L) qs"
    by (intro join_eq) (auto simp: encode_pair_text [OF assms(1)])
  then have "ps = qs" using encode_pair_inj [OF assms(1)] by simp
  with Some qs show ?thesis by (simp add: query_content_pairs [OF assms(1)])
qed

section \<open>The lines of the signed text\<close>

definition request_path :: "stdlib \<Rightarrow> request \<Rightarrow> string" where
  "request_path L r = (if url_path L (rq_url r) = '''' then ''/'' else url_path L (rq_url r))"

definition request_body :: "request \<Rightarrow> string" where
  "request_body r = (case rq_body r of None \<Rightarrow> '''' | Some b \<Rightarrow> b)"

definition signed_text :: "stdlib \<Rightarrow> request \<Rightarrow> string" where
  "signed_text L r = buildStringToSign L r (signed_headers r) (sha256_hex L (request_body r))"

text \<open>
  What \<^verbatim>\<open>net/http\<close> guarantees of a request it hands out: no line break in the method, the query or a
  header value. The path is decoded and may contain one.
\<close>

definition clean_request :: "stdlib \<Rightarrow> request \<Rightarrow> bool" where
  "clean_request L r \<longleftrightarrow> single_line (rq_method r) \<and> single_line (url_query L (rq_url r)) \<and>
     (\<forall>k. single_line (get_header r k))"

lemma hashed_body: "fst (hashRequestBody L r) = Inr h \<Longrightarrow> h = sha256_hex L (request_body r)"
  by (auto simp: hashRequestBody_def request_body_def split: option.splits if_splits)

lemma set_drop_any: "set (drop_any ps s) \<subseteq> set s"
proof (induction ps s rule: drop_any.induct)
  case (1 ps s)
  then show ?case
    by (subst drop_any.simps) (auto split: option.splits dest!: in_set_dropD)
qed

lemma single_line_trim: "single_line s \<Longrightarrow> single_line (trim_space s)"
  using set_drop_any [of white_space s] set_drop_any [of "map rev white_space" "rev (drop_any white_space s)"]
  by (auto simp: single_line_def trim_space_def)

lemma upper_not_line_break: "c \<noteq> CHR 0x0A \<Longrightarrow> to_upper_char c \<noteq> CHR 0x0A"
proof
  assume c: "c \<noteq> CHR 0x0A" and eq: "to_upper_char c = CHR 0x0A"
  then have n: "97 \<le> (of_char c :: nat)" "(of_char c :: nat) \<le> 122"
    and "char_of (of_char c - 32 :: nat) = CHR 0x0A"
    by (auto simp: to_upper_char_def Let_def split: if_splits)
  then have "of_char (char_of (of_char c - 32 :: nat)) = (10 :: nat)" by simp
  with n show False by simp
qed

lemma single_line_upper: "single_line s \<Longrightarrow> single_line (to_upper s)"
  unfolding single_line_def to_upper_def set_map image_iff
  by (metis upper_not_line_break)

text \<open>The line of one signed header.\<close>

definition header_line :: "request \<Rightarrow> string \<Rightarrow> string" where
  "header_line r k = k @ '':'' @ trim_space (get_header r k)"

lemma default_keys:
  "to_lower ''content-type'' = ''content-type''" "trim_space ''content-type'' = ''content-type''"
  "to_lower ''x-nsp-nonce'' = ''x-nsp-nonce''" "trim_space ''x-nsp-nonce'' = ''x-nsp-nonce''"
  "to_lower ''x-nsp-timestamp'' = ''x-nsp-timestamp''"
  "trim_space ''x-nsp-timestamp'' = ''x-nsp-timestamp''"
  by code_simp+

lemma default_headers_lines:
  "buildCanonicalHeaders (rq_header r) DefaultSignedHeaders =
     header_line r ''content-type'' @ [CHR 0x0A] @ header_line r ''x-nsp-nonce'' @ [CHR 0x0A] @
     header_line r ''x-nsp-timestamp'' @ [CHR 0x0A]"
  unfolding buildCanonicalHeaders_def default_list header_line_def get_header_def
  by (simp only: list.map concat.simps Let_def default_keys auth_keys_distinct if_False append_assoc append_Nil2)

lemma headers_end: "\<exists>c. CHR 0x0A # buildCanonicalHeaders h sh = c @ [CHR 0x0A]"
proof -
  have "\<exists>c. CHR 0x0A # concat (map (\<lambda>x. f x @ [CHR 0x0A]) xs) = c @ [CHR 0x0A]"
    for f :: "string \<Rightarrow> string" and xs
    by (induction xs rule: rev_induct) auto
  then show ?thesis
    by (simp add: buildCanonicalHeaders_def Let_def append_assoc [symmetric]
        del: append_assoc append_Cons)
qed

definition request_head :: "stdlib \<Rightarrow> request \<Rightarrow> string" where
  "request_head L r =
     (to_upper (rq_method r) @ CHR 0x0A # request_path L r) @ CHR 0x0A #
     buildCanonicalQueryString L (url_query L (rq_url r))"

lemma signed_text_end:
  obtains x where "signed_text L r =
    (x @ CHR 0x0A # signed_headers r) @ CHR 0x0A # sha256_hex L (request_body r)"
proof -
  obtain c where c: "CHR 0x0A # buildCanonicalHeaders (rq_header r) (signed_headers r) = c @ [CHR 0x0A]"
    using headers_end by blast
  have "signed_text L r = request_head L r @
      (CHR 0x0A # buildCanonicalHeaders (rq_header r) (signed_headers r)) @
      signed_headers r @ CHR 0x0A # sha256_hex L (request_body r)"
    by (simp add: signed_text_def buildStringToSign_def request_head_def request_path_def Let_def)
  then show ?thesis using that [of "request_head L r @ c"] by (simp add: c del: append_Cons)
qed

lemma signed_text_default:
  assumes "signed_headers r = DefaultSignedHeaders"
  shows "signed_text L r = ((((request_head L r @ CHR 0x0A # header_line r ''content-type'') @ CHR 0x0A #
     header_line r ''x-nsp-nonce'') @ CHR 0x0A # header_line r ''x-nsp-timestamp'') @ CHR 0x0A #
     signed_headers r) @ CHR 0x0A # sha256_hex L (request_body r)"
  unfolding signed_text_def buildStringToSign_def request_head_def request_path_def Let_def assms
    default_headers_lines
  by simp

text \<open>Two requests with the same signed text, one of them with the default list of signed headers.\<close>

lemma signed_text_agree:
  assumes laws: "url_laws L" and clean: "clean_request L r1" "clean_request L r2"
    and eq: "signed_text L r2 = signed_text L r1" and def1: "signed_headers r1 = DefaultSignedHeaders"
  shows "signed_headers r2 = DefaultSignedHeaders"
    "sha256_hex L (request_body r2) = sha256_hex L (request_body r1)"
    "to_upper (rq_method r2) = to_upper (rq_method r1)" "request_path L r2 = request_path L r1"
    "query_content L (url_query L (rq_url r2)) = query_content L (url_query L (rq_url r1))"
    "\<forall>k \<in> {''content-type'', ''x-nsp-nonce'', ''x-nsp-timestamp''}.
       trim_space (get_header r2 k) = trim_space (get_header r1 k)"
proof -
  have line: "CHR 0x0A \<notin> set (sha256_hex L d)" for d using laws by (auto simp: url_laws_def single_line_def)
  have dsh: "CHR 0x0A \<notin> set DefaultSignedHeaders" by (simp add: DefaultSignedHeaders_def)
  have sh: "CHR 0x0A \<notin> set (signed_headers r)" if "clean_request L r" for r
  proof -
    show ?thesis using that dsh by (auto simp: signed_headers_def clean_request_def Let_def single_line_def)
  qed
  have head: "CHR 0x0A \<notin> set (to_upper (rq_method r))"
    "CHR 0x0A \<notin> set (buildCanonicalQueryString L (url_query L (rq_url r)))" if "clean_request L r" for r
    using that canonical_query_line [OF laws] single_line_upper
    by (auto simp: clean_request_def single_line_def)
  have hl: "CHR 0x0A \<notin> set (header_line r k)" if "clean_request L r" "CHR 0x0A \<notin> set k" for r k
    using that single_line_trim by (auto simp: clean_request_def single_line_def header_line_def)
  obtain x where x: "signed_text L r2 =
    (x @ CHR 0x0A # signed_headers r2) @ CHR 0x0A # sha256_hex L (request_body r2)"
    by (rule signed_text_end)
  show def2: "signed_headers r2 = DefaultSignedHeaders"
    and "sha256_hex L (request_body r2) = sha256_hex L (request_body r1)"
    using eq unfolding x signed_text_default [OF def1]
    by (simp_all only: back_eq line sh [OF clean(2)] dsh not_False_eq_True def1)
  have k: "CHR 0x0A \<notin> set ''content-type''" "CHR 0x0A \<notin> set ''x-nsp-nonce''"
    "CHR 0x0A \<notin> set ''x-nsp-timestamp''" by simp_all
  note lines = eq [unfolded signed_text_default [OF def1] signed_text_default [OF def2]]
  note l1 = iffD1 [OF back_eq [OF line line] lines, THEN conjunct1]
  note l2 = iffD1 [OF back_eq [OF sh [OF clean(2)] sh [OF clean(1)]] l1, THEN conjunct1]
  note l3 = iffD1 [OF back_eq [OF hl [OF clean(2) k(3)] hl [OF clean(1) k(3)]] l2]
  note l4 = iffD1 [OF back_eq [OF hl [OF clean(2) k(2)] hl [OF clean(1) k(2)]] l3 [THEN conjunct1]]
  note l5 = iffD1 [OF back_eq [OF hl [OF clean(2) k(1)] hl [OF clean(1) k(1)]] l4 [THEN conjunct1]]
  note h1 = iffD1 [OF back_eq [OF head(2) [OF clean(2)] head(2) [OF clean(1)]]
      l5 [THEN conjunct1, unfolded request_head_def]]
  note h2 = iffD1 [OF front_eq [OF head(1) [OF clean(2)] head(1) [OF clean(1)]] h1 [THEN conjunct1]]
  show "to_upper (rq_method r2) = to_upper (rq_method r1)" "request_path L r2 = request_path L r1"
    "query_content L (url_query L (rq_url r2)) = query_content L (url_query L (rq_url r1))"
    by (rule conjunct1 [OF h2], rule conjunct2 [OF h2],
        rule canonical_query_content [OF laws conjunct2 [OF h1]])
  show "\<forall>k \<in> {''content-type'', ''x-nsp-nonce'', ''x-nsp-timestamp''}.
       trim_space (get_header r2 k) = trim_space (get_header r1 k)"
    using l3 l4 l5 by (simp add: header_line_def)
qed

section \<open>What a signature binds\<close>

text \<open>Two inputs on which a function collides.\<close>

definition collides :: "('a \<Rightarrow> 'b) \<Rightarrow> 'a \<Rightarrow> 'a \<Rightarrow> bool" where
  "collides f x y \<longleftrightarrow> x \<noteq> y \<and> f x = f y"

text \<open>
  C1. A signature is good for one request only. Where the server accepts a request that
  carries the signature \<^verbatim>\<open>Sign\<close> made for another one - whatever else was changed on the way: the
  list of signed headers, the key the header names, the order of the parameters -, both have the same
  method, path, query parameters with their values, \<^verbatim>\<open>Content-Type\<close>, nonce and timestamp (up to
  surrounding white space), the same list of signed headers and, byte for byte, the same body, and the
  credential accepted has the secret that signed; unless the two signed texts collide under the keyed
  hash, or the two bodies under SHA-256.
\<close>

theorem signature_binds:
  assumes "url_laws L" and "\<And>k d. header_safe (hmac_sha256_hex L k d)" and "header_safe (accessKey sg)"
    and "fst (Sign L rand_err sg t rnd r) = Inr r1" and "fst (Verify L v t' r2 st) = Inr cred"
    and "parseAuthHeader (get_header r1 HeaderAuthorization) = Inr (ak1, sig)"
    and "parseAuthHeader (get_header r2 HeaderAuthorization) = Inr (ak2, sig)"
    and "clean_request L r1" "clean_request L r2"
    and "\<not> collides (\<lambda>(k, d). hmac_sha256_hex L k d)
           (secretKey sg, signed_text L r1) (SecretKey cred, signed_text L r2)"
    and "\<not> collides (sha256_hex L) (request_body r1) (request_body r2)"
  shows "to_upper (rq_method r2) = to_upper (rq_method r1) \<and>
    request_path L r2 = request_path L r1 \<and>
    query_content L (url_query L (rq_url r2)) = query_content L (url_query L (rq_url r1)) \<and>
    signed_headers r2 = DefaultSignedHeaders \<and>
    (\<forall>k \<in> {''content-type'', ''x-nsp-nonce'', ''x-nsp-timestamp''}.
       trim_space (get_header r2 k) = trim_space (get_header r1 k)) \<and>
    request_body r2 = request_body r1 \<and> SecretKey cred = secretKey sg"
proof -
  obtain h1 where h1: "fst (hashRequestBody L r1) = Inr h1"
    "get_header r1 HeaderSignedHeaders = DefaultSignedHeaders"
    "get_header r1 HeaderAuthorization = auth_header (accessKey sg)
       (computeHMACSHA256 L (secretKey sg) (buildStringToSign L r1 DefaultSignedHeaders h1))"
    by (rule Sign_result [OF assms(4)])
  have def1: "signed_headers r1 = DefaultSignedHeaders" using h1(2) by (simp add: signed_headers_def)
  have sig1: "sig = hmac_sha256_hex L (secretKey sg) (signed_text L r1)"
    using assms(2,3,6) h1(3) hashed_body [OF h1(1)]
    by (simp add: parse_auth_header computeHMACSHA256_def signed_text_def def1)
  obtain ak sig2 h2 where p: "parseAuthHeader (get_header r2 HeaderAuthorization) = Inr (ak, sig2)"
    and h2: "fst (hashRequestBody L r2) = Inr h2"
      "sig2 = computeHMACSHA256 L (SecretKey cred) (buildStringToSign L r2 (signed_headers r2) h2)"
    using assms(5) unfolding verify_accepts by blast
  have "sig2 = sig" using p assms(7) by simp
  have "sig = hmac_sha256_hex L (SecretKey cred) (signed_text L r2)"
    using h2(2) hashed_body [OF h2(1)] \<open>sig2 = sig\<close>
    by (simp add: computeHMACSHA256_def signed_text_def)
  then have "(secretKey sg, signed_text L r1) = (SecretKey cred, signed_text L r2)"
    using assms(10) sig1 unfolding collides_def by (metis (no_types) case_prod_conv)
  then have eq: "signed_text L r2 = signed_text L r1" "SecretKey cred = secretKey sg" by simp_all
  note agree = signed_text_agree [OF assms(1,8,9) eq(1) def1]
  from agree(2) assms(11) have "request_body r2 = request_body r1" by (auto simp: collides_def)
  with agree eq(2) show ?thesis by blast
qed

section \<open>An example\<close>

lemma hex_digit_inj: "m < 16 \<Longrightarrow> n < 16 \<Longrightarrow> hex_digit m = hex_digit n \<longleftrightarrow> m = n"
proof
  assume "m < 16" "n < 16" "hex_digit m = hex_digit n"
  then have "of_char (hex_digit m) = (of_char (hex_digit n) :: nat)" by simp
  with \<open>m < 16\<close> \<open>n < 16\<close> show "m = n" by (auto simp: hex_digit_def split: if_splits)
qed simp

lemma hex_byte_inj: "hex_byte a = hex_byte b \<longleftrightarrow> a = b"
proof
  have lt: "of_char c div 16 < (16 :: nat)" for c :: char
    using nat_of_char_less_256 [of c] by (simp add: less_mult_imp_div_less)
  assume "hex_byte a = hex_byte b"
  then have "of_char a div 16 = (of_char b div 16 :: nat)" "of_char a mod 16 = (of_char b mod 16 :: nat)"
    by (simp_all add: hex_byte_def hex_digit_inj lt)
  then have "of_char a = (of_char b :: nat)" by (metis div_mult_mod_eq)
  then show "a = b" by simp
qed simp

lemma hex_encode_inj: "inj hex_encode"
proof (rule injI)
  fix x y assume "hex_encode x = hex_encode y"
  then show "x = y"
  proof (induction x arbitrary: y)
    case (Cons a x)
    have "length (hex_byte c) = 2" for c by (simp add: hex_byte_def)
    moreover have "y \<noteq> []" using Cons.prems hex_nonempty [of "a # x"] by (auto simp: hex_encode_def)
    ultimately show ?case using Cons by (cases y) (auto simp: hex_encode_def hex_byte_inj)
  qed (use hex_nonempty in \<open>simp add: hex_encode_def\<close>)
qed

text \<open>A library in which two spellings of a query mean the same parameters.\<close>

definition binding_lib :: stdlib where
  "binding_lib = sample_lib\<lparr>query_escape := hex_encode, url_path := (\<lambda>u. ''/x''),
     url_query := (\<lambda>u. if u = ''/x?b=2&a=1'' then ''b=2&a=1'' else ''a=1&b=2''),
     parse_query := (\<lambda>q. Some (if q = ''b=2&a=1'' then [(''b'', [''2'']), (''a'', [''1''])]
       else [(''a'', [''1'']), (''b'', [''2''])]))\<rparr>"

lemma binding_lib_laws: "url_laws binding_lib" "header_safe (hmac_sha256_hex binding_lib k d)"
proof -
  have "set (hex_encode s) \<inter> {CHR ''&'', CHR ''='', CHR 0x0A} = {}" for s
    using hex_encode_is_hex [of s] by (auto simp: list_all_iff is_hex_char_def)
  then show "url_laws binding_lib"
    using hex_encode_inj by (simp add: url_laws_def binding_lib_def sample_lib_def single_line_def)
  show "header_safe (hmac_sha256_hex binding_lib k d)"
    by (simp add: binding_lib_def sample_lib_def header_safe_def) code_simp
qed

definition bound_request :: request where
  "bound_request = \<lparr>rq_method = ''POST'', rq_url = ''/x?a=1&b=2'',
     rq_header = [(''X-Nsp-Timestamp'', [''7'']),
       (''X-Nsp-Nonce'', [''73656564000000000000000000000000'']),
       (''X-Nsp-Signedheaders'', [''content-type;x-nsp-nonce;x-nsp-timestamp'']),
       (''Authorization'', [''NSP-HMAC-SHA256 AK=ak, Signature=a1b2''])],
     rq_body = Some ''b'', rq_body_err = None\<rparr>"

lemma bound_request_signed:
  "fst (Sign binding_lib None (NewSigner ''ak'' ''sk'') (7 * 10 ^ 9) ''seed''
     \<lparr>rq_method = ''POST'', rq_url = ''/x?a=1&b=2'', rq_header = [], rq_body = Some ''b'',
       rq_body_err = None\<rparr>) = Inr bound_request"
proof -
  have 1: "canonical_key HeaderTimestamp = ''X-Nsp-Timestamp''" "canonical_key HeaderNonce = ''X-Nsp-Nonce''"
    "canonical_key HeaderSignedHeaders = ''X-Nsp-Signedheaders''"
    "canonical_key HeaderAuthorization = ''Authorization''" by code_simp+
  have 2: "itoa 7 = ''7''" by code_simp
  have 3: "hex_encode (fst (take_bytes 16 ''seed'')) = ''73656564000000000000000000000000''" by code_simp
  have 4: "auth_header ''ak'' ''a1b2'' = ''NSP-HMAC-SHA256 AK=ak, Signature=a1b2''" by code_simp
  have 5: "hmac_sha256_hex binding_lib k d = ''a1b2''" for k d by (simp add: binding_lib_def sample_lib_def)
  show ?thesis
    by (simp add: Sign_def generateNonce_def case_prod_beta Let_def hashRequestBody_def set_header_def
        MaxRequestBodySize_def bound_request_def hdr_set_def 1 2 3 4 5 NewSigner_def
        computeHMACSHA256_def DefaultSignedHeaders_def)
qed

text \<open>The same request after a proxy wrote its parameters in another order and added a header.\<close>

definition proxied_request :: request where
  "proxied_request = set_header (bound_request\<lparr>rq_url := ''/x?b=2&a=1''\<rparr>) ''Via'' ''proxy''"

lemma proxied_headers:
  "get_header proxied_request k = (if canonical_key k = ''Via'' then ''proxy'' else get_header bound_request k)"
proof -
  have "canonical_key ''Via'' = ''Via''" by code_simp
  then show ?thesis
    by (simp add: proxied_request_def get_set_header) (simp add: get_header_def)
qed

lemma bound_headers:
  "get_header bound_request k = (let c = canonical_key k in
     if c = ''X-Nsp-Timestamp'' then ''7'' else if c = ''X-Nsp-Nonce'' then ''73656564000000000000000000000000''
     else if c = ''X-Nsp-Signedheaders'' then ''content-type;x-nsp-nonce;x-nsp-timestamp''
     else if c = ''Authorization'' then ''NSP-HMAC-SHA256 AK=ak, Signature=a1b2'' else '''')"
  by (simp add: get_header_def hdr_get_def bound_request_def Let_def)

lemma example_clean: "clean_request binding_lib bound_request" "clean_request binding_lib proxied_request"
proof -
  have "single_line (get_header bound_request k)" "single_line (get_header proxied_request k)" for k
    unfolding proxied_headers bound_headers Let_def by (simp_all add: single_line_def)
  then show "clean_request binding_lib bound_request" "clean_request binding_lib proxied_request"
    by (simp_all add: clean_request_def)
       (simp_all add: single_line_def bound_request_def proxied_request_def binding_lib_def set_header_def)
qed

lemma example_keys:
  "canonical_key HeaderAuthorization = ''Authorization''"
  "canonical_key HeaderTimestamp = ''X-Nsp-Timestamp''" "canonical_key HeaderNonce = ''X-Nsp-Nonce''"
  "canonical_key HeaderSignedHeaders = ''X-Nsp-Signedheaders''"
  "canonical_key ''content-type'' = ''Content-Type''" "canonical_key ''x-nsp-nonce'' = ''X-Nsp-Nonce''"
  "canonical_key ''x-nsp-timestamp'' = ''X-Nsp-Timestamp''"
  by code_simp+

lemma example_signed_headers:
  "signed_headers bound_request = DefaultSignedHeaders"
  "signed_headers proxied_request = DefaultSignedHeaders"
  by (simp_all add: signed_headers_def proxied_headers bound_headers example_keys DefaultSignedHeaders_def Let_def)

lemma proxied_text: "signed_text binding_lib proxied_request = signed_text binding_lib bound_request"
proof -
  have 1: "header_line proxied_request k = header_line bound_request k"
    if "k \<in> {''content-type'', ''x-nsp-nonce'', ''x-nsp-timestamp''}" for k
    using that by (elim insertE emptyE) (simp_all add: header_line_def proxied_headers example_keys)
  have q: "buildCanonicalQueryString binding_lib ''b=2&a=1'' = buildCanonicalQueryString binding_lib ''a=1&b=2''"
    by (rule canonical_query_order
          [where ps = "[(''b'', [''2'']), (''a'', [''1''])]" and qs = "[(''a'', [''1'']), (''b'', [''2''])]"])
       (simp_all add: binding_lib_def same_params_def param_values_def)
  have 2: "request_head binding_lib proxied_request = request_head binding_lib bound_request"
    unfolding request_head_def request_path_def
    using q by (simp add: bound_request_def proxied_request_def set_header_def binding_lib_def)
  have 3: "request_body proxied_request = request_body bound_request"
    by (simp add: request_body_def proxied_request_def)
  show ?thesis
    unfolding signed_text_default [OF example_signed_headers(1)] signed_text_default [OF example_signed_headers(2)]
    by (simp only: 1 2 3 example_signed_headers insertI1 insertI2)
qed

lemma example_header:
  "parseAuthHeader ''NSP-HMAC-SHA256 AK=ak, Signature=a1b2'' = Inr (''ak'', ''a1b2'')"
  by code_simp

lemma example_parse:
  "parseAuthHeader (get_header bound_request HeaderAuthorization) = Inr (''ak'', ''a1b2'')"
  "parseAuthHeader (get_header proxied_request HeaderAuthorization) = Inr (''ak'', ''a1b2'')"
  by (simp_all add: proxied_headers bound_headers example_keys example_header)

lemma proxied_accepted:
  "fst (Verify binding_lib sample_verifier (107 * 10 ^ 9) proxied_request NewMemoryNonceStore)
     = Inr \<lparr>AccessKey = ''ak'', SecretKey = ''sk'', Label = '''', Enabled = True\<rparr>"
proof -
  have at: "atoi ''7'' = Some 7" by (simp add: atoi_def is_digit_def int64_min_def int64_max_def)
  have "parseAndValidateTimestamp (107 * 10 ^ 9) ''7'' DefaultTimestampTolerance = Inr 7"
    using time_window [OF at, of "107 * 10 ^ 9" DefaultTimestampTolerance]
    by (simp add: int64_min_def int64_max_def DefaultTimestampTolerance_def)
  moreover have "fst (hashRequestBody binding_lib proxied_request) = Inr ''e3b0''"
    by (simp add: hashRequestBody_def proxied_request_def bound_request_def MaxRequestBodySize_def
        binding_lib_def sample_lib_def)
  moreover have "hmac_sha256_hex binding_lib k d = ''a1b2''" for k d
    by (simp add: binding_lib_def sample_lib_def)
  ultimately show ?thesis
    by (simp add: verify_accepts example_header sample_verifier_def NewVerifier_def mem_check_def
        CheckAndStore_def NewMemoryNonceStore_def GetByAK_def NewMemoryStore_def Add_def
        computeHMACSHA256_def proxied_headers bound_headers example_keys Let_def)
qed

theorem signature_binds_witness:
  "query_content binding_lib ''b=2&a=1'' = query_content binding_lib ''a=1&b=2'' \<and>
   request_body proxied_request = request_body bound_request"
proof -
  let ?r = "\<lparr>rq_method = ''POST'', rq_url = ''/x?a=1&b=2'', rq_header = [], rq_body = Some ''b'', rq_body_err = None\<rparr>"
  have 1: "header_safe (accessKey (NewSigner ''ak'' ''sk''))" by code_simp
  have 2: "\<not> collides (\<lambda>(k, d). hmac_sha256_hex binding_lib k d)
      (secretKey (NewSigner ''ak'' ''sk''), signed_text binding_lib bound_request)
      (SecretKey \<lparr>AccessKey = ''ak'', SecretKey = ''sk'', Label = '''', Enabled = True\<rparr>,
        signed_text binding_lib proxied_request)"
    by (simp add: collides_def proxied_text NewSigner_def)
  have 3: "\<not> collides (sha256_hex binding_lib) (request_body bound_request) (request_body proxied_request)"
    by (simp add: collides_def request_body_def proxied_request_def)
  have urls: "url_query binding_lib (rq_url proxied_request) = ''b=2&a=1''"
    "url_query binding_lib (rq_url bound_request) = ''a=1&b=2''"
    by (simp_all add: proxied_request_def bound_request_def set_header_def binding_lib_def)
  show ?thesis
    using signature_binds [OF binding_lib_laws(1) binding_lib_laws(2) 1 bound_request_signed proxied_accepted
        example_parse example_clean 2 3]
    by (elim conjE) (simp only: urls conj_absorb simp_thms)
qed

section \<open>A nonce in white space\<close>

lemma drop_any_stop:
  assumes "\<forall>p \<in> set ps. p = [] \<or> hd p \<noteq> c"
  shows "drop_any ps (c # cs) = c # cs"
proof -
  have "\<not> (p \<noteq> [] \<and> has_prefix (c # cs) p)" if "p \<in> set ps" for p
    using assms that by (cases p) (auto simp: has_prefix_def)
  then have "find (\<lambda>p. p \<noteq> [] \<and> has_prefix (c # cs) p) ps = None" by (auto simp: find_None_iff)
  then show ?thesis by (simp add: drop_any.simps)
qed

lemma trim_nbsp:
  assumes "\<forall>p \<in> set white_space. hd p \<noteq> c"
  shows "trim_space ((c # cs) @ [CHR 0xC2, CHR 0xA0]) = trim_space (c # cs)"
proof -
  have front: "drop_any white_space (c # xs) = c # xs" for xs
    using assms by (intro drop_any_stop) auto
  have "drop_any (map rev white_space) (CHR 0xA0 # CHR 0xC2 # xs) = drop_any (map rev white_space) xs" for xs
    by (subst drop_any.simps) (simp add: white_space_def has_prefix_def)
  then show ?thesis by (simp add: trim_space_def front)
qed

text \<open>
  The nonce store looks at the header as it stands, the signature at the trimmed value. A request
  whose nonce gets a no-break space (U+00A0, which \<^verbatim>\<open>net/http\<close> leaves in a header value) appended has
  the same signed text, so it is accepted again as long as the timestamp is fresh.
\<close>

lemma padded_nonce_accepted:
  assumes "fst (Verify L v t r s) = Inr cred" and "get_header r HeaderNonce = n" "n = c # cs"
    and "\<forall>p \<in> set white_space. hd p \<noteq> c" and "signed_headers r = DefaultSignedHeaders"
    and "parseAndValidateTimestamp t' (get_header r HeaderTimestamp) (timestampTolerance v) = Inr ts"
    and "fst (v_check v t' (n @ [CHR 0xC2, CHR 0xA0]) (nonceTTL v) s') = Inr False"
  shows "fst (Verify L v t' (set_header r HeaderNonce (n @ [CHR 0xC2, CHR 0xA0])) s') = Inr cred"
    (is "fst (Verify L v t' ?r s') = _")
proof -
  have sh: "signed_headers ?r = DefaultSignedHeaders"
    using assms(5) by (simp add: signed_headers_def get_set_header auth_keys_distinct [symmetric])
  have keys: "canonical_key HeaderNonce = canonical_key ''x-nsp-nonce''"
    "canonical_key HeaderNonce \<noteq> canonical_key ''content-type''"
    "canonical_key HeaderNonce \<noteq> canonical_key ''x-nsp-timestamp''" by code_simp+
  have nonce: "get_header r ''x-nsp-nonce'' = n"
    using assms(2) by (simp add: get_header_def hdr_get_def keys(1))
  have lines: "header_line ?r ''x-nsp-nonce'' = header_line r ''x-nsp-nonce''"
    "header_line ?r ''content-type'' = header_line r ''content-type''"
    "header_line ?r ''x-nsp-timestamp'' = header_line r ''x-nsp-timestamp''"
    using trim_nbsp [OF assms(4), of cs, folded assms(3)] keys nonce by (simp_all add: header_line_def get_set_header)
  have "buildCanonicalHeaders (rq_header ?r) DefaultSignedHeaders
      = buildCanonicalHeaders (rq_header r) DefaultSignedHeaders"
    by (simp only: default_headers_lines lines)
  then have "buildStringToSign L ?r DefaultSignedHeaders h = buildStringToSign L r DefaultSignedHeaders h" for h
    by (simp add: buildStringToSign_def)
  moreover have "get_header ?r HeaderAuthorization = get_header r HeaderAuthorization"
    "get_header ?r HeaderTimestamp = get_header r HeaderTimestamp"
    "get_header ?r HeaderNonce = n @ [CHR 0xC2, CHR 0xA0]"
    by (simp_all add: get_set_header auth_keys_distinct [symmetric])
  ultimately show ?thesis
    using assms(1,5-7) by (auto simp: verify_accepts sh hash_set_header)
qed

lemma padded_nonce_replayed:
  "fst (Verify sample_lib sample_verifier (1700000000 * 10 ^ 9)
      (set_header sample_request HeaderNonce (''n1'' @ [CHR 0xC2, CHR 0xA0]))
      (snd (Verify sample_lib sample_verifier (1700000000 * 10 ^ 9) sample_request NewMemoryNonceStore)))
   = Inr \<lparr>AccessKey = ''ak'', SecretKey = ''sk'', Label = '''', Enabled = True\<rparr>"
proof (rule padded_nonce_accepted [where t = "1700000000 * 10 ^ 9" and s = NewMemoryNonceStore and ts = 1700000000])
  have "parseAndValidateTimestamp (1700000000 * 10 ^ 9) ''1700000000'' DefaultTimestampTolerance = Inr 1700000000"
    using time_window [OF sample_headers(4), of "1700000000 * 10 ^ 9" DefaultTimestampTolerance]
    by (simp add: int64_min_def int64_max_def DefaultTimestampTolerance_def)
  moreover have "header_safe ''ak''" "header_safe ''a1b2''" by code_simp+
  then have "parseAuthHeader (auth_header ''ak'' ''a1b2'') = Inr (''ak'', ''a1b2'')" by (rule parse_auth_header)
  ultimately show "fst (v_check sample_verifier (1700000000 * 10 ^ 9) (''n1'' @ [CHR 0xC2, CHR 0xA0])
      (nonceTTL sample_verifier) (snd (Verify sample_lib sample_verifier (1700000000 * 10 ^ 9)
         sample_request NewMemoryNonceStore))) = Inr False"
    by (simp add: Verify_def sample_headers sample_verifier_def NewVerifier_def mem_check_def
        CheckAndStore_def NewMemoryNonceStore_def Let_def split: sum.splits option.splits)
  show "\<forall>p \<in> set white_space. hd p \<noteq> CHR ''n''" by (simp add: white_space_def)
  show "signed_headers sample_request = DefaultSignedHeaders" by code_simp
  show "parseAndValidateTimestamp (1700000000 * 10 ^ 9) (get_header sample_request HeaderTimestamp)
      (timestampTolerance sample_verifier) = Inr 1700000000"
    using time_window [OF sample_headers(4), of "1700000000 * 10 ^ 9" DefaultTimestampTolerance]
    by (simp add: sample_headers sample_verifier_def NewVerifier_def int64_min_def int64_max_def
        DefaultTimestampTolerance_def)
qed (use sample_accepted in \<open>simp_all add: sample_headers\<close>)

end
