(* ===== verification/Saga_Definition.thy ===== *)
theory Saga_Definition
  imports Go_Value
begin

text \<open>
  \<^verbatim>\<open>saga/definition.go\<close>: the data model of saga transactions and the builder that validates a
  definition.
\<close>

section \<open>Status enumerations\<close>

text \<open>
  \<^verbatim>\<open>StepType\<close> is an open string type: the two constants, and whatever else a caller writes
  (the empty string for an unset type).
\<close>

datatype step_type = StepTypeSync | StepTypeAsync | StepTypeOther string

datatype tx_status =
  TxStatusPending | TxStatusRunning | TxStatusCompensating | TxStatusSucceeded | TxStatusFailed

datatype step_status =
    StepStatusPending | StepStatusRunning | StepStatusPolling | StepStatusSucceeded
  | StepStatusFailed | StepStatusCompensating | StepStatusCompensated | StepStatusSkipped

fun tx_status_str :: "tx_status \<Rightarrow> string" where
  "tx_status_str TxStatusPending = ''pending''"
| "tx_status_str TxStatusRunning = ''running''"
| "tx_status_str TxStatusCompensating = ''compensating''"
| "tx_status_str TxStatusSucceeded = ''succeeded''"
| "tx_status_str TxStatusFailed = ''failed''"

fun step_status_str :: "step_status \<Rightarrow> string" where
  "step_status_str StepStatusPending = ''pending''"
| "step_status_str StepStatusRunning = ''running''"
| "step_status_str StepStatusPolling = ''polling''"
| "step_status_str StepStatusSucceeded = ''succeeded''"
| "step_status_str StepStatusFailed = ''failed''"
| "step_status_str StepStatusCompensating = ''compensating''"
| "step_status_str StepStatusCompensated = ''compensated''"
| "step_status_str StepStatusSkipped = ''skipped''"

section \<open>Records\<close>

text \<open>
  The structs, with the type of their JSON fields left open: \<open>gomap\<close> in memory, the JSON text
  (\<open>string option\<close>, \<open>None\<close> for SQL NULL) in a database row. Times are nanoseconds.
\<close>

record 'j step_rec =
  st_id :: string
  st_tx_id :: string
  st_index :: int
  st_name :: string
  st_type :: step_type
  st_status :: step_status
  action_method :: string
  action_url :: string
  action_payload :: 'j
  action_response :: 'j
  auth_ak :: string
  compensate_method :: string
  compensate_url :: string
  compensate_payload :: 'j
  poll_url :: string
  poll_method :: string
  poll_interval_sec :: int
  poll_max_times :: int
  poll_count :: int
  poll_success_path :: string
  poll_success_value :: string
  poll_failure_path :: string
  poll_failure_value :: string
  next_poll_at :: "int option"
  st_retry_count :: int
  max_retry :: int
  st_last_error :: string
  st_started_at :: "int option"
  st_finished_at :: "int option"

record 'j tx_rec =
  tx_id :: string
  tx_status :: tx_status
  tx_payload :: 'j
  current_step :: int
  created_at :: int
  updated_at :: int
  finished_at :: "int option"
  timeout_at :: "int option"
  tx_retry_count :: int
  tx_last_error :: string

type_synonym step = "gomap step_rec"
type_synonym transaction = "gomap tx_rec"

record poll_task =
  pt_id :: int
  pt_step_id :: string
  pt_tx_id :: string
  pt_next_poll_at :: int
  pt_locked_until :: "int option"
  pt_locked_by :: "string option"

record saga_definition =
  sd_id :: string
  sd_name :: string
  sd_steps :: "step list"
  sd_timeout_sec :: int
  sd_payload :: gomap

section \<open>The builder\<close>

record saga_builder =
  sb_name :: string
  sb_steps :: "step list"
  sb_timeout_sec :: int
  sb_payload :: gomap

definition NewSaga :: "string \<Rightarrow> saga_builder" where
  "NewSaga name = \<lparr>sb_name = name, sb_steps = [], sb_timeout_sec = 0, sb_payload = Some []\<rparr>"

definition AddStep :: "saga_builder \<Rightarrow> step \<Rightarrow> saga_builder" where
  "AddStep b s = b\<lparr>sb_steps := sb_steps b @ [s]\<rparr>"

definition WithTimeout :: "saga_builder \<Rightarrow> int \<Rightarrow> saga_builder" where
  "WithTimeout b n = b\<lparr>sb_timeout_sec := n\<rparr>"

definition WithPayload :: "saga_builder \<Rightarrow> gomap \<Rightarrow> saga_builder" where
  "WithPayload b p = b\<lparr>sb_payload := p\<rparr>"

text \<open>The checks of the loop body, in the code's order.\<close>

definition check_step :: "step \<Rightarrow> sentinel option" where
  "check_step s =
     (if action_method s = '''' \<or> action_url s = '''' then Some ErrStepMissingAction
      else if compensate_method s = '''' \<or> compensate_url s = '''' then Some ErrStepMissingCompensate
      else if st_type s = StepTypeAsync \<and>
              (poll_url s = '''' \<or> poll_success_path s = '''' \<or> poll_success_value s = '''')
           then Some ErrAsyncStepMissingPollConfig
      else None)"

text \<open>The defaults the loop body writes into \<^verbatim>\<open>b.steps[i]\<close>.\<close>

definition default_step :: "int \<Rightarrow> step \<Rightarrow> step" where
  "default_step i s = s\<lparr>
     st_type := (if st_type s = StepTypeOther '''' then StepTypeSync else st_type s),
     poll_method := (if poll_method s = '''' then ''GET'' else poll_method s),
     poll_interval_sec := (if poll_interval_sec s = 0 then 5 else poll_interval_sec s),
     poll_max_times := (if poll_max_times s = 0 then 60 else poll_max_times s),
     max_retry := (if max_retry s = 0 then 3 else max_retry s),
     st_index := i,
     st_status := StepStatusPending\<rparr>"

text \<open>
  The loop of \<^verbatim>\<open>Build\<close>: it writes the defaults of each step into the builder's slice as it goes,
  so on an error the steps before the faulty one are already filled in.
\<close>

fun build_steps :: "int \<Rightarrow> step list \<Rightarrow> sentinel option \<times> step list" where
  "build_steps i [] = (None, [])"
| "build_steps i (s # ss) =
     (case check_step s of
        Some e \<Rightarrow> (Some e, s # ss)
      | None \<Rightarrow> (case build_steps (i + 1) ss of (r, ss') \<Rightarrow> (r, default_step i s # ss')))"

definition Build :: "saga_builder \<Rightarrow> (sentinel + saga_definition) \<times> saga_builder" where
  "Build b =
     (if sb_steps b = [] then (Inl ErrNoSteps, b)
      else case build_steps 0 (sb_steps b) of
             (Some e, ss) \<Rightarrow> (Inl e, b\<lparr>sb_steps := ss\<rparr>)
           | (None, ss) \<Rightarrow>
               (Inr \<lparr>sd_id = '''', sd_name = sb_name b, sd_steps = ss,
                     sd_timeout_sec = sb_timeout_sec b, sd_payload = sb_payload b\<rparr>,
                b\<lparr>sb_steps := ss\<rparr>))"

section \<open>Correctness of the builder\<close>

text \<open>What the rest of the engine relies on in a built step.\<close>

definition step_ready :: "int \<Rightarrow> step \<Rightarrow> bool" where
  "step_ready i s \<longleftrightarrow>
     check_step s = None \<and> st_index s = i \<and> st_status s = StepStatusPending \<and>
     st_type s \<noteq> StepTypeOther '''' \<and> poll_method s \<noteq> '''' \<and> poll_interval_sec s \<noteq> 0 \<and>
     poll_max_times s \<noteq> 0 \<and> max_retry s \<noteq> 0"

lemma check_default_step [simp]: "check_step s = None \<Longrightarrow> check_step (default_step i s) = None"
  by (auto simp: check_step_def default_step_def split: if_splits)

lemma default_step_ready: "check_step s = None \<Longrightarrow> step_ready i (default_step i s)"
  by (simp add: step_ready_def) (simp add: default_step_def)

lemma default_step_idem: "step_ready i s \<Longrightarrow> default_step i s = s"
  by (simp add: step_ready_def default_step_def)

lemma build_steps_ok:
  "(\<forall>s \<in> set ss. check_step s = None) \<Longrightarrow>
   build_steps i ss = (None, map (\<lambda>(k, s). default_step (i + int k) s) (List.enumerate 0 ss))"
proof (induction ss arbitrary: i)
  case Nil
  then show ?case by simp
next
  case (Cons s ss)
  have "map (\<lambda>(k, s). default_step (i + 1 + int k) s) (List.enumerate 0 ss)
      = map (\<lambda>(k, s). default_step (i + int k) s) (List.enumerate (Suc 0) ss)"
    by (rule nth_equalityI) (auto simp: nth_enumerate_eq ac_simps)
  with Cons show ?case by simp
qed

lemma build_steps_err:
  "(\<exists>s \<in> set ss. check_step s \<noteq> None) \<Longrightarrow>
   fst (build_steps i ss) = check_step (hd (filter (\<lambda>s. check_step s \<noteq> None) ss))"
  by (induction ss arbitrary: i) (auto simp: case_prod_beta split: option.splits)

lemma build_steps_none_iff: "fst (build_steps i ss) = None \<longleftrightarrow> (\<forall>s \<in> set ss. check_step s = None)"
  by (induction ss arbitrary: i) (auto simp: case_prod_beta split: option.splits)

lemma build_steps_ready:
  "build_steps i ss = (None, ss') \<Longrightarrow>
   length ss' = length ss \<and> (\<forall>k < length ss'. step_ready (i + int k) (ss' ! k))"
proof (induction ss arbitrary: i ss')
  case Nil
  then show ?case by simp
next
  case (Cons s ss)
  then obtain t where t: "check_step s = None" "build_steps (i + 1) ss = (None, t)"
    "ss' = default_step i s # t"
    by (auto split: option.splits prod.splits)
  from Cons.IH [OF t(2)]
  have len: "length t = length ss"
    and rd: "\<And>k. k < length t \<Longrightarrow> step_ready (i + int (Suc k)) (t ! k)"
    by (auto simp: ac_simps)
  show ?case
    using len rd t by (auto simp: nth_Cons default_step_ready split: nat.splits)
qed

lemma build_steps_again:
  "(\<forall>k < length ss. step_ready (i + int k) (ss ! k)) \<Longrightarrow> build_steps i ss = (None, ss)"
proof (induction ss arbitrary: i)
  case Nil
  then show ?case by simp
next
  case (Cons s ss)
  have s: "step_ready i s" using Cons.prems [rule_format, of 0] by simp
  have "step_ready (i + 1 + int k) (ss ! k)" if "k < length ss" for k
    using Cons.prems [rule_format, of "Suc k"] that by (simp add: ac_simps)
  then have "build_steps (i + 1) ss = (None, ss)" by (intro Cons.IH) blast
  moreover have "check_step s = None" using s by (simp add: step_ready_def)
  ultimately show ?case using default_step_idem [OF s] by simp
qed

lemma find_filter_hd: "find P xs = (case filter P xs of [] \<Rightarrow> None | x # _ \<Rightarrow> Some x)"
  by (induction xs) auto

lemma build_result:
  "fst (Build b) =
     (if sb_steps b = [] then Inl ErrNoSteps
      else case find (\<lambda>s. check_step s \<noteq> None) (sb_steps b) of
        Some s \<Rightarrow> Inl (the (check_step s))
      | None \<Rightarrow> Inr \<lparr>sd_id = '''', sd_name = sb_name b,
          sd_steps = map (\<lambda>(k, s). default_step (int k) s) (List.enumerate 0 (sb_steps b)),
          sd_timeout_sec = sb_timeout_sec b, sd_payload = sb_payload b\<rparr>)"
proof (cases "\<exists>s \<in> set (sb_steps b). check_step s \<noteq> None")
  case True
  then have ne: "filter (\<lambda>s. check_step s \<noteq> None) (sb_steps b) \<noteq> []"
    by (simp add: filter_empty_conv)
  then obtain s rest where f: "filter (\<lambda>s. check_step s \<noteq> None) (sb_steps b) = s # rest"
    by (cases "filter (\<lambda>s. check_step s \<noteq> None) (sb_steps b)") auto
  then have "s \<in> set (filter (\<lambda>s. check_step s \<noteq> None) (sb_steps b))" by simp
  then have s: "check_step s \<noteq> None" by simp
  have "fst (build_steps 0 (sb_steps b)) = check_step s"
    using build_steps_err [OF True] f by simp
  then show ?thesis
    using s f True by (cases "build_steps 0 (sb_steps b)") (auto simp: Build_def find_filter_hd)
next
  case False
  then have "build_steps 0 (sb_steps b)
      = (None, map (\<lambda>(k, s). default_step (int k) s) (List.enumerate 0 (sb_steps b)))"
    using build_steps_ok [of "sb_steps b" 0] by simp
  moreover have "find (\<lambda>s. check_step s \<noteq> None) (sb_steps b) = None"
    using False by (simp add: find_None_iff)
  ultimately show ?thesis by (simp add: Build_def)
qed

text \<open>
  A definition that \<^verbatim>\<open>Build\<close> delivers is ready to run: every step has its action
  and compensation, an asynchronous step its poll configuration, no setting is left unset; and building
  the same builder again delivers the same definition.
\<close>

theorem build_ready:
  assumes "Build b = (Inr d, b')"
  shows "sd_steps d \<noteq> [] \<and>
    (\<forall>k < length (sd_steps d). step_ready (int k) (sd_steps d ! k)) \<and>
    Build b' = (Inr d, b')"
proof -
  have bs: "build_steps 0 (sb_steps b) = (None, sd_steps d)" "b' = b\<lparr>sb_steps := sd_steps d\<rparr>"
    "sb_steps b \<noteq> []" "d = \<lparr>sd_id = '''', sd_name = sb_name b, sd_steps = sd_steps d,
       sd_timeout_sec = sb_timeout_sec b, sd_payload = sb_payload b\<rparr>"
    using assms by (auto simp: Build_def split: if_splits prod.splits option.splits)
  note r = build_steps_ready [OF bs(1)]
  have 1: "sd_steps d \<noteq> []" using r bs(3) by auto
  have 2: "\<forall>k < length (sd_steps d). step_ready (int k) (sd_steps d ! k)" using r by simp
  have "build_steps 0 (sd_steps d) = (None, sd_steps d)" using 2 by (intro build_steps_again) simp
  then have "Build b' = (Inr d, b')"
    using 1 bs(2,4) by (cases d) (simp add: Build_def)
  with 1 2 show ?thesis by blast
qed

definition sample_step :: step where
  "sample_step = \<lparr>st_id = '''', st_tx_id = '''', st_index = 0, st_name = ''pay'',
     st_type = StepTypeOther '''', st_status = StepStatusPending,
     action_method = ''POST'', action_url = ''/pay'', action_payload = None, action_response = None,
     auth_ak = '''', compensate_method = ''POST'', compensate_url = ''/refund'',
     compensate_payload = None, poll_url = '''', poll_method = '''', poll_interval_sec = 0,
     poll_max_times = 0, poll_count = 0, poll_success_path = '''', poll_success_value = '''',
     poll_failure_path = '''', poll_failure_value = '''', next_poll_at = None, st_retry_count = 0,
     max_retry = 0, st_last_error = '''', st_started_at = None, st_finished_at = None\<rparr>"

theorem build_ready_witness:
  "sd_steps (projr (fst (Build (AddStep (NewSaga ''s'') sample_step)))) = [default_step 0 sample_step] \<and>
   step_ready 0 (default_step 0 sample_step)"
proof -
  have b: "Build (AddStep (NewSaga ''s'') sample_step) =
      (Inr (projr (fst (Build (AddStep (NewSaga ''s'') sample_step)))),
       snd (Build (AddStep (NewSaga ''s'') sample_step)))"
    by code_simp
  have "sd_steps (projr (fst (Build (AddStep (NewSaga ''s'') sample_step)))) = [default_step 0 sample_step]"
    by code_simp
  with build_ready [OF b] show ?thesis by simp
qed

end
