(* ===== verification/Trace.thy ===== *)
theory Trace
  imports Http
begin

text \<open>
  \<^verbatim>\<open>trace/\<close>: identifiers, the trace context, its propagation over HTTP headers (\<^verbatim>\<open>Extract\<close>,
  \<^verbatim>\<open>Inject\<close>, \<^verbatim>\<open>InjectResponse\<close>) and over message metadata.
\<close>

section \<open>Identifiers\<close>

text \<open>
  The random bytes come from the supply, which both the cryptographic source and its fallback
  stand for: the format of an id does not depend on where the bytes come from.
\<close>

definition NewTraceID :: "string \<Rightarrow> string \<times> string" where
  "NewTraceID supply = (case take_bytes 16 supply of (b, rest) \<Rightarrow> (hex_encode b, rest))"

definition NewSpanId :: "string \<Rightarrow> string \<times> string" where
  "NewSpanId supply = (case take_bytes 8 supply of (b, rest) \<Rightarrow> (hex_encode b, rest))"

text \<open>The environment variable and the host name (\<open>None\<close>: \<^verbatim>\<open>os.Hostname\<close> fails) are inputs.\<close>

definition GetInstanceId :: "string \<Rightarrow> string option \<Rightarrow> string" where
  "GetInstanceId env_hostname os_hostname =
     (if env_hostname \<noteq> '''' then env_hostname
      else case os_hostname of
             Some h \<Rightarrow> (if h \<noteq> '''' then h else ''unknown'')
           | None \<Rightarrow> ''unknown'')"

section \<open>Trace contexts\<close>

record trace_context =
  TraceID :: string
  SpanId :: string
  ParentSpanId :: string
  InstanceId :: string
  Sampled :: bool

definition empty_trace :: trace_context where
  "empty_trace = \<lparr>TraceID = '''', SpanId = '''', ParentSpanId = '''', InstanceId = '''', Sampled = False\<rparr>"

definition IsRoot :: "trace_context \<Rightarrow> bool" where
  "IsRoot tc \<longleftrightarrow> ParentSpanId tc = ''''"

definition LogFields :: "trace_context \<Rightarrow> (string \<times> string) list" where
  "LogFields tc =
     [(''trace_id'', TraceID tc), (''span_id'', SpanId tc), (''instance_id'', InstanceId tc)] @
     (if ParentSpanId tc \<noteq> '''' then [(''parent_span_id'', ParentSpanId tc)] else [])"

definition MustTrace :: "trace_context option \<Rightarrow> trace_context" where
  "MustTrace otc = (case otc of None \<Rightarrow> empty_trace | Some tc \<Rightarrow> tc)"

section \<open>HTTP propagation\<close>

definition HeaderTraceID :: string where "HeaderTraceID = ''X-B3-TraceId''"
definition HeaderSpanId :: string where "HeaderSpanId = ''X-B3-SpanId''"
definition HeaderSampled :: string where "HeaderSampled = ''X-B3-Sampled''"
definition HeaderRequestID :: string where "HeaderRequestID = ''X-Request-Id''"

definition isValidHexString :: "string \<Rightarrow> nat \<Rightarrow> bool" where
  "isValidHexString s expectedLen \<longleftrightarrow> length s = expectedLen \<and> hex_decodes s"

definition Extract :: "header \<Rightarrow> string \<Rightarrow> string \<Rightarrow> trace_context \<times> string" where
  "Extract h instanceId supply =
     (let traceID = hdr_get h HeaderTraceID;
          requestID = hdr_get h HeaderRequestID;
          (tid, supply1) =
            (if traceID \<noteq> '''' \<and> isValidHexString traceID 32 then (traceID, supply)
             else if requestID \<noteq> '''' \<and> isValidHexString requestID 32 then (requestID, supply)
             else NewTraceID supply);
          parent = hdr_get h HeaderSpanId;
          (sid, supply2) = NewSpanId supply1
      in (\<lparr>TraceID = tid, SpanId = sid,
           ParentSpanId = (if parent \<noteq> '''' \<and> isValidHexString parent 16 then parent else ''''),
           InstanceId = instanceId,
           Sampled = (hdr_get h HeaderSampled \<noteq> ''0'')\<rparr>, supply2))"

definition Inject :: "header \<Rightarrow> trace_context option \<Rightarrow> header" where
  "Inject h otc =
     (case otc of
        None \<Rightarrow> h
      | Some tc \<Rightarrow>
          (let h1 = (if TraceID tc \<noteq> '''' then hdr_set h HeaderTraceID (TraceID tc) else h);
               h2 = (if SpanId tc \<noteq> '''' then hdr_set h1 HeaderSpanId (SpanId tc) else h1)
           in hdr_set h2 HeaderSampled (if Sampled tc then ''1'' else ''0'')))"

definition InjectResponse :: "header \<Rightarrow> trace_context option \<Rightarrow> header" where
  "InjectResponse h otc =
     (case otc of
        None \<Rightarrow> h
      | Some tc \<Rightarrow>
          (if TraceID tc \<noteq> ''''
           then hdr_set (hdr_set h HeaderTraceID (TraceID tc)) HeaderRequestID (TraceID tc)
           else h))"

section \<open>Metadata propagation\<close>

definition MetadataFromTraceContext :: "trace_context option \<Rightarrow> (string \<times> string) list option" where
  "MetadataFromTraceContext otc =
     (case otc of
        None \<Rightarrow> None
      | Some tc \<Rightarrow> Some [(''trace_id'', TraceID tc), (''span_id'', SpanId tc),
                           (''sampled'', if Sampled tc then ''1'' else ''0'')])"

definition meta_get :: "(string \<times> string) list \<Rightarrow> string \<Rightarrow> string" where
  "meta_get m k = (case map_of m k of Some v \<Rightarrow> v | None \<Rightarrow> '''')"

definition TraceFromMetadata ::
  "(string \<times> string) list \<Rightarrow> string \<Rightarrow> string \<Rightarrow> trace_context option \<times> string" where
  "TraceFromMetadata metadata instanceId supply =
     (if metadata = [] then (None, supply)
      else let traceID = meta_get metadata ''trace_id'' in
        if \<not> isValidHexString traceID 32 then (None, supply)
        else let p = meta_get metadata ''span_id'';
                 parent = (if p \<noteq> '''' \<and> \<not> isValidHexString p 16 then '''' else p);
                 (sid, supply') = NewSpanId supply
             in (Some \<lparr>TraceID = traceID, SpanId = sid, ParentSpanId = parent,
                       InstanceId = instanceId,
                       Sampled = (meta_get metadata ''sampled'' \<noteq> ''0'')\<rparr>, supply'))"

section \<open>Correctness\<close>

definition trace_ok :: "trace_context \<Rightarrow> bool" where
  "trace_ok tc \<longleftrightarrow> isValidHexString (TraceID tc) 32 \<and> isValidHexString (SpanId tc) 16"

lemma new_ids_valid:
  "isValidHexString (fst (NewTraceID s)) 32" "isValidHexString (fst (NewSpanId s)) 16"
  by (simp_all add: NewTraceID_def NewSpanId_def isValidHexString_def case_prod_beta)

lemma header_keys_distinct [simp]:
  "canonical_key HeaderTraceID \<noteq> canonical_key HeaderSpanId"
  "canonical_key HeaderTraceID \<noteq> canonical_key HeaderSampled"
  "canonical_key HeaderTraceID \<noteq> canonical_key HeaderRequestID"
  "canonical_key HeaderSpanId \<noteq> canonical_key HeaderTraceID"
  "canonical_key HeaderSpanId \<noteq> canonical_key HeaderSampled"
  "canonical_key HeaderSampled \<noteq> canonical_key HeaderTraceID"
  "canonical_key HeaderSampled \<noteq> canonical_key HeaderSpanId"
  "canonical_key HeaderRequestID \<noteq> canonical_key HeaderTraceID"
  by code_simp+

lemma valid_hex_nonempty: "isValidHexString s n \<Longrightarrow> 0 < n \<Longrightarrow> s \<noteq> ''''"
  by (auto simp: isValidHexString_def)

text \<open>
  A trace that one service injects into a request is continued by the service that
  extracts it: same trace id, the sender's span as the parent, the same sampling decision, and a
  fresh well-formed span id.
\<close>

lemma inject_extract:
  assumes "trace_ok tc"
  shows "fst (Extract (Inject h (Some tc)) inst s) =
    \<lparr>TraceID = TraceID tc, SpanId = fst (NewSpanId s), ParentSpanId = SpanId tc,
     InstanceId = inst, Sampled = Sampled tc\<rparr>"
proof -
  have ne: "TraceID tc \<noteq> ''''" "SpanId tc \<noteq> ''''"
    using assms by (auto simp: trace_ok_def dest!: valid_hex_nonempty)
  show ?thesis
    using assms ne
    by (simp add: Extract_def Inject_def trace_ok_def hdr_get_set Let_def case_prod_beta)
qed

definition sample_trace :: trace_context where
  "sample_trace = \<lparr>TraceID = ''0123456789abcdef0123456789abcdef'', SpanId = ''0123456789abcdef'',
     ParentSpanId = '''', InstanceId = ''a'', Sampled = False\<rparr>"

lemma sample_trace_ok: "trace_ok sample_trace"
  by code_simp

lemma inject_extract_witness:
  "fst (Extract (Inject [] (Some sample_trace)) ''b'' ''seed'') =
    \<lparr>TraceID = TraceID sample_trace, SpanId = fst (NewSpanId ''seed''), ParentSpanId = SpanId sample_trace,
     InstanceId = ''b'', Sampled = False\<rparr>"
  using inject_extract [OF sample_trace_ok] by (simp add: sample_trace_def)

text \<open>
  Whatever headers a request carries, the extracted context has well-formed trace
  and span ids, and a parent that is either absent or well formed.
\<close>

lemma extract_well_formed:
  "trace_ok (fst (Extract h inst s)) \<and>
   ParentSpanId (fst (Extract h inst s)) \<in> {p. p = '''' \<or> isValidHexString p 16}"
  by (auto simp: Extract_def trace_ok_def new_ids_valid Let_def case_prod_beta)

text \<open>A trace sent as message metadata is continued by the consumer in the same way.\<close>

lemma metadata_continues:
  assumes "trace_ok tc"
  shows "fst (TraceFromMetadata (the (MetadataFromTraceContext (Some tc))) inst s) =
    Some \<lparr>TraceID = TraceID tc, SpanId = fst (NewSpanId s), ParentSpanId = SpanId tc,
          InstanceId = inst, Sampled = Sampled tc\<rparr>"
  using assms
  by (simp add: TraceFromMetadata_def MetadataFromTraceContext_def trace_ok_def meta_get_def
      Let_def case_prod_beta)

end
