(* ===== verification/Saga_World.thy ===== *)
theory Saga_World
  imports Saga_Definition Trace
begin

text \<open>
  The world the saga engine runs in: the three PostgreSQL tables of
  \<^verbatim>\<open>saga/migrations/saga.sql\<close>, the clock, the contexts (\<^verbatim>\<open>saga/runtime_context.go\<close>), the HTTP
  peers, and the other goroutines and engine instances, whose writes happen between any two
  database calls of the program.
\<close>

section \<open>Tables\<close>

record tx_row = "string option tx_rec" +
  locked_by :: "string option"
  locked_until :: "int option"

type_synonym step_row = "string option step_rec"

record db =
  saga_transactions :: "tx_row list"
  saga_steps :: "step_row list"
  saga_poll_tasks :: "poll_task list"
  next_poll_id :: int

definition empty_db :: db where
  "empty_db = \<lparr>saga_transactions = [], saga_steps = [], saga_poll_tasks = [], next_poll_id = 1\<rparr>"

text \<open>\<^verbatim>\<open>UPDATE ... SET f WHERE P\<close> on the rows of a table.\<close>

definition update_where :: "('r \<Rightarrow> bool) \<Rightarrow> ('r \<Rightarrow> 'r) \<Rightarrow> 'r list \<Rightarrow> 'r list" where
  "update_where P f rows = map (\<lambda>r. if P r then f r else r) rows"

definition count_where :: "('r \<Rightarrow> bool) \<Rightarrow> 'r list \<Rightarrow> nat" where
  "count_where P rows = length (filter P rows)"

definition find_tx :: "db \<Rightarrow> string \<Rightarrow> tx_row option" where
  "find_tx d i = find (\<lambda>r. tx_id r = i) (saga_transactions d)"

definition find_step :: "db \<Rightarrow> string \<Rightarrow> step_row option" where
  "find_step d i = find (\<lambda>r. st_id r = i) (saga_steps d)"

definition find_poll :: "db \<Rightarrow> string \<Rightarrow> poll_task option" where
  "find_poll d i = find (\<lambda>r. pt_step_id r = i) (saga_poll_tasks d)"

text \<open>The constraints the schema declares.\<close>

definition db_ok :: "db \<Rightarrow> bool" where
  "db_ok d \<longleftrightarrow>
     distinct (map tx_id (saga_transactions d)) \<and>
     distinct (map st_id (saga_steps d)) \<and>
     distinct (map (\<lambda>s. (st_tx_id s, st_index s)) (saga_steps d)) \<and>
     (\<forall>s \<in> set (saga_steps d). st_tx_id s \<in> tx_id ` set (saga_transactions d)) \<and>
     distinct (map pt_step_id (saga_poll_tasks d)) \<and>
     distinct (map pt_id (saga_poll_tasks d)) \<and>
     (\<forall>p \<in> set (saga_poll_tasks d). pt_step_id p \<in> st_id ` set (saga_steps d) \<and> pt_id p < next_poll_id d)"

lemma length_update_where [simp]: "length (update_where P f rows) = length rows"
  by (simp add: update_where_def)

lemma map_update_where:
  "(\<And>r. P r \<Longrightarrow> g (f r) = g r) \<Longrightarrow> map g (update_where P f rows) = map g rows"
  by (simp add: update_where_def)

lemma image_update_where:
  "(\<And>r. P r \<Longrightarrow> g (f r) = g r) \<Longrightarrow> g ` set (update_where P f rows) = g ` set rows"
  using map_update_where [of P g f rows] by (metis list.set_map)

lemma find_update_where:
  assumes "\<And>r. P r \<Longrightarrow> k (f r) = k r"
  shows "find (\<lambda>r. k r = i) (update_where P f rows) =
     map_option (\<lambda>r. if P r then f r else r) (find (\<lambda>r. k r = i) rows)"
  using assms by (induction rows) (auto simp: update_where_def)

lemma count_where_pos: "0 < count_where P rows \<longleftrightarrow> (\<exists>r \<in> set rows. P r)"
  by (auto simp: count_where_def filter_empty_conv)

lemma count_where_0 [simp]: "count_where P rows = 0 \<longleftrightarrow> (\<forall>r \<in> set rows. \<not> P r)"
  by (auto simp: count_where_def filter_empty_conv)

lemma update_where_none: "(\<forall>r \<in> set rows. \<not> P r) \<Longrightarrow> update_where P f rows = rows"
  by (induction rows) (auto simp: update_where_def)

lemma find_key_iff:
  "distinct (map k rows) \<Longrightarrow> find (\<lambda>r. k r = i) rows = Some x \<longleftrightarrow> x \<in> set rows \<and> k x = i"
  by (induction rows) auto

lemma find_key_None: "find (\<lambda>r. k r = i) rows = None \<longleftrightarrow> i \<notin> k ` set rows"
  by (auto simp: find_None_iff)

lemma find_txD: "find_tx d i = Some r \<Longrightarrow> tx_id r = i \<and> r \<in> set (saga_transactions d)"
  by (auto simp: find_tx_def find_Some_iff)

lemma find_stepD: "find_step d i = Some r \<Longrightarrow> st_id r = i \<and> r \<in> set (saga_steps d)"
  by (auto simp: find_step_def find_Some_iff)

section \<open>Contexts\<close>

text \<open>
  A \<^verbatim>\<open>context.Context\<close>: its deadline, whether that deadline is the transaction's own (then
  the cause of its expiry is \<^verbatim>\<open>errTransactionExecutionTimeout\<close>), whether it is detached from the
  cancellation of its parents, the trace it carries and the ids the logger stores in it.
\<close>

record gctx =
  cx_deadline :: "int option"
  cx_tx_deadline :: bool
  cx_detached :: bool
  cx_trace :: "trace_context option"
  cx_log_trace :: string
  cx_log_span :: string

definition background :: gctx where
  "background = \<lparr>cx_deadline = None, cx_tx_deadline = False, cx_detached = False, cx_trace = None,
     cx_log_trace = '''', cx_log_span = ''''\<rparr>"

section \<open>The world\<close>

text \<open>
  What a database call meets: \<open>fl_at\<close> is the position and the error of the first underlying
  call that fails, and \<open>fl_lost\<close> tells whether a failing write (or commit) took effect all the
  same, its acknowledgement being lost.
\<close>

record faults =
  fl_at :: "(nat \<times> gerr) option"
  fl_lost :: bool

definition no_faults :: faults where
  "no_faults = \<lparr>fl_at = None, fl_lost = False\<rparr>"

definition fault :: "faults \<Rightarrow> nat \<Rightarrow> gerr option" where
  "fault F k = (case fl_at F of Some (j, e) \<Rightarrow> (if j = k then Some e else None) | None \<Rightarrow> None)"

text \<open>
  One tick belongs to each call that takes time: how long it takes, whether the root context is
  cancelled or the component is stopped meanwhile, the faults of the call, the rows other
  sessions hold locked (by key), and what the other sessions write before the call takes
  effect.
\<close>

record tick =
  tk_dt :: nat
  tk_cancel :: bool
  tk_stop :: bool
  tk_fault :: faults
  tk_skip :: "string \<Rightarrow> bool"
  tk_env :: "db \<Rightarrow> db"

definition quiet_tick :: tick where
  "quiet_tick = \<lparr>tk_dt = 0, tk_cancel = False, tk_stop = False, tk_fault = no_faults,
     tk_skip = (\<lambda>_. False), tk_env = (\<lambda>d. d)\<rparr>"

record http_response =
  hr_status :: int
  hr_body :: string
  hr_read_error :: "gerr option"

datatype PollResult =
  PollResultPending | PollResultSuccess | PollResultFailure | PollResultTimeout | PollResultError

text \<open>What ends a wait for a poll result, when no result is buffered yet.\<close>

datatype wait_event = WaitDone | WaitStop | WaitNotify PollResult

record world =
  wdb :: db
  now :: int
  ticks :: "tick list"
  cancelled_at :: "int option"
  stop_closed :: bool
  net :: "(gerr + http_response) list"
  sent :: "request list"
  entropy :: string
  uuids :: "string list"
  activeTx :: "string list"
  taskQueue :: "string list"
  notifyChan :: "(string \<times> PollResult option) list"
  waits :: "wait_event list"

type_synonym 'a prog = "(world, 'a) state"

text \<open>A world at rest: empty tables, a clock at 0, nothing scheduled.\<close>

definition idle_world :: world where
  "idle_world = \<lparr>wdb = empty_db, now = 0, ticks = [], cancelled_at = None, stop_closed = False,
     net = [], sent = [], entropy = '''', uuids = [], activeTx = [], taskQueue = [], notifyChan = [],
     waits = []\<rparr>"

definition next_tick :: "world \<Rightarrow> tick" where
  "next_tick w = (case ticks w of [] \<Rightarrow> quiet_tick | tk # _ \<Rightarrow> tk)"

text \<open>A call ends: the clock and the signals advance, and the tick is used up.\<close>

definition pass :: "int \<Rightarrow> world \<Rightarrow> world" where
  "pass t w = (let tk = next_tick w in w\<lparr>
     now := t,
     ticks := tl (ticks w),
     cancelled_at := (if tk_cancel tk \<and> cancelled_at w = None then Some t else cancelled_at w),
     stop_closed := (stop_closed w \<or> tk_stop tk)\<rparr>)"

subsection \<open>Contexts in the world\<close>

definition deadline_passed :: "gctx \<Rightarrow> world \<Rightarrow> bool" where
  "deadline_passed ctx w = (case cx_deadline ctx of None \<Rightarrow> False | Some d \<Rightarrow> d \<le> now w)"

definition cancel_seen :: "gctx \<Rightarrow> world \<Rightarrow> int option" where
  "cancel_seen ctx w =
     (if cx_detached ctx then None
      else case cancelled_at w of None \<Rightarrow> None | Some c \<Rightarrow> (if c \<le> now w then Some c else None))"

text \<open>The parent was cancelled before the deadline: then that, and not the deadline, is the cause.\<close>

definition cancelled_first :: "gctx \<Rightarrow> world \<Rightarrow> bool" where
  "cancelled_first ctx w =
     (case cancel_seen ctx w of
        None \<Rightarrow> False
      | Some c \<Rightarrow> (case cx_deadline ctx of None \<Rightarrow> True | Some d \<Rightarrow> c < d \<or> now w < d))"

definition DeadlineExceeded :: gerr where
  "DeadlineExceeded = GErr [ContextError] ''context deadline exceeded''"

definition Canceled :: gerr where
  "Canceled = GErr [ContextError] ''context canceled''"

text \<open>\<^verbatim>\<open>ctx.Err()\<close>\<close>

definition ctx_Err :: "gctx \<Rightarrow> world \<Rightarrow> gerr option" where
  "ctx_Err ctx w =
     (if cancelled_first ctx w then Some Canceled
      else if deadline_passed ctx w then Some DeadlineExceeded
      else None)"

text \<open>\<^verbatim>\<open>context.WithTimeout\<close> and \<^verbatim>\<open>context.WithDeadline\<close>: the earlier deadline wins.\<close>

definition with_deadline :: "gctx \<Rightarrow> int \<Rightarrow> gctx" where
  "with_deadline ctx d =
     (case cx_deadline ctx of
        Some p \<Rightarrow> (if p < d then ctx else ctx\<lparr>cx_deadline := Some d, cx_tx_deadline := False\<rparr>)
      | None \<Rightarrow> ctx\<lparr>cx_deadline := Some d, cx_tx_deadline := False\<rparr>)"

subsection \<open>Primitives\<close>

definition time_now :: "int prog" where
  "time_now = reads now"

definition second :: int where
  "second = 1000000000"

text \<open>
  A call of the store: the other sessions write, then the call takes effect at once. Its body
  sees the faults, the locked rows, the instance's clock when the call was made, the clock when
  the statement runs (\<^verbatim>\<open>NOW()\<close>), and the tables. A context that is already over makes the
  first underlying call fail before anything reaches the database.
\<close>

definition store_call ::
  "gctx \<Rightarrow> (faults \<Rightarrow> (string \<Rightarrow> bool) \<Rightarrow> int \<Rightarrow> int \<Rightarrow> db \<Rightarrow> 'a \<times> db) \<Rightarrow> 'a prog" where
  "store_call ctx body = State (\<lambda>w.
     let tk = next_tick w;
         t = now w + int (tk_dt tk);
         F = (case ctx_Err ctx w of
                Some e \<Rightarrow> \<lparr>fl_at = Some (0, e), fl_lost = False\<rparr>
              | None \<Rightarrow> tk_fault tk);
         (r, d) = body F (tk_skip tk) (now w) t (tk_env tk (wdb w))
     in (r, (pass t w)\<lparr>wdb := d\<rparr>))"

text \<open>
  \<^verbatim>\<open>client.Do(req)\<close>: a context that is over fails the call before it is sent; otherwise the
  request goes out and the peer's answer, or the transport's error, is the next one of \<open>net\<close>.
\<close>

definition http_do :: "gctx \<Rightarrow> request \<Rightarrow> (gerr + http_response) prog" where
  "http_do ctx req = State (\<lambda>w.
     (case ctx_Err ctx w of
        Some e \<Rightarrow> (Inl e, w)
      | None \<Rightarrow>
          (let w' = (pass (now w + int (tk_dt (next_tick w))) w)\<lparr>sent := sent w @ [req]\<rparr>
           in case net w of
                [] \<Rightarrow> (Inl (errors_New ''connection refused''), w')
              | a # as \<Rightarrow> (a, w'\<lparr>net := as\<rparr>))))"

text \<open>\<^verbatim>\<open>time.Sleep\<close>\<close>

definition sleep :: "int \<Rightarrow> unit prog" where
  "sleep d = modifies (\<lambda>w. pass (now w + max 0 d + int (tk_dt (next_tick w))) w)"

text \<open>
  \<^verbatim>\<open>select { case <-ctx.Done(): return ctx.Err() case <-time.After(d): }\<close>, and the same with a
  timer: the context's end or the timer, whichever comes first.
\<close>

definition sleep_ctx :: "gctx \<Rightarrow> int \<Rightarrow> gerr option prog" where
  "sleep_ctx ctx d = State (\<lambda>w.
     (case ctx_Err ctx w of
        Some e \<Rightarrow> (Some e, w)
      | None \<Rightarrow>
          (let wake = now w + max 0 d;
               early = (if tk_cancel (next_tick w) \<and> \<not> cx_detached ctx
                        then min wake (now w + int (tk_dt (next_tick w))) else wake);
               t = (case cx_deadline ctx of None \<Rightarrow> early | Some e \<Rightarrow> min early e);
               w' = pass t w
           in (if t < wake then ctx_Err ctx w' else None, w'))))"

definition new_uuid :: "string prog" where
  "new_uuid = State (\<lambda>w. case uuids w of [] \<Rightarrow> ('''', w) | u # us \<Rightarrow> (u, w\<lparr>uuids := us\<rparr>))"

definition use_entropy :: "(string \<Rightarrow> 'a \<times> string) \<Rightarrow> 'a prog" where
  "use_entropy f = State (\<lambda>w. case f (entropy w) of (x, rest) \<Rightarrow> (x, w\<lparr>entropy := rest\<rparr>))"

section \<open>Contexts of the engine\<close>

definition sagaStoreWriteTimeout :: int where
  "sagaStoreWriteTimeout = 5 * second"

definition errTransactionExecutionTimeout :: gerr where
  "errTransactionExecutionTimeout = GErr [ErrTransactionExecutionTimeout] ''transaction timeout''"

definition withTransactionExecutionContext :: "gctx \<Rightarrow> transaction \<Rightarrow> gctx" where
  "withTransactionExecutionContext ctx tx =
     (case timeout_at tx of
        None \<Rightarrow> ctx
      | Some d \<Rightarrow>
          (case cx_deadline ctx of
             Some p \<Rightarrow> (if \<not> d < p then ctx
                        else ctx\<lparr>cx_deadline := Some d, cx_tx_deadline := True\<rparr>)
           | None \<Rightarrow> ctx\<lparr>cx_deadline := Some d, cx_tx_deadline := True\<rparr>))"

definition transactionTimedOut :: "transaction \<Rightarrow> world \<Rightarrow> bool" where
  "transactionTimedOut tx w = (case timeout_at tx of None \<Rightarrow> False | Some d \<Rightarrow> \<not> now w < d)"

definition transactionExecutionTimedOut :: "gctx \<Rightarrow> world \<Rightarrow> bool" where
  "transactionExecutionTimedOut ctx w \<longleftrightarrow>
     cx_tx_deadline ctx \<and> deadline_passed ctx w \<and> \<not> cancelled_first ctx w"

definition durableStoreContext :: "gctx \<Rightarrow> int \<Rightarrow> gctx" where
  "durableStoreContext ctx t =
     ctx\<lparr>cx_detached := True, cx_deadline := Some (t + sagaStoreWriteTimeout), cx_tx_deadline := False\<rparr>"

text \<open>A store call through a durable context.\<close>

definition durably :: "gctx \<Rightarrow> (gctx \<Rightarrow> 'a prog) \<Rightarrow> 'a prog" where
  "durably ctx m = do { t \<leftarrow> time_now; m (durableStoreContext ctx t) }"

end
