(* ===== verification/Saga_Store.thy ===== *)
theory Saga_Store
  imports Saga_World
begin

text \<open>
  \<^verbatim>\<open>saga/store.go\<close>: the operations of \<^verbatim>\<open>PostgresStore\<close>, statement by statement. The
  underlying calls of an operation (begin, query, row iteration, exec, rows affected, commit) are
  numbered from 0 in the order the code makes them; each may fail, and a failed write or commit may
  have taken effect. Everything between \<^verbatim>\<open>BeginTx\<close> and \<^verbatim>\<open>Commit\<close> is one atomic change.
\<close>

section \<open>Rows and structs\<close>

definition marshal_map :: "stdlib \<Rightarrow> gomap \<Rightarrow> gerr + string" where
  "marshal_map L m =
     (case json_marshal L (of_gomap m) of
        None \<Rightarrow> Inl (errors_New ''json: unsupported value'')
      | Some s \<Rightarrow> Inr s)"

definition load_json :: "stdlib \<Rightarrow> string \<Rightarrow> string option \<Rightarrow> gerr + gomap" where
  "load_json L what col =
     (case col of
        None \<Rightarrow> Inr None
      | Some s \<Rightarrow>
          (if s = '''' then Inr None
           else case unmarshal_map L s of
                  None \<Rightarrow> Inl (wrap_err what (errors_New ''json: cannot unmarshal''))
                | Some m \<Rightarrow> Inr m))"

definition scan_tx :: "stdlib \<Rightarrow> tx_row \<Rightarrow> gerr + transaction" where
  "scan_tx L r =
     (case load_json L ''failed to unmarshal payload'' (tx_payload r) of
        Inl e \<Rightarrow> Inl e
      | Inr p \<Rightarrow> Inr \<lparr>tx_id = tx_id r, tx_status = tx_status r, tx_payload = p,
          current_step = current_step r, created_at = created_at r, updated_at = updated_at r,
          finished_at = finished_at r, timeout_at = timeout_at r,
          tx_retry_count = tx_retry_count r, tx_last_error = tx_last_error r\<rparr>)"

definition scanStep :: "stdlib \<Rightarrow> step_row \<Rightarrow> gerr + step" where
  "scanStep L r =
     (case load_json L ''failed to unmarshal action payload'' (action_payload r) of
        Inl e \<Rightarrow> Inl e
      | Inr ap \<Rightarrow>
     (case load_json L ''failed to unmarshal action response'' (action_response r) of
        Inl e \<Rightarrow> Inl e
      | Inr ar \<Rightarrow>
     (case load_json L ''failed to unmarshal compensate payload'' (compensate_payload r) of
        Inl e \<Rightarrow> Inl e
      | Inr cp \<Rightarrow> Inr \<lparr>st_id = st_id r, st_tx_id = st_tx_id r, st_index = st_index r,
          st_name = st_name r, st_type = st_type r, st_status = st_status r,
          action_method = action_method r, action_url = action_url r, action_payload = ap,
          action_response = ar, auth_ak = auth_ak r,
          compensate_method = compensate_method r, compensate_url = compensate_url r,
          compensate_payload = cp,
          poll_url = poll_url r, poll_method = poll_method r,
          poll_interval_sec = poll_interval_sec r, poll_max_times = poll_max_times r,
          poll_count = poll_count r, poll_success_path = poll_success_path r,
          poll_success_value = poll_success_value r, poll_failure_path = poll_failure_path r,
          poll_failure_value = poll_failure_value r, next_poll_at = next_poll_at r,
          st_retry_count = st_retry_count r, max_retry = max_retry r,
          st_last_error = st_last_error r, st_started_at = st_started_at r,
          st_finished_at = st_finished_at r\<rparr>)))"

text \<open>The scanning loops: the first row that does not scan ends them.\<close>

fun scan_rows :: "('r \<Rightarrow> gerr + 'a) \<Rightarrow> 'r list \<Rightarrow> gerr + 'a list" where
  "scan_rows f [] = Inr []"
| "scan_rows f (r # rs) =
     (case f r of
        Inl e \<Rightarrow> Inl e
      | Inr x \<Rightarrow> (case scan_rows f rs of Inl e \<Rightarrow> Inl e | Inr xs \<Rightarrow> Inr (x # xs)))"

text \<open>The rows that the INSERT statements write; columns they do not name take their defaults.\<close>

definition tx_insert_row :: "stdlib \<Rightarrow> transaction \<Rightarrow> string \<Rightarrow> tx_row" where
  "tx_insert_row L tx payload = \<lparr>tx_id = tx_id tx, tx_status = tx_status tx,
     tx_payload = Some (jsonb L payload), current_step = current_step tx,
     created_at = created_at tx, updated_at = updated_at tx, finished_at = None,
     timeout_at = timeout_at tx, tx_retry_count = tx_retry_count tx,
     tx_last_error = tx_last_error tx, locked_by = None, locked_until = None\<rparr>"

definition step_insert_row :: "stdlib \<Rightarrow> step \<Rightarrow> string \<Rightarrow> string \<Rightarrow> step_row" where
  "step_insert_row L s ap cp = \<lparr>st_id = st_id s, st_tx_id = st_tx_id s, st_index = st_index s,
     st_name = st_name s, st_type = st_type s, st_status = st_status s,
     action_method = action_method s, action_url = action_url s,
     action_payload = Some (jsonb L ap), action_response = None, auth_ak = auth_ak s,
     compensate_method = compensate_method s, compensate_url = compensate_url s,
     compensate_payload = Some (jsonb L cp),
     poll_url = poll_url s, poll_method = poll_method s,
     poll_interval_sec = poll_interval_sec s, poll_max_times = poll_max_times s, poll_count = 0,
     poll_success_path = poll_success_path s, poll_success_value = poll_success_value s,
     poll_failure_path = poll_failure_path s, poll_failure_value = poll_failure_value s,
     next_poll_at = None, st_retry_count = 0, max_retry = max_retry s, st_last_error = '''',
     st_started_at = None, st_finished_at = None\<rparr>"

text \<open>The constraints an INSERT can violate.\<close>

definition insert_tx_row :: "tx_row \<Rightarrow> db \<Rightarrow> gerr + db" where
  "insert_tx_row r d =
     (if tx_id r \<in> tx_id ` set (saga_transactions d)
      then Inl (errors_New ''pq: duplicate key value violates unique constraint'')
      else Inr (d\<lparr>saga_transactions := saga_transactions d @ [r]\<rparr>))"

definition insert_step_row :: "step_row \<Rightarrow> db \<Rightarrow> gerr + db" where
  "insert_step_row r d =
     (if st_id r \<in> st_id ` set (saga_steps d) \<or>
         (st_tx_id r, st_index r) \<in> (\<lambda>s. (st_tx_id s, st_index s)) ` set (saga_steps d)
      then Inl (errors_New ''pq: duplicate key value violates unique constraint'')
      else if st_tx_id r \<notin> tx_id ` set (saga_transactions d)
      then Inl (errors_New ''pq: insert or update violates foreign key constraint'')
      else Inr (d\<lparr>saga_steps := saga_steps d @ [r]\<rparr>))"

section \<open>Statements\<close>

text \<open>One auto-committed UPDATE and its row count.\<close>

definition run_update ::
  "faults \<Rightarrow> string \<Rightarrow> (db \<Rightarrow> db) \<Rightarrow> (db \<Rightarrow> nat) \<Rightarrow> db \<Rightarrow> (gerr + nat) \<times> db" where
  "run_update F what f n d =
     (case fault F 0 of
        Some e \<Rightarrow> (Inl (wrap_err what e), if fl_lost F then f d else d)
      | None \<Rightarrow>
          (case fault F 1 of
             Some e \<Rightarrow> (Inl (wrap_err ''failed to get rows affected'' e), f d)
           | None \<Rightarrow> (Inr (n d), f d)))"

text \<open>The \<^verbatim>\<open>rowsAffected == 0\<close> check of the operations that need a row.\<close>

definition need_row :: "string \<Rightarrow> string \<Rightarrow> (gerr + nat) \<times> db \<Rightarrow> (gerr + unit) \<times> db" where
  "need_row missing key res =
     (case res of
        (Inl e, d) \<Rightarrow> (Inl e, d)
      | (Inr n, d) \<Rightarrow>
          (if n = 0 then Inl (errors_New (missing @ '': '' @ key)) else Inr (), d))"

definition got_row :: "(gerr + nat) \<times> db \<Rightarrow> (gerr + bool) \<times> db" where
  "got_row res = (case res of (Inl e, d) \<Rightarrow> (Inl e, d) | (Inr n, d) \<Rightarrow> (Inr (0 < n), d))"

text \<open>One auto-committed statement whose row count the code does not read.\<close>

definition run_exec :: "faults \<Rightarrow> string \<Rightarrow> (db \<Rightarrow> db) \<Rightarrow> db \<Rightarrow> (gerr + unit) \<times> db" where
  "run_exec F what f d =
     (case fault F 0 of
        Some e \<Rightarrow> (Inl (wrap_err what e), if fl_lost F then f d else d)
      | None \<Rightarrow> (Inr (), f d))"

text \<open>The commit of a transaction that turns \<open>d\<close> into \<open>d'\<close>.\<close>

definition commit :: "faults \<Rightarrow> nat \<Rightarrow> string \<Rightarrow> 'a \<Rightarrow> db \<Rightarrow> db \<Rightarrow> (gerr + 'a) \<times> db" where
  "commit F k what x d d' =
     (case fault F k of
        Some e \<Rightarrow> (Inl (wrap_err what e), if fl_lost F then d' else d)
      | None \<Rightarrow> (Inr x, d'))"

definition update_tx :: "(tx_row \<Rightarrow> bool) \<Rightarrow> (tx_row \<Rightarrow> tx_row) \<Rightarrow> db \<Rightarrow> db" where
  "update_tx P f d = d\<lparr>saga_transactions := update_where P f (saga_transactions d)\<rparr>"

definition count_tx :: "(tx_row \<Rightarrow> bool) \<Rightarrow> db \<Rightarrow> nat" where
  "count_tx P d = count_where P (saga_transactions d)"

definition update_step :: "string \<Rightarrow> (step_row \<Rightarrow> step_row) \<Rightarrow> db \<Rightarrow> db" where
  "update_step i f d = d\<lparr>saga_steps := update_where (\<lambda>r. st_id r = i) f (saga_steps d)\<rparr>"

definition count_step :: "string \<Rightarrow> db \<Rightarrow> nat" where
  "count_step i d = count_where (\<lambda>r. st_id r = i) (saga_steps d)"

definition update_poll :: "string \<Rightarrow> (poll_task \<Rightarrow> poll_task) \<Rightarrow> db \<Rightarrow> db" where
  "update_poll i f d =
     d\<lparr>saga_poll_tasks := update_where (\<lambda>r. pt_step_id r = i) f (saga_poll_tasks d)\<rparr>"

definition count_poll :: "string \<Rightarrow> db \<Rightarrow> nat" where
  "count_poll i d = count_where (\<lambda>r. pt_step_id r = i) (saga_poll_tasks d)"

section \<open>Transactions\<close>

definition CreateTransaction :: "stdlib \<Rightarrow> gctx \<Rightarrow> transaction \<Rightarrow> (gerr + unit) prog" where
  "CreateTransaction L ctx tx =
     (case marshal_map L (tx_payload tx) of
        Inl e \<Rightarrow> State_Monad.return (Inl (wrap_err ''failed to marshal payload'' e))
      | Inr p \<Rightarrow> store_call ctx (\<lambda>F _ _ _ d.
          (case insert_tx_row (tx_insert_row L tx p) d of
             Inl e \<Rightarrow> (Inl (wrap_err ''failed to create transaction''
                             (case fault F 0 of Some e' \<Rightarrow> e' | None \<Rightarrow> e)), d)
           | Inr d' \<Rightarrow> run_exec F ''failed to create transaction'' (\<lambda>_. d') d)))"

text \<open>The loop that inserts the steps; the exec of the first one is underlying call \<open>k\<close>.\<close>

fun insert_steps :: "stdlib \<Rightarrow> faults \<Rightarrow> nat \<Rightarrow> step list \<Rightarrow> db \<Rightarrow> gerr + db" where
  "insert_steps L F k [] d = Inr d"
| "insert_steps L F k (s # ss) d =
     (case marshal_map L (action_payload s) of
        Inl e \<Rightarrow> Inl (wrap_err ''failed to marshal action payload'' e)
      | Inr ap \<Rightarrow>
     (case marshal_map L (compensate_payload s) of
        Inl e \<Rightarrow> Inl (wrap_err ''failed to marshal compensate payload'' e)
      | Inr cp \<Rightarrow>
     (case fault F k of
        Some e \<Rightarrow> Inl (wrap_err (''failed to create step '' @ st_id s) e)
      | None \<Rightarrow>
     (case insert_step_row (step_insert_row L s ap cp) d of
        Inl e \<Rightarrow> Inl (wrap_err (''failed to create step '' @ st_id s) e)
      | Inr d' \<Rightarrow> insert_steps L F (k + 1) ss d'))))"

definition create_with_steps ::
  "stdlib \<Rightarrow> transaction \<Rightarrow> step list \<Rightarrow> faults \<Rightarrow> db \<Rightarrow> (gerr + unit) \<times> db" where
  "create_with_steps L tx steps F d =
     (case fault F 0 of
        Some e \<Rightarrow> (Inl (wrap_err ''failed to begin transaction'' e), d)
      | None \<Rightarrow>
     (case marshal_map L (tx_payload tx) of
        Inl e \<Rightarrow> (Inl (wrap_err ''failed to marshal payload'' e), d)
      | Inr p \<Rightarrow>
     (case fault F 1 of
        Some e \<Rightarrow> (Inl (wrap_err ''failed to create transaction'' e), d)
      | None \<Rightarrow>
     (case insert_tx_row (tx_insert_row L tx p) d of
        Inl e \<Rightarrow> (Inl (wrap_err ''failed to create transaction'' e), d)
      | Inr d1 \<Rightarrow>
          (if steps = [] then commit F 2 ''failed to commit transaction'' () d d1
           else case fault F 2 of
                  Some e \<Rightarrow> (Inl (wrap_err ''failed to prepare statement'' e), d)
                | None \<Rightarrow>
                    (case insert_steps L F 3 steps d1 of
                       Inl e \<Rightarrow> (Inl e, d)
                     | Inr d2 \<Rightarrow>
                         commit F (3 + length steps) ''failed to commit transaction'' () d d2))))))"

definition CreateTransactionWithSteps ::
  "stdlib \<Rightarrow> gctx \<Rightarrow> transaction \<Rightarrow> step list \<Rightarrow> (gerr + unit) prog" where
  "CreateTransactionWithSteps L ctx tx steps =
     store_call ctx (\<lambda>F _ _ _ d. create_with_steps L tx steps F d)"

definition GetTransaction :: "stdlib \<Rightarrow> gctx \<Rightarrow> string \<Rightarrow> (gerr + transaction option) prog" where
  "GetTransaction L ctx i = store_call ctx (\<lambda>F _ _ _ d.
     (case fault F 0 of
        Some e \<Rightarrow> (Inl (wrap_err ''failed to get transaction'' e), d)
      | None \<Rightarrow>
          (case find_tx d i of
             None \<Rightarrow> (Inr None, d)
           | Some r \<Rightarrow> (map_sum id Some (scan_tx L r), d))))"

definition set_tx_status ::
  "tx_status \<Rightarrow> string \<Rightarrow> int \<Rightarrow> int \<Rightarrow> tx_row \<Rightarrow> tx_row" where
  "set_tx_status s err t0 t r = r\<lparr>tx_status := s, tx_last_error := err, updated_at := t,
     finished_at := (if s = TxStatusSucceeded \<or> s = TxStatusFailed then Some t0 else None)\<rparr>"

definition UpdateTransactionStatus ::
  "gctx \<Rightarrow> string \<Rightarrow> tx_status \<Rightarrow> string \<Rightarrow> (gerr + unit) prog" where
  "UpdateTransactionStatus ctx i s err = store_call ctx (\<lambda>F _ t0 t d.
     need_row ''transaction not found'' i
       (run_update F ''failed to update transaction status''
          (update_tx (\<lambda>r. tx_id r = i) (set_tx_status s err t0 t))
          (count_tx (\<lambda>r. tx_id r = i)) d))"

definition UpdateTransactionStep :: "gctx \<Rightarrow> string \<Rightarrow> int \<Rightarrow> (gerr + unit) prog" where
  "UpdateTransactionStep ctx i n = store_call ctx (\<lambda>F _ _ t d.
     need_row ''transaction not found'' i
       (run_update F ''failed to update transaction step''
          (update_tx (\<lambda>r. tx_id r = i) (\<lambda>r. r\<lparr>current_step := n, updated_at := t\<rparr>))
          (count_tx (\<lambda>r. tx_id r = i)) d))"

section \<open>Steps\<close>

definition CreateSteps :: "stdlib \<Rightarrow> gctx \<Rightarrow> step list \<Rightarrow> (gerr + unit) prog" where
  "CreateSteps L ctx steps =
     (if steps = [] then State_Monad.return (Inr ())
      else store_call ctx (\<lambda>F _ _ _ d.
        (case fault F 0 of
           Some e \<Rightarrow> (Inl (wrap_err ''failed to begin transaction'' e), d)
         | None \<Rightarrow>
        (case fault F 1 of
           Some e \<Rightarrow> (Inl (wrap_err ''failed to prepare statement'' e), d)
         | None \<Rightarrow>
        (case insert_steps L F 2 steps d of
           Inl e \<Rightarrow> (Inl e, d)
         | Inr d' \<Rightarrow> commit F (2 + length steps) ''failed to commit transaction'' () d d')))))"

definition GetSteps :: "stdlib \<Rightarrow> gctx \<Rightarrow> string \<Rightarrow> (gerr + step list) prog" where
  "GetSteps L ctx txID = store_call ctx (\<lambda>F _ _ _ d.
     (case fault F 0 of
        Some e \<Rightarrow> (Inl (wrap_err ''failed to query steps'' e), d)
      | None \<Rightarrow>
     (case scan_rows (scanStep L)
             (sort_key st_index (filter (\<lambda>r. st_tx_id r = txID) (saga_steps d))) of
        Inl e \<Rightarrow> (Inl e, d)
      | Inr ss \<Rightarrow>
     (case fault F 1 of
        Some e \<Rightarrow> (Inl (wrap_err ''error iterating steps'' e), d)
      | None \<Rightarrow> (Inr ss, d)))))"

definition GetStep :: "stdlib \<Rightarrow> gctx \<Rightarrow> string \<Rightarrow> (gerr + step option) prog" where
  "GetStep L ctx i = store_call ctx (\<lambda>F _ _ _ d.
     (case fault F 0 of
        Some e \<Rightarrow> (Inl e, d)
      | None \<Rightarrow>
          (case find_step d i of
             None \<Rightarrow> (Inr None, d)
           | Some r \<Rightarrow> (map_sum id Some (scanStep L r), d))))"

definition set_step_status ::
  "step_status \<Rightarrow> string \<Rightarrow> int \<Rightarrow> step_row \<Rightarrow> step_row" where
  "set_step_status s err t0 r = r\<lparr>st_status := s, st_last_error := err,
     st_started_at := (if s = StepStatusRunning then Some t0 else st_started_at r),
     st_finished_at := (if s = StepStatusSucceeded \<or> s = StepStatusFailed \<or> s = StepStatusCompensated
                        then Some t0 else None)\<rparr>"

definition UpdateStepStatus ::
  "gctx \<Rightarrow> string \<Rightarrow> step_status \<Rightarrow> string \<Rightarrow> (gerr + unit) prog" where
  "UpdateStepStatus ctx i s err = store_call ctx (\<lambda>F _ t0 _ d.
     need_row ''step not found'' i
       (run_update F ''failed to update step status''
          (update_step i (set_step_status s err t0)) (count_step i) d))"

definition UpdateStepResponse :: "stdlib \<Rightarrow> gctx \<Rightarrow> string \<Rightarrow> gomap \<Rightarrow> (gerr + unit) prog" where
  "UpdateStepResponse L ctx i resp =
     (case marshal_map L resp of
        Inl e \<Rightarrow> State_Monad.return (Inl (wrap_err ''failed to marshal response'' e))
      | Inr s \<Rightarrow> store_call ctx (\<lambda>F _ _ _ d.
          need_row ''step not found'' i
            (run_update F ''failed to update step response''
               (update_step i (\<lambda>r. r\<lparr>action_response := Some (jsonb L s)\<rparr>)) (count_step i) d)))"

definition IncrementStepRetry :: "gctx \<Rightarrow> string \<Rightarrow> (gerr + unit) prog" where
  "IncrementStepRetry ctx i = store_call ctx (\<lambda>F _ _ _ d.
     need_row ''step not found'' i
       (run_update F ''failed to increment step retry''
          (update_step i (\<lambda>r. r\<lparr>st_retry_count := st_retry_count r + 1\<rparr>)) (count_step i) d))"

definition IncrementStepPollCount :: "gctx \<Rightarrow> string \<Rightarrow> int \<Rightarrow> (gerr + unit) prog" where
  "IncrementStepPollCount ctx i nextPollAt = store_call ctx (\<lambda>F _ _ _ d.
     (let d1 = update_step i (\<lambda>r. r\<lparr>poll_count := poll_count r + 1, next_poll_at := Some nextPollAt\<rparr>) d;
          d2 = update_poll i (\<lambda>p. p\<lparr>pt_next_poll_at := nextPollAt\<rparr>) d1
      in case fault F 0 of
        Some e \<Rightarrow> (Inl (wrap_err ''failed to begin transaction'' e), d)
      | None \<Rightarrow>
     (case fault F 1 of
        Some e \<Rightarrow> (Inl (wrap_err ''failed to increment step poll count'' e), d)
      | None \<Rightarrow>
     (case fault F 2 of
        Some e \<Rightarrow> (Inl (wrap_err ''failed to get rows affected'' e), d)
      | None \<Rightarrow>
     (if count_step i d = 0 then (Inl (errors_New (''step not found: '' @ i)), d)
      else case fault F 3 of
        Some e \<Rightarrow> (Inl (wrap_err ''failed to update poll task next poll time'' e), d)
      | None \<Rightarrow>
     (case fault F 4 of
        Some e \<Rightarrow> (Inl (wrap_err ''failed to get poll task rows affected'' e), d)
      | None \<Rightarrow>
     (if count_poll i d1 = 0 then (Inl (errors_New (''poll task not found for step: '' @ i)), d)
      else commit F 5 ''failed to commit poll reschedule'' () d d2)))))))"

section \<open>Poll tasks\<close>

text \<open>
  INSERT ... ON CONFLICT (step_id) DO UPDATE. The sequence value is drawn before the
  conflict is seen.
\<close>

definition upsert_poll :: "poll_task \<Rightarrow> db \<Rightarrow> gerr + db" where
  "upsert_poll task d =
     (if pt_step_id task \<in> pt_step_id ` set (saga_poll_tasks d)
      then Inr (update_poll (pt_step_id task) (\<lambda>p. p\<lparr>pt_next_poll_at := pt_next_poll_at task\<rparr>)
                  (d\<lparr>next_poll_id := next_poll_id d + 1\<rparr>))
      else if pt_step_id task \<notin> st_id ` set (saga_steps d)
      then Inl (errors_New ''pq: insert or update violates foreign key constraint'')
      else Inr (d\<lparr>next_poll_id := next_poll_id d + 1,
                  saga_poll_tasks := saga_poll_tasks d @
                    [task\<lparr>pt_id := next_poll_id d, pt_locked_until := None, pt_locked_by := None\<rparr>]\<rparr>))"

definition CreatePollTask :: "gctx \<Rightarrow> poll_task \<Rightarrow> (gerr + unit) prog" where
  "CreatePollTask ctx task = store_call ctx (\<lambda>F _ _ _ d.
     (case upsert_poll task d of
        Inl e \<Rightarrow> (Inl (wrap_err ''failed to create poll task''
                        (case fault F 0 of Some e' \<Rightarrow> e' | None \<Rightarrow> e)), d)
      | Inr d' \<Rightarrow> run_exec F ''failed to create poll task'' (\<lambda>_. d') d))"

definition DeletePollTask :: "gctx \<Rightarrow> string \<Rightarrow> (gerr + unit) prog" where
  "DeletePollTask ctx i = store_call ctx (\<lambda>F _ _ _ d.
     run_exec F ''failed to delete poll task''
       (\<lambda>d. d\<lparr>saga_poll_tasks := filter (\<lambda>p. pt_step_id p \<noteq> i) (saga_poll_tasks d)\<rparr>) d)"

definition ReleasePollTask :: "gctx \<Rightarrow> string \<Rightarrow> (gerr + unit) prog" where
  "ReleasePollTask ctx i = store_call ctx (\<lambda>F _ _ _ d.
     run_exec F ''failed to release poll task''
       (update_poll i (\<lambda>p. p\<lparr>pt_locked_until := None, pt_locked_by := None\<rparr>)) d)"

text \<open>LIMIT and SKIP LOCKED: rows other sessions hold are passed over before the limit counts.\<close>

definition pick_rows :: "int \<Rightarrow> ('r \<Rightarrow> string) \<Rightarrow> (string \<Rightarrow> bool) \<Rightarrow> 'r list \<Rightarrow> 'r list" where
  "pick_rows limit key skip rows = take (nat limit) (filter (\<lambda>r. \<not> skip (key r)) rows)"

definition poll_due :: "int \<Rightarrow> poll_task \<Rightarrow> bool" where
  "poll_due t p \<longleftrightarrow> pt_next_poll_at p \<le> t \<and>
     (case pt_locked_until p of None \<Rightarrow> True | Some u \<Rightarrow> u < t)"

definition acquire_polls ::
  "string \<Rightarrow> int \<Rightarrow> faults \<Rightarrow> (string \<Rightarrow> bool) \<Rightarrow> int \<Rightarrow> int \<Rightarrow> db \<Rightarrow> (gerr + poll_task list) \<times> db" where
  "acquire_polls inst batch F skip t0 t d =
     (let sel = pick_rows batch pt_step_id skip
                  (sort_key pt_next_poll_at (filter (poll_due t) (saga_poll_tasks d)));
          ids = pt_id ` set sel;
          d' = d\<lparr>saga_poll_tasks := update_where (\<lambda>p. pt_id p \<in> ids)
                   (\<lambda>p. p\<lparr>pt_locked_until := Some (t0 + 120 * second), pt_locked_by := Some inst\<rparr>)
                   (saga_poll_tasks d)\<rparr>
      in case fault F 0 of
        Some e \<Rightarrow> (Inl (wrap_err ''failed to begin transaction'' e), d)
      | None \<Rightarrow>
     (case (if batch < 0 then Some (errors_New ''pq: LIMIT must not be negative'') else fault F 1) of
        Some e \<Rightarrow> (Inl (wrap_err ''failed to query poll tasks'' e), d)
      | None \<Rightarrow>
     (case fault F 2 of
        Some e \<Rightarrow> (Inl (wrap_err ''error iterating poll tasks'' e), d)
      | None \<Rightarrow>
     (case (if sel = [] then None else fault F 3) of
        Some e \<Rightarrow> (Inl (wrap_err ''failed to lock poll tasks'' e), d)
      | None \<Rightarrow> commit F 4 ''failed to commit transaction''
          (map (\<lambda>p. p\<lparr>pt_locked_until := None, pt_locked_by := None\<rparr>) sel) d d'))))"

definition AcquirePollTasks :: "gctx \<Rightarrow> string \<Rightarrow> int \<Rightarrow> (gerr + poll_task list) prog" where
  "AcquirePollTasks ctx inst batch = store_call ctx (acquire_polls inst batch)"

section \<open>Leases\<close>

definition active_status :: "tx_status \<Rightarrow> bool" where
  "active_status s \<longleftrightarrow> s \<in> {TxStatusPending, TxStatusRunning, TxStatusCompensating}"

text \<open>
  \<^verbatim>\<open>locked_by IS NULL OR locked_until < NOW()\<close>; the comparison with a NULL is not true.
\<close>

definition lock_free :: "int \<Rightarrow> tx_row \<Rightarrow> bool" where
  "lock_free t r \<longleftrightarrow> locked_by r = None \<or> (case locked_until r of None \<Rightarrow> False | Some u \<Rightarrow> u < t)"

definition set_lease :: "string \<Rightarrow> int \<Rightarrow> int \<Rightarrow> tx_row \<Rightarrow> tx_row" where
  "set_lease inst until t r = r\<lparr>locked_by := Some inst, locked_until := Some until, updated_at := t\<rparr>"

text \<open>The body that both listings share: select, scan, lease all selected rows, commit.\<close>

definition lease_selected ::
  "stdlib \<Rightarrow> string \<Rightarrow> string \<Rightarrow> string \<Rightarrow> int \<Rightarrow> faults \<Rightarrow> int \<Rightarrow> int \<Rightarrow> bool \<Rightarrow> tx_row list \<Rightarrow> db
    \<Rightarrow> (gerr + transaction list) \<times> db" where
  "lease_selected L query_failed claim_failed inst lease F t0 t limit_ok sel d =
     (let ids = tx_id ` set sel;
          d' = update_tx (\<lambda>r. tx_id r \<in> ids) (set_lease inst (t0 + lease) t) d
      in case fault F 0 of
        Some e \<Rightarrow> (Inl (wrap_err ''failed to begin transaction'' e), d)
      | None \<Rightarrow>
     (case (if limit_ok then fault F 1 else Some (errors_New ''pq: LIMIT must not be negative'')) of
        Some e \<Rightarrow> (Inl (wrap_err query_failed e), d)
      | None \<Rightarrow>
     (case scan_rows (scan_tx L) sel of
        Inl e \<Rightarrow> (Inl e, d)
      | Inr txs \<Rightarrow>
     (case fault F 2 of
        Some e \<Rightarrow> (Inl (wrap_err ''error iterating transactions'' e), d)
      | None \<Rightarrow>
     (case (if sel = [] then None else fault F 3) of
        Some e \<Rightarrow> (Inl (wrap_err claim_failed e), d)
      | None \<Rightarrow> commit F 4 ''failed to commit'' txs d d')))))"

definition recoverable_rows :: "int \<Rightarrow> (string \<Rightarrow> bool) \<Rightarrow> int \<Rightarrow> db \<Rightarrow> tx_row list" where
  "recoverable_rows batch skip t d = pick_rows batch tx_id skip
     (sort_key created_at
        (filter (\<lambda>r. active_status (tx_status r) \<and> lock_free t r) (saga_transactions d)))"

definition ListRecoverableTransactions ::
  "stdlib \<Rightarrow> gctx \<Rightarrow> string \<Rightarrow> int \<Rightarrow> int \<Rightarrow> (gerr + transaction list) prog" where
  "ListRecoverableTransactions L ctx inst batch lease = store_call ctx (\<lambda>F skip t0 t d.
     lease_selected L ''failed to query recoverable transactions'' ''failed to claim transactions''
       inst lease F t0 t (0 \<le> batch) (recoverable_rows batch skip t d) d)"

definition timed_out_rows :: "(string \<Rightarrow> bool) \<Rightarrow> int \<Rightarrow> db \<Rightarrow> tx_row list" where
  "timed_out_rows skip t d = pick_rows 50 tx_id skip
     (sort_key (\<lambda>r. the (timeout_at r))
        (filter (\<lambda>r. tx_status r \<in> {TxStatusRunning, TxStatusCompensating} \<and>
                     (case timeout_at r of None \<Rightarrow> False | Some u \<Rightarrow> u < t) \<and> lock_free t r)
           (saga_transactions d)))"

definition ListTimedOutTransactions ::
  "stdlib \<Rightarrow> gctx \<Rightarrow> string \<Rightarrow> int \<Rightarrow> (gerr + transaction list) prog" where
  "ListTimedOutTransactions L ctx inst lease = store_call ctx (\<lambda>F skip t0 t d.
     lease_selected L ''failed to query timed out transactions''
       ''failed to claim timed out transactions'' inst lease F t0 t True (timed_out_rows skip t d) d)"

text \<open>The WHERE clause of the claim, re-entrant for the holder.\<close>

definition claimable :: "string \<Rightarrow> string \<Rightarrow> int \<Rightarrow> tx_row \<Rightarrow> bool" where
  "claimable txID inst t r \<longleftrightarrow>
     tx_id r = txID \<and> active_status (tx_status r) \<and> (lock_free t r \<or> locked_by r = Some inst)"

definition ClaimTransaction :: "gctx \<Rightarrow> string \<Rightarrow> string \<Rightarrow> int \<Rightarrow> (gerr + bool) prog" where
  "ClaimTransaction ctx txID inst lease = store_call ctx (\<lambda>F _ t0 t d.
     got_row (run_update F ''failed to claim transaction''
       (update_tx (claimable txID inst t) (set_lease inst (t0 + lease) t))
       (count_tx (claimable txID inst t)) d))"

definition ReleaseTransaction :: "gctx \<Rightarrow> string \<Rightarrow> string \<Rightarrow> (gerr + unit) prog" where
  "ReleaseTransaction ctx txID inst = store_call ctx (\<lambda>F _ _ t d.
     run_exec F ''failed to release transaction''
       (update_tx (\<lambda>r. tx_id r = txID \<and> locked_by r = Some inst)
          (\<lambda>r. r\<lparr>locked_by := None, locked_until := None, updated_at := t\<rparr>)) d)"

definition UpdateTransactionStatusCAS ::
  "gctx \<Rightarrow> string \<Rightarrow> tx_status \<Rightarrow> tx_status \<Rightarrow> string \<Rightarrow> (gerr + bool) prog" where
  "UpdateTransactionStatusCAS ctx txID expected new err = store_call ctx (\<lambda>F _ t0 t d.
     got_row (run_update F ''failed to CAS update transaction status''
       (update_tx (\<lambda>r. tx_id r = txID \<and> tx_status r = expected) (set_tx_status new err t0 t))
       (count_tx (\<lambda>r. tx_id r = txID \<and> tx_status r = expected)) d))"

section \<open>What the listings select\<close>

lemma pick_rows_sub: "r \<in> set (pick_rows limit key skip rows) \<Longrightarrow> r \<in> set rows \<and> \<not> skip (key r)"
  by (auto simp: pick_rows_def dest: in_set_takeD)

lemma length_pick_rows: "length (pick_rows limit key skip rows) \<le> nat limit"
  by (simp add: pick_rows_def)

lemma timed_out_rowsD:
  "r \<in> set (timed_out_rows skip t d) \<Longrightarrow>
   r \<in> set (saga_transactions d) \<and> tx_status r \<in> {TxStatusRunning, TxStatusCompensating} \<and>
   lock_free t r \<and> (\<exists>u. timeout_at r = Some u \<and> u < t)"
  by (auto simp: timed_out_rows_def dest!: pick_rows_sub split: option.splits)

lemma recoverable_rowsD:
  "r \<in> set (recoverable_rows batch skip t d) \<Longrightarrow>
   r \<in> set (saga_transactions d) \<and> active_status (tx_status r) \<and> lock_free t r"
  by (auto simp: recoverable_rows_def dest!: pick_rows_sub)

lemma map_sum_Some [simp]:
  "map_sum id Some x = Inr (Some y) \<longleftrightarrow> x = Inr y" "map_sum id Some x \<noteq> Inr None"
  by (cases x; simp)+

lemma scan_tx_keys:
  "scan_tx L r = Inr tx \<Longrightarrow> tx_id tx = tx_id r \<and> tx_status tx = tx_status r \<and> timeout_at tx = timeout_at r"
  by (auto simp: scan_tx_def split: sum.splits)

lemma scan_rows_map: "scan_rows f rs = Inr xs \<Longrightarrow> list_all2 (\<lambda>r x. f r = Inr x) rs xs"
  by (induction rs arbitrary: xs) (auto split: sum.splits)

lemma scan_rows_status:
  "scan_rows (scan_tx L) sel = Inr txs \<Longrightarrow> map tx_status txs = map tx_status sel"
  by (induction sel arbitrary: txs) (auto dest: scan_tx_keys split: sum.splits)

end
