(* ===== verification/Saga_Jsonpath.thy ===== *)
theory Saga_Jsonpath
  imports Saga_Definition
begin

text \<open>
  \<^verbatim>\<open>saga/jsonpath.go\<close>: extraction of a value from a poll response by a path such as
  \<^verbatim>\<open>$.items[0].status\<close>, and the decision whether a response means success or failure.
\<close>

section \<open>Splitting a path\<close>

text \<open>
  The loop of \<^verbatim>\<open>parseJSONPathParts\<close> over the rest of the path, with the builder \<^verbatim>\<open>current\<close>. An
  unclosed bracket takes the rest of the path and ends the loop.
\<close>

function json_parts :: "string \<Rightarrow> string \<Rightarrow> string list" where
  "json_parts cur s =
     (case s of
        [] \<Rightarrow> (if cur \<noteq> [] then [cur] else [])
      | c # cs \<Rightarrow>
          (if c = CHR ''.'' then (if cur \<noteq> [] then cur # json_parts [] cs else json_parts [] cs)
           else if c = CHR ''['' then
             (case index_byte s (CHR '']'') of
                None \<Rightarrow> [cur @ s]
              | Some e \<Rightarrow>
                  (if cur \<noteq> [] then json_parts (cur @ take (e + 1) s) (drop (e + 1) s)
                   else take (e - 1) cs # json_parts [] (drop (e + 1) s)))
           else json_parts (cur @ [c]) cs))"
  by pat_completeness auto
termination
  by (relation "measure (\<lambda>(cur, s). length s)") auto

declare json_parts.simps [simp del]

definition parseJSONPathParts :: "string \<Rightarrow> string list" where
  "parseJSONPathParts path = json_parts [] path"

text \<open>\<^verbatim>\<open>items[0]\<close> is the index 0 of \<^verbatim>\<open>items\<close>; the result is (index, base, has index).\<close>

definition parseJSONPathArrayIndex :: "string \<Rightarrow> int \<times> string \<times> bool" where
  "parseJSONPathArrayIndex part =
     (case index_byte part (CHR ''['') of
        None \<Rightarrow> (0, part, False)
      | Some start \<Rightarrow>
          (case index_byte part (CHR '']'') of
             None \<Rightarrow> (0, part, False)
           | Some e \<Rightarrow>
               (if e \<le> start + 1 then (0, part, False)
                else case atoi (drop (start + 1) (take e part)) of
                       None \<Rightarrow> (0, part, False)
                     | Some idx \<Rightarrow> (idx, take start part, True))))"

section \<open>Values as strings\<close>

definition jsonValueToString :: "stdlib \<Rightarrow> goval \<Rightarrow> string" where
  "jsonValueToString L v =
     (case v of
        GStr s \<Rightarrow> s
      | GFloat f \<Rightarrow> (case float_int f of Some i \<Rightarrow> itoa i | None \<Rightarrow> format_float L f)
      | GInt i \<Rightarrow> itoa i
      | GInt64 i \<Rightarrow> itoa i
      | GBool b \<Rightarrow> (if b then ''true'' else ''false'')
      | GNil \<Rightarrow> ''''
      | _ \<Rightarrow> sprintf_v L v)"

section \<open>Navigation\<close>

text \<open>One element of an array, with the bounds check of the code.\<close>

definition arr_at :: "goval list \<Rightarrow> int \<Rightarrow> gerr + goval" where
  "arr_at a idx =
     (if idx < 0 \<or> idx \<ge> int (length a)
      then Inl (errors_New (''array index '' @ itoa idx @ '' out of bounds (length '' @
                            itoa (int (length a)) @ '')''))
      else Inr (a ! nat idx))"

text \<open>The key step inside a map: \<^verbatim>\<open>c[part]\<close>, or \<^verbatim>\<open>c[base][idx]\<close>.\<close>

definition json_step_map :: "gomap \<Rightarrow> string \<Rightarrow> nat \<Rightarrow> gerr + goval" where
  "json_step_map c part i =
     (case parseJSONPathArrayIndex part of (idx, basePart, hasIndex) \<Rightarrow>
        if hasIndex then
          (case gm_get c basePart of
             None \<Rightarrow> Inl (errors_New (''key '' @ [CHR 0x27] @ basePart @ [CHR 0x27] @
                            '' not found at path position '' @ itoa (int i)))
           | Some (GArr arr) \<Rightarrow> arr_at arr idx
           | Some val \<Rightarrow> Inl (errors_New (''expected array at '' @ [CHR 0x27] @ basePart @
                            [CHR 0x27] @ '', got '' @ type_name val)))
        else
          (case gm_get c part of
             None \<Rightarrow> Inl (errors_New (''key '' @ [CHR 0x27] @ part @ [CHR 0x27] @
                            '' not found at path position '' @ itoa (int i)))
           | Some val \<Rightarrow> Inr val))"

text \<open>The switch of the loop body on the type of \<^verbatim>\<open>current\<close>.\<close>

definition json_step :: "goval \<Rightarrow> string \<Rightarrow> nat \<Rightarrow> gerr + goval" where
  "json_step current part i =
     (case current of
        GMap kvs \<Rightarrow> json_step_map (Some kvs) part i
      | GNilMap \<Rightarrow> json_step_map None part i
      | GArr c \<Rightarrow>
          (case atoi part of
             None \<Rightarrow> Inl (errors_New (''expected array index, got '' @ [CHR 0x27] @ part @ [CHR 0x27]))
           | Some idx \<Rightarrow> arr_at c idx)
      | _ \<Rightarrow> Inl (errors_New (''cannot navigate into '' @ type_name current @
                    '' at path position '' @ itoa (int i))))"

fun json_navigate :: "goval \<Rightarrow> string list \<Rightarrow> nat \<Rightarrow> gerr + goval" where
  "json_navigate current [] i = Inr current"
| "json_navigate current (part # parts) i =
     (case json_step current part i of
        Inl e \<Rightarrow> Inl e
      | Inr v \<Rightarrow> json_navigate v parts (i + 1))"

text \<open>Removal of the leading \<^verbatim>\<open>$.\<close> or \<^verbatim>\<open>$\<close>.\<close>

definition strip_root :: "string \<Rightarrow> string" where
  "strip_root path =
     (if has_prefix path ''$.'' then drop 2 path
      else if has_prefix path ''$''
           then (let p = drop 1 path in if has_prefix p ''.'' then drop 1 p else p)
      else path)"

definition ExtractByPath :: "stdlib \<Rightarrow> gomap \<Rightarrow> string \<Rightarrow> gerr + string" where
  "ExtractByPath L data path =
     (if data = None then Inl (errors_New ''data is nil'')
      else if path = '''' then Inl (errors_New ''path is empty'')
      else let path = strip_root path in
        if path = '''' then Inl (errors_New ''path is empty after removing root'')
        else let parts = parseJSONPathParts path in
          if parts = [] then Inl (errors_New ''no path parts found'')
          else case json_navigate (of_gomap data) parts 0 of
                 Inl e \<Rightarrow> Inl e
               | Inr v \<Rightarrow> Inr (jsonValueToString L v))"

section \<open>Matching a poll response\<close>

text \<open>The result is (success, failure, error); the code never sets the error.\<close>

definition MatchPollResult :: "stdlib \<Rightarrow> gomap \<Rightarrow> 'j step_rec \<Rightarrow> bool \<times> bool \<times> gerr option" where
  "MatchPollResult L response s =
     (if poll_success_path s \<noteq> '''' \<and> poll_success_value s \<noteq> '''' \<and>
         ExtractByPath L response (poll_success_path s) = Inr (poll_success_value s)
      then (True, False, None)
      else if poll_failure_path s \<noteq> '''' \<and> poll_failure_value s \<noteq> '''' \<and>
         ExtractByPath L response (poll_failure_path s) = Inr (poll_failure_value s)
      then (False, True, None)
      else (False, False, None))"

section \<open>The paths the syntax describes\<close>

text \<open>
  A path is a list of keys, a plain name or a name with an index; \<open>pkey_str\<close> writes a key and
  \<open>follow\<close> is what the path means, independent of any parsing.
\<close>

datatype pkey = Key string | Elem string nat

fun pkey_str :: "pkey \<Rightarrow> string" where
  "pkey_str (Key n) = n"
| "pkey_str (Elem n i) = n @ ''['' @ itoa (int i) @ '']''"

definition plain_name :: "string \<Rightarrow> bool" where
  "plain_name n \<longleftrightarrow> n \<noteq> [] \<and> CHR ''.'' \<notin> set n \<and> CHR ''['' \<notin> set n \<and> CHR '']'' \<notin> set n"

fun pkey_ok :: "pkey \<Rightarrow> bool" where
  "pkey_ok (Key n) = plain_name n"
| "pkey_ok (Elem n i) = (plain_name n \<and> int i \<le> int64_max)"

fun follow_key :: "goval \<Rightarrow> pkey \<Rightarrow> goval option" where
  "follow_key (GMap kvs) (Key n) = map_of kvs n"
| "follow_key (GMap kvs) (Elem n i) =
     (case map_of kvs n of Some (GArr a) \<Rightarrow> (if i < length a then Some (a ! i) else None) | _ \<Rightarrow> None)"
| "follow_key (GArr a) (Key n) =
     (case atoi n of Some i \<Rightarrow> (if 0 \<le> i \<and> i < int (length a) then Some (a ! nat i) else None)
      | None \<Rightarrow> None)"
| "follow_key _ _ = None"

fun follow :: "goval \<Rightarrow> pkey list \<Rightarrow> goval option" where
  "follow v [] = Some v"
| "follow v (k # ks) = (case follow_key v k of None \<Rightarrow> None | Some w \<Rightarrow> follow w ks)"

section \<open>The parser reads what the syntax describes\<close>

lemma itoa_no_brackets [simp]:
  "CHR ''.'' \<notin> set (itoa i)" "CHR ''['' \<notin> set (itoa i)" "CHR '']'' \<notin> set (itoa i)"
  by (simp_all add: itoa_chars is_digit_def)

lemma pkey_str_nonempty: "pkey_ok k \<Longrightarrow> pkey_str k \<noteq> []"
  by (cases k) (auto simp: plain_name_def)

text \<open>
  The two path parsers of the module (this one and the one of \<^verbatim>\<open>template.go\<close>) share a contract:
  what a part builder does with an ordinary character, a dot, and a bracket after a name. Splitting
  a printed path back into its keys follows from the contract alone.
\<close>

locale path_splitter =
  fixes parts :: "string \<Rightarrow> string \<Rightarrow> string list"
  assumes parts_end: "parts cur [] = (if cur \<noteq> [] then [cur] else [])"
    and parts_char: "c \<noteq> CHR ''.'' \<Longrightarrow> c \<noteq> CHR ''['' \<Longrightarrow> parts cur (c # s) = parts (cur @ [c]) s"
    and parts_dot: "cur \<noteq> [] \<Longrightarrow> parts cur (CHR ''.'' # s) = cur # parts [] s"
    and parts_bracket: "cur \<noteq> [] \<Longrightarrow> CHR '']'' \<notin> set p \<Longrightarrow>
      parts cur (CHR ''['' # p @ CHR '']'' # s) = parts (cur @ CHR ''['' # p @ '']'') s"
begin

lemma parts_plain:
  "CHR ''.'' \<notin> set p \<Longrightarrow> CHR ''['' \<notin> set p \<Longrightarrow> parts cur (p @ s) = parts (cur @ p) s"
  by (induction p arbitrary: cur) (auto simp: parts_char)

lemma parts_key: "pkey_ok k \<Longrightarrow> parts [] (pkey_str k @ s) = parts (pkey_str k) s"
  by (cases k) (simp_all add: plain_name_def parts_plain parts_bracket)

lemma parse_printed_path:
  "(\<forall>k \<in> set ks. pkey_ok k) \<Longrightarrow> parts [] (join_str ''.'' (map pkey_str ks)) = map pkey_str ks"
proof (induction ks rule: induct_list012)
  case 1
  then show ?case by (simp add: parts_end)
next
  case (2 k)
  then show ?case using parts_key [of k "[]"] by (simp add: parts_end pkey_str_nonempty)
next
  case (3 k k' ks)
  then show ?case by (simp add: parts_key parts_dot pkey_str_nonempty)
qed

end

lemma json_parts_bracket:
  "cur \<noteq> [] \<Longrightarrow> CHR '']'' \<notin> set p \<Longrightarrow>
   json_parts cur (CHR ''['' # p @ CHR '']'' # s) = json_parts (cur @ CHR ''['' # p @ '']'') s"
  using index_byte_append [of "CHR '']''" "CHR ''['' # p" s]
  by (simp add: json_parts.simps [of cur "CHR ''['' # p @ CHR '']'' # s"])

interpretation json_splitter: path_splitter json_parts
proof
  fix cur s p :: string and c :: char
  show "json_parts cur [] = (if cur \<noteq> [] then [cur] else [])"
    by (simp add: json_parts.simps)
  show "json_parts cur (c # s) = json_parts (cur @ [c]) s" if "c \<noteq> CHR ''.''" "c \<noteq> CHR ''[''"
    using that by (simp add: json_parts.simps [of cur "c # s"])
  show "json_parts cur (CHR ''.'' # s) = cur # json_parts [] s" if "cur \<noteq> []"
    using that by (simp add: json_parts.simps [of cur "CHR ''.'' # s"])
qed (rule json_parts_bracket)

lemma index_of_key: "plain_name n \<Longrightarrow> parseJSONPathArrayIndex n = (0, n, False)"
  by (simp add: parseJSONPathArrayIndex_def plain_name_def)

lemma index_of_elem:
  assumes "plain_name n" and "int i \<le> int64_max"
  shows "parseJSONPathArrayIndex (n @ CHR ''['' # itoa (int i) @ '']'') = (int i, n, True)"
proof -
  have 1: "index_byte (n @ CHR ''['' # itoa (int i) @ '']'') (CHR ''['') = Some (length n)"
    using assms(1) index_byte_append [of "CHR ''[''" n] by (simp add: plain_name_def)
  have 2: "index_byte (n @ CHR ''['' # itoa (int i) @ '']'') (CHR '']'')
      = Some (length (n @ CHR ''['' # itoa (int i)))"
    using assms(1) index_byte_append [of "CHR '']''" "n @ CHR ''['' # itoa (int i)" "[]"]
    by (simp add: plain_name_def)
  have 3: "itoa (int i) \<noteq> []" by (simp add: itoa_def)
  have 4: "atoi (itoa (int i)) = Some (int i)"
    using assms(2) by (intro atoi_itoa) (simp_all add: int64_min_def)
  show ?thesis
    by (simp add: parseJSONPathArrayIndex_def 1 2 3 4 Suc_le_eq)
qed

lemma arr_at_Inr: "arr_at a i = Inr v \<longleftrightarrow> 0 \<le> i \<and> i < int (length a) \<and> v = a ! nat i"
  by (auto simp: arr_at_def)

lemma step_follows:
  assumes "pkey_ok k"
  shows "json_step v (pkey_str k) i = Inr w \<longleftrightarrow> follow_key v k = Some w"
proof (cases k)
  case (Key n)
  with assms show ?thesis
    by (cases v) (auto simp: json_step_def json_step_map_def index_of_key arr_at_Inr
                  split: option.splits if_splits)
next
  case (Elem n j)
  then have idx: "parseJSONPathArrayIndex (pkey_str k) = (int j, n, True)"
    using assms by (simp add: index_of_elem)
  have na: "atoi (pkey_str k) = None"
    using Elem by (intro atoi_None [where c = "CHR ''[''"]) (simp_all add: is_digit_def)
  show ?thesis
    using Elem idx na
    by (cases v) (auto simp: json_step_def json_step_map_def arr_at_Inr
                  split: option.splits if_splits goval.splits)
qed

lemma navigate_follows:
  "(\<forall>k \<in> set ks. pkey_ok k) \<Longrightarrow>
   json_navigate v (map pkey_str ks) i = Inr w \<longleftrightarrow> follow v ks = Some w"
proof (induction ks arbitrary: v i)
  case Nil
  then show ?case by simp
next
  case (Cons k ks)
  then have k: "\<And>u. json_step v (pkey_str k) i = Inr u \<longleftrightarrow> follow_key v k = Some u"
    by (simp add: step_follows)
  show ?case
  proof (cases "json_step v (pkey_str k) i")
    case (Inl e)
    then have "follow_key v k = None" using k by (metis Inl_Inr_False option.exhaust)
    with Inl show ?thesis by simp
  next
    case (Inr u)
    then have "follow_key v k = Some u" using k by simp
    with Inr Cons show ?thesis by simp
  qed
qed

lemma join_nonempty:
  "ks \<noteq> [] \<Longrightarrow> (\<forall>k \<in> set ks. pkey_ok k) \<Longrightarrow> join_str ''.'' (map pkey_str ks) \<noteq> []"
  by (induction ks rule: induct_list012) (auto simp: pkey_str_nonempty)

lemma strip_root_dollar [simp]: "strip_root (CHR ''$'' # CHR ''.'' # p) = p"
  by (simp add: strip_root_def has_prefix_def)

text \<open>
  C5. A path written from plain names and indices reads exactly the value that
  following the keys through the response reaches, printed as a string; where the keys lead
  nowhere, the extraction is an error and not some other value.
\<close>

theorem extract_follows_path:
  assumes "ks \<noteq> []" and "\<forall>k \<in> set ks. pkey_ok k"
  shows "ExtractByPath L (Some kvs) (''$.'' @ join_str ''.'' (map pkey_str ks)) = Inr out
     \<longleftrightarrow> (\<exists>v. follow (GMap kvs) ks = Some v \<and> out = jsonValueToString L v)"
proof -
  have p: "parseJSONPathParts (join_str ''.'' (map pkey_str ks)) = map pkey_str ks"
    unfolding parseJSONPathParts_def using assms(2) by (rule json_splitter.parse_printed_path)
  have "ExtractByPath L (Some kvs) (''$.'' @ join_str ''.'' (map pkey_str ks))
     = (case json_navigate (GMap kvs) (map pkey_str ks) 0 of
          Inl e \<Rightarrow> Inl e | Inr v \<Rightarrow> Inr (jsonValueToString L v))"
    using assms p join_nonempty [OF assms] by (simp add: ExtractByPath_def of_gomap_def)
  then show ?thesis
    using navigate_follows [OF assms(2), of "GMap kvs" 0] by (auto split: sum.splits)
qed

theorem extract_follows_path_witness:
  "ExtractByPath sample_lib (Some [(''a'', GArr [GNil, GMap [(''b'', GStr ''x'')]])])
     (''$.'' @ join_str ''.'' (map pkey_str [Elem ''a'' 1, Key ''b''])) = Inr ''x''"
proof -
  have 1: "[Elem ''a'' 1, Key ''b''] \<noteq> []" by simp
  have 2: "\<forall>k \<in> set [Elem ''a'' 1, Key ''b'']. pkey_ok k"
    by (simp add: plain_name_def int64_max_def)
  show ?thesis
    unfolding extract_follows_path [OF 1 2] by (simp add: jsonValueToString_def)
qed
end
