(* ===== verification/Saga_Template.thy ===== *)
theory Saga_Template
  imports Saga_Jsonpath
begin

text \<open>
  \<^verbatim>\<open>saga/template.go\<close>: substitution of \<^verbatim>\<open>{path}\<close> variables in URLs and payloads from the data of
  the transaction and its steps.
\<close>

section \<open>Paths\<close>

text \<open>
  The loop of \<^verbatim>\<open>parsePathParts\<close>. Both branches for a bracket append it to the current part; an
  unclosed bracket takes the rest and ends the loop.
\<close>

function path_parts :: "string \<Rightarrow> string \<Rightarrow> string list" where
  "path_parts cur s =
     (case s of
        [] \<Rightarrow> (if cur \<noteq> [] then [cur] else [])
      | c # cs \<Rightarrow>
          (if c = CHR ''.'' then (if cur \<noteq> [] then cur # path_parts [] cs else path_parts [] cs)
           else if c = CHR ''['' then
             (case index_byte s (CHR '']'') of
                None \<Rightarrow> [cur @ s]
              | Some e \<Rightarrow> path_parts (cur @ take (e + 1) s) (drop (e + 1) s))
           else path_parts (cur @ [c]) cs))"
  by pat_completeness auto
termination
  by (relation "measure (\<lambda>(cur, s). length s)") auto

declare path_parts.simps [simp del]

definition parsePathParts :: "string \<Rightarrow> string list" where
  "parsePathParts path = path_parts [] path"

definition parseArrayIndex :: "string \<Rightarrow> int \<times> string \<times> bool" where
  "parseArrayIndex part =
     (case index_byte part (CHR ''['') of
        None \<Rightarrow> (0, part, False)
      | Some start \<Rightarrow>
          (case index_byte part (CHR '']'') of
             None \<Rightarrow> (0, part, False)
           | Some e \<Rightarrow>
               (if e \<le> start + 1 then (0, part, False)
                else case atoi (drop (start + 1) (take e part)) of
                       None \<Rightarrow> (0, part, False)
                     | Some idx \<Rightarrow> (idx, take start part, True))))"

section \<open>Values as strings\<close>

definition valueToString :: "stdlib \<Rightarrow> goval \<Rightarrow> gerr + string" where
  "valueToString L v =
     (let json = (case json_marshal L v of
                    None \<Rightarrow> Inl (errors_New ''json: unsupported value'')
                  | Some s \<Rightarrow> Inr s)
      in case v of
        GStr s \<Rightarrow> Inr s
      | GFloat f \<Rightarrow> Inr (case float_int f of Some i \<Rightarrow> itoa i | None \<Rightarrow> format_float L f)
      | GInt i \<Rightarrow> Inr (itoa i)
      | GInt64 i \<Rightarrow> Inr (itoa i)
      | GBool b \<Rightarrow> Inr (if b then ''true'' else ''false'')
      | GNil \<Rightarrow> Inr ''''
      | GNilMap \<Rightarrow> json
      | GMap m \<Rightarrow> json
      | GArr a \<Rightarrow> json
      | GOther s \<Rightarrow> Inr (sprintf_v L v))"

section \<open>Resolution\<close>

definition resolve_step_map :: "gomap \<Rightarrow> string \<Rightarrow> string \<Rightarrow> nat \<Rightarrow> gerr + goval" where
  "resolve_step_map c part path i =
     (case parseArrayIndex part of (idx, arrayPart, hasIndex) \<Rightarrow>
        if hasIndex then
          (case gm_get c arrayPart of
             None \<Rightarrow> Inl (errors_New (''key not found: '' @ arrayPart))
           | Some (GArr arr) \<Rightarrow>
               (if idx < 0 \<or> idx \<ge> int (length arr)
                then Inl (errors_New (''array index out of bounds: '' @ itoa idx))
                else Inr (arr ! nat idx))
           | Some _ \<Rightarrow> Inl (errors_New (''expected array at '' @ arrayPart)))
        else
          (case gm_get c part of
             None \<Rightarrow> Inl (errors_New (''key not found: '' @ part @ '' (path: '' @ path @
                            '', step: '' @ itoa (int i) @ '')''))
           | Some v \<Rightarrow> Inr v))"

definition resolve_step :: "goval \<Rightarrow> string \<Rightarrow> string \<Rightarrow> nat \<Rightarrow> gerr + goval" where
  "resolve_step current part path i =
     (case current of
        GMap kvs \<Rightarrow> resolve_step_map (Some kvs) part path i
      | GNilMap \<Rightarrow> resolve_step_map None part path i
      | GArr c \<Rightarrow> Inl (errors_New (''unexpected array at path step '' @ itoa (int i)))
      | _ \<Rightarrow> Inl (errors_New (''cannot traverse into type '' @ type_name current @
                    '' at path step '' @ itoa (int i))))"

fun resolve_navigate :: "goval \<Rightarrow> string list \<Rightarrow> string \<Rightarrow> nat \<Rightarrow> gerr + goval" where
  "resolve_navigate current [] path i = Inr current"
| "resolve_navigate current (part # parts) path i =
     (case resolve_step current part path i of
        Inl e \<Rightarrow> Inl e
      | Inr v \<Rightarrow> resolve_navigate v parts path (i + 1))"

definition resolveTemplatePath :: "stdlib \<Rightarrow> string \<Rightarrow> gomap \<Rightarrow> gerr + string" where
  "resolveTemplatePath L path data =
     (let parts = parsePathParts path in
      if parts = [] then Inl (errors_New ''empty path'')
      else case resolve_navigate (of_gomap data) parts path 0 of
             Inl e \<Rightarrow> Inl e
           | Inr v \<Rightarrow> valueToString L v)"

section \<open>Templates\<close>

text \<open>
  The matches of the regular expression \<^verbatim>\<open>\{([^}]+)\}\<close>, left to right: an opening brace that is
  not followed by a closing one, up to the next closing brace. Everything else is literal.
\<close>

datatype segment = Lit char | Var string

function segments :: "string \<Rightarrow> segment list" where
  "segments s =
     (case s of
        [] \<Rightarrow> []
      | c # cs \<Rightarrow>
          (if c = CHR ''{'' then
             (case index_byte cs (CHR ''}'') of
                Some (Suc k) \<Rightarrow> Var (take (Suc k) cs) # segments (drop (Suc (Suc k)) cs)
              | _ \<Rightarrow> Lit c # segments cs)
           else Lit c # segments cs))"
  by pat_completeness auto
termination
  by (relation "measure length") auto

declare segments.simps [simp del]

definition has_var :: "string \<Rightarrow> bool" where
  "has_var s \<longleftrightarrow> (\<exists>p \<in> set (segments s). case p of Var _ \<Rightarrow> True | Lit _ \<Rightarrow> False)"

text \<open>The replacement function: the value, or the match itself when the path does not resolve.\<close>

definition replace_segment :: "stdlib \<Rightarrow> gomap \<Rightarrow> segment \<Rightarrow> string" where
  "replace_segment L data p =
     (case p of
        Lit c \<Rightarrow> [c]
      | Var path \<Rightarrow>
          (case resolveTemplatePath L path data of
             Inl e \<Rightarrow> CHR ''{'' # path @ ''}''
           | Inr v \<Rightarrow> v))"

definition RenderTemplate :: "stdlib \<Rightarrow> string \<Rightarrow> gomap \<Rightarrow> gerr + string" where
  "RenderTemplate L tpl data =
     (if tpl = '''' then Inr ''''
      else let result = concat (map (replace_segment L data) (segments tpl)) in
        if has_var result then Inl (errors_New (''unresolved template variables in: '' @ result))
        else Inr result)"

definition RenderURL :: "stdlib \<Rightarrow> string \<Rightarrow> gomap \<Rightarrow> gerr + string" where
  "RenderURL L url data = RenderTemplate L url data"

section \<open>Payloads\<close>

text \<open>
  The recursion of \<^verbatim>\<open>renderValue\<close> and \<^verbatim>\<open>RenderPayload\<close>; map entries are visited in list order
  (Go's order is unspecified, and only the choice of the reported error depends on it).
\<close>

fun renderValue :: "stdlib \<Rightarrow> gomap \<Rightarrow> goval \<Rightarrow> gerr + goval"
  and render_entries :: "stdlib \<Rightarrow> gomap \<Rightarrow> (string \<times> goval) list \<Rightarrow> gerr + (string \<times> goval) list"
  and render_items :: "stdlib \<Rightarrow> gomap \<Rightarrow> goval list \<Rightarrow> gerr + goval list"
where
  "renderValue L data (GStr s) = map_sum id GStr (RenderTemplate L s data)"
| "renderValue L data (GMap kvs) = map_sum id GMap (render_entries L data kvs)"
| "renderValue L data (GArr a) = map_sum id GArr (render_items L data a)"
| "renderValue L data v = Inr v"
| "render_entries L data [] = Inr []"
| "render_entries L data ((k, v) # kvs) =
     (case renderValue L data v of
        Inl e \<Rightarrow> Inl (wrap_err (''failed to render key '' @ k) e)
      | Inr w \<Rightarrow> map_sum id (\<lambda>r. (k, w) # r) (render_entries L data kvs))"
| "render_items L data [] = Inr []"
| "render_items L data (v # vs) =
     (case renderValue L data v of
        Inl e \<Rightarrow> Inl e
      | Inr w \<Rightarrow> map_sum id (\<lambda>r. w # r) (render_items L data vs))"

definition RenderPayload :: "stdlib \<Rightarrow> gomap \<Rightarrow> gomap \<Rightarrow> gerr + gomap" where
  "RenderPayload L payload data =
     (case payload of
        None \<Rightarrow> Inr None
      | Some kvs \<Rightarrow> map_sum id Some (render_entries L data kvs))"

text \<open>The result is the JSON text, \<open>None\<close> for the nil byte slice of a nil payload.\<close>

definition RenderPayloadJSON :: "stdlib \<Rightarrow> gomap \<Rightarrow> gomap \<Rightarrow> gerr + string option" where
  "RenderPayloadJSON L payload data =
     (if payload = None then Inr None
      else case RenderPayload L payload data of
             Inl e \<Rightarrow> Inl e
           | Inr rendered \<Rightarrow>
               (case json_marshal L (of_gomap rendered) of
                  None \<Rightarrow> Inl (errors_New ''json: unsupported value'')
                | Some s \<Rightarrow> Inr (Some s)))"

section \<open>The data a template sees\<close>

definition step_data :: "step \<Rightarrow> goval" where
  "step_data s = GMap
     [(''index'', GInt (st_index s)), (''name'', GStr (st_name s)),
      (''status'', GStr (step_status_str (st_status s))),
      (''action_response'', of_gomap (action_response s))]"

definition BuildTemplateData :: "transaction option \<Rightarrow> step list \<Rightarrow> step option \<Rightarrow> gomap" where
  "BuildTemplateData tx steps currentStep = Some
     [(''transaction'',
         (case tx of
            Some t \<Rightarrow> (case tx_payload t of
                         Some p \<Rightarrow> GMap [(''payload'', GMap p), (''id'', GStr (tx_id t))]
                       | None \<Rightarrow> GMap [(''payload'', GMap [])])
          | None \<Rightarrow> GMap [(''payload'', GMap [])])),
      (''step'', GArr (map step_data steps)),
      (''action_response'',
         (case currentStep of
            Some s \<Rightarrow> (case action_response s of Some r \<Rightarrow> GMap r | None \<Rightarrow> GMap [])
          | None \<Rightarrow> GMap []))]"

section \<open>Resolution follows the path\<close>

lemma path_parts_bracket:
  "CHR '']'' \<notin> set p \<Longrightarrow>
   path_parts cur (CHR ''['' # p @ CHR '']'' # s) = path_parts (cur @ CHR ''['' # p @ '']'') s"
  using index_byte_append [of "CHR '']''" "CHR ''['' # p" s]
  by (simp add: path_parts.simps [of cur "CHR ''['' # p @ CHR '']'' # s"])

interpretation template_splitter: path_splitter path_parts
proof
  fix cur s p :: string and c :: char
  show "path_parts cur [] = (if cur \<noteq> [] then [cur] else [])"
    by (simp add: path_parts.simps)
  show "path_parts cur (c # s) = path_parts (cur @ [c]) s" if "c \<noteq> CHR ''.''" "c \<noteq> CHR ''[''"
    using that by (simp add: path_parts.simps [of cur "c # s"])
  show "path_parts cur (CHR ''.'' # s) = cur # path_parts [] s" if "cur \<noteq> []"
    using that by (simp add: path_parts.simps [of cur "CHR ''.'' # s"])
qed (rule path_parts_bracket)

lemma parseArrayIndex_same: "parseArrayIndex = parseJSONPathArrayIndex"
  by (rule ext) (simp add: parseArrayIndex_def parseJSONPathArrayIndex_def)

text \<open>Following keys as a template does: an array is only entered through an index of its name.\<close>

fun tfollow :: "goval \<Rightarrow> pkey list \<Rightarrow> goval option" where
  "tfollow v [] = Some v"
| "tfollow (GMap kvs) (k # ks) =
     (case follow_key (GMap kvs) k of None \<Rightarrow> None | Some w \<Rightarrow> tfollow w ks)"
| "tfollow _ (k # ks) = None"

lemma resolve_step_follows:
  assumes "pkey_ok k"
  shows "resolve_step v (pkey_str k) path i = Inr w
    \<longleftrightarrow> (\<exists>kvs. v = GMap kvs) \<and> follow_key v k = Some w"
proof (cases k)
  case (Key n)
  with assms show ?thesis
    by (cases v) (auto simp: resolve_step_def resolve_step_map_def parseArrayIndex_same index_of_key
                  split: option.splits if_splits)
next
  case (Elem n j)
  then have idx: "parseArrayIndex (pkey_str k) = (int j, n, True)"
    using assms by (simp add: parseArrayIndex_same index_of_elem)
  show ?thesis
    using Elem idx
    by (cases v) (auto simp: resolve_step_def resolve_step_map_def
                  split: option.splits if_splits goval.splits)
qed

lemma resolve_navigate_follows:
  "(\<forall>k \<in> set ks. pkey_ok k) \<Longrightarrow>
   resolve_navigate v (map pkey_str ks) path i = Inr w \<longleftrightarrow> tfollow v ks = Some w"
proof (induction ks arbitrary: v i)
  case Nil
  then show ?case by simp
next
  case (Cons k ks)
  then have k: "\<And>u. resolve_step v (pkey_str k) path i = Inr u
      \<longleftrightarrow> (\<exists>kvs. v = GMap kvs) \<and> follow_key v k = Some u"
    by (intro resolve_step_follows) simp
  show ?case
  proof (cases "resolve_step v (pkey_str k) path i")
    case (Inl e)
    then have "(\<forall>kvs. v \<noteq> GMap kvs) \<or> follow_key v k = None"
      by (metis k Inl Inl_Inr_False not_None_eq)
    then have "tfollow v (k # ks) = None" by (cases v) (auto split: option.splits)
    with Inl show ?thesis by simp
  next
    case (Inr u)
    with k [of u] have "(\<exists>kvs. v = GMap kvs) \<and> follow_key v k = Some u" by simp
    with Inr Cons show ?thesis by auto
  qed
qed

lemma resolve_path:
  assumes "ks \<noteq> []" and "\<forall>k \<in> set ks. pkey_ok k" and "tfollow (of_gomap data) ks = Some v"
  shows "resolveTemplatePath L (join_str ''.'' (map pkey_str ks)) data = valueToString L v"
proof -
  let ?p = "join_str ''.'' (map pkey_str ks)"
  have parts: "parsePathParts ?p = map pkey_str ks"
    unfolding parsePathParts_def using assms(2) by (rule template_splitter.parse_printed_path)
  have "resolve_navigate (of_gomap data) (map pkey_str ks) ?p 0 = Inr v"
    using assms by (simp add: resolve_navigate_follows)
  with parts assms(1) show ?thesis by (simp add: resolveTemplatePath_def)
qed

section \<open>What a rendered template looks like\<close>

fun seg_src :: "segment \<Rightarrow> string" where
  "seg_src (Lit c) = [c]"
| "seg_src (Var p) = CHR ''{'' # p @ ''}''"

lemma index_byte_Some:
  "index_byte s c = Some n \<Longrightarrow> s = take n s @ c # drop (Suc n) s \<and> c \<notin> set (take n s) \<and> n < length s"
  by (induction s arbitrary: n) (auto split: if_splits)

lemma segments_Nil [simp]: "segments [] = []"
  by (simp add: segments.simps)

lemma segments_Cons:
  "segments (c # cs) =
     (if c = CHR ''{'' then
        (case index_byte cs (CHR ''}'') of
           Some (Suc k) \<Rightarrow> Var (take (Suc k) cs) # segments (drop (Suc (Suc k)) cs)
         | _ \<Rightarrow> Lit c # segments cs)
      else Lit c # segments cs)"
  by (subst segments.simps) simp

lemma segments_cases:
  obtains (lit) "segments (c # cs) = Lit c # segments cs"
  | (var) p r where "c = CHR ''{''" "cs = p @ CHR ''}'' # r" "p \<noteq> []" "CHR ''}'' \<notin> set p"
      "segments (c # cs) = Var p # segments r"
proof (cases "\<exists>k. c = CHR ''{'' \<and> index_byte cs (CHR ''}'') = Some (Suc k)")
  case True
  then obtain k where c: "c = CHR ''{''" and k: "index_byte cs (CHR ''}'') = Some (Suc k)" by blast
  note s = index_byte_Some [OF k]
  have "segments (c # cs) = Var (take (Suc k) cs) # segments (drop (Suc (Suc k)) cs)"
    using c k by (simp add: segments_Cons)
  then show ?thesis
    using c s by (intro var [of "take (Suc k) cs" "drop (Suc (Suc k)) cs"]) auto
next
  case False
  then have "segments (c # cs) = Lit c # segments cs"
    by (auto simp: segments_Cons split: option.splits nat.splits)
  then show ?thesis by (rule lit)
qed

lemma segments_source: "concat (map seg_src (segments s)) = s"
proof (induction s rule: length_induct)
  case (1 s)
  show ?case
  proof (cases s)
    case (Cons c cs)
    show ?thesis
    proof (cases rule: segments_cases [of c cs])
      case lit
      with 1 Cons show ?thesis by simp
    next
      case (var p r)
      with 1 Cons show ?thesis by simp
    qed
  qed simp
qed

lemma segments_var: "Var p \<in> set (segments s) \<Longrightarrow> p \<noteq> [] \<and> CHR ''}'' \<notin> set p"
proof (induction s rule: length_induct)
  case (1 s)
  show ?case
  proof (cases s)
    case (Cons c cs)
    show ?thesis
    proof (cases rule: segments_cases [of c cs])
      case lit
      with "1.prems" Cons have "Var p \<in> set (segments cs)" by simp
      moreover have "length cs < length s" using Cons by simp
      ultimately show ?thesis using "1.IH" by blast
    next
      case (var q r)
      have "length r < length s" using Cons var by simp
      then show ?thesis using "1.IH" "1.prems" Cons var by auto
    qed
  qed (use 1 in simp)
qed

lemma has_var_iff: "has_var s \<longleftrightarrow> (\<exists>p. Var p \<in> set (segments s))"
  by (auto simp: has_var_def split: segment.splits) (metis segment.exhaust)

lemma braces_have_var:
  "body \<noteq> [] \<Longrightarrow> CHR ''}'' \<notin> set body \<Longrightarrow> has_var (a @ CHR ''{'' # body @ CHR ''}'' # b)"
proof (induction a)
  case Nil
  then obtain x xs where "body = x # xs" by (cases body) auto
  then have "index_byte (body @ CHR ''}'' # b) (CHR ''}'') = Some (Suc (length xs))"
    using Nil index_byte_append [of "CHR ''}''" body b] by simp
  then show ?case
    by (simp add: has_var_iff segments_Cons) blast
next
  case (Cons c a)
  show ?case
  proof (cases rule: segments_cases [of c "a @ CHR ''{'' # body @ CHR ''}'' # b"])
    case lit
    with Cons show ?thesis by (auto simp: has_var_iff)
  next
    case (var p r)
    then show ?thesis by (auto simp: has_var_iff)
  qed
qed

lemma unresolved_has_var:
  assumes "Var path \<in> set (segments tpl)" and "resolveTemplatePath L path data = Inl e"
  shows "has_var (concat (map (replace_segment L data) (segments tpl)))"
proof -
  from assms(1) obtain xs ys where "segments tpl = xs @ Var path # ys"
    by (auto dest: split_list)
  then have "concat (map (replace_segment L data) (segments tpl))
      = concat (map (replace_segment L data) xs) @ CHR ''{'' # path @ CHR ''}'' #
        concat (map (replace_segment L data) ys)"
    using assms(2) by (simp add: replace_segment_def)
  moreover have "path \<noteq> []" "CHR ''}'' \<notin> set path"
    using segments_var [OF assms(1)] by auto
  ultimately show ?thesis using braces_have_var by presburger
qed

text \<open>The specification: every segment has a value, and the values are written in a row.\<close>

definition segment_value :: "stdlib \<Rightarrow> gomap \<Rightarrow> segment \<Rightarrow> string option" where
  "segment_value L data p =
     (case p of
        Lit c \<Rightarrow> Some [c]
      | Var path \<Rightarrow> (case resolveTemplatePath L path data of Inl e \<Rightarrow> None | Inr v \<Rightarrow> Some v))"

lemma those_Some_map: "those (map f xs) = Some ys \<longleftrightarrow> (\<forall>x \<in> set xs. f x \<noteq> None) \<and> ys = map (the \<circ> f) xs"
  by (induction xs arbitrary: ys) (auto split: option.splits)

text \<open>
  A template renders exactly when every variable in it resolves and the text that
  comes out contains no variable of its own; the output is then the literal text with each
  variable replaced by its value.
\<close>

theorem render_template_spec:
  "RenderTemplate L tpl data = Inr out
     \<longleftrightarrow> (\<exists>vs. those (map (segment_value L data) (segments tpl)) = Some vs
             \<and> out = concat vs \<and> \<not> has_var out)"
proof (cases "\<exists>path e. Var path \<in> set (segments tpl) \<and> resolveTemplatePath L path data = Inl e")
  case True
  then obtain path e where p: "Var path \<in> set (segments tpl)" "resolveTemplatePath L path data = Inl e"
    by blast
  then have "tpl \<noteq> []" by auto
  then have "RenderTemplate L tpl data \<noteq> Inr out"
    using unresolved_has_var [OF p] by (simp add: RenderTemplate_def Let_def)
  moreover have "segment_value L data (Var path) = None" using p(2) by (simp add: segment_value_def)
  ultimately show ?thesis using p(1) by (force simp: those_Some_map)
next
  case False
  then have all: "segment_value L data p = Some (replace_segment L data p)" if "p \<in> set (segments tpl)" for p
    using that by (cases p) (auto simp: segment_value_def replace_segment_def split: sum.splits)
  then have "those (map (segment_value L data) (segments tpl))
      = Some (map (replace_segment L data) (segments tpl))"
    by (simp add: those_Some_map)
  then show ?thesis
    by (auto simp: RenderTemplate_def Let_def has_var_iff)
qed

lemma no_brace_no_var: "CHR ''{'' \<notin> set s \<Longrightarrow> \<not> has_var s"
proof (induction s)
  case (Cons c cs)
  then have "segments (c # cs) = Lit c # segments cs" by (auto simp: segments_Cons)
  with Cons show ?case by (simp add: has_var_iff)
qed (simp add: has_var_iff)


section \<open>Payloads keep their shape\<close>

lemma render_entries_spec:
  "render_entries L data kvs = Inr kvs' \<longleftrightarrow>
     list_all2 (\<lambda>(k, v) (k', w). k = k' \<and> renderValue L data v = Inr w) kvs kvs'"
proof (induction kvs arbitrary: kvs')
  case (Cons kv kvs)
  obtain k v where kv: "kv = (k, v)" by (cases kv)
  show ?case
  proof (cases "renderValue L data v")
    case (Inl e)
    then show ?thesis using kv by (auto simp: list_all2_Cons1)
  next
    case (Inr w)
    then have "render_entries L data (kv # kvs) = Inr kvs'
        \<longleftrightarrow> (\<exists>r. render_entries L data kvs = Inr r \<and> kvs' = (k, w) # r)"
      using kv by (cases "render_entries L data kvs") auto
    with Inr kv Cons show ?thesis by (auto simp: list_all2_Cons1)
  qed
qed auto

text \<open>
  Rendering a payload works entry by entry and depends on no order of the entries:
  it succeeds with a map exactly when each key of that map carries the rendering of the value it
  had, with no key added, lost or renamed.
\<close>

lemma render_payload_pointwise:
  "RenderPayload L (Some kvs) data = Inr r \<longleftrightarrow>
     (\<exists>m. r = Some m \<and>
       list_all2 (\<lambda>(k, v) (k', w). k = k' \<and> renderValue L data v = Inr w) kvs m)"
  unfolding render_entries_spec [symmetric]
  by (cases "render_entries L data kvs") (auto simp: RenderPayload_def)

end
