(* ===== verification/Saga_Executor.thy ===== *)
theory Saga_Executor
  imports Saga_Store Saga_Template Auth_Sign
begin

text \<open>
  \<^verbatim>\<open>saga/executor.go\<close>: one HTTP call per forward action, compensation attempt or poll, and the
  step updates around it. Go mutates the step it is given; here the operations return the step as they
  leave it. An error result is an option (\<open>None\<close> for nil); log lines are left out.
\<close>

record saga_env =
  lib :: stdlib
  credStore :: "credential_store option"
  rand_error :: "gerr option" \<comment> \<open>the error of the random source, if it fails\<close>

definition sample_env :: saga_env where
  "sample_env = \<lparr>lib = sample_lib, credStore = None, rand_error = None\<rparr>"

fun exec_msg :: "sentinel \<Rightarrow> string" where
  "exec_msg ErrStepRetryable = ''step failed, retry possible''"
| "exec_msg ErrStepFatal = ''step failed, no more retries''"
| "exec_msg ErrCompensationFailed = ''compensation failed''"
| "exec_msg ErrSigningFailed = ''request signing failed''"
| "exec_msg _ = ''''"

definition exec_err :: "sentinel \<Rightarrow> gerr" where
  "exec_err s = GErr [s] (exec_msg s)"

section \<open>Durable step updates\<close>

definition updateStepStatus ::
  "gctx \<Rightarrow> string \<Rightarrow> step_status \<Rightarrow> string \<Rightarrow> (gerr + unit) prog" where
  "updateStepStatus ctx i s err = durably ctx (\<lambda>c. UpdateStepStatus c i s err)"

definition updateStepResponse :: "stdlib \<Rightarrow> gctx \<Rightarrow> string \<Rightarrow> gomap \<Rightarrow> (gerr + unit) prog" where
  "updateStepResponse L ctx i resp = durably ctx (\<lambda>c. UpdateStepResponse L c i resp)"

definition incrementStepRetry :: "gctx \<Rightarrow> string \<Rightarrow> (gerr + unit) prog" where
  "incrementStepRetry ctx i = durably ctx (\<lambda>c. IncrementStepRetry c i)"

section \<open>Responses\<close>

definition http_prefix :: "http_response \<Rightarrow> string" where
  "http_prefix r = ''HTTP '' @ itoa (hr_status r)"

definition parseHTTPResponseEnvelope :: "stdlib \<Rightarrow> http_response \<Rightarrow> gerr + gomap" where
  "parseHTTPResponseEnvelope L r =
     (case hr_read_error r of
        Some e \<Rightarrow> Inl (wrap_err ''failed to read response'' e)
      | None \<Rightarrow>
     (if hr_status r < 200 \<or> hr_status r \<ge> 300
      then Inl (errors_New (http_prefix r @ '': '' @ hr_body r))
      else let trimmed = trim_space (hr_body r) in
        if trimmed = '''' then Inl (errors_New (http_prefix r @ '': empty response body''))
        else case json_unmarshal L trimmed of
          None \<Rightarrow> Inl (errors_New (http_prefix r @ '': invalid JSON response''))
        | Some payload \<Rightarrow>
            (case payload of
               GMap kvs \<Rightarrow>
                 (case map_of kvs ''code'' of
                    None \<Rightarrow> Inl (errors_New (http_prefix r @ '': response missing code field: '' @ trimmed))
                  | Some cv \<Rightarrow>
                      (let code = jsonValueToString L cv in
                       if code \<noteq> ''0''
                       then Inl (errors_New (http_prefix r @ '': response code='' @ sprintf_q L code @
                                             '': '' @ trimmed))
                       else Inr (Some kvs)))
             | _ \<Rightarrow> Inl (errors_New (http_prefix r @ '': expected JSON object response, got '' @
                                     type_name payload)))))"

section \<open>Requests\<close>

definition extractTraceFromPayload :: "gomap \<Rightarrow> trace_context option prog" where
  "extractTraceFromPayload payload =
     (case gm_get_string payload ''_trace_id'' of
        None \<Rightarrow> State_Monad.return None
      | Some traceID \<Rightarrow>
          (if traceID = '''' then State_Monad.return None
           else do {
             sid \<leftarrow> use_entropy NewSpanId;
             State_Monad.return (Some \<lparr>TraceID = traceID, SpanId = sid,
               ParentSpanId = (case gm_get_string payload ''_span_id'' of Some s \<Rightarrow> s | None \<Rightarrow> ''''),
               InstanceId = '''', Sampled = True\<rparr>)
           }))"

text \<open>The trace of the context, or else the one recorded in the transaction's payload.\<close>

definition inject_trace :: "gctx \<Rightarrow> transaction \<Rightarrow> request \<Rightarrow> request prog" where
  "inject_trace ctx tx req = do {
     tc \<leftarrow> (case cx_trace ctx of
              Some tc \<Rightarrow> State_Monad.return (Some tc)
            | None \<Rightarrow> extractTraceFromPayload (tx_payload tx));
     State_Monad.return (req\<lparr>rq_header := Inject (rq_header req) tc\<rparr>)
   }"

definition signRequestIfNeeded :: "saga_env \<Rightarrow> step \<Rightarrow> request \<Rightarrow> (gerr + request) prog" where
  "signRequestIfNeeded E s req =
     (case credStore E of
        None \<Rightarrow> State_Monad.return (Inr req)
      | Some store \<Rightarrow>
     (if auth_ak s = '''' then State_Monad.return (Inr req)
      else case store (auth_ak s) of
        Inl e \<Rightarrow> State_Monad.return (Inl (mark_err (exec_err ErrSigningFailed)
                   (errors_New (''credential lookup failed for AK '' @ sprintf_q (lib E) (auth_ak s) @
                                '': '' @ msg e))))
      | Inr oc \<Rightarrow>
     (if (case oc of None \<Rightarrow> True | Some c \<Rightarrow> \<not> Enabled c)
      then State_Monad.return (Inl (mark_err (exec_err ErrSigningFailed)
             (errors_New (''credential not found or disabled for AK '' @ sprintf_q (lib E) (auth_ak s)))))
      else do {
        t \<leftarrow> time_now;
        r \<leftarrow> use_entropy (\<lambda>rnd. Sign (lib E) (rand_error E)
               (NewSigner (AccessKey (the oc)) (SecretKey (the oc))) t rnd req);
        State_Monad.return (case r of
            Inl e \<Rightarrow> Inl (mark_err (exec_err ErrSigningFailed) e)
          | Inr signed \<Rightarrow> Inr signed)
      })))"

definition IsSigningError :: "gerr \<Rightarrow> bool" where
  "IsSigningError e \<longleftrightarrow> errors_Is e ErrSigningFailed"

definition saga_headers :: "transaction \<Rightarrow> string \<Rightarrow> request \<Rightarrow> request" where
  "saga_headers tx key req =
     set_header (set_header (set_header req ''Content-Type'' ''application/json'')
                   ''X-Saga-Transaction-Id'' (tx_id tx))
       ''X-Idempotency-Key'' key"

section \<open>Forward actions\<close>

text \<open>The step after a failed call: timed out, to be retried, or failed for good.\<close>

definition handleHTTPError :: "gctx \<Rightarrow> step \<Rightarrow> gerr \<Rightarrow> (gerr \<times> step) prog" where
  "handleHTTPError ctx s err = do {
     timed_out \<leftarrow> reads (transactionExecutionTimedOut ctx);
     if timed_out then
       (let timeoutErr = mark_err errTransactionExecutionTimeout err in do {
          u \<leftarrow> updateStepStatus ctx (st_id s) StepStatusFailed (msg timeoutErr);
          State_Monad.return (case u of
              Inl e \<Rightarrow> (wrap_err ''failed to update step status after transaction timeout'' e, s)
            | Inr _ \<Rightarrow> (timeoutErr, s\<lparr>st_status := StepStatusFailed, st_last_error := msg timeoutErr\<rparr>))
        })
     else do {
       _ \<leftarrow> incrementStepRetry ctx (st_id s);
       let s1 = s\<lparr>st_retry_count := st_retry_count s + 1\<rparr>;
       if st_retry_count s1 < max_retry s1 then do {
         _ \<leftarrow> updateStepStatus ctx (st_id s) StepStatusPending (msg err);
         State_Monad.return (mark_err (exec_err ErrStepRetryable) err, s1)
       } else do {
         _ \<leftarrow> updateStepStatus ctx (st_id s) StepStatusFailed (msg err);
         State_Monad.return (mark_err (exec_err ErrStepFatal) err,
           s1\<lparr>st_status := StepStatusFailed, st_last_error := msg err\<rparr>)
       }
     }
   }"

text \<open>
  What \<^verbatim>\<open>ExecuteStep\<close> and \<^verbatim>\<open>ExecuteAsyncStep\<close> share: mark the step running, render,
  build, sign and send the request, read the answer and store it. The result is the error to return
  and the step, or the response.
\<close>

definition perform_action ::
  "saga_env \<Rightarrow> gctx \<Rightarrow> transaction \<Rightarrow> step \<Rightarrow> step list \<Rightarrow> ((gerr \<times> step) + gomap) prog" where
  "perform_action E ctx tx s allSteps = do {
     u \<leftarrow> UpdateStepStatus ctx (st_id s) StepStatusRunning '''';
     case u of
       Inl e \<Rightarrow> State_Monad.return (Inl (wrap_err ''failed to update step status to running'' e, s))
     | Inr _ \<Rightarrow>
     (let templateData = BuildTemplateData (Some tx) allSteps (Some s) in
      case RenderURL (lib E) (action_url s) templateData of
        Inl e \<Rightarrow> do {
          _ \<leftarrow> UpdateStepStatus ctx (st_id s) StepStatusFailed (''failed to render URL: '' @ msg e);
          State_Monad.return (Inl (wrap_err ''failed to render action URL'' e, s)) }
      | Inr url \<Rightarrow>
     (case RenderPayloadJSON (lib E) (action_payload s) templateData of
        Inl e \<Rightarrow> do {
          _ \<leftarrow> UpdateStepStatus ctx (st_id s) StepStatusFailed (''failed to render payload: '' @ msg e);
          State_Monad.return (Inl (wrap_err ''failed to render action payload'' e, s)) }
      | Inr body \<Rightarrow>
     (case NewRequest (lib E) (action_method s) url (Some (case body of Some b \<Rightarrow> b | None \<Rightarrow> '''')) of
        Inl e \<Rightarrow> do {
          _ \<leftarrow> UpdateStepStatus ctx (st_id s) StepStatusFailed (''failed to create request: '' @ msg e);
          State_Monad.return (Inl (wrap_err ''failed to create HTTP request'' e, s)) }
      | Inr req \<Rightarrow> do {
          req \<leftarrow> inject_trace ctx tx (saga_headers tx (st_id s) req);
          sg \<leftarrow> signRequestIfNeeded E s req;
          case sg of
            Inl e \<Rightarrow> do {
              u \<leftarrow> updateStepStatus ctx (st_id s) StepStatusFailed (msg e);
              State_Monad.return (case u of
                  Inl e' \<Rightarrow> Inl (wrap_err ''failed to update step status after signing error'' e', s)
                | Inr _ \<Rightarrow> Inl (mark_err (exec_err ErrStepFatal) e,
                              s\<lparr>st_status := StepStatusFailed, st_last_error := msg e\<rparr>)) }
          | Inr signed \<Rightarrow> do {
              r \<leftarrow> http_do ctx signed;
              case (case r of Inl e \<Rightarrow> Inl e | Inr resp \<Rightarrow> parseHTTPResponseEnvelope (lib E) resp) of
                Inl e \<Rightarrow> do {
                  h \<leftarrow> handleHTTPError ctx s e;
                  State_Monad.return (Inl h) }
              | Inr response \<Rightarrow> do {
                  u \<leftarrow> updateStepResponse (lib E) ctx (st_id s) response;
                  State_Monad.return (case u of
                      Inl e \<Rightarrow> Inl (wrap_err ''failed to update step response'' e, s)
                    | Inr _ \<Rightarrow> Inr response) }
            } })))
   }"

definition ExecuteStep ::
  "saga_env \<Rightarrow> gctx \<Rightarrow> transaction \<Rightarrow> step \<Rightarrow> step list \<Rightarrow> (gerr option \<times> step) prog" where
  "ExecuteStep E ctx tx s allSteps = do {
     a \<leftarrow> perform_action E ctx tx s allSteps;
     case a of
       Inl (e, s') \<Rightarrow> State_Monad.return (Some e, s')
     | Inr response \<Rightarrow> do {
         u \<leftarrow> updateStepStatus ctx (st_id s) StepStatusSucceeded '''';
         State_Monad.return (case u of
             Inl e \<Rightarrow> (Some (wrap_err ''failed to update step status to succeeded'' e), s)
           | Inr _ \<Rightarrow> (None, s\<lparr>action_response := response, st_status := StepStatusSucceeded\<rparr>)) }
   }"

definition ExecuteAsyncStep ::
  "saga_env \<Rightarrow> gctx \<Rightarrow> transaction \<Rightarrow> step \<Rightarrow> step list \<Rightarrow> (gerr option \<times> step) prog" where
  "ExecuteAsyncStep E ctx tx s allSteps = do {
     a \<leftarrow> perform_action E ctx tx s allSteps;
     case a of
       Inl (e, s') \<Rightarrow> State_Monad.return (Some e, s')
     | Inr response \<Rightarrow> do {
         let s1 = s\<lparr>action_response := response\<rparr>;
         t \<leftarrow> time_now;
         let task = \<lparr>pt_id = 0, pt_step_id = st_id s, pt_tx_id = tx_id tx,
                     pt_next_poll_at = t + wrap64 (poll_interval_sec s * second),
                     pt_locked_until = None, pt_locked_by = None\<rparr>;
         c \<leftarrow> durably ctx (\<lambda>c. CreatePollTask c task);
         case c of
           Inl e \<Rightarrow> State_Monad.return (Some (wrap_err ''failed to create poll task'' e), s1)
         | Inr _ \<Rightarrow> do {
             u \<leftarrow> updateStepStatus ctx (st_id s) StepStatusPolling '''';
             State_Monad.return (case u of
                 Inl e \<Rightarrow> (Some (wrap_err ''failed to update step status to polling'' e), s1)
               | Inr _ \<Rightarrow> (None, s1\<lparr>st_status := StepStatusPolling\<rparr>)) } }
   }"

section \<open>Compensation\<close>

text \<open>\<^verbatim>\<open>time.Duration(1<<uint(attempt-1)) * time.Second\<close>, in 64 bits.\<close>

definition compensation_backoff :: "int \<Rightarrow> int" where
  "compensation_backoff attempt = wrap64 (wrap64 (2 ^ nat (attempt - 1)) * second)"

text \<open>How the retry loop ends: it returned, or it broke out or ran out with the last error.\<close>

datatype comp_end = CompReturn "gerr option" step | CompExhausted "gerr option"

text \<open>One turn after the backoff; \<open>Inr e\<close> goes on to the next attempt.\<close>

definition comp_attempt ::
  "saga_env \<Rightarrow> gctx \<Rightarrow> transaction \<Rightarrow> step \<Rightarrow> string \<Rightarrow> string \<Rightarrow> (comp_end + gerr) prog" where
  "comp_attempt E ctx tx s url body =
     (case NewRequest (lib E) (compensate_method s) url (Some body) of
        Inl e \<Rightarrow> State_Monad.return (Inr e)
      | Inr req \<Rightarrow> do {
          req \<leftarrow> inject_trace ctx tx (saga_headers tx (st_id s @ ''-compensate'') req);
          sg \<leftarrow> signRequestIfNeeded E s req;
          case sg of
            Inl e \<Rightarrow> State_Monad.return (Inl (CompExhausted (Some e)))
          | Inr signed \<Rightarrow> do {
              r \<leftarrow> http_do ctx signed;
              case (case r of Inl e \<Rightarrow> Inl e | Inr resp \<Rightarrow> parseHTTPResponseEnvelope (lib E) resp) of
                Inl e \<Rightarrow> State_Monad.return (Inr e)
              | Inr _ \<Rightarrow> do {
                  u \<leftarrow> updateStepStatus ctx (st_id s) StepStatusCompensated '''';
                  State_Monad.return (Inl (case u of
                      Inl e \<Rightarrow> CompReturn (Some (wrap_err ''failed to update step status to compensated'' e)) s
                    | Inr _ \<Rightarrow> CompReturn None (s\<lparr>st_status := StepStatusCompensated\<rparr>))) }
            } })"

text \<open>The retry loop, with \<open>n\<close> attempts left.\<close>

fun comp_loop ::
  "saga_env \<Rightarrow> gctx \<Rightarrow> transaction \<Rightarrow> step \<Rightarrow> string \<Rightarrow> string \<Rightarrow> int \<Rightarrow> nat \<Rightarrow> gerr option \<Rightarrow> comp_end prog"
where
  "comp_loop E ctx tx s url body attempt 0 lastErr = State_Monad.return (CompExhausted lastErr)"
| "comp_loop E ctx tx s url body attempt (Suc n) lastErr = do {
     w \<leftarrow> (if attempt > 0 then sleep_ctx ctx (compensation_backoff attempt)
           else State_Monad.return None);
     case w of
       Some e \<Rightarrow> State_Monad.return (CompReturn (Some e) s)
     | None \<Rightarrow> do {
         a \<leftarrow> comp_attempt E ctx tx s url body;
         case a of
           Inl r \<Rightarrow> State_Monad.return r
         | Inr e \<Rightarrow> comp_loop E ctx tx s url body (attempt + 1) n (Some e) } }"

definition compensation_retries :: "step \<Rightarrow> int" where
  "compensation_retries s = (if max_retry s = 0 then 3 else max_retry s)"

definition CompensateStep ::
  "saga_env \<Rightarrow> gctx \<Rightarrow> transaction \<Rightarrow> step \<Rightarrow> step list \<Rightarrow> (gerr option \<times> step) prog" where
  "CompensateStep E ctx tx s allSteps = do {
     u \<leftarrow> UpdateStepStatus ctx (st_id s) StepStatusCompensating '''';
     case u of
       Inl e \<Rightarrow> State_Monad.return (Some (wrap_err ''failed to update step status to compensating'' e), s)
     | Inr _ \<Rightarrow>
     (let templateData = BuildTemplateData (Some tx) allSteps (Some s) in
      case RenderURL (lib E) (compensate_url s) templateData of
        Inl e \<Rightarrow> (let m = ''failed to render compensate URL: '' @ msg e in do {
          _ \<leftarrow> UpdateStepStatus ctx (st_id s) StepStatusFailed m;
          State_Monad.return (Some (wrap_err m (exec_err ErrCompensationFailed)), s) })
      | Inr url \<Rightarrow>
     (case RenderPayloadJSON (lib E) (compensate_payload s) templateData of
        Inl e \<Rightarrow> (let m = ''failed to render compensate payload: '' @ msg e in do {
          _ \<leftarrow> UpdateStepStatus ctx (st_id s) StepStatusFailed m;
          State_Monad.return (Some (wrap_err m (exec_err ErrCompensationFailed)), s) })
      | Inr body \<Rightarrow> do {
          r \<leftarrow> comp_loop E ctx tx s url (case body of Some b \<Rightarrow> b | None \<Rightarrow> '''') 0
                 (nat (compensation_retries s + 1)) None;
          case r of
            CompReturn e s' \<Rightarrow> State_Monad.return (e, s')
          | CompExhausted lastErr \<Rightarrow>
              (let m = ''compensation failed after '' @ itoa (compensation_retries s) @ '' retries: '' @
                       (case lastErr of Some e \<Rightarrow> msg e | None \<Rightarrow> ''<nil>'') in do {
                 _ \<leftarrow> updateStepStatus ctx (st_id s) StepStatusFailed m;
                 State_Monad.return (Some (case lastErr of
                     Some e \<Rightarrow> GErr (ErrCompensationFailed # sentinels e)
                                (m @ '': '' @ exec_msg ErrCompensationFailed @ '': '' @ msg e)
                   | None \<Rightarrow> wrap_err m (exec_err ErrCompensationFailed)), s) }) })) }"

section \<open>Polling\<close>

definition Poll ::
  "saga_env \<Rightarrow> gctx \<Rightarrow> transaction \<Rightarrow> step \<Rightarrow> step list \<Rightarrow> (gerr + gomap) prog" where
  "Poll E ctx tx s allSteps =
     (case RenderURL (lib E) (poll_url s) (BuildTemplateData (Some tx) allSteps (Some s)) of
        Inl e \<Rightarrow> State_Monad.return (Inl (wrap_err ''failed to render poll URL'' e))
      | Inr url \<Rightarrow>
     (case NewRequest (lib E) (if poll_method s = '''' then ''GET'' else poll_method s) url None of
        Inl e \<Rightarrow> State_Monad.return (Inl (wrap_err ''failed to create poll request'' e))
      | Inr req \<Rightarrow> do {
          req \<leftarrow> inject_trace ctx tx (set_header req ''X-Saga-Transaction-Id'' (tx_id tx));
          sg \<leftarrow> signRequestIfNeeded E s req;
          case sg of
            Inl e \<Rightarrow> State_Monad.return (Inl e)
          | Inr signed \<Rightarrow> do {
              r \<leftarrow> http_do ctx signed;
              State_Monad.return (case r of
                  Inl e \<Rightarrow> Inl (wrap_err ''poll request failed'' e)
                | Inr resp \<Rightarrow> parseHTTPResponseEnvelope (lib E) resp) } }))"

end
