(* ===== verification/Saga_Poller.thy ===== *)
theory Saga_Poller
  imports Saga_Executor
begin

text \<open>
  \<^verbatim>\<open>saga/poller.go\<close> and the trace part of \<^verbatim>\<open>saga/logging.go\<close>: acquiring poll
  tasks, polling, and handing the result to the coordinator. The goroutines of one scan run here one
  after the other; what they do to each other's rows meanwhile is part of the other sessions' writes.
\<close>

record poller_config =
  pc_scan_interval :: int
  pc_batch_size :: int
  pc_instance :: string

definition DefaultPollerConfig :: poller_config where
  "DefaultPollerConfig = \<lparr>pc_scan_interval = 3 * second, pc_batch_size = 20, pc_instance = ''''\<rparr>"

section \<open>Trace contexts of background work\<close>

definition withSagaTraceContext :: "gctx \<Rightarrow> trace_context option \<Rightarrow> gctx" where
  "withSagaTraceContext ctx otc =
     (case otc of
        None \<Rightarrow> ctx
      | Some tc \<Rightarrow> ctx\<lparr>cx_trace := Some tc,
          cx_log_trace := (if TraceID tc \<noteq> '''' then TraceID tc else cx_log_trace ctx),
          cx_log_span := (if SpanId tc \<noteq> '''' then SpanId tc else cx_log_span ctx)\<rparr>)"

definition rehydrateSagaTraceContext :: "gctx \<Rightarrow> transaction \<Rightarrow> gctx prog" where
  "rehydrateSagaTraceContext ctx tx =
     (case cx_trace ctx of
        Some tc \<Rightarrow> State_Monad.return (withSagaTraceContext ctx (Some tc))
      | None \<Rightarrow>
          (if cx_log_trace ctx \<noteq> '''' then State_Monad.return ctx
           else do {
             tc \<leftarrow> extractTraceFromPayload (tx_payload tx);
             State_Monad.return (withSagaTraceContext ctx tc) }))"

section \<open>Notification channels\<close>

text \<open>A channel holds at most one result; an absent transaction has no channel.\<close>

definition RegisterNotify :: "string \<Rightarrow> unit prog" where
  "RegisterNotify txID = modifies (\<lambda>w.
     if txID \<in> fst ` set (notifyChan w) then w
     else w\<lparr>notifyChan := AList.update txID None (notifyChan w)\<rparr>)"

definition UnregisterNotify :: "string \<Rightarrow> unit prog" where
  "UnregisterNotify txID = modifies (\<lambda>w. w\<lparr>notifyChan := AList.delete txID (notifyChan w)\<rparr>)"

definition notify :: "string \<Rightarrow> PollResult \<Rightarrow> unit prog" where
  "notify txID r = modifies (\<lambda>w.
     case map_of (notifyChan w) txID of
       Some None \<Rightarrow> w\<lparr>notifyChan := AList.update txID (Some r) (notifyChan w)\<rparr>
     | _ \<Rightarrow> w)"

section \<open>Poll results\<close>

definition releasePollTask :: "gctx \<Rightarrow> string \<Rightarrow> unit prog" where
  "releasePollTask ctx i = do { _ \<leftarrow> ReleasePollTask ctx i; State_Monad.return () }"

definition handlePollSuccess ::
  "saga_env \<Rightarrow> gctx \<Rightarrow> poll_task \<Rightarrow> step \<Rightarrow> gomap \<Rightarrow> unit prog" where
  "handlePollSuccess E ctx task s response = do {
     _ \<leftarrow> UpdateStepResponse (lib E) ctx (st_id s) response;
     _ \<leftarrow> UpdateStepStatus ctx (st_id s) StepStatusSucceeded '''';
     _ \<leftarrow> DeletePollTask ctx (pt_step_id task);
     notify (pt_tx_id task) PollResultSuccess }"

definition handlePollFailure :: "gctx \<Rightarrow> poll_task \<Rightarrow> step \<Rightarrow> string \<Rightarrow> unit prog" where
  "handlePollFailure ctx task s lastError = do {
     _ \<leftarrow> UpdateStepStatus ctx (st_id s) StepStatusFailed lastError;
     _ \<leftarrow> DeletePollTask ctx (pt_step_id task);
     notify (pt_tx_id task) PollResultFailure }"

definition handlePollTimeout :: "gctx \<Rightarrow> poll_task \<Rightarrow> step \<Rightarrow> unit prog" where
  "handlePollTimeout ctx task s = do {
     _ \<leftarrow> UpdateStepStatus ctx (st_id s) StepStatusFailed
           (''poll timeout: exceeded '' @ itoa (poll_max_times s) @ '' attempts'');
     _ \<leftarrow> DeletePollTask ctx (pt_step_id task);
     notify (pt_tx_id task) PollResultTimeout }"

definition scheduleNextPoll :: "gctx \<Rightarrow> poll_task \<Rightarrow> step \<Rightarrow> unit prog" where
  "scheduleNextPoll ctx task s = do {
     t \<leftarrow> time_now;
     _ \<leftarrow> IncrementStepPollCount ctx (st_id s) (t + wrap64 (poll_interval_sec s * second));
     releasePollTask ctx (pt_step_id task) }"

section \<open>Processing\<close>

text \<open>What the answer to a poll leads to.\<close>

definition poll_answer ::
  "saga_env \<Rightarrow> gctx \<Rightarrow> poll_task \<Rightarrow> step \<Rightarrow> gerr + gomap \<Rightarrow> unit prog" where
  "poll_answer E ctx task s r =
     (case r of
        Inl e \<Rightarrow>
          (if IsSigningError e then handlePollFailure ctx task s (msg e)
           else releasePollTask ctx (pt_step_id task))
      | Inr response \<Rightarrow>
          (case MatchPollResult (lib E) response s of
             (success, failure, err) \<Rightarrow>
               (if err \<noteq> None then releasePollTask ctx (pt_step_id task)
                else if success then handlePollSuccess E ctx task s response
                else if failure then handlePollFailure ctx task s ''poll returned failure value''
                else if poll_count s \<ge> poll_max_times s then handlePollTimeout ctx task s
                else scheduleNextPoll ctx task s)))"

definition processPollTask :: "saga_env \<Rightarrow> gctx \<Rightarrow> poll_task \<Rightarrow> unit prog" where
  "processPollTask E ctx task = do {
     rs \<leftarrow> GetStep (lib E) ctx (pt_step_id task);
     case rs of
       Inl e \<Rightarrow> releasePollTask ctx (pt_step_id task)
     | Inr None \<Rightarrow> do { _ \<leftarrow> DeletePollTask ctx (pt_step_id task); State_Monad.return () }
     | Inr (Some s) \<Rightarrow>
         (if st_status s \<noteq> StepStatusPolling
          then do { _ \<leftarrow> DeletePollTask ctx (pt_step_id task); State_Monad.return () }
          else do {
            rt \<leftarrow> GetTransaction (lib E) ctx (pt_tx_id task);
            case rt of
              Inl e \<Rightarrow> releasePollTask ctx (pt_step_id task)
            | Inr None \<Rightarrow> releasePollTask ctx (pt_step_id task)
            | Inr (Some tx) \<Rightarrow> do {
                txCtx \<leftarrow> rehydrateSagaTraceContext ctx tx;
                ra \<leftarrow> GetSteps (lib E) txCtx (pt_tx_id task);
                case ra of
                  Inl e \<Rightarrow> releasePollTask txCtx (pt_step_id task)
                | Inr allSteps \<Rightarrow> do {
                    r \<leftarrow> Poll E txCtx tx s allSteps;
                    poll_answer E txCtx task s r } } }) }"

fun process_tasks :: "saga_env \<Rightarrow> gctx \<Rightarrow> poll_task list \<Rightarrow> unit prog" where
  "process_tasks E ctx [] = State_Monad.return ()"
| "process_tasks E ctx (task # tasks) = do {
     _ \<leftarrow> processPollTask E ctx task;
     process_tasks E ctx tasks }"

definition poller_scanAndProcess :: "saga_env \<Rightarrow> poller_config \<Rightarrow> gctx \<Rightarrow> unit prog" where
  "poller_scanAndProcess E cfg ctx = do {
     r \<leftarrow> AcquirePollTasks ctx (pc_instance cfg) (pc_batch_size cfg);
     case r of
       Inl e \<Rightarrow> State_Monad.return ()
     | Inr tasks \<Rightarrow> process_tasks E ctx tasks }"

end
