(* ===== verification/Saga_Coordinator.thy ===== *)
theory Saga_Coordinator
  imports Saga_Poller
begin

text \<open>
  \<^verbatim>\<open>saga/coordinator.go\<close>: the queue of transactions, the recovery and timeout scans, and
  the loop that drives one transaction through its states. Loops that may not end take fuel and say
  whether it sufficed.
\<close>

record coord_config =
  WorkerCount :: int
  ScanInterval :: int
  TimeoutScanInterval :: int
  AsyncStepTimeout :: int
  InstanceID :: string
  LeaseDuration :: int

definition DefaultCoordinatorConfig :: coord_config where
  "DefaultCoordinatorConfig = \<lparr>WorkerCount = 4, ScanInterval = 5 * second,
     TimeoutScanInterval = 30 * second, AsyncStepTimeout = 600 * second, InstanceID = '''',
     LeaseDuration = 300 * second\<rparr>"

text \<open>The instance id defaults to host name and process id, which are inputs.\<close>

definition NewCoordinator_config :: "string \<Rightarrow> int \<Rightarrow> coord_config option \<Rightarrow> coord_config" where
  "NewCoordinator_config hostname pid cfg =
     (let c = (case cfg of None \<Rightarrow> DefaultCoordinatorConfig | Some c \<Rightarrow> c)
      in if InstanceID c = '''' then c\<lparr>InstanceID := hostname @ ''-'' @ itoa pid\<rparr> else c)"

section \<open>The queue\<close>

definition queue_capacity :: nat where "queue_capacity = 1000"

definition coord_Submit :: "string \<Rightarrow> bool prog" where
  "coord_Submit txID = State (\<lambda>w.
     if txID \<in> set (activeTx w) then (False, w)
     else if length (taskQueue w) < queue_capacity
     then (True, w\<lparr>activeTx := txID # activeTx w, taskQueue := taskQueue w @ [txID]\<rparr>)
     else (False, w))"

definition leave_active :: "string \<Rightarrow> unit prog" where
  "leave_active txID = modifies (\<lambda>w. w\<lparr>activeTx := removeAll txID (activeTx w)\<rparr>)"

text \<open>\<^verbatim>\<open>select { case <-ctx.Done(): ... case <-c.stopCh: ... default: }\<close>\<close>

definition halted :: "gctx \<Rightarrow> bool prog" where
  "halted ctx = reads (\<lambda>w. ctx_Err ctx w \<noteq> None \<or> stop_closed w)"

section \<open>Scans\<close>

fun release_all :: "gctx \<Rightarrow> string \<Rightarrow> transaction list \<Rightarrow> unit prog" where
  "release_all ctx inst [] = State_Monad.return ()"
| "release_all ctx inst (tx # txs) = do {
     _ \<leftarrow> ReleaseTransaction ctx (tx_id tx) inst;
     release_all ctx inst txs }"

fun requeue :: "gctx \<Rightarrow> string \<Rightarrow> transaction list \<Rightarrow> unit prog" where
  "requeue ctx inst [] = State_Monad.return ()"
| "requeue ctx inst (tx # txs) = do {
     txCtx \<leftarrow> rehydrateSagaTraceContext ctx tx;
     stop \<leftarrow> halted ctx;
     if stop then release_all txCtx inst (tx # txs)
     else do {
       ok \<leftarrow> coord_Submit (tx_id tx);
       _ \<leftarrow> (if ok then State_Monad.return ()
             else do { _ \<leftarrow> ReleaseTransaction txCtx (tx_id tx) inst; State_Monad.return () });
       requeue ctx inst txs } }"

text \<open>The scan at start-up, after its wait of one second.\<close>

definition recoveryScan :: "saga_env \<Rightarrow> coord_config \<Rightarrow> gctx \<Rightarrow> unit prog" where
  "recoveryScan E cfg ctx = do {
     e \<leftarrow> sleep_ctx ctx second;
     stop \<leftarrow> reads stop_closed;
     if e \<noteq> None \<or> stop then State_Monad.return ()
     else do {
       r \<leftarrow> ListRecoverableTransactions (lib E) ctx (InstanceID cfg) 100 (LeaseDuration cfg);
       case r of
         Inl e \<Rightarrow> State_Monad.return ()
       | Inr txs \<Rightarrow> requeue ctx (InstanceID cfg) txs } }"

fun timeout_all :: "coord_config \<Rightarrow> gctx \<Rightarrow> transaction list \<Rightarrow> unit prog" where
  "timeout_all cfg ctx [] = State_Monad.return ()"
| "timeout_all cfg ctx (tx # txs) = do {
     txCtx \<leftarrow> rehydrateSagaTraceContext ctx tx;
     r \<leftarrow> UpdateTransactionStatusCAS txCtx (tx_id tx) (tx_status tx) TxStatusCompensating
           ''transaction timeout'';
     _ \<leftarrow> (case r of
             Inr True \<Rightarrow> do {
               ok \<leftarrow> coord_Submit (tx_id tx);
               if ok then State_Monad.return ()
               else do { _ \<leftarrow> ReleaseTransaction txCtx (tx_id tx) (InstanceID cfg); State_Monad.return () } }
           | _ \<Rightarrow> do { _ \<leftarrow> ReleaseTransaction txCtx (tx_id tx) (InstanceID cfg); State_Monad.return () });
     timeout_all cfg ctx txs }"

definition scanTimeouts :: "saga_env \<Rightarrow> coord_config \<Rightarrow> gctx \<Rightarrow> unit prog" where
  "scanTimeouts E cfg ctx = do {
     r \<leftarrow> ListTimedOutTransactions (lib E) ctx (InstanceID cfg) (LeaseDuration cfg);
     case r of
       Inl e \<Rightarrow> State_Monad.return ()
     | Inr txs \<Rightarrow> timeout_all cfg ctx txs }"

section \<open>Compensation\<close>

definition triggerCompensation :: "gctx \<Rightarrow> transaction \<Rightarrow> string \<Rightarrow> unit prog" where
  "triggerCompensation ctx tx reason = do {
     _ \<leftarrow> durably ctx (\<lambda>c. UpdateTransactionStatusCAS c (tx_id tx) TxStatusRunning
            TxStatusCompensating reason);
     State_Monad.return () }"

definition needs_compensation :: "step \<Rightarrow> bool" where
  "needs_compensation s \<longleftrightarrow>
     st_status s \<in> {StepStatusSucceeded, StepStatusPolling, StepStatusCompensating}"

text \<open>
  The positions to compensate, last step first. Steps are shared pointers: an update made while
  compensating one shows in the data of the next, so the list is passed on updated.
\<close>

definition to_compensate :: "step list \<Rightarrow> nat list" where
  "to_compensate steps = rev (filter (\<lambda>i. needs_compensation (steps ! i)) [0..<length steps])"

text \<open>The loop; the result is \<open>None\<close> when it was interrupted, else the flag and the steps.\<close>

fun compensate_all ::
  "saga_env \<Rightarrow> gctx \<Rightarrow> transaction \<Rightarrow> nat list \<Rightarrow> step list \<Rightarrow> bool \<Rightarrow> (bool \<times> step list) option prog"
where
  "compensate_all E ctx tx [] steps ok = State_Monad.return (Some (ok, steps))"
| "compensate_all E ctx tx (i # is) steps ok = do {
     stop \<leftarrow> halted ctx;
     if stop then State_Monad.return None
     else do {
       r \<leftarrow> CompensateStep E ctx tx (steps ! i) steps;
       compensate_all E ctx tx is (steps[i := snd r]) (ok \<and> fst r = None) } }"

fun skip_pending :: "gctx \<Rightarrow> step list \<Rightarrow> unit prog" where
  "skip_pending ctx [] = State_Monad.return ()"
| "skip_pending ctx (s # ss) = do {
     _ \<leftarrow> (if st_status s = StepStatusPending
           then do { _ \<leftarrow> UpdateStepStatus ctx (st_id s) StepStatusSkipped ''''; State_Monad.return () }
           else State_Monad.return ());
     skip_pending ctx ss }"

definition executeCompensation :: "saga_env \<Rightarrow> gctx \<Rightarrow> transaction \<Rightarrow> step list \<Rightarrow> unit prog" where
  "executeCompensation E ctx tx steps = do {
     r \<leftarrow> compensate_all E ctx tx (to_compensate steps) steps True;
     case r of
       None \<Rightarrow> State_Monad.return ()
     | Some (ok, steps') \<Rightarrow> do {
         _ \<leftarrow> skip_pending ctx steps';
         _ \<leftarrow> UpdateTransactionStatus ctx (tx_id tx) TxStatusFailed
               (if ok then ''compensation completed''
                else ''compensation partially failed, manual intervention required'');
         State_Monad.return () } }"

section \<open>Forward steps\<close>

definition timeout_reason :: string where
  "timeout_reason = msg errTransactionExecutionTimeout"

text \<open>\<^verbatim>\<open>c.triggerCompensation(...); return true\<close>\<close>

definition compensate_and_go :: "gctx \<Rightarrow> transaction \<Rightarrow> string \<Rightarrow> bool prog" where
  "compensate_and_go ctx tx reason = do {
     _ \<leftarrow> triggerCompensation ctx tx reason; State_Monad.return True }"

text \<open>What follows an executor error, in both kinds of steps.\<close>

definition after_error :: "gctx \<Rightarrow> transaction \<Rightarrow> gerr \<Rightarrow> bool prog" where
  "after_error ctx tx e =
     (if errors_Is e ErrTransactionExecutionTimeout then compensate_and_go ctx tx timeout_reason
      else if errors_Is e ErrStepRetryable then do { _ \<leftarrow> sleep second; State_Monad.return True }
      else compensate_and_go ctx tx (msg e))"

definition executeSyncStep :: "saga_env \<Rightarrow> gctx \<Rightarrow> transaction \<Rightarrow> step \<Rightarrow> step list \<Rightarrow> bool prog" where
  "executeSyncStep E ctx tx s steps = do {
     late \<leftarrow> reads (transactionTimedOut tx);
     if late then compensate_and_go ctx tx timeout_reason
     else (let execCtx = withTransactionExecutionContext ctx tx in do {
       r \<leftarrow> ExecuteStep E execCtx tx s steps;
       case fst r of
         None \<Rightarrow> do {
           late \<leftarrow> reads (\<lambda>w. transactionTimedOut tx w \<or> transactionExecutionTimedOut execCtx w);
           if late then compensate_and_go ctx tx timeout_reason
           else do {
             _ \<leftarrow> durably ctx (\<lambda>c. UpdateTransactionStep c (tx_id tx) (st_index s + 1));
             State_Monad.return True } }
       | Some e \<Rightarrow> after_error ctx tx e }) }"

text \<open>
  The \<^verbatim>\<open>select\<close> over the timeout context, the stop channel and the notification channel. A
  buffered result is received at once, unless the context is over as well and is chosen.
\<close>

datatype wait_end = CtxDone | Stopped | Notified PollResult

definition await_poll :: "gctx \<Rightarrow> string \<Rightarrow> wait_end prog" where
  "await_poll ctx txID = State (\<lambda>w.
     let ev = (case waits w of [] \<Rightarrow> WaitDone | e # _ \<Rightarrow> e);
         w0 = w\<lparr>waits := tl (waits w)\<rparr>;
         buffered = (case map_of (notifyChan w) txID of Some b \<Rightarrow> b | None \<Rightarrow> None);
         taken = w0\<lparr>notifyChan := (if buffered = None then notifyChan w0
                                    else AList.update txID None (notifyChan w0))\<rparr>;
         dt = int (tk_dt (next_tick w))
     in case ev of
          WaitStop \<Rightarrow> (Stopped, (pass (now w + dt) w0)\<lparr>stop_closed := True\<rparr>)
        | WaitNotify r \<Rightarrow>
            (Notified (case buffered of Some b \<Rightarrow> b | None \<Rightarrow> r), pass (now w + dt) taken)
        | WaitDone \<Rightarrow>
            (if ctx_Err ctx w \<noteq> None then (CtxDone, w0)
             else case buffered of
               Some b \<Rightarrow> (Notified b, taken)
             | None \<Rightarrow>
                 (let d = (case cx_deadline ctx of Some d \<Rightarrow> d | None \<Rightarrow> now w);
                      t = (if tk_cancel (next_tick w) then min d (now w + dt) else d)
                  in (CtxDone, pass t w0))))"

text \<open>The body of the wait, between registering and unregistering.\<close>

definition wait_registered :: "saga_env \<Rightarrow> coord_config \<Rightarrow> gctx \<Rightarrow> gctx \<Rightarrow> transaction \<Rightarrow> step \<Rightarrow> bool prog" where
  "wait_registered E cfg ctx txCtx tx s = do {
     rl \<leftarrow> GetStep (lib E) ctx (st_id s);
     case rl of
       Inl e \<Rightarrow> State_Monad.return False
     | Inr None \<Rightarrow> compensate_and_go ctx tx (''async step '' @ st_id s @ '' not found'')
     | Inr (Some latest) \<Rightarrow>
         (if st_status latest = StepStatusSucceeded then do {
            late \<leftarrow> reads (\<lambda>w. transactionTimedOut tx w \<or> transactionExecutionTimedOut txCtx w);
            if late then compensate_and_go ctx tx timeout_reason
            else do {
              _ \<leftarrow> durably ctx (\<lambda>c. UpdateTransactionStep c (tx_id tx) (st_index latest + 1));
              State_Monad.return True } }
          else if st_status latest = StepStatusFailed then
            compensate_and_go ctx tx (if st_last_error latest = '''' then ''async step failed''
                                      else st_last_error latest)
          else if st_status latest \<in> {StepStatusCompensating, StepStatusCompensated, StepStatusSkipped}
          then State_Monad.return True
          else do {
            t \<leftarrow> time_now;
            let timeoutCtx = with_deadline txCtx (t + AsyncStepTimeout cfg);
            ev \<leftarrow> await_poll timeoutCtx (tx_id tx);
            case ev of
              CtxDone \<Rightarrow> do {
                late \<leftarrow> reads (\<lambda>w. transactionExecutionTimedOut timeoutCtx w \<or> transactionTimedOut tx w);
                compensate_and_go ctx tx (if late then timeout_reason else ''timeout waiting for async step'') }
            | Stopped \<Rightarrow> State_Monad.return False
            | Notified PollResultSuccess \<Rightarrow> do {
                _ \<leftarrow> UpdateTransactionStep ctx (tx_id tx) (st_index s + 1);
                State_Monad.return True }
            | Notified PollResultFailure \<Rightarrow> compensate_and_go ctx tx ''async step failed or timed out''
            | Notified PollResultTimeout \<Rightarrow> compensate_and_go ctx tx ''async step failed or timed out''
            | Notified PollResultError \<Rightarrow> State_Monad.return True
            | Notified PollResultPending \<Rightarrow> State_Monad.return False }) }"

definition waitForAsyncStep :: "saga_env \<Rightarrow> coord_config \<Rightarrow> gctx \<Rightarrow> transaction \<Rightarrow> step \<Rightarrow> bool prog" where
  "waitForAsyncStep E cfg ctx tx s = do {
     late \<leftarrow> reads (transactionTimedOut tx);
     if late then compensate_and_go ctx tx timeout_reason
     else do {
       _ \<leftarrow> RegisterNotify (tx_id tx);
       r \<leftarrow> wait_registered E cfg ctx (withTransactionExecutionContext ctx tx) tx s;
       _ \<leftarrow> UnregisterNotify (tx_id tx);
       State_Monad.return r } }"

definition executeAsyncStep ::
  "saga_env \<Rightarrow> coord_config \<Rightarrow> gctx \<Rightarrow> transaction \<Rightarrow> step \<Rightarrow> step list \<Rightarrow> bool prog" where
  "executeAsyncStep E cfg ctx tx s steps = do {
     late \<leftarrow> reads (transactionTimedOut tx);
     if late then compensate_and_go ctx tx timeout_reason
     else (let execCtx = withTransactionExecutionContext ctx tx in do {
       r \<leftarrow> ExecuteAsyncStep E execCtx tx s steps;
       case fst r of
         None \<Rightarrow> do {
           late \<leftarrow> reads (\<lambda>w. transactionTimedOut tx w \<or> transactionExecutionTimedOut execCtx w);
           if late then compensate_and_go ctx tx timeout_reason
           else waitForAsyncStep E cfg ctx tx (snd r) }
       | Some e \<Rightarrow> after_error ctx tx e }) }"

definition executeStep ::
  "saga_env \<Rightarrow> coord_config \<Rightarrow> gctx \<Rightarrow> transaction \<Rightarrow> step \<Rightarrow> step list \<Rightarrow> bool prog" where
  "executeStep E cfg ctx tx s steps =
     (case st_type s of
        StepTypeSync \<Rightarrow> executeSyncStep E ctx tx s steps
      | StepTypeAsync \<Rightarrow> executeAsyncStep E cfg ctx tx s steps
      | StepTypeOther _ \<Rightarrow> executeSyncStep E ctx tx s steps)"

text \<open>
  The scan for the step to execute: the failed step it met, or the current step and whether all
  succeeded. A later running or polling step replaces an earlier choice.
\<close>

fun scan_steps :: "step list \<Rightarrow> step option \<Rightarrow> bool \<Rightarrow> step + (step option \<times> bool)" where
  "scan_steps [] cur ok = Inr (cur, ok)"
| "scan_steps (s # ss) cur ok =
     (case st_status s of
        StepStatusPending \<Rightarrow> scan_steps ss (if cur = None then Some s else cur) False
      | StepStatusRunning \<Rightarrow> scan_steps ss (Some s) False
      | StepStatusPolling \<Rightarrow> scan_steps ss (Some s) False
      | StepStatusSucceeded \<Rightarrow> scan_steps ss cur ok
      | StepStatusFailed \<Rightarrow> Inl s
      | _ \<Rightarrow> scan_steps ss cur False)"

definition executeNextStep ::
  "saga_env \<Rightarrow> coord_config \<Rightarrow> gctx \<Rightarrow> transaction \<Rightarrow> step list \<Rightarrow> bool prog" where
  "executeNextStep E cfg ctx tx steps = do {
     late \<leftarrow> reads (transactionTimedOut tx);
     if late then compensate_and_go ctx tx timeout_reason
     else case scan_steps steps None True of
       Inl s \<Rightarrow> compensate_and_go ctx tx (''step failed: '' @ st_name s)
     | Inr (cur, allSucceeded) \<Rightarrow>
         (if allSucceeded then do {
            late \<leftarrow> reads (transactionTimedOut tx);
            if late then compensate_and_go ctx tx timeout_reason
            else do {
              _ \<leftarrow> UpdateTransactionStatusCAS ctx (tx_id tx) TxStatusRunning TxStatusSucceeded '''';
              State_Monad.return False } }
          else case cur of
            None \<Rightarrow> State_Monad.return False
          | Some s \<Rightarrow>
              (case st_status s of
                 StepStatusPending \<Rightarrow> executeStep E cfg ctx tx s steps
               | StepStatusRunning \<Rightarrow>
                   (if st_type s = StepTypeSync then executeStep E cfg ctx tx s steps
                    else waitForAsyncStep E cfg ctx tx s)
               | StepStatusPolling \<Rightarrow> waitForAsyncStep E cfg ctx tx s
               | _ \<Rightarrow> State_Monad.return False)) }"

section \<open>Driving a transaction\<close>

text \<open>One round of the loop once the transaction is loaded: whether to go on.\<close>

definition drive_loaded :: "saga_env \<Rightarrow> coord_config \<Rightarrow> gctx \<Rightarrow> string \<Rightarrow> transaction \<Rightarrow> bool prog" where
  "drive_loaded E cfg ctx txID tx = do {
     txCtx \<leftarrow> rehydrateSagaTraceContext ctx tx;
     rs \<leftarrow> GetSteps (lib E) txCtx txID;
     case rs of
       Inl e \<Rightarrow> State_Monad.return False
     | Inr steps \<Rightarrow> do {
         renewed \<leftarrow> ClaimTransaction txCtx txID (InstanceID cfg) (LeaseDuration cfg);
         if renewed \<noteq> Inr True then State_Monad.return False
         else case tx_status tx of
           TxStatusPending \<Rightarrow> do {
             ok \<leftarrow> UpdateTransactionStatusCAS txCtx txID TxStatusPending TxStatusRunning '''';
             State_Monad.return (ok = Inr True) }
         | TxStatusRunning \<Rightarrow> executeNextStep E cfg txCtx tx steps
         | TxStatusCompensating \<Rightarrow> do {
             _ \<leftarrow> executeCompensation E txCtx tx steps; State_Monad.return False }
         | TxStatusSucceeded \<Rightarrow> State_Monad.return False
         | TxStatusFailed \<Rightarrow> State_Monad.return False } }"

definition drive_round :: "saga_env \<Rightarrow> coord_config \<Rightarrow> gctx \<Rightarrow> string \<Rightarrow> bool prog" where
  "drive_round E cfg ctx txID = do {
     stop \<leftarrow> halted ctx;
     if stop then State_Monad.return False
     else do {
       rt \<leftarrow> GetTransaction (lib E) ctx txID;
       case rt of
         Inl e \<Rightarrow> State_Monad.return False
       | Inr None \<Rightarrow> State_Monad.return False
       | Inr (Some tx) \<Rightarrow> drive_loaded E cfg ctx txID tx } }"

text \<open>The loop with fuel: \<open>True\<close> when it left by itself.\<close>

fun drive_loop :: "saga_env \<Rightarrow> coord_config \<Rightarrow> gctx \<Rightarrow> string \<Rightarrow> nat \<Rightarrow> bool prog" where
  "drive_loop E cfg ctx txID 0 = State_Monad.return False"
| "drive_loop E cfg ctx txID (Suc fuel) = do {
     go \<leftarrow> drive_round E cfg ctx txID;
     if go then drive_loop E cfg ctx txID fuel else State_Monad.return True }"

definition driveTransaction :: "saga_env \<Rightarrow> coord_config \<Rightarrow> gctx \<Rightarrow> string \<Rightarrow> nat \<Rightarrow> bool prog" where
  "driveTransaction E cfg ctx txID fuel = do {
     claimed \<leftarrow> ClaimTransaction ctx txID (InstanceID cfg) (LeaseDuration cfg);
     r \<leftarrow> (if claimed \<noteq> Inr True then State_Monad.return True
           else do {
             ended \<leftarrow> drive_loop E cfg ctx txID fuel;
             _ \<leftarrow> ReleaseTransaction ctx txID (InstanceID cfg);
             State_Monad.return ended });
     _ \<leftarrow> leave_active txID;
     State_Monad.return r }"

text \<open>A worker takes the next transaction from the queue, if there is one.\<close>

definition worker_step :: "saga_env \<Rightarrow> coord_config \<Rightarrow> gctx \<Rightarrow> nat \<Rightarrow> bool prog" where
  "worker_step E cfg ctx fuel = do {
     stop \<leftarrow> halted ctx;
     q \<leftarrow> reads taskQueue;
     if stop \<or> q = [] then State_Monad.return True
     else do {
       _ \<leftarrow> modifies (\<lambda>w. w\<lparr>taskQueue := tl (taskQueue w)\<rparr>);
       driveTransaction E cfg ctx (hd q) fuel } }"

end
