(* ===== verification/Saga_Engine.thy ===== *)
theory Saga_Engine
  imports Saga_Coordinator
begin

text \<open>
  \<^verbatim>\<open>saga/engine.go\<close>: the entry point. Configuration defaults, submission, queries and
  the wait for a terminal state.
\<close>

section \<open>Configuration\<close>

record engine_config =
  ec_dsn :: string
  ec_worker_count :: int
  ec_poll_batch_size :: int
  ec_poll_scan_interval :: int
  ec_coord_scan_interval :: int
  ec_http_timeout :: int
  ec_instance :: string

definition DefaultConfig :: engine_config where
  "DefaultConfig = \<lparr>ec_dsn = '''', ec_worker_count = 4, ec_poll_batch_size = 20,
     ec_poll_scan_interval = 3 * second, ec_coord_scan_interval = 5 * second,
     ec_http_timeout = 30 * second, ec_instance = ''''\<rparr>"

definition apply_defaults :: "engine_config \<Rightarrow> engine_config" where
  "apply_defaults c = c\<lparr>
     ec_worker_count := (if ec_worker_count c \<le> 0 then 4 else ec_worker_count c),
     ec_poll_batch_size := (if ec_poll_batch_size c \<le> 0 then 20 else ec_poll_batch_size c),
     ec_poll_scan_interval := (if ec_poll_scan_interval c \<le> 0 then 3 * second else ec_poll_scan_interval c),
     ec_coord_scan_interval := (if ec_coord_scan_interval c \<le> 0 then 5 * second else ec_coord_scan_interval c),
     ec_http_timeout := (if ec_http_timeout c \<le> 0 then 30 * second else ec_http_timeout c)\<rparr>"

record engine =
  en_config :: engine_config
  en_poller :: poller_config
  en_coord :: coord_config

text \<open>
  The host name, the process id and the outcomes of opening and pinging the database are inputs.
\<close>

definition NewEngine ::
  "string \<Rightarrow> int \<Rightarrow> gerr option \<Rightarrow> gerr option \<Rightarrow> engine_config option \<Rightarrow> gerr + engine" where
  "NewEngine hostname pid open_err ping_err cfg =
     (let c1 = apply_defaults (case cfg of None \<Rightarrow> DefaultConfig | Some c \<Rightarrow> c) in
      if ec_dsn c1 = '''' then Inl (errors_New ''DSN is required'')
      else let c = (if ec_instance c1 = '''' then c1\<lparr>ec_instance := hostname @ ''-'' @ itoa pid\<rparr> else c1) in
        case open_err of Some e \<Rightarrow> Inl (wrap_err ''failed to connect to database'' e)
      | None \<Rightarrow>
     (case ping_err of Some e \<Rightarrow> Inl (wrap_err ''failed to ping database'' e)
      | None \<Rightarrow> Inr \<lparr>en_config = c,
          en_poller = \<lparr>pc_scan_interval = ec_poll_scan_interval c, pc_batch_size = ec_poll_batch_size c,
                       pc_instance = ec_instance c\<rparr>,
          en_coord = NewCoordinator_config hostname pid (Some
            \<lparr>WorkerCount = ec_worker_count c, ScanInterval = ec_coord_scan_interval c,
             TimeoutScanInterval = 30 * second, AsyncStepTimeout = 600 * second,
             InstanceID = ec_instance c, LeaseDuration = 300 * second\<rparr>)\<rparr>))"

section \<open>Submission\<close>

definition engine_err :: "sentinel \<Rightarrow> gerr" where
  "engine_err s = GErr [s] (case s of
      ErrTransactionFailed \<Rightarrow> ''transaction reached terminal failed state''
    | ErrTransactionNotFound \<Rightarrow> ''transaction not found''
    | ErrTransactionDisappeared \<Rightarrow> ''transaction disappeared during wait''
    | _ \<Rightarrow> '''')"

text \<open>The fail-fast check of the credentials the steps name.\<close>

fun validate_credentials :: "stdlib \<Rightarrow> credential_store \<Rightarrow> step list \<Rightarrow> gerr option" where
  "validate_credentials L store [] = None"
| "validate_credentials L store (s # ss) =
     (if auth_ak s = '''' then validate_credentials L store ss
      else case store (auth_ak s) of
        Inl e \<Rightarrow> Some (wrap_err (''failed to validate AuthAK '' @ sprintf_q L (auth_ak s)) e)
      | Inr oc \<Rightarrow>
          (if (case oc of None \<Rightarrow> True | Some c \<Rightarrow> \<not> Enabled c)
           then Some (errors_New (''credential not found or disabled for AuthAK '' @ sprintf_q L (auth_ak s)))
           else validate_credentials L store ss))"

definition submit_step :: "string \<Rightarrow> string \<Rightarrow> int \<Rightarrow> step \<Rightarrow> step" where
  "submit_step stepID txID i s = \<lparr>st_id = stepID, st_tx_id = txID, st_index = i, st_name = st_name s,
     st_type = st_type s, st_status = StepStatusPending,
     action_method = action_method s, action_url = action_url s, action_payload = action_payload s,
     action_response = None, auth_ak = auth_ak s,
     compensate_method = compensate_method s, compensate_url = compensate_url s,
     compensate_payload = compensate_payload s,
     poll_url = poll_url s, poll_method = poll_method s, poll_interval_sec = poll_interval_sec s,
     poll_max_times = poll_max_times s, poll_count = 0,
     poll_success_path = poll_success_path s, poll_success_value = poll_success_value s,
     poll_failure_path = poll_failure_path s, poll_failure_value = poll_failure_value s,
     next_poll_at = None, st_retry_count = 0, max_retry = max_retry s, st_last_error = '''',
     st_started_at = None, st_finished_at = None\<rparr>"

fun submit_steps :: "string \<Rightarrow> int \<Rightarrow> step list \<Rightarrow> step list prog" where
  "submit_steps txID i [] = State_Monad.return []"
| "submit_steps txID i (s # ss) = do {
     u \<leftarrow> new_uuid;
     rest \<leftarrow> submit_steps txID (i + 1) ss;
     State_Monad.return (submit_step u txID i s # rest) }"

text \<open>The copy of the payload, with the trace of the caller.\<close>

definition submit_payload :: "gctx \<Rightarrow> gomap \<Rightarrow> (string \<times> goval) list" where
  "submit_payload ctx p =
     (let copy = (case p of None \<Rightarrow> [] | Some kvs \<Rightarrow> kvs) in
      case cx_trace ctx of
        None \<Rightarrow> copy
      | Some tc \<Rightarrow> AList.update ''_span_id'' (GStr (SpanId tc))
                     (AList.update ''_trace_id'' (GStr (TraceID tc)) copy))"

definition submit_transaction :: "gctx \<Rightarrow> string \<Rightarrow> int \<Rightarrow> saga_definition \<Rightarrow> transaction" where
  "submit_transaction ctx txID t d = \<lparr>tx_id = txID, tx_status = TxStatusPending,
     tx_payload = Some (submit_payload ctx (sd_payload d)), current_step = 0, created_at = t,
     updated_at = t, finished_at = None,
     timeout_at = (if sd_timeout_sec d > 0 then Some (t + wrap64 (sd_timeout_sec d * second)) else None),
     tx_retry_count = 0, tx_last_error = ''''\<rparr>"

text \<open>The result and the definition, in which \<^verbatim>\<open>Submit\<close> records the new id.\<close>

definition engine_Submit ::
  "saga_env \<Rightarrow> gctx \<Rightarrow> saga_definition option \<Rightarrow> ((gerr + string) \<times> saga_definition option) prog" where
  "engine_Submit E ctx def =
     (case def of
        None \<Rightarrow> State_Monad.return (Inl (errors_New ''saga definition is required''), None)
      | Some d \<Rightarrow>
     (case (case credStore E of None \<Rightarrow> None | Some store \<Rightarrow> validate_credentials (lib E) store (sd_steps d)) of
        Some e \<Rightarrow> State_Monad.return (Inl e, Some d)
      | None \<Rightarrow> do {
          txID \<leftarrow> new_uuid;
          t \<leftarrow> time_now;
          steps \<leftarrow> submit_steps txID 0 (sd_steps d);
          r \<leftarrow> CreateTransactionWithSteps (lib E) ctx (submit_transaction ctx txID t d) steps;
          case r of
            Inl e \<Rightarrow> State_Monad.return (Inl (wrap_err ''failed to create transaction'' e), Some (d\<lparr>sd_id := txID\<rparr>))
          | Inr _ \<Rightarrow> do {
              _ \<leftarrow> coord_Submit txID;
              State_Monad.return (Inr txID, Some (d\<lparr>sd_id := txID\<rparr>)) } }))"

section \<open>Queries\<close>

record step_status_view =
  sv_index :: int
  sv_name :: string
  sv_status :: string
  sv_poll_count :: int
  sv_last_error :: string

record transaction_status =
  ts_id :: string
  ts_status :: string
  ts_current_step :: int
  ts_steps :: "step_status_view list"
  ts_last_error :: string
  ts_created_at :: int
  ts_finished_at :: "int option"

definition step_view :: "step \<Rightarrow> step_status_view" where
  "step_view s = \<lparr>sv_index = st_index s, sv_name = st_name s,
     sv_status = step_status_str (st_status s), sv_poll_count = poll_count s,
     sv_last_error = st_last_error s\<rparr>"

definition Query :: "saga_env \<Rightarrow> gctx \<Rightarrow> string \<Rightarrow> (gerr + transaction_status) prog" where
  "Query E ctx txID = do {
     rt \<leftarrow> GetTransaction (lib E) ctx txID;
     case rt of
       Inl e \<Rightarrow> State_Monad.return (Inl (wrap_err ''failed to get transaction'' e))
     | Inr None \<Rightarrow> State_Monad.return (Inl (mark_err (engine_err ErrTransactionNotFound) (errors_New txID)))
     | Inr (Some tx) \<Rightarrow> do {
         rs \<leftarrow> GetSteps (lib E) ctx txID;
         State_Monad.return (case rs of
             Inl e \<Rightarrow> Inl (wrap_err ''failed to get steps'' e)
           | Inr steps \<Rightarrow> Inr \<lparr>ts_id = tx_id tx, ts_status = tx_status_str (tx_status tx),
               ts_current_step = current_step tx, ts_steps = map step_view steps,
               ts_last_error = tx_last_error tx, ts_created_at = created_at tx,
               ts_finished_at = finished_at tx\<rparr>) } }"

section \<open>Waiting\<close>

definition submitAndWaitPollInterval :: int where "submitAndWaitPollInterval = 500000000"
definition submitAndWaitQueryRetryLimit :: nat where "submitAndWaitQueryRetryLimit = 3"
definition submitAndWaitQueryRetryBackoff :: int where "submitAndWaitQueryRetryBackoff = 500000000"
definition submitAndWaitQueryRetryBackoffMax :: int where "submitAndWaitQueryRetryBackoffMax = 2 * second"

text \<open>The doubling loop over the failures after the first, capped.\<close>

fun query_backoff :: "nat \<Rightarrow> int \<Rightarrow> int" where
  "query_backoff 0 b = b"
| "query_backoff (Suc k) b =
     (if b * 2 \<ge> submitAndWaitQueryRetryBackoffMax then submitAndWaitQueryRetryBackoffMax
      else query_backoff k (b * 2))"

type_synonym wait_result = "transaction_status option \<times> gerr option"

text \<open>The loop with fuel; \<open>None\<close> when the fuel did not suffice.\<close>

fun wait_loop ::
  "saga_env \<Rightarrow> gctx \<Rightarrow> string \<Rightarrow> nat \<Rightarrow> transaction_status option \<Rightarrow> nat \<Rightarrow> wait_result option prog" where
  "wait_loop E ctx txID 0 lastStatus queryFailures = State_Monad.return None"
| "wait_loop E ctx txID (Suc fuel) lastStatus queryFailures = do {
     q \<leftarrow> Query E ctx txID;
     case q of
       Inl e \<Rightarrow>
         (if errors_Is e ErrTransactionNotFound
          then State_Monad.return (Some (lastStatus,
                 Some (mark_err (engine_err ErrTransactionDisappeared) (errors_New txID))))
          else if queryFailures + 1 \<ge> submitAndWaitQueryRetryLimit
          then State_Monad.return (Some (lastStatus,
                 Some (wrap_err (''failed to query transaction '' @ txID @ '' after '' @
                                 itoa (int queryFailures + 1) @ '' attempts'') e)))
          else do {
            w \<leftarrow> sleep_ctx ctx (query_backoff queryFailures submitAndWaitQueryRetryBackoff);
            case w of
              Some e \<Rightarrow> State_Monad.return (Some (lastStatus, Some e))
            | None \<Rightarrow> wait_loop E ctx txID fuel lastStatus (queryFailures + 1) })
     | Inr status \<Rightarrow>
         (if ts_status status = tx_status_str TxStatusSucceeded
          then State_Monad.return (Some (Some status, None))
          else if ts_status status = tx_status_str TxStatusFailed
          then State_Monad.return (Some (Some status, Some
                 (if ts_last_error status \<noteq> ''''
                  then mark_err (engine_err ErrTransactionFailed) (errors_New (ts_last_error status))
                  else engine_err ErrTransactionFailed)))
          else do {
            w \<leftarrow> sleep_ctx ctx submitAndWaitPollInterval;
            case w of
              Some e \<Rightarrow> State_Monad.return (Some (Some status, Some e))
            | None \<Rightarrow> wait_loop E ctx txID fuel (Some status) 0 }) }"

definition waitForTransaction :: "saga_env \<Rightarrow> gctx \<Rightarrow> string \<Rightarrow> nat \<Rightarrow> wait_result option prog" where
  "waitForTransaction E ctx txID fuel = wait_loop E ctx txID fuel None 0"

definition SubmitAndWait ::
  "saga_env \<Rightarrow> gctx \<Rightarrow> saga_definition option \<Rightarrow> nat \<Rightarrow> (string \<times> wait_result) option prog" where
  "SubmitAndWait E ctx def fuel = do {
     r \<leftarrow> engine_Submit E ctx def;
     case fst r of
       Inl e \<Rightarrow> State_Monad.return (Some ('''', None, Some e))
     | Inr txID \<Rightarrow> do {
         w \<leftarrow> waitForTransaction E ctx txID fuel;
         State_Monad.return (map_option (\<lambda>x. (txID, x)) w) } }"

section \<open>An instance at work\<close>

text \<open>
  What the goroutines of one engine and its callers do, one activity at a time: a worker takes a
  transaction from the queue and drives it, the recovery, timeout and poll scans run, callers submit
  sagas and wait for them. What runs at the same time appears as the writes of other sessions.
\<close>

datatype activity =
    Work nat
  | RecoveryScan
  | TimeoutScan
  | PollScan
  | SubmitSaga gctx "saga_definition option"
  | WaitFor gctx string nat

fun run_activity :: "saga_env \<Rightarrow> coord_config \<Rightarrow> poller_config \<Rightarrow> gctx \<Rightarrow> activity \<Rightarrow> unit prog" where
  "run_activity E cfg pcfg ctx (Work n) = do { _ \<leftarrow> worker_step E cfg ctx n; State_Monad.return () }"
| "run_activity E cfg pcfg ctx RecoveryScan = recoveryScan E cfg ctx"
| "run_activity E cfg pcfg ctx TimeoutScan = scanTimeouts E cfg ctx"
| "run_activity E cfg pcfg ctx PollScan = poller_scanAndProcess E pcfg ctx"
| "run_activity E cfg pcfg ctx (SubmitSaga c def) = do { _ \<leftarrow> engine_Submit E c def; State_Monad.return () }"
| "run_activity E cfg pcfg ctx (WaitFor c i n) = do { _ \<leftarrow> waitForTransaction E c i n; State_Monad.return () }"

fun run_instance :: "saga_env \<Rightarrow> coord_config \<Rightarrow> poller_config \<Rightarrow> gctx \<Rightarrow> activity list \<Rightarrow> unit prog" where
  "run_instance E cfg pcfg ctx [] = State_Monad.return ()"
| "run_instance E cfg pcfg ctx (a # as) = do {
     _ \<leftarrow> run_activity E cfg pcfg ctx a;
     run_instance E cfg pcfg ctx as }"

end
