(* ===== verification/Saga_Guarantee.thy ===== *)
theory Saga_Guarantee
  imports Saga_Engine
begin

text \<open>
  What an engine instance does to the database whatever the other instances do meanwhile, provided
  they keep to the same rules: a relation between database states is both relied on (the writes of
  other sessions respect it) and guaranteed (so do the instance's own). The first locale holds for any
  such relation, the second for those that do not look at the step and poll tables.
\<close>

text \<open>
  A rule may be limited to a span of time \<open>T\<close>, such as the validity of a lease: a program moves
  along the relation if the clock is still in the span when it ends. The clock never goes back.
\<close>

definition moves :: "int set \<Rightarrow> (db \<Rightarrow> db \<Rightarrow> bool) \<Rightarrow> world \<Rightarrow> world \<Rightarrow> bool" where
  "moves T D w w' \<longleftrightarrow> now w \<le> now w' \<and> (now w' \<in> T \<longrightarrow> D (wdb w) (wdb w'))"

text \<open>All writes of the other sessions that are still to come respect the relation.\<close>

definition calm :: "(db \<Rightarrow> db \<Rightarrow> bool) \<Rightarrow> world \<Rightarrow> bool" where
  "calm D w \<longleftrightarrow> (\<forall>tk \<in> set (ticks w). \<forall>d. D d (tk_env tk d))"

definition during :: "int set \<Rightarrow> (db \<Rightarrow> db \<Rightarrow> bool) \<Rightarrow> (db \<Rightarrow> bool) \<Rightarrow> world \<Rightarrow> bool" where
  "during T D I w \<longleftrightarrow> calm D w \<and> (now w \<in> T \<longrightarrow> I (wdb w))"

definition stable :: "(db \<Rightarrow> db \<Rightarrow> bool) \<Rightarrow> (db \<Rightarrow> bool) \<Rightarrow> bool" where
  "stable D I \<longleftrightarrow> (\<forall>d d'. I d \<longrightarrow> D d d' \<longrightarrow> I d')"

lemma stable_True [simp]: "stable D (\<lambda>_. True)"
  by (simp add: stable_def)

lemma stableD: "stable D I \<Longrightarrow> I d \<Longrightarrow> D d d' \<Longrightarrow> I d'"
  by (auto simp: stable_def)

lemma pass_simps [simp]:
  "wdb (pass t w) = wdb w" "now (pass t w) = t" "ticks (pass t w) = tl (ticks w)"
  "sent (pass t w) = sent w" "net (pass t w) = net w" "activeTx (pass t w) = activeTx w"
  "taskQueue (pass t w) = taskQueue w" "notifyChan (pass t w) = notifyChan w"
  by (simp_all add: pass_def Let_def)

lemma calm_tl: "calm D w \<Longrightarrow> ticks w' = tl (ticks w) \<Longrightarrow> calm D w'"
  by (cases "ticks w") (auto simp: calm_def)

text \<open>What a result says about the run it came from.\<close>

lemma ensures_result:
  "ensures R P m Q \<Longrightarrow> ensures R P m (\<lambda>r s. (\<exists>s0 s1. run_state m s0 = (r, s1)) \<and> Q r s)"
  by (auto simp: ensures_def)

lemma ensures_pure: "(A \<Longrightarrow> ensures R P m Q) \<Longrightarrow> ensures R (\<lambda>s. A \<and> P s) m Q"
  by (auto simp: ensures_def)

subsection \<open>Case rules for the judgement\<close>

lemma ensures_tx_status [ensures_rules]:
  "ensures R P a Q \<Longrightarrow> ensures R P b Q \<Longrightarrow> (s = TxStatusCompensating \<Longrightarrow> ensures R P c Q) \<Longrightarrow>
   ensures R P d Q \<Longrightarrow> ensures R P e Q \<Longrightarrow>
   ensures R P (case s of TxStatusPending \<Rightarrow> a | TxStatusRunning \<Rightarrow> b | TxStatusCompensating \<Rightarrow> c
     | TxStatusSucceeded \<Rightarrow> d | TxStatusFailed \<Rightarrow> e) Q"
  by (cases s) auto

lemma ensures_step_status [ensures_rules]:
  "ensures R P a Q \<Longrightarrow> ensures R P b Q \<Longrightarrow> ensures R P c Q \<Longrightarrow> ensures R P d Q \<Longrightarrow>
   ensures R P e Q \<Longrightarrow> ensures R P f Q \<Longrightarrow> ensures R P g Q \<Longrightarrow> ensures R P h Q \<Longrightarrow>
   ensures R P (case s of StepStatusPending \<Rightarrow> a | StepStatusRunning \<Rightarrow> b | StepStatusPolling \<Rightarrow> c
     | StepStatusSucceeded \<Rightarrow> d | StepStatusFailed \<Rightarrow> e | StepStatusCompensating \<Rightarrow> f
     | StepStatusCompensated \<Rightarrow> g | StepStatusSkipped \<Rightarrow> h) Q"
  by (cases s) auto

lemma ensures_step_type [ensures_rules]:
  "ensures R P a Q \<Longrightarrow> ensures R P b Q \<Longrightarrow> (\<And>x. ensures R P (c x) Q) \<Longrightarrow>
   ensures R P (case s of StepTypeSync \<Rightarrow> a | StepTypeAsync \<Rightarrow> b | StepTypeOther x \<Rightarrow> c x) Q"
  by (cases s) auto

lemma ensures_wait_end [ensures_rules]:
  "ensures R P a Q \<Longrightarrow> ensures R P b Q \<Longrightarrow> (\<And>r. ensures R P (c r) Q) \<Longrightarrow>
   ensures R P (case s of CtxDone \<Rightarrow> a | Stopped \<Rightarrow> b | Notified r \<Rightarrow> c r) Q"
  by (cases s) auto

lemma ensures_poll_result [ensures_rules]:
  "ensures R P a Q \<Longrightarrow> ensures R P b Q \<Longrightarrow> ensures R P c Q \<Longrightarrow> ensures R P d Q \<Longrightarrow> ensures R P e Q \<Longrightarrow>
   ensures R P (case s of PollResultPending \<Rightarrow> a | PollResultSuccess \<Rightarrow> b | PollResultFailure \<Rightarrow> c
     | PollResultTimeout \<Rightarrow> d | PollResultError \<Rightarrow> e) Q"
  by (cases s) auto

lemma ensures_comp_end [ensures_rules]:
  "(\<And>e s. r = CompReturn e s \<Longrightarrow> ensures R P (f e s) Q) \<Longrightarrow>
   (\<And>e. r = CompExhausted e \<Longrightarrow> ensures R P (g e) Q) \<Longrightarrow>
   ensures R P (case r of CompReturn e s \<Rightarrow> f e s | CompExhausted e \<Rightarrow> g e) Q"
  by (cases r) auto

lemma ensures_bool [ensures_rules]:
  "ensures R P a Q \<Longrightarrow> ensures R P b Q \<Longrightarrow> ensures R P (case x of True \<Rightarrow> a | False \<Rightarrow> b) Q"
  by (cases x) auto

section \<open>Any relation\<close>

locale db_guarantee =
  fixes D :: "db \<Rightarrow> db \<Rightarrow> bool" \<comment> \<open>relied on and guaranteed\<close>
    and T :: "int set" \<comment> \<open>while the clock is in this span\<close>
    and K :: "string \<Rightarrow> db \<Rightarrow> bool" \<comment> \<open>what may become known of a transaction\<close>
  assumes D_refl: "D d d"
    and D_trans: "D d e \<Longrightarrow> D e f \<Longrightarrow> D d f"
    and T_down: "t \<in> T \<Longrightarrow> s \<le> t \<Longrightarrow> s \<in> T"
    and K_stable: "K i d \<Longrightarrow> D d e \<Longrightarrow> K i e"
begin

definition known :: "bool \<Rightarrow> string \<Rightarrow> db \<Rightarrow> bool" where
  "known b i d \<longleftrightarrow> (b \<longrightarrow> K i d)"

abbreviation safe :: "bool \<Rightarrow> string \<Rightarrow> 'a prog \<Rightarrow> bool" where
  "safe b i m \<equiv> keeps (moves T D) (during T D (known b i)) m"

lemma known_stable: "stable D (known b i)"
  by (auto simp: stable_def known_def intro: K_stable)

sublocale transition "moves T D"
proof
  fix s t u :: world
  show "moves T D s s" by (simp add: moves_def D_refl)
  show "moves T D s u" if "moves T D s t" "moves T D t u"
    using that by (auto simp: moves_def intro: D_trans T_down)
qed

lemma calm_env: "calm D w \<Longrightarrow> D (wdb w) (tk_env (next_tick w) (wdb w))"
  by (auto simp: calm_def next_tick_def quiet_tick_def D_refl split: list.splits)

lemma store_call_ensures:
  assumes "stable D I"
    and "\<And>F s t0 t d r d'. t \<in> T \<Longrightarrow> I d \<Longrightarrow> body F s t0 t d = (r, d') \<Longrightarrow> D d d' \<and> Q r d'"
  shows "ensures (moves T D) (during T D I) (store_call ctx body) (\<lambda>r. during T D (Q r))"
proof (rule ensuresI)
  fix w r w'
  assume w: "during T D I w" and run: "run_state (store_call ctx body) w = (r, w')"
  let ?e = "tk_env (next_tick w) (wdb w)"
  obtain F s t0 where b: "body F s t0 (now w') ?e = (r, wdb w')"
    and t: "now w' = now w + int (tk_dt (next_tick w))"
    and c: "ticks w' = tl (ticks w)"
    using run by (auto simp: store_call_def Let_def split: prod.splits)
  have calm: "calm D w'" using w c by (auto simp: during_def intro: calm_tl)
  have step: "D (wdb w) (wdb w') \<and> Q r (wdb w')" if T: "now w' \<in> T"
  proof -
    have env: "D (wdb w) ?e" using w by (simp add: during_def calm_env)
    have "now w \<in> T" using T t by (intro T_down [OF T]) simp
    then have "I ?e" using w env assms(1) by (auto simp: during_def dest: stableD)
    with assms(2) [OF T _ b] have "D ?e (wdb w') \<and> Q r (wdb w')" by blast
    with env show ?thesis by (auto intro: D_trans)
  qed
  show "moves T D w w' \<and> during T D (Q r) w'"
    using step calm t by (auto simp: moves_def during_def)
qed

lemma store_call_safe:
  assumes "\<And>F s t0 t d. t \<in> T \<Longrightarrow> known b i d \<Longrightarrow> D d (snd (body F s t0 t d))"
  shows "safe b i (store_call ctx body)"
proof (rule store_call_ensures [OF known_stable])
  fix F s t0 t d r d'
  assume t: "t \<in> T" and I: "known b i d" and "body F s t0 t d = (r, d')"
  then have "D d d'" using assms [of t d F s t0] by simp
  then show "D d d' \<and> known b i d'" using stableD [OF known_stable I] by blast
qed

text \<open>Programs that leave the database and at most let time pass.\<close>

definition local_only :: "'a prog \<Rightarrow> bool" where
  "local_only m \<longleftrightarrow> (\<forall>w r w'. run_state m w = (r, w') \<longrightarrow>
     wdb w' = wdb w \<and> now w \<le> now w' \<and> set (ticks w') \<subseteq> set (ticks w))"

lemma local_only_safe:
  assumes "local_only m"
  shows "safe b i m"
proof (rule ensuresI)
  fix w r w'
  assume w: "during T D (known b i) w" and "run_state m w = (r, w')"
  with assms have l: "wdb w' = wdb w" "now w \<le> now w'" "set (ticks w') \<subseteq> set (ticks w)"
    by (auto simp: local_only_def)
  then show "moves T D w w' \<and> during T D (known b i) w'"
    using w by (auto simp: moves_def during_def calm_def D_refl intro: T_down)
qed

lemma tl_subset: "set (tl xs) \<subseteq> set xs"
  by (cases xs) auto

lemma not_passed: "ctx_Err ctx w = None \<Longrightarrow> cx_deadline ctx = Some d \<Longrightarrow> now w \<le> d"
  by (auto simp: ctx_Err_def deadline_passed_def split: if_splits)

lemma local_ops:
  "local_only (reads f)" "local_only time_now" "local_only (http_do ctx req)" "local_only (sleep n)"
  "local_only (sleep_ctx ctx n)" "local_only new_uuid" "local_only (use_entropy g)"
  "local_only (RegisterNotify j)" "local_only (UnregisterNotify j)" "local_only (notify j pr)"
  "local_only (await_poll ctx j)" "local_only (coord_Submit j)" "local_only (leave_active j)"
  "local_only (halted ctx)"
  "local_only (modifies (\<lambda>w. w\<lparr>taskQueue := q w\<rparr>))"
  unfolding local_only_def
  by (auto simp: time_now_def http_do_def sleep_def sleep_ctx_def new_uuid_def use_entropy_def
      RegisterNotify_def UnregisterNotify_def notify_def await_poll_def coord_Submit_def
      leave_active_def halted_def Let_def subsetD [OF tl_subset] not_passed min_def
      split: option.splits list.splits prod.splits if_splits wait_event.splits)

lemmas local_safe = local_ops [THEN local_only_safe]

lemma durably_safe: "(\<And>c. safe b i (m c)) \<Longrightarrow> safe b i (durably ctx m)"
  unfolding durably_def by (intro keeps_bind local_safe)

end

section \<open>Relations that ignore steps and poll tasks\<close>

text \<open>The operations on steps and poll tasks leave the transactions alone.\<close>

definition same_txs :: "db \<Rightarrow> db \<Rightarrow> bool" where
  "same_txs d d' \<longleftrightarrow> saga_transactions d' = saga_transactions d"

lemma update_step_tx [simp]: "saga_transactions (update_step i f d) = saga_transactions d"
  by (simp add: update_step_def)

lemma update_poll_tx [simp]: "saga_transactions (update_poll i f d) = saga_transactions d"
  by (simp add: update_poll_def)

lemma run_update_cases:
  "snd (run_update F what f n d) = d \<or> snd (run_update F what f n d) = f d"
  by (auto simp: run_update_def split: option.splits)

lemma run_exec_cases: "snd (run_exec F what f d) = d \<or> snd (run_exec F what f d) = f d"
  by (auto simp: run_exec_def split: option.splits)

lemma commit_cases: "snd (commit F k what x d d') = d \<or> snd (commit F k what x d d') = d'"
  by (auto simp: commit_def split: option.splits)

lemma snd_need_row [simp]: "snd (need_row m k res) = snd res"
  by (auto simp: need_row_def split: prod.splits sum.splits)

lemma snd_got_row [simp]: "snd (got_row res) = snd res"
  by (auto simp: got_row_def split: prod.splits sum.splits)

lemma upsert_poll_tx: "upsert_poll task d = Inr d' \<Longrightarrow> saga_transactions d' = saga_transactions d"
  by (auto simp: upsert_poll_def split: if_splits)

lemma insert_steps_tx:
  "insert_steps L F k ss d = Inr d' \<Longrightarrow> saga_transactions d' = saga_transactions d"
  by (induction ss arbitrary: k d)
     (auto simp: insert_step_row_def split: sum.splits option.splits if_splits)

lemma acquire_polls_tx:
  "saga_transactions (snd (acquire_polls inst batch F skip t0 t d)) = saga_transactions d"
  by (auto simp: acquire_polls_def Let_def commit_def split: option.splits)

lemma increment_poll_tx:
  "saga_transactions (snd (commit F k what x d (update_poll i f (update_step i g d)))) = saga_transactions d"
  using commit_cases [of F k what x d "update_poll i f (update_step i g d)"] by auto

locale tx_guarantee = db_guarantee +
  assumes D_same: "same_txs d d' \<Longrightarrow> D d d'"
begin

lemma same_safe: "(\<And>F s t0 t d. same_txs d (snd (body F s t0 t d))) \<Longrightarrow> safe b i (store_call ctx body)"
  by (intro store_call_safe D_same) auto

lemma safe_reads_store:
  "safe b i (GetTransaction L ctx j)" "safe b i (GetSteps L ctx j)" "safe b i (GetStep L ctx j)"
  unfolding GetTransaction_def GetSteps_def GetStep_def
  by (rule same_safe, simp add: same_txs_def split: option.splits sum.splits)+

lemma safe_update_step:
  "safe b i (store_call ctx (\<lambda>F s t0 t d. need_row m k (run_update F what (update_step j (f t0)) n d)))"
proof (rule same_safe)
  fix F s t0 t d
  show "same_txs d (snd (need_row m k (run_update F what (update_step j (f t0)) n d)))"
    using run_update_cases [of F what "update_step j (f t0)" n d] by (auto simp: same_txs_def)
qed

lemma safe_step_ops:
  "safe b i (UpdateStepStatus ctx j st err)" "safe b i (IncrementStepRetry ctx j)"
  unfolding UpdateStepStatus_def IncrementStepRetry_def by (rule safe_update_step)+

lemma safe_response: "safe b i (UpdateStepResponse L ctx j resp)"
  unfolding UpdateStepResponse_def
  by (intro ensures_rules keeps_rules safe_update_step)

lemma safe_poll_ops:
  "safe b i (IncrementStepPollCount ctx j u)" "safe b i (CreatePollTask ctx task)"
  "safe b i (DeletePollTask ctx j)" "safe b i (ReleasePollTask ctx j)" "safe b i (AcquirePollTasks ctx inst n)"
proof -
  show "safe b i (IncrementStepPollCount ctx j u)"
    unfolding IncrementStepPollCount_def
    by (rule same_safe)
       (simp add: same_txs_def Let_def increment_poll_tx split: option.splits)
  show "safe b i (CreatePollTask ctx task)"
    unfolding CreatePollTask_def
    by (rule same_safe)
       (auto simp: same_txs_def run_exec_def upsert_poll_tx split: option.splits sum.splits)
  show "safe b i (DeletePollTask ctx j)" "safe b i (ReleasePollTask ctx j)"
    unfolding DeletePollTask_def ReleasePollTask_def
    by (rule same_safe, simp add: same_txs_def run_exec_def split: option.splits)+
  show "safe b i (AcquirePollTasks ctx inst n)"
    unfolding AcquirePollTasks_def
    by (rule same_safe) (simp add: same_txs_def acquire_polls_tx)
qed

lemmas safe_store = safe_reads_store safe_step_ops safe_response safe_poll_ops

lemma safe_durable_ops:
  "safe b i (updateStepStatus ctx j st err)" "safe b i (updateStepResponse L ctx j resp)"
  "safe b i (incrementStepRetry ctx j)" "safe b i (durably ctx (\<lambda>c. CreatePollTask c task))"
  unfolding updateStepStatus_def updateStepResponse_def incrementStepRetry_def
  by (intro durably_safe safe_store)+

subsection \<open>The executor\<close>

lemma safe_requests:
  "safe b i (extractTraceFromPayload p)" "safe b i (inject_trace ctx tx req)" "safe b i (signRequestIfNeeded E st req)"
  unfolding extractTraceFromPayload_def inject_trace_def signRequestIfNeeded_def
  by (intro ensures_rules keeps_rules local_safe)+

lemma safe_handle_error: "safe b i (handleHTTPError ctx st e)"
  unfolding handleHTTPError_def
  by (intro ensures_rules keeps_rules safe_durable_ops local_safe)

lemma safe_perform: "safe b i (perform_action E ctx tx st sts)"
  unfolding perform_action_def
  by (intro ensures_rules keeps_rules safe_store safe_durable_ops safe_requests safe_handle_error local_safe)

lemma safe_execute: "safe b i (ExecuteStep E ctx tx st sts)" "safe b i (ExecuteAsyncStep E ctx tx st sts)"
  unfolding ExecuteStep_def ExecuteAsyncStep_def
  by (intro ensures_rules keeps_rules safe_perform safe_durable_ops local_safe)+

lemma safe_comp_attempt: "safe b i (comp_attempt E ctx tx st url body)"
  unfolding comp_attempt_def
  by (intro ensures_rules keeps_rules safe_requests safe_durable_ops local_safe)

lemma safe_comp_loop: "safe b i (comp_loop E ctx tx st url body a n e)"
proof (induction n arbitrary: a e)
  case (Suc n)
  show ?case
    by (simp only: comp_loop.simps) (intro ensures_rules keeps_rules Suc safe_comp_attempt local_safe)
qed (simp add: keeps_return)

lemma safe_compensate: "safe b i (CompensateStep E ctx tx st sts)"
  unfolding CompensateStep_def
  by (intro ensures_rules keeps_rules safe_store safe_durable_ops safe_comp_loop)

lemma safe_poll: "safe b i (Poll E ctx tx st sts)"
  unfolding Poll_def by (intro ensures_rules keeps_rules safe_requests local_safe)

lemma safe_rehydrate: "safe b i (rehydrateSagaTraceContext ctx tx)"
  unfolding rehydrateSagaTraceContext_def by (intro ensures_rules keeps_rules safe_requests)

subsection \<open>The poller\<close>

lemma safe_release: "safe b i (releasePollTask ctx j)"
  unfolding releasePollTask_def by (intro keeps_rules safe_store)

lemma safe_poll_answer: "safe b i (poll_answer E ctx task st r)"
  unfolding poll_answer_def handlePollSuccess_def handlePollFailure_def handlePollTimeout_def
    scheduleNextPoll_def
  by (intro ensures_rules keeps_rules safe_store safe_release local_safe)

lemma safe_process: "safe b i (processPollTask E ctx task)"
  unfolding processPollTask_def
  by (intro ensures_rules keeps_rules safe_store safe_release safe_rehydrate safe_poll safe_poll_answer)

lemma safe_process_tasks: "safe b i (process_tasks E ctx tasks)"
  by (induction tasks) (simp_all add: keeps_return keeps_bind safe_process)

lemma safe_poll_scan: "safe b i (poller_scanAndProcess E cfg ctx)"
  unfolding poller_scanAndProcess_def
  by (intro ensures_rules keeps_rules safe_store safe_process_tasks)

end

section \<open>The rules an instance follows\<close>

text \<open>
  The facts about single statements from which everything an engine instance does follows, for
  the instance that \<open>cfg\<close> configures: leases are taken only where they are free or its own, released only where
  they are its own, statuses move along the state machine, and \<open>K\<close> is what a compensating
  transaction is known to satisfy from then on.
\<close>

inductive tx_edge :: "tx_status \<Rightarrow> tx_status \<Rightarrow> bool" where
  start: "tx_edge TxStatusPending TxStatusRunning"
| succeed: "tx_edge TxStatusRunning TxStatusSucceeded"
| roll_back: "tx_edge TxStatusRunning TxStatusCompensating"
| rolled_back: "tx_edge TxStatusCompensating TxStatusFailed"

definition tx_path :: "tx_status \<Rightarrow> tx_status \<Rightarrow> bool" where
  "tx_path = tx_edge\<^sup>*\<^sup>*"

inductive_simps tx_edge_from:
  "tx_edge TxStatusPending s" "tx_edge TxStatusRunning s" "tx_edge TxStatusCompensating s"
  "tx_edge TxStatusSucceeded s" "tx_edge TxStatusFailed s"

lemma tx_path_refl [simp]: "tx_path s s"
  by (simp add: tx_path_def)

lemma tx_path_trans: "tx_path s t \<Longrightarrow> tx_path t u \<Longrightarrow> tx_path s u"
  by (auto simp: tx_path_def)

lemma tx_path_step: "tx_path s t \<longleftrightarrow> s = t \<or> (\<exists>u. tx_edge s u \<and> tx_path u t)"
  unfolding tx_path_def by (metis converse_rtranclpE converse_rtranclp_into_rtranclp rtranclp.rtrancl_refl)

lemma tx_path_succeeded [simp]: "tx_path TxStatusSucceeded s \<longleftrightarrow> s = TxStatusSucceeded"
  by (subst tx_path_step) (auto simp: tx_edge_from)

lemma tx_path_failed [simp]: "tx_path TxStatusFailed s \<longleftrightarrow> s = TxStatusFailed"
  by (subst tx_path_step) (auto simp: tx_edge_from)

lemma tx_path_compensating [simp]:
  "tx_path TxStatusCompensating s \<longleftrightarrow> s \<in> {TxStatusCompensating, TxStatusFailed}"
  by (subst tx_path_step) (auto simp: tx_edge_from)

lemma tx_path_running [simp]:
  "tx_path TxStatusRunning s \<longleftrightarrow> s \<noteq> TxStatusPending"
  by (subst tx_path_step) (cases s; auto simp: tx_edge_from)

lemma tx_path_pending [simp]: "tx_path TxStatusPending s"
  by (subst tx_path_step) (cases s; auto simp: tx_edge_from)

text \<open>The state machine has no cycle: the statuses are ordered by it, from pending on.\<close>

instantiation tx_status :: order_bot
begin

definition less_eq_tx_status :: "tx_status \<Rightarrow> tx_status \<Rightarrow> bool" where
  "s \<le> t \<longleftrightarrow> tx_path s t"

definition less_tx_status :: "tx_status \<Rightarrow> tx_status \<Rightarrow> bool" where
  "s < (t :: tx_status) \<longleftrightarrow> tx_path s t \<and> s \<noteq> t"

definition bot_tx_status :: tx_status where
  "bot = TxStatusPending"

instance
proof
  fix s t u :: tx_status
  have anti: "tx_path s t \<Longrightarrow> tx_path t s \<Longrightarrow> s = t" for s t
    by (cases s; cases t) simp_all
  show "s < t \<longleftrightarrow> s \<le> t \<and> \<not> t \<le> s"
    by (auto simp: less_tx_status_def less_eq_tx_status_def dest: anti)
  show "s \<le> s" by (simp add: less_eq_tx_status_def)
  show "s \<le> t \<Longrightarrow> t \<le> u \<Longrightarrow> s \<le> u" by (simp add: less_eq_tx_status_def tx_path_trans)
  show "s \<le> t \<Longrightarrow> t \<le> s \<Longrightarrow> s = t" by (simp add: less_eq_tx_status_def anti)
  show "bot \<le> s" by (simp add: less_eq_tx_status_def bot_tx_status_def)
qed

end

definition selected_ids :: "int \<Rightarrow> db \<Rightarrow> string set \<Rightarrow> bool" where
  "selected_ids t d ids \<longleftrightarrow> (\<exists>sel \<subseteq> set (saga_transactions d). ids = tx_id ` sel \<and> (\<forall>r \<in> sel. lock_free t r))"

locale instance_guarantee = tx_guarantee +
  fixes cfg :: coord_config \<comment> \<open>of the instance\<close>
  assumes D_cas: "tx_path s s' \<Longrightarrow>
      D d (update_tx (\<lambda>r. tx_id r = j \<and> tx_status r = s) (set_tx_status s' err t0 t) d)"
    and D_failed: "K j d \<Longrightarrow>
      D d (update_tx (\<lambda>r. tx_id r = j) (set_tx_status TxStatusFailed err t0 t) d)"
    and K_read: "find_tx d j = Some r \<Longrightarrow> tx_status r = TxStatusCompensating \<Longrightarrow> K j d"
    and D_claim: "t \<in> T \<Longrightarrow> D d (update_tx (claimable j (InstanceID cfg) t) (set_lease (InstanceID cfg) u t) d)"
    and D_select: "t \<in> T \<Longrightarrow> selected_ids t d ids \<Longrightarrow>
      D d (update_tx (\<lambda>r. tx_id r \<in> ids) (set_lease (InstanceID cfg) u t) d)"
    and D_release: "D d (update_tx (\<lambda>r. tx_id r = j \<and> locked_by r = Some (InstanceID cfg))
      (\<lambda>r. r\<lparr>locked_by := None, locked_until := None, updated_at := t\<rparr>) d)"
    and D_step: "D d (update_tx (\<lambda>r. tx_id r = j) (\<lambda>r. r\<lparr>current_step := n, updated_at := t\<rparr>) d)"
    and D_insert: "insert_tx_row row d = Inr d' \<Longrightarrow> D d d'"
begin

lemma run_safe:
  "D d (f d) \<Longrightarrow> D d (snd (run_update F what f n d))"
  "D d (f d) \<Longrightarrow> D d (snd (run_exec F what f d))"
  by (auto simp: run_update_def run_exec_def D_refl split: option.splits)

lemma safe_cas: "tx_path s s' \<Longrightarrow> safe b i (UpdateTransactionStatusCAS ctx j s s' err)"
  unfolding UpdateTransactionStatusCAS_def
  by (rule store_call_safe, simp) (intro run_safe D_cas)

lemma safe_claim: "safe b i (ClaimTransaction ctx j (InstanceID cfg) lease)"
  unfolding ClaimTransaction_def
  by (rule store_call_safe, simp) (intro run_safe D_claim)

lemma safe_release_tx: "safe b i (ReleaseTransaction ctx j (InstanceID cfg))"
  unfolding ReleaseTransaction_def
  by (rule store_call_safe) (intro run_safe D_release)

lemma safe_tx_step: "safe b i (UpdateTransactionStep ctx j n)"
  unfolding UpdateTransactionStep_def
  by (rule store_call_safe, simp) (intro run_safe D_step)

lemma safe_failed: "safe True j (UpdateTransactionStatus ctx j TxStatusFailed err)"
  unfolding UpdateTransactionStatus_def
  by (rule store_call_safe, simp add: known_def) (intro run_safe D_failed)

lemma create_safe: "D d (snd (create_with_steps L tx ss F d))"
proof -
  have "D d d2" if "insert_tx_row r d = Inr d1" "saga_transactions d2 = saga_transactions d1" for r d1 d2
    by (rule D_trans [OF D_insert [OF that(1)]]) (rule D_same, simp add: same_txs_def that(2))
  then show ?thesis
    by (auto simp: create_with_steps_def commit_def D_refl dest: insert_steps_tx
        split: option.splits sum.splits)
qed

lemma safe_create: "safe b i (CreateTransactionWithSteps L ctx tx ss)"
  unfolding CreateTransactionWithSteps_def by (intro store_call_safe create_safe)

lemma lease_selected_safe:
  assumes "t \<in> T" and "set sel \<subseteq> set (saga_transactions d)" and "\<forall>r \<in> set sel. lock_free t r"
  shows "D d (snd (lease_selected L qf cf (InstanceID cfg) lease F t0 t ok sel d))"
proof -
  have "selected_ids t d (tx_id ` set sel)" using assms by (auto simp: selected_ids_def)
  note D_select [OF assms(1) this]
  then show ?thesis
    by (auto simp: lease_selected_def Let_def commit_def D_refl split: option.splits sum.splits)
qed

lemma safe_list_recoverable: "safe b i (ListRecoverableTransactions L ctx (InstanceID cfg) batch lease)"
  unfolding ListRecoverableTransactions_def
  by (intro store_call_safe lease_selected_safe) (auto dest!: recoverable_rowsD)

subsection \<open>The coordinator\<close>

lemma safe_trigger: "safe b i (triggerCompensation ctx tx reason)"
  unfolding triggerCompensation_def
  by (intro keeps_rules durably_safe safe_cas) simp

lemma safe_go: "safe b i (compensate_and_go ctx tx reason)"
  unfolding compensate_and_go_def by (intro keeps_rules safe_trigger)

lemma safe_after_error: "safe b i (after_error ctx tx e)"
  unfolding after_error_def
  by (intro ensures_rules keeps_rules local_safe safe_go)

lemma safe_sync: "safe b i (executeSyncStep E ctx tx s steps)"
  unfolding executeSyncStep_def
  by (intro ensures_rules keeps_rules safe_execute durably_safe
      safe_claim safe_release_tx safe_tx_step safe_go safe_after_error)

lemma safe_wait: "safe b i (waitForAsyncStep E cfg ctx tx s)"
  unfolding waitForAsyncStep_def wait_registered_def
  by (intro ensures_rules keeps_rules safe_store durably_safe local_safe
      safe_claim safe_release_tx safe_tx_step safe_go)

lemma safe_async: "safe b i (executeAsyncStep E cfg ctx tx s steps)"
  unfolding executeAsyncStep_def
  by (intro ensures_rules keeps_rules safe_execute safe_wait safe_go safe_after_error)

lemma safe_next: "safe b i (executeNextStep E cfg ctx tx steps)"
proof -
  have "safe b i (UpdateTransactionStatusCAS ctx (tx_id tx) TxStatusRunning TxStatusSucceeded '''')"
    by (rule safe_cas) simp
  then show ?thesis
    unfolding executeNextStep_def executeStep_def
    by (intro ensures_rules keeps_rules safe_sync safe_async safe_wait safe_go)
qed

lemma safe_compensate_all: "safe b i (compensate_all E ctx tx is steps ok)"
proof (induction "is" arbitrary: steps ok)
  case (Cons k ks)
  show ?case
    by (simp only: compensate_all.simps)
       (intro ensures_rules keeps_rules local_safe safe_compensate Cons)
qed (simp add: keeps_return)

lemma safe_skip: "safe b i (skip_pending ctx ss)"
proof (induction ss)
  case (Cons s ss)
  show ?case
    by (simp only: skip_pending.simps)
       (intro ensures_rules keeps_rules safe_store Cons)
qed (simp add: keeps_return)

lemma safe_compensation: "safe True (tx_id tx) (executeCompensation E ctx tx steps)"
  unfolding executeCompensation_def
  by (intro ensures_rules keeps_rules safe_compensate_all safe_skip safe_failed)

text \<open>Reading a compensating transaction settles it.\<close>

definition read_settles :: "gerr + transaction option \<Rightarrow> db \<Rightarrow> bool" where
  "read_settles r d \<longleftrightarrow> (case r of
      Inr (Some tx) \<Rightarrow> tx_status tx = TxStatusCompensating \<longrightarrow> K (tx_id tx) d
    | _ \<Rightarrow> True)"

lemma GetTransaction_settles:
  "ensures (moves T D) (during T D (known b i)) (GetTransaction L ctx txID)
     (\<lambda>r. during T D (read_settles r))"
  unfolding GetTransaction_def
proof (rule store_call_ensures [OF known_stable])
  fix F :: faults and s :: "string \<Rightarrow> bool" and t0 t :: int and d d' r
  assume "(case fault F 0 of
             Some e \<Rightarrow> (Inl (wrap_err ''failed to get transaction'' e), d)
           | None \<Rightarrow> (case find_tx d txID of None \<Rightarrow> (Inr None, d)
               | Some r \<Rightarrow> (map_sum id Some (scan_tx L r), d))) = (r, d')"
  then show "D d d' \<and> read_settles r d'"
    using K_read [of d txID] find_txD [of d txID]
    by (auto simp: read_settles_def D_refl dest!: scan_tx_keys split: option.splits sum.splits)
qed

lemma safe_loaded: "safe (tx_status tx = TxStatusCompensating) (tx_id tx) (drive_loaded E cfg ctx txID tx)"
proof -
  have cas: "safe b i (UpdateTransactionStatusCAS c txID TxStatusPending TxStatusRunning '''')" for b i c
    by (rule safe_cas) simp
  have comp: "tx_status tx = TxStatusCompensating \<Longrightarrow>
      safe (tx_status tx = TxStatusCompensating) (tx_id tx) (executeCompensation E c tx steps)" for c steps
    using safe_compensation [of tx] by simp
  show ?thesis
    unfolding drive_loaded_def
    by (intro ensures_rules keeps_rules safe_rehydrate safe_store
        safe_claim safe_next cas comp)
qed

lemma safe_after_read:
  "ensures (moves T D) (during T D (read_settles rt))
     (case rt of
         Inl e \<Rightarrow> State_Monad.return False
       | Inr None \<Rightarrow> State_Monad.return False
       | Inr (Some tx) \<Rightarrow> drive_loaded E cfg ctx txID tx)
     (\<lambda>_. during T D (known False i))"
proof (cases "\<exists>tx. rt = Inr (Some tx)")
  case False
  then show ?thesis
    by (auto intro!: ensures_return simp: during_def known_def split: sum.splits option.splits)
next
  case True
  then obtain tx where rt: "rt = Inr (Some tx)" by blast
  show ?thesis
    unfolding rt sum.case option.case
    by (rule ensures_weaken [OF safe_loaded]) (auto simp: during_def known_def read_settles_def)
qed

lemma safe_round: "safe False i (drive_round E cfg ctx txID)"
  unfolding drive_round_def
  by (intro ensures_rules keeps_bind_post [OF local_safe(14)] keeps_return)
     (intro ensures_bind [OF GetTransaction_settles safe_after_read])

lemma safe_loop: "safe False i (drive_loop E cfg ctx txID n)"
proof (induction n)
  case (Suc n)
  show ?case
    by (simp only: drive_loop.simps) (intro ensures_rules keeps_rules safe_round Suc)
qed (simp add: keeps_return)

lemma safe_drive: "safe False i (driveTransaction E cfg ctx txID n)"
  unfolding driveTransaction_def
  by (intro ensures_rules keeps_rules safe_claim safe_release_tx safe_tx_step safe_loop local_safe)

lemma safe_worker: "safe False i (worker_step E cfg ctx n)"
  unfolding worker_step_def
  by (intro ensures_rules keeps_rules safe_drive local_safe)

subsection \<open>The scans\<close>

lemma safe_release_all: "safe b i (release_all ctx (InstanceID cfg) txs)"
  by (induction txs) (simp_all add: keeps_return keeps_bind safe_claim safe_release_tx safe_tx_step)

lemma safe_requeue: "safe b i (requeue ctx (InstanceID cfg) txs)"
proof (induction txs)
  case (Cons tx txs)
  show ?case
    by (simp only: requeue.simps)
       (intro ensures_rules keeps_rules safe_rehydrate local_safe
         safe_release_all safe_claim safe_release_tx safe_tx_step Cons)
qed (simp add: keeps_return)

lemma safe_recovery: "safe b i (recoveryScan E cfg ctx)"
  unfolding recoveryScan_def
  by (intro ensures_rules keeps_rules local_safe safe_list_recoverable safe_requeue)

lemma safe_timeout_all:
  "(\<forall>tx \<in> set txs. tx_path (tx_status tx) TxStatusCompensating) \<Longrightarrow> safe b i (timeout_all cfg ctx txs)"
proof (induction txs)
  case (Cons tx txs)
  then have "tx_path (tx_status tx) TxStatusCompensating" by simp
  note cas = safe_cas [OF this]
  have IH: "safe b i (timeout_all cfg ctx txs)" using Cons by simp
  show ?case
    by (simp only: timeout_all.simps)
       (intro ensures_rules keeps_rules safe_rehydrate local_safe cas
         safe_claim safe_release_tx safe_tx_step IH)
qed (simp add: keeps_return)

lemma safe_list_timed_out: "safe b i (ListTimedOutTransactions L ctx (InstanceID cfg) lease)"
  unfolding ListTimedOutTransactions_def
  by (intro store_call_safe lease_selected_safe) (auto dest!: timed_out_rowsD)

lemma ListTimedOut_active:
  assumes "run_state (ListTimedOutTransactions L ctx j lease) w = (Inr txs, w')"
  shows "\<forall>tx \<in> set txs. tx_path (tx_status tx) TxStatusCompensating"
proof
  fix tx assume "tx \<in> set txs"
  obtain F t0 t d d' s where "lease_selected L ''failed to query timed out transactions''
       ''failed to claim timed out transactions'' j lease F t0 t True (timed_out_rows s t d) d = (Inr txs, d')"
    using assms by (auto simp: ListTimedOutTransactions_def store_call_def Let_def split: prod.splits)
  then have "scan_rows (scan_tx L) (timed_out_rows s t d) = Inr txs"
    by (auto simp: lease_selected_def Let_def commit_def split: option.splits sum.splits if_splits)
  with \<open>tx \<in> set txs\<close> have "tx_status tx \<in> tx_status ` set (timed_out_rows s t d)"
    using scan_rows_status by (metis image_eqI list.set_map)
  then show "tx_path (tx_status tx) TxStatusCompensating"
    by (auto dest!: timed_out_rowsD)
qed

lemma safe_timeouts: "safe b i (scanTimeouts E cfg ctx)"
  unfolding scanTimeouts_def
  by (rule ensures_bind [OF ensures_result [OF safe_list_timed_out]])
     (intro ensures_rules ensures_pure, auto intro: keeps_return safe_timeout_all dest: ListTimedOut_active)

subsection \<open>The engine\<close>

lemma safe_submit_steps: "safe b i (submit_steps txID k ss)"
  by (induction ss arbitrary: k)
     (simp_all add: keeps_return keeps_bind local_safe)

lemma safe_submit: "safe b i (engine_Submit E ctx def)"
  unfolding engine_Submit_def
  by (intro ensures_rules keeps_rules local_safe safe_submit_steps safe_create)

lemma safe_query: "safe b i (Query E ctx txID)"
  unfolding Query_def by (intro ensures_rules keeps_rules safe_store)

lemma safe_wait_loop: "safe b i (wait_loop E ctx txID n st k)"
proof (induction n arbitrary: st k)
  case (Suc n)
  show ?case
    by (simp only: wait_loop.simps) (intro ensures_rules keeps_rules safe_query local_safe Suc)
qed (simp add: keeps_return)

lemma safe_activity: "safe False i (run_activity E cfg pcfg ctx a)"
  by (cases a)
     (simp_all add: keeps_return keeps_bind safe_worker safe_recovery safe_timeouts safe_poll_scan
        safe_submit waitForTransaction_def safe_wait_loop)

lemma safe_instance: "safe False i (run_instance E cfg pcfg ctx acts)"
  by (induction acts) (simp_all add: keeps_return keeps_bind safe_activity)

lemma instance_moves:
  assumes "calm D w" and "run_state (run_instance E cfg pcfg ctx acts) w = (r, w')"
  shows "moves T D w w'"
proof -
  have "during T D (known False '''') w" using assms(1) by (simp add: during_def known_def)
  then show ?thesis using ensuresD [OF safe_instance] assms(2) by blast
qed

end

end
