(* ===== verification/Saga_Status.thy ===== *)
theory Saga_Status
  imports Saga_Guarantee
begin

text \<open>
  The state machine of saga transactions: whatever an engine instance does, it moves a transaction
  only along the edges of \<open>tx_edge\<close>, relying on the other instances to do the same.
\<close>

section \<open>The relation on databases\<close>

definition status_of :: "db \<Rightarrow> string \<Rightarrow> tx_status option" where
  "status_of d i = map_option tx_status (find_tx d i)"

definition status_guarantee :: "db \<Rightarrow> db \<Rightarrow> bool" where
  "status_guarantee d d' \<longleftrightarrow>
     (\<forall>i s. status_of d i = Some s \<longrightarrow> (\<exists>s'. status_of d' i = Some s' \<and> tx_path s s'))"

definition settled :: "string \<Rightarrow> db \<Rightarrow> bool" where
  "settled i d \<longleftrightarrow> status_of d i \<in> {Some TxStatusCompensating, Some TxStatusFailed}"

lemma status_guarantee_same: "(\<And>i. status_of d' i = status_of d i) \<Longrightarrow> status_guarantee d d'"
  by (simp add: status_guarantee_def)

lemma status_of_update_tx:
  assumes "\<And>r. P r \<Longrightarrow> tx_id (f r) = tx_id r"
  shows "status_of (update_tx P f d) i =
    map_option (\<lambda>r. tx_status (if P r then f r else r)) (find_tx d i)"
  using find_update_where [of P tx_id f i "saga_transactions d"] assms
  by (auto simp: status_of_def find_tx_def update_tx_def option.map_comp o_def)

lemma update_keeps_status:
  assumes "\<And>r. P r \<Longrightarrow> tx_id (f r) = tx_id r \<and> tx_status (f r) = tx_status r"
  shows "status_guarantee d (update_tx P f d)"
proof (rule status_guarantee_same)
  fix i
  have "(\<lambda>r. tx_status (if P r then f r else r)) = tx_status" using assms by auto
  then show "status_of (update_tx P f d) i = status_of d i"
    using status_of_update_tx [of P f d i] assms by (simp add: status_of_def)
qed

lemma update_along_path:
  assumes "\<And>r. P r \<Longrightarrow> find_tx d (tx_id r) = Some r \<Longrightarrow> tx_path (tx_status r) s"
  shows "status_guarantee d (update_tx P (set_tx_status s err t0 t) d)"
  unfolding status_guarantee_def
proof (intro allI impI)
  fix i x
  assume "status_of d i = Some x"
  then obtain r where r: "find_tx d i = Some r" "x = tx_status r" by (auto simp: status_of_def)
  with assms find_txD have "P r \<Longrightarrow> tx_path x s" by blast
  moreover have "status_of (update_tx P (set_tx_status s err t0 t) d) i = Some (if P r then s else x)"
    using r by (subst status_of_update_tx) (auto simp: set_tx_status_def)
  ultimately show "\<exists>s'. status_of (update_tx P (set_tx_status s err t0 t) d) i = Some s' \<and> tx_path x s'"
    by simp
qed

lemma find_append:
  "find P (xs @ ys) = (case find P xs of None \<Rightarrow> find P ys | Some x \<Rightarrow> Some x)"
  by (induction xs) auto

interpretation status: instance_guarantee status_guarantee UNIV settled cfg for cfg
proof
  fix d e f :: db and i j :: string and s s' :: tx_status and t t0 u :: int and err :: string
    and ids :: "string set" and n :: int and row :: tx_row and r :: tx_row
  show "status_guarantee d d" by (simp add: status_guarantee_same)
  show "status_guarantee d f" if "status_guarantee d e" "status_guarantee e f"
    using that unfolding status_guarantee_def by (metis tx_path_trans)
  show "s \<in> UNIV" if "t \<in> UNIV" "s \<le> t" for s t :: int by simp
  show "settled i e" if "settled i d" "status_guarantee d e"
    using that by (fastforce simp: settled_def status_guarantee_def)
  show "status_guarantee d e" if "same_txs d e"
    using that by (simp add: same_txs_def status_guarantee_same status_of_def find_tx_def)
  show "status_guarantee d
      (update_tx (\<lambda>r. tx_id r = j \<and> tx_status r = s) (set_tx_status s' err t0 t) d)" if "tx_path s s'"
    using that by (intro update_along_path) simp
  show "status_guarantee d (update_tx (\<lambda>r. tx_id r = j) (set_tx_status TxStatusFailed err t0 t) d)"
    if "settled j d"
    using that by (intro update_along_path) (auto simp: settled_def status_of_def)
  show "settled j d" if "find_tx d j = Some r" "tx_status r = TxStatusCompensating"
    using that by (simp add: settled_def status_of_def)
  show "status_guarantee d e" if "insert_tx_row row d = Inr e"
    using that
    by (auto simp: insert_tx_row_def status_guarantee_def status_of_def find_tx_def find_append
        split: if_splits)
qed (auto intro!: update_keeps_status simp: set_lease_def)

text \<open>
  C11. Whatever an engine instance does - workers driving transactions, recovery, timeout and
  poll scans, submissions, waits, in any order, with any faults of the database, the network and the
  clock - every transaction only moves along the state machine pending, running, then succeeded, or
  compensating and failed; in particular a succeeded or failed transaction stays as it is. The
  instance relies on the other sessions to follow the same rule, which this theorem shows they do when
  they are engine instances too.
\<close>

theorem status_moves_forward:
  assumes "calm status_guarantee w"
    and "run_state (run_instance E cfg pcfg ctx acts) w = (r, w')"
    and "status_of (wdb w) i = Some s"
  shows "\<exists>s'. status_of (wdb w') i = Some s' \<and> tx_path s s'"
  using status.instance_moves [OF assms(1,2)] assms(3)
  by (simp add: moves_def status_guarantee_def)

text \<open>A status that two readers see was the status all the time between them.\<close>

lemma status_between:
  assumes "status_guarantee d1 d2" and "status_guarantee d2 d3"
    and "status_of d1 i = Some s" and "status_of d2 i = Some s'" and "status_of d3 i = Some s"
  shows "s' = s"
proof (rule antisym)
  show "s' \<le> s" using assms(2,4,5) by (fastforce simp: status_guarantee_def less_eq_tx_status_def)
  show "s \<le> s'" using assms(1,3,4) by (fastforce simp: status_guarantee_def less_eq_tx_status_def)
qed

text \<open>A running transaction that times out while an instance scans and works.\<close>

definition late_row :: tx_row where
  "late_row = \<lparr>tx_id = ''t1'', tx_status = TxStatusRunning, tx_payload = None, current_step = 0,
     created_at = 0, updated_at = 0, finished_at = None, timeout_at = Some 5, tx_retry_count = 0,
     tx_last_error = '''', locked_by = None, locked_until = None\<rparr>"

definition late_world :: world where
  "late_world = idle_world\<lparr>wdb := empty_db\<lparr>saga_transactions := [late_row]\<rparr>, now := 10\<rparr>"

theorem status_moves_forward_witness:
  "\<exists>s'. status_of (wdb (snd (run_state (run_instance sample_env DefaultCoordinatorConfig DefaultPollerConfig
      background [TimeoutScan, Work 5]) late_world))) ''t1'' = Some s' \<and> tx_path TxStatusRunning s'"
proof (rule status_moves_forward)
  show "calm status_guarantee late_world"
    by (simp add: calm_def late_world_def idle_world_def)
  show "run_state (run_instance sample_env DefaultCoordinatorConfig DefaultPollerConfig
      background [TimeoutScan, Work 5]) late_world
    = ((), snd (run_state (run_instance sample_env DefaultCoordinatorConfig DefaultPollerConfig
      background [TimeoutScan, Work 5]) late_world))"
    by (simp add: prod_eq_iff)
  show "status_of (wdb late_world) ''t1'' = Some TxStatusRunning"
    by (simp add: status_of_def find_tx_def late_world_def late_row_def)
qed

end
