(* ===== verification/Saga_Lease.thy ===== *)
theory Saga_Lease
  imports Saga_Guarantee
begin

text \<open>
  Mutual exclusion between engine instances: while the lease of one instance on a transaction is
  valid, nothing another instance does takes it away.
\<close>

definition holds_lease :: "string \<Rightarrow> string \<Rightarrow> int \<Rightarrow> db \<Rightarrow> bool" where
  "holds_lease inst i u d \<longleftrightarrow> find_tx d i \<noteq> None \<and>
     (\<forall>r \<in> set (saga_transactions d). tx_id r = i \<longrightarrow>
        locked_by r = Some inst \<and> (case locked_until r of None \<Rightarrow> False | Some v \<Rightarrow> u \<le> v))"

definition lease_kept :: "coord_config \<Rightarrow> string \<Rightarrow> string \<Rightarrow> int \<Rightarrow> db \<Rightarrow> db \<Rightarrow> bool" where
  "lease_kept cfg inst i u d d' \<longleftrightarrow>
     InstanceID cfg \<noteq> inst \<longrightarrow> holds_lease inst i u d \<longrightarrow> holds_lease inst i u d'"

lemma update_keeps_lease:
  assumes "\<And>r. P r \<Longrightarrow> tx_id (f r) = tx_id r"
    and "\<And>r. InstanceID cfg \<noteq> inst \<Longrightarrow> P r \<Longrightarrow> tx_id r = i \<Longrightarrow> r \<in> set (saga_transactions d) \<Longrightarrow>
      holds_lease inst i u d \<Longrightarrow> locked_by (f r) = locked_by r \<and> locked_until (f r) = locked_until r"
  shows "lease_kept cfg inst i u d (update_tx P f d)"
proof -
  have "holds_lease inst i u (update_tx P f d)" if h: "holds_lease inst i u d" and c: "InstanceID cfg \<noteq> inst"
  proof -
    have "find_tx (update_tx P f d) i = map_option (\<lambda>r. if P r then f r else r) (find_tx d i)"
      using find_update_where [of P tx_id f i "saga_transactions d"] assms(1)
      by (simp add: find_tx_def update_tx_def)
    moreover have "locked_by x = Some inst \<and> (case locked_until x of None \<Rightarrow> False | Some v \<Rightarrow> u \<le> v)"
      if x: "x \<in> set (saga_transactions (update_tx P f d))" "tx_id x = i" for x
    proof -
      obtain r where r: "r \<in> set (saga_transactions d)" "x = (if P r then f r else r)"
        using x by (auto simp: update_tx_def update_where_def)
      then have id: "tx_id r = i" using x(2) assms(1) [of r] by (auto split: if_splits)
      then have "locked_by r = Some inst \<and> (case locked_until r of None \<Rightarrow> False | Some v \<Rightarrow> u \<le> v)"
        using h r(1) by (auto simp: holds_lease_def)
      then show ?thesis using assms(2) [OF c _ id r(1) h] r(2) by auto
    qed
    ultimately show ?thesis using h by (auto simp: holds_lease_def)
  qed
  then show ?thesis by (simp add: lease_kept_def)
qed

lemma held_not_free:
  "holds_lease inst i u d \<Longrightarrow> r \<in> set (saga_transactions d) \<Longrightarrow> tx_id r = i \<Longrightarrow> t \<le> u \<Longrightarrow>
   \<not> lock_free t r \<and> locked_by r = Some inst"
  by (auto simp: holds_lease_def lock_free_def split: option.splits)

interpretation lease: instance_guarantee "lease_kept cfg inst i u" "{..u}" "\<lambda>_ _. True" cfg
  for cfg inst i u
proof
  fix d e f :: db and j :: string and t v :: int and ids :: "string set" and row :: tx_row
  show "lease_kept cfg inst i u d d" by (simp add: lease_kept_def)
  show "lease_kept cfg inst i u d f" if "lease_kept cfg inst i u d e" "lease_kept cfg inst i u e f"
    using that by (auto simp: lease_kept_def)
  show "lease_kept cfg inst i u d e" if "same_txs d e"
    using that by (simp add: same_txs_def lease_kept_def holds_lease_def find_tx_def)
  show "lease_kept cfg inst i u d
      (update_tx (claimable j (InstanceID cfg) t) (set_lease (InstanceID cfg) v t) d)" if "t \<in> {..u}"
    using that held_not_free [of inst i u d _ t]
    by (intro update_keeps_lease) (auto simp: set_lease_def claimable_def)
  show "lease_kept cfg inst i u d (update_tx (\<lambda>r. tx_id r \<in> ids) (set_lease (InstanceID cfg) v t) d)"
    if "t \<in> {..u}" "selected_ids t d ids"
    using that held_not_free [of inst i u d _ t]
    by (intro update_keeps_lease) (fastforce simp: set_lease_def selected_ids_def)+
  show "lease_kept cfg inst i u d (update_tx (\<lambda>r. tx_id r = j \<and> locked_by r = Some (InstanceID cfg))
      (\<lambda>r. r\<lparr>locked_by := None, locked_until := None, updated_at := t\<rparr>) d)"
    by (intro update_keeps_lease) (auto simp: holds_lease_def)
  show "lease_kept cfg inst i u d e" if "insert_tx_row row d = Inr e"
    using that
    by (auto simp: insert_tx_row_def lease_kept_def holds_lease_def find_tx_def find_None_iff
        split: if_splits)
qed (auto intro!: update_keeps_lease simp: set_tx_status_def)

lemma claim_refused:
  assumes "InstanceID cfg \<noteq> inst"
  shows "ensures (moves {..u} (lease_kept cfg inst i u))
     (during {..u} (lease_kept cfg inst i u) (holds_lease inst i u))
     (ClaimTransaction c i (InstanceID cfg) lease)
     (\<lambda>r. during {..u} (lease_kept cfg inst i u) (\<lambda>d. holds_lease inst i u d \<and> r \<noteq> Inr True))"
  unfolding ClaimTransaction_def
proof (rule lease.store_call_ensures)
  show "stable (lease_kept cfg inst i u) (holds_lease inst i u)"
    using assms by (auto simp: stable_def lease_kept_def)
next
  fix F :: faults and s :: "string \<Rightarrow> bool" and t0 t d r d'
  assume t: "t \<in> {..u}" and h: "holds_lease inst i u d"
    and run: "got_row (run_update F ''failed to claim transaction''
       (update_tx (claimable i (InstanceID cfg) t) (set_lease (InstanceID cfg) (t0 + lease) t))
       (count_tx (claimable i (InstanceID cfg) t)) d) = (r, d')"
  have none: "\<forall>x \<in> set (saga_transactions d). \<not> claimable i (InstanceID cfg) t x"
    using held_not_free [OF h, of _ t] t assms by (auto simp: claimable_def)
  then have "update_tx (claimable i (InstanceID cfg) t) f d = d" for f
    by (simp add: update_tx_def update_where_none)
  moreover have "count_tx (claimable i (InstanceID cfg) t) d = 0"
    using none by (simp add: count_tx_def)
  ultimately show "lease_kept cfg inst i u d d' \<and> holds_lease inst i u d' \<and> r \<noteq> Inr True"
    using run h by (auto simp: got_row_def run_update_def lease_kept_def split: option.splits if_splits)
qed

text \<open>
  C12. While an instance holds a valid lease on a transaction, no other instance takes it:
  after any activities of another instance that end before the lease does, the lease is still held, and
  a claim by that instance is refused. The sessions besides are assumed to respect the lease as well,
  which this theorem shows they do when they are engine instances too.
\<close>

theorem lease_excludes_others:
  assumes "InstanceID cfg \<noteq> inst" and "holds_lease inst i u (wdb w)"
    and "calm (lease_kept cfg inst i u) w"
    and "run_state (run_instance E cfg pcfg ctx acts) w = (r, w1)"
    and "run_state (ClaimTransaction c i (InstanceID cfg) lease) w1 = (claimed, w2)"
    and "now w2 \<le> u"
  shows "holds_lease inst i u (wdb w2) \<and> claimed \<noteq> Inr True"
proof -
  let ?D = "lease_kept cfg inst i u" and ?H = "holds_lease inst i u"
  have "during {..u} ?D (lease.known False i) w"
    using assms(3) by (simp add: during_def lease.known_def)
  from ensuresD [OF lease.safe_instance this assms(4)]
  have m: "moves {..u} ?D w w1" and c: "calm ?D w1" by (simp_all add: during_def)
  have "now w \<le> u \<Longrightarrow> ?H (wdb w1)" if "now w1 \<le> u"
    using m that assms(1,2) by (simp add: moves_def lease_kept_def)
  then have "during {..u} ?D ?H w1" using c m by (auto simp: during_def moves_def)
  from ensuresD [OF claim_refused [OF assms(1)] this assms(5)] assms(6)
  show ?thesis by (simp add: during_def)
qed

text \<open>A concrete pair of instances: \<open>a\<close> holds the lease, \<open>b\<close> scans for work and then claims.\<close>

definition leased_row :: tx_row where
  "leased_row = \<lparr>tx_id = ''t1'', tx_status = TxStatusRunning, tx_payload = None, current_step = 0,
     created_at = 0, updated_at = 0, finished_at = None, timeout_at = Some 5, tx_retry_count = 0,
     tx_last_error = '''', locked_by = Some ''a'', locked_until = Some 100\<rparr>"

definition leased_world :: world where
  "leased_world = idle_world\<lparr>wdb := empty_db\<lparr>saga_transactions := [leased_row]\<rparr>, now := 10\<rparr>"

definition peer_config :: coord_config where
  "peer_config = DefaultCoordinatorConfig\<lparr>InstanceID := ''b''\<rparr>"

theorem lease_excludes_others_witness:
  "fst (run_state (ClaimTransaction background ''t1'' ''b'' 60)
     (snd (run_state (run_instance sample_env peer_config DefaultPollerConfig background [TimeoutScan]) leased_world)))
   \<noteq> Inr True"
proof -
  let ?w1 = "snd (run_state (run_instance sample_env peer_config DefaultPollerConfig background [TimeoutScan]) leased_world)"
  let ?w2 = "snd (run_state (ClaimTransaction background ''t1'' ''b'' 60) ?w1)"
  have t: "now ?w2 = 10"
    by (simp add: scanTimeouts_def ListTimedOutTransactions_def ClaimTransaction_def store_call_def
        leased_world_def idle_world_def next_tick_def quiet_tick_def Let_def case_prod_beta
        timed_out_rows_def leased_row_def lock_free_def pick_rows_def lease_selected_def
        ctx_Err_def cancelled_first_def cancel_seen_def deadline_passed_def background_def
        fault_def no_faults_def commit_def empty_db_def)
  have "holds_lease ''a'' ''t1'' 100 (wdb ?w2) \<and>
      fst (run_state (ClaimTransaction background ''t1'' ''b'' 60) ?w1) \<noteq> Inr True"
  proof (rule lease_excludes_others [where cfg = peer_config and w = leased_world and acts = "[TimeoutScan]"
        and r = "()" and ?w1.0 = ?w1])
    show "run_state (ClaimTransaction background ''t1'' (InstanceID peer_config) 60) ?w1
        = (fst (run_state (ClaimTransaction background ''t1'' ''b'' 60) ?w1), ?w2)"
      by (simp add: peer_config_def)
  qed (use t in \<open>simp_all add: peer_config_def leased_world_def leased_row_def idle_world_def
        holds_lease_def find_tx_def empty_db_def calm_def prod_eq_iff\<close>)
  then show ?thesis by simp
qed

end
