(* ===== verification/Saga_View.thy ===== *)
theory Saga_View
  imports Saga_Guarantee
begin

text \<open>
  What the saga tables mean: the transaction and the list of steps a reader gets for an id. Every
  operation of the store acts on this view as on plain values, whatever else the tables hold.
\<close>

section \<open>The view\<close>

definition tx_of :: "stdlib \<Rightarrow> db \<Rightarrow> string \<Rightarrow> gerr + transaction option" where
  "tx_of L d txID =
     (case find_tx d txID of None \<Rightarrow> Inr None | Some r \<Rightarrow> map_sum id Some (scan_tx L r))"

definition rows_of :: "db \<Rightarrow> string \<Rightarrow> step_row list" where
  "rows_of d txID = sort_key st_index (filter (\<lambda>r. st_tx_id r = txID) (saga_steps d))"

definition steps_of :: "stdlib \<Rightarrow> db \<Rightarrow> string \<Rightarrow> gerr + step list" where
  "steps_of L d txID = scan_rows (scanStep L) (rows_of d txID)"

text \<open>An update of the step with a given id, on the list of steps.\<close>

definition at_step :: "string \<Rightarrow> (step \<Rightarrow> step) \<Rightarrow> step list \<Rightarrow> step list" where
  "at_step i f = map (\<lambda>s. if st_id s = i then f s else s)"

definition put_status :: "step_status \<Rightarrow> string \<Rightarrow> int \<Rightarrow> step \<Rightarrow> step" where
  "put_status st err t s = s\<lparr>st_status := st, st_last_error := err,
     st_started_at := (if st = StepStatusRunning then Some t else st_started_at s),
     st_finished_at := (if st = StepStatusSucceeded \<or> st = StepStatusFailed \<or> st = StepStatusCompensated
                        then Some t else None)\<rparr>"

definition put_response :: "gomap \<Rightarrow> step \<Rightarrow> step" where
  "put_response m s = s\<lparr>action_response := m\<rparr>"

text \<open>The text of a response comes back as the same response.\<close>

definition stored_as :: "stdlib \<Rightarrow> gomap \<Rightarrow> string \<Rightarrow> bool" where
  "stored_as L m s \<longleftrightarrow> marshal_map L m = Inr s \<and> jsonb L s \<noteq> '''' \<and> unmarshal_map L (jsonb L s) = Some m"

section \<open>Updates of rows and of the view\<close>

lemma map_insort:
  "(\<And>r. k (f r) = k r) \<Longrightarrow> map f (insort_key k x xs) = insort_key k (f x) (map f xs)"
  by (induction xs) auto

lemma map_sort_key:
  "(\<And>r. k (f r) = k r) \<Longrightarrow> map f (sort_key k xs) = sort_key k (map f xs)"
  by (induction xs) (auto simp: map_insort)

lemma rows_of_update:
  assumes "\<And>r. st_id r = i \<Longrightarrow> st_tx_id (f r) = st_tx_id r \<and> st_index (f r) = st_index r"
  shows "rows_of (update_step i f d) txID = map (\<lambda>r. if st_id r = i then f r else r) (rows_of d txID)"
proof -
  let ?g = "\<lambda>r. if st_id r = i then f r else r"
  have f: "filter (\<lambda>r. st_tx_id r = txID) (map ?g rows) = map ?g (filter (\<lambda>r. st_tx_id r = txID) rows)" for rows
    by (induction rows) (auto simp: assms)
  have "map ?g (sort_key st_index rows) = sort_key st_index (map ?g rows)" for rows
    by (rule map_sort_key) (simp add: assms)
  with f show ?thesis by (simp add: rows_of_def update_step_def update_where_def)
qed

lemma scan_rows_map_rows:
  "scan_rows f rs = Inr xs \<Longrightarrow> (\<And>r x. r \<in> set rs \<Longrightarrow> f r = Inr x \<Longrightarrow> f (g r) = Inr (h x)) \<Longrightarrow>
   scan_rows f (map g rs) = Inr (map h xs)"
proof (induction rs arbitrary: xs)
  case (Cons r rs)
  from Cons.prems(1) obtain x ys where x: "f r = Inr x" and ys: "scan_rows f rs = Inr ys" and xs: "xs = x # ys"
    by (auto split: sum.splits)
  have "scan_rows f (map g rs) = Inr (map h ys)"
    using ys Cons.prems(2) by (intro Cons.IH) auto
  with x xs Cons.prems(2) [of r x] show ?case by simp
qed simp

lemma scanStep_id: "scanStep L r = Inr s \<Longrightarrow> st_id s = st_id r"
  by (auto simp: scanStep_def split: sum.splits)

lemma steps_of_update:
  assumes "steps_of L d txID = Inr steps"
    and "\<And>r. st_id r = i \<Longrightarrow> st_tx_id (f r) = st_tx_id r \<and> st_index (f r) = st_index r"
    and "\<And>r s. st_id r = i \<Longrightarrow> scanStep L r = Inr s \<Longrightarrow> scanStep L (f r) = Inr (g s)"
  shows "steps_of L (update_step i f d) txID = Inr (at_step i g steps)"
proof -
  have rows: "rows_of (update_step i f d) txID = map (\<lambda>r. if st_id r = i then f r else r) (rows_of d txID)"
    using assms(2) by (rule rows_of_update)
  show ?thesis
    using assms(1) unfolding steps_of_def rows at_step_def
    by (rule scan_rows_map_rows) (auto simp: assms(3) dest: scanStep_id)
qed

lemma steps_of_status:
  "steps_of L d txID = Inr steps \<Longrightarrow>
   steps_of L (update_step i (set_step_status st err t) d) txID = Inr (at_step i (put_status st err t) steps)"
  by (erule steps_of_update)
     (auto simp: set_step_status_def put_status_def scanStep_def split: sum.splits)

lemma steps_of_response:
  "steps_of L d txID = Inr steps \<Longrightarrow> stored_as L m s \<Longrightarrow>
   steps_of L (update_step i (\<lambda>r. r\<lparr>action_response := Some (jsonb L s)\<rparr>) d) txID
     = Inr (at_step i (put_response m) steps)"
  by (erule steps_of_update)
     (auto simp: put_response_def scanStep_def stored_as_def load_json_def split: sum.splits)

lemma steps_of_retry:
  "steps_of L d txID = Inr steps \<Longrightarrow>
   steps_of L (update_step i (\<lambda>r. r\<lparr>st_retry_count := st_retry_count r + 1\<rparr>) d) txID
     = Inr (at_step i (\<lambda>s. s\<lparr>st_retry_count := st_retry_count s + 1\<rparr>) steps)"
  by (erule steps_of_update) (auto simp: scanStep_def split: sum.splits)

text \<open>Updates of transactions leave the steps alone, and updates of steps the transactions.\<close>

lemma steps_of_update_tx [simp]: "steps_of L (update_tx P f d) txID = steps_of L d txID"
  by (simp add: steps_of_def rows_of_def update_tx_def)

lemma tx_of_update_step [simp]: "tx_of L (update_step i f d) txID = tx_of L d txID"
  by (simp add: tx_of_def find_tx_def)

lemma find_tx_update_step [simp]: "find_tx (update_step i f d) txID = find_tx d txID"
  by (simp add: find_tx_def)

lemma find_tx_update_tx:
  "(\<And>r. P r \<Longrightarrow> tx_id (f r) = tx_id r) \<Longrightarrow>
   find_tx (update_tx P f d) txID = map_option (\<lambda>r. if P r then f r else r) (find_tx d txID)"
  using find_update_where [of P tx_id f txID "saga_transactions d"] by (simp add: find_tx_def update_tx_def)

lemma count_tx_pos:
  "distinct (map tx_id (saga_transactions d)) \<Longrightarrow>
   0 < count_tx (\<lambda>r. tx_id r = txID \<and> Q r) d \<longleftrightarrow> (\<exists>r. find_tx d txID = Some r \<and> Q r)"
  by (auto simp: count_tx_def count_where_pos find_tx_def find_key_iff)

lemma rows_of_in: "r \<in> set (rows_of d txID) \<longleftrightarrow> r \<in> set (saga_steps d) \<and> st_tx_id r = txID"
  by (auto simp: rows_of_def)

lemma scan_rows_in: "scan_rows f rs = Inr xs \<Longrightarrow> x \<in> set xs \<Longrightarrow> \<exists>r \<in> set rs. f r = Inr x"
  by (induction rs arbitrary: xs) (auto split: sum.splits)

lemma count_step_view:
  assumes "steps_of L d txID = Inr steps" and "s \<in> set steps"
  shows "0 < count_step (st_id s) d"
proof -
  obtain r where "r \<in> set (rows_of d txID)" "scanStep L r = Inr s"
    using assms unfolding steps_of_def by (auto dest: scan_rows_in)
  then show ?thesis
    by (auto simp: count_step_def count_where_pos rows_of_in dest!: scanStep_id)
qed

end
