(* ===== verification/Saga_Requests.thy ===== *)
theory Saga_Requests
  imports Saga_Coordinator
begin

text \<open>
  Which HTTP requests the coordinator sends, in every run: at most one forward request per round,
  only for the step whose turn it is, and compensation requests step by step in reverse order within
  their retry budget, each with the idempotency key of its step.
\<close>

section \<open>Reasoning about the log\<close>

text \<open>\<open>log_to B m C\<close>: a log of sent requests in \<open>B\<close> is in \<open>C r\<close> after \<open>m\<close> returned \<open>r\<close>.\<close>

abbreviation log_to ::
  "(request list \<Rightarrow> bool) \<Rightarrow> 'a prog \<Rightarrow> ('a \<Rightarrow> request list \<Rightarrow> bool) \<Rightarrow> bool" where
  "log_to B m C \<equiv> ensures (\<lambda>_ _. True) (\<lambda>w. B (sent w)) m (\<lambda>r w. C r (sent w))"

abbreviation silent :: "'a prog \<Rightarrow> bool" where
  "silent m \<equiv> (\<forall>w. sent (snd (run_state m w)) = sent w)"

lemma sent_pass [simp]: "sent (pass t w) = sent w"
  by (simp add: pass_def Let_def)

lemma silent_log: "silent m \<Longrightarrow> log_to B m (\<lambda>_. B)"
  by (auto simp: ensures_def) (metis snd_conv)

lemma silent_bind:
  "silent m \<Longrightarrow> (\<And>x. silent (f x)) \<Longrightarrow> silent (State_Monad.bind m f)"
  by (simp add: case_prod_beta)

lemma silent_return: "silent (State_Monad.return x)"
  by simp

lemma silent_sum: "(\<And>e. silent (f e)) \<Longrightarrow> (\<And>x. silent (g x)) \<Longrightarrow> silent (case r of Inl e \<Rightarrow> f e | Inr x \<Rightarrow> g x)"
  by (cases r) simp_all

lemma silent_option: "silent m \<Longrightarrow> (\<And>x. silent (g x)) \<Longrightarrow> silent (case r of None \<Rightarrow> m | Some x \<Rightarrow> g x)"
  by (cases r) simp_all

lemma silent_if: "silent m \<Longrightarrow> silent n \<Longrightarrow> silent (if b then m else n)"
  by simp

lemma silent_store [simp]: "sent (snd (run_state (store_call ctx body) w)) = sent w"
  by (simp add: store_call_def Let_def case_prod_beta)

lemmas store_defs = CreateTransactionWithSteps_def GetTransaction_def UpdateTransactionStatus_def
  UpdateTransactionStep_def GetSteps_def GetStep_def UpdateStepStatus_def IncrementStepRetry_def
  IncrementStepPollCount_def CreatePollTask_def DeletePollTask_def ReleasePollTask_def
  AcquirePollTasks_def ListRecoverableTransactions_def ListTimedOutTransactions_def
  ClaimTransaction_def ReleaseTransaction_def UpdateTransactionStatusCAS_def

lemma silent_ops [simp]:
  "sent (snd (run_state (sleep n) w)) = sent w"
  "sent (snd (run_state (sleep_ctx ctx n) w)) = sent w"
  "sent (snd (run_state (use_entropy g) w)) = sent w"
  "sent (snd (run_state (RegisterNotify j) w)) = sent w"
  "sent (snd (run_state (UnregisterNotify j) w)) = sent w"
  "sent (snd (run_state (await_poll ctx j) w)) = sent w"
  "sent (snd (run_state time_now w)) = sent w"
  by (auto simp: sleep_def sleep_ctx_def use_entropy_def RegisterNotify_def UnregisterNotify_def
      await_poll_def time_now_def Let_def split: option.splits wait_event.splits list.splits prod.splits)

lemma silent_writes [simp]:
  "sent (snd (run_state (UpdateStepStatus ctx i s e) w)) = sent w"
  "sent (snd (run_state (updateStepStatus ctx i s e) w)) = sent w"
  "sent (snd (run_state (updateStepResponse L ctx i m) w)) = sent w"
  "sent (snd (run_state (incrementStepRetry ctx i) w)) = sent w"
  "sent (snd (run_state (durably ctx (\<lambda>c. CreatePollTask c task)) w)) = sent w"
  by (auto simp: store_defs updateStepStatus_def updateStepResponse_def incrementStepRetry_def
      durably_def time_now_def UpdateStepResponse_def case_prod_beta split: sum.splits)

lemma silent_compensate [simp]:
  "sent (snd (run_state (compensate_and_go ctx tx reason) w)) = sent w"
  by (simp add: compensate_and_go_def triggerCompensation_def durably_def time_now_def store_defs
      case_prod_beta)

lemma silent_after_error [simp]: "sent (snd (run_state (after_error ctx tx e) w)) = sent w"
  by (simp add: after_error_def case_prod_beta)

lemma silent_trace [simp]:
  "sent (snd (run_state (extractTraceFromPayload p) w)) = sent w"
  "sent (snd (run_state (inject_trace ctx tx req) w)) = sent w"
  "sent (snd (run_state (signRequestIfNeeded E s req) w)) = sent w"
  by (auto simp: extractTraceFromPayload_def inject_trace_def signRequestIfNeeded_def time_now_def
      case_prod_beta split: option.splits sum.splits)

lemma silent_handle [simp]: "sent (snd (run_state (handleHTTPError ctx s e) w)) = sent w"
  by (simp add: handleHTTPError_def Let_def case_prod_beta)

lemma silent_wait [simp]: "sent (snd (run_state (waitForAsyncStep E cfg ctx tx s) w)) = sent w"
proof -
  have "silent (wait_registered E cfg ctx c tx s)" for c
    unfolding wait_registered_def Let_def
    by (intro silent_bind silent_return silent_sum silent_option silent_if)
       (auto simp: store_defs durably_def time_now_def case_prod_beta
          split: wait_end.split PollResult.split)
  then show ?thesis by (simp add: waitForAsyncStep_def case_prod_beta)
qed

lemmas log_rules = ensures_rules anywhere.ensures_return anywhere.ensures_bind

section \<open>The key of a request\<close>

definition request_key :: "request \<Rightarrow> string" where
  "request_key r = get_header r ''X-Idempotency-Key''"

lemma key_headers [simp]:
  "canonical_key ''X-Idempotency-Key'' \<noteq> canonical_key HeaderTraceID"
  "canonical_key HeaderTraceID \<noteq> canonical_key ''X-Idempotency-Key''"
  "canonical_key HeaderSpanId \<noteq> canonical_key ''X-Idempotency-Key''"
  "canonical_key HeaderSampled \<noteq> canonical_key ''X-Idempotency-Key''"
  "canonical_key HeaderTimestamp \<noteq> canonical_key ''X-Idempotency-Key''"
  "canonical_key HeaderNonce \<noteq> canonical_key ''X-Idempotency-Key''"
  "canonical_key HeaderSignedHeaders \<noteq> canonical_key ''X-Idempotency-Key''"
  "canonical_key HeaderAuthorization \<noteq> canonical_key ''X-Idempotency-Key''"
  by code_simp+

lemma key_saga_headers [simp]: "request_key (saga_headers tx k req) = k"
  by (simp add: request_key_def saga_headers_def get_set_header)

lemma key_inject:
  "run_state (inject_trace ctx tx req) w = (req', w') \<Longrightarrow> request_key req' = request_key req"
  by (auto simp: inject_trace_def request_key_def get_header_def Inject_def hdr_get_set Let_def
      case_prod_beta split: option.splits)

lemma key_Sign:
  "fst (Sign L e sg t rnd req) = Inr req' \<Longrightarrow> request_key req' = request_key req"
  by (auto simp: Sign_def Let_def request_key_def get_set_header dest!: hash_ok
      split: sum.splits prod.splits)

lemma key_sign:
  "run_state (signRequestIfNeeded E s req) w = (Inr req', w') \<Longrightarrow> request_key req' = request_key req"
  by (auto simp: signRequestIfNeeded_def time_now_def use_entropy_def case_prod_beta
      intro: key_Sign split: option.splits sum.splits if_splits)

text \<open>Preparing and sending a request logs at most one request, with the key it was given.\<close>

lemma log_http:
  "(\<And>l. B l \<Longrightarrow> C l \<and> C (l @ [req])) \<Longrightarrow> log_to B (http_do ctx req) (\<lambda>_. C)"
  by (auto simp: ensures_def http_do_def Let_def split: option.splits list.splits)

lemma log_inject:
  "log_to B (inject_trace ctx tx req) (\<lambda>r l. request_key r = request_key req \<and> B l)"
proof (rule ensuresI)
  fix w r w' assume B: "B (sent w)" and run: "run_state (inject_trace ctx tx req) w = (r, w')"
  then have "sent w' = sent w" using silent_trace(2) [of ctx tx req w] by simp
  with B show "True \<and> request_key r = request_key req \<and> B (sent w')" by (simp add: key_inject [OF run])
qed

lemma log_sign:
  "log_to B (signRequestIfNeeded E s req)
     (\<lambda>r l. (\<forall>q. r = Inr q \<longrightarrow> request_key q = request_key req) \<and> B l)"
proof (rule ensuresI)
  fix w r w' assume B: "B (sent w)" and run: "run_state (signRequestIfNeeded E s req) w = (r, w')"
  then have "sent w' = sent w" using silent_trace(3) [of E s req w] by simp
  with B run show "True \<and> (\<forall>q. r = Inr q \<longrightarrow> request_key q = request_key req) \<and> B (sent w')"
    by (auto dest: key_sign)
qed

lemma log_pure: "(A \<Longrightarrow> log_to B m C) \<Longrightarrow> log_to (\<lambda>l. A \<and> B l) m C"
  by (auto simp: ensures_def)

section \<open>Compensation attempts\<close>

definition compensation_key :: "step \<Rightarrow> string" where
  "compensation_key s = st_id s @ ''-compensate''"

text \<open>Since the log was \<open>l0\<close>, at most \<open>n\<close> requests were sent, all with key \<open>k\<close>.\<close>

definition sent_since :: "request list \<Rightarrow> nat \<Rightarrow> string \<Rightarrow> request list \<Rightarrow> bool" where
  "sent_since l0 n k l \<longleftrightarrow> (\<exists>ext. l = l0 @ ext \<and> length ext \<le> n \<and> (\<forall>q \<in> set ext. request_key q = k))"

lemma sent_since_refl [simp]: "sent_since l0 n k l0"
  by (simp add: sent_since_def)

lemma sent_since_one: "sent_since l0 n k l \<Longrightarrow> request_key q = k \<Longrightarrow> sent_since l0 (Suc n) k (l @ [q])"
  by (auto simp: sent_since_def)

lemma sent_since_le: "sent_since l0 n k l \<Longrightarrow> n \<le> m \<Longrightarrow> sent_since l0 m k l"
  by (auto simp: sent_since_def)

lemma sent_since_Suc: "sent_since l0 n k l \<Longrightarrow> sent_since l0 (Suc n) k l"
  by (erule sent_since_le) simp

lemma log_weaken:
  "log_to B' m C' \<Longrightarrow> (\<And>l. B l \<Longrightarrow> B' l) \<Longrightarrow> (\<And>r l. C' r l \<Longrightarrow> C r l) \<Longrightarrow> log_to B m C"
  by (rule ensures_weaken)

lemma log_silent: "silent m \<Longrightarrow> (\<And>l. B l \<Longrightarrow> C l) \<Longrightarrow> log_to B m (\<lambda>_. C)"
  by (rule log_weaken [OF silent_log])

lemma log_skip:
  "silent m \<Longrightarrow> (\<And>x. log_to B (f x) C) \<Longrightarrow> log_to B (State_Monad.bind m f) C"
  by (rule anywhere.ensures_bind [OF silent_log])

lemma log_exchange:
  assumes key: "request_key req = k" and "\<And>e. silent (bad e)" and "\<And>r. silent (good r)"
  shows "log_to (sent_since l0 n k)
     (do {
        req \<leftarrow> inject_trace ctx tx req;
        sg \<leftarrow> signRequestIfNeeded E s req;
        case sg of Inl e \<Rightarrow> bad e | Inr signed \<Rightarrow> do { r \<leftarrow> http_do ctx signed; good r } })
     (\<lambda>_. sent_since l0 (Suc n) k)"
proof -
  let ?B = "sent_since l0 n k" and ?C = "sent_since l0 (Suc n) k"
  have up: "?C l" if "?B l" for l using that by (rule sent_since_le) simp
  have send: "log_to ?B (do { r \<leftarrow> http_do ctx q; good r }) (\<lambda>_. ?C)" if "request_key q = k" for q
    using that assms(3)
    by (intro anywhere.ensures_bind [OF log_http log_silent]) (auto intro: sent_since_Suc sent_since_one)
  show ?thesis
    by (rule anywhere.ensures_bind [OF log_inject], rule log_pure, rule anywhere.ensures_bind [OF log_sign],
        rule log_pure, rule ensures_sum, rule log_silent [OF assms(2)], erule sent_since_Suc,
        rule send, simp add: key)
qed

lemma log_comp_attempt:
  "log_to (sent_since l0 n (compensation_key s)) (comp_attempt E ctx tx s url body)
     (\<lambda>_. sent_since l0 (Suc n) (compensation_key s))"
  unfolding comp_attempt_def
  by (intro ensures_sum log_exchange log_silent)
     (auto simp: compensation_key_def case_prod_beta intro: sent_since_le split: sum.splits)

lemma log_comp_loop:
  "log_to (sent_since l0 k (compensation_key s)) (comp_loop E ctx tx s url body attempt n e)
     (\<lambda>_. sent_since l0 (k + n) (compensation_key s))"
proof (induction n arbitrary: k attempt e)
  case 0
  show ?case by (simp add: anywhere.ensures_return)
next
  case (Suc n)
  let ?C = "sent_since l0 (k + Suc n) (compensation_key s)"
  have IH: "log_to (sent_since l0 (Suc k) (compensation_key s))
     (comp_loop E ctx tx s url body (attempt + 1) n (Some e')) (\<lambda>_. ?C)" for e'
    using Suc [of "Suc k"] by simp
  have up: "?C l" if "sent_since l0 j (compensation_key s) l" "j \<le> Suc k" for j l
    using that by (auto intro: sent_since_le)
  have turn: "log_to (sent_since l0 k (compensation_key s))
     (do { a \<leftarrow> comp_attempt E ctx tx s url body;
           case a of Inl r \<Rightarrow> State_Monad.return r
           | Inr e' \<Rightarrow> comp_loop E ctx tx s url body (attempt + 1) n (Some e') }) (\<lambda>_. ?C)"
    by (intro anywhere.ensures_bind [OF log_comp_attempt] ensures_sum IH anywhere.ensures_return)
       (rule up, auto)
  show ?case
    unfolding comp_loop.simps
    by (rule log_skip, simp, rule ensures_option, rule turn, rule anywhere.ensures_return, rule up, auto)
qed

lemma log_CompensateStep:
  "log_to (sent_since l0 0 (compensation_key s)) (CompensateStep E ctx tx s steps)
     (\<lambda>_. sent_since l0 (nat (compensation_retries s + 1)) (compensation_key s))"
proof -
  let ?B = "sent_since l0 0 (compensation_key s)"
  let ?C = "sent_since l0 (nat (compensation_retries s + 1)) (compensation_key s)"
  have loop: "log_to ?B (comp_loop E ctx tx s url body 0 (nat (compensation_retries s + 1)) None) (\<lambda>_. ?C)"
    for url body using log_comp_loop [of l0 0] by simp
  have rest: "log_to ?B
     (do { r \<leftarrow> comp_loop E ctx tx s url body 0 (nat (compensation_retries s + 1)) None; g r }) (\<lambda>_. ?C)"
    if "\<And>r. silent (g r)" for url body and g :: "comp_end \<Rightarrow> (gerr option \<times> step) prog"
    by (rule anywhere.ensures_bind [OF loop silent_log [OF that]])
  have up: "?C l" if "?B l" for l using that by (rule sent_since_le) simp
  show ?thesis
    unfolding CompensateStep_def Let_def
    by (rule log_skip, simp, rule ensures_sum, rule log_silent, simp, erule up,
        rule ensures_sum, rule log_silent, simp add: case_prod_beta, erule up,
        rule ensures_sum, rule log_silent, simp add: case_prod_beta, erule up, rule rest)
       (auto simp: case_prod_beta split: comp_end.splits)
qed

text \<open>The step comes back with its identity and its budget unchanged.\<close>

definition same_step :: "step \<Rightarrow> step \<Rightarrow> bool" where
  "same_step s s' \<longleftrightarrow> st_id s' = st_id s \<and> max_retry s' = max_retry s"

lemma same_step_loop:
  "fst (run_state (comp_loop E ctx tx s url body attempt n e) w) = CompReturn e' s' \<Longrightarrow> same_step s s'"
proof (induction n arbitrary: attempt e w)
  case (Suc n)
  have attempt: "same_step s s'" if "fst (run_state (comp_attempt E ctx tx s url body) w) = Inl (CompReturn e' s')" for w
    using that by (auto simp: comp_attempt_def case_prod_beta same_step_def split: sum.splits)
  show ?case
    using Suc attempt
    by (auto simp: case_prod_beta same_step_def split: option.splits sum.splits if_splits)
qed simp

lemma same_step_result: "same_step s (snd (fst (run_state (CompensateStep E ctx tx s steps) w)))"
  by (auto simp: CompensateStep_def Let_def case_prod_beta same_step_loop
      split: sum.splits comp_end.splits) (auto simp: same_step_def)

section \<open>The compensation of a transaction\<close>

definition compensation_budget :: "step \<Rightarrow> nat" where
  "compensation_budget s = nat (compensation_retries s + 1)"

lemma same_step_key: "same_step s s' \<Longrightarrow> compensation_key s' = compensation_key s"
  and same_step_budget: "same_step s s' \<Longrightarrow> compensation_budget s' = compensation_budget s"
  by (simp_all add: same_step_def compensation_key_def compensation_budget_def compensation_retries_def)

text \<open>Blocks of requests in the order of the positions, each within the budget of its step.\<close>

definition key_blocks :: "step list \<Rightarrow> nat list \<Rightarrow> nat list \<Rightarrow> string list" where
  "key_blocks steps is ns = concat (map2 (\<lambda>i n. replicate n (compensation_key (steps ! i))) is ns)"

definition within_budgets :: "step list \<Rightarrow> nat list \<Rightarrow> nat list \<Rightarrow> bool" where
  "within_budgets steps is ns \<longleftrightarrow> list_all2 (\<lambda>i n. n \<le> compensation_budget (steps ! i)) is ns"

lemma CompensateStep_keys:
  assumes "run_state (CompensateStep E ctx tx s steps) w = (r, w')"
  shows "\<exists>n \<le> compensation_budget s.
    map request_key (sent w') = map request_key (sent w) @ replicate n (compensation_key s)"
proof -
  have "sent_since (sent w) (compensation_budget s) (compensation_key s) (sent w')"
    using ensuresD [OF log_CompensateStep _ assms] by (simp add: compensation_budget_def)
  then obtain ext where e: "sent w' = sent w @ ext" "length ext \<le> compensation_budget s"
    "\<forall>q \<in> set ext. request_key q = compensation_key s" by (auto simp: sent_since_def)
  then have "map request_key ext = replicate (length ext) (compensation_key s)"
    by (simp add: map_replicate_const [symmetric] cong: map_cong)
  with e show ?thesis by auto
qed

lemma within_none: "within_budgets steps is (replicate (length is) 0)"
  by (auto simp: within_budgets_def list_all2_conv_all_nth)

lemma blocks_none: "key_blocks steps is (replicate (length is) 0) = []"
  by (induction "is") (auto simp: key_blocks_def)

lemma compensate_all_keys:
  assumes "run_state (compensate_all E ctx tx is steps ok) w = (r, w')"
    and "distinct is" and "\<forall>i \<in> set is. i < length steps"
  shows "\<exists>ns. within_budgets steps is ns \<and>
    map request_key (sent w') = map request_key (sent w) @ key_blocks steps is ns"
  using assms
proof (induction "is" arbitrary: steps ok w)
  case Nil
  then show ?case by (auto simp: within_budgets_def key_blocks_def)
next
  case (Cons i js)
  show ?case
  proof (cases "fst (run_state (halted ctx) w)")
    case True
    then have "sent w' = sent w" using Cons.prems(1) by (auto simp: halted_def)
    then show ?thesis
      by (intro exI [of _ "replicate (length (i # js)) 0"]) (simp only: within_none blocks_none append_Nil2 simp_thms)
  next
    case False
    let ?c = "run_state (CompensateStep E ctx tx (steps ! i) steps) w"
    let ?steps = "steps[i := snd (fst ?c)]"
    obtain n where n: "n \<le> compensation_budget (steps ! i)"
      "map request_key (sent (snd ?c)) = map request_key (sent w) @ replicate n (compensation_key (steps ! i))"
      using CompensateStep_keys [of E ctx tx "steps ! i" steps w "fst ?c" "snd ?c"] by auto
    have "run_state (compensate_all E ctx tx js ?steps (ok \<and> fst (fst ?c) = None)) (snd ?c) = (r, w')"
      using False Cons.prems(1) by (auto simp: halted_def case_prod_beta)
    from Cons.IH [OF this] obtain ns where ns: "within_budgets ?steps js ns"
      "map request_key (sent w') = map request_key (sent (snd ?c)) @ key_blocks ?steps js ns"
      using Cons.prems by auto
    have at: "?steps ! k = steps ! k" if "k \<in> set js" for k
      using that Cons.prems(2) by (cases "k = i") auto
    have "within_budgets steps js ns \<and> key_blocks ?steps js ns = key_blocks steps js ns"
    proof
      show "within_budgets steps js ns"
        using ns(1) at by (auto simp: within_budgets_def list_all2_conv_all_nth)
      show "key_blocks ?steps js ns = key_blocks steps js ns"
        unfolding key_blocks_def by (intro arg_cong [of _ _ concat] map_cong) (auto simp: at dest: set_zip_leftD)
    qed
    with n ns show ?thesis
      by (intro exI [of _ "n # ns"]) (auto simp: within_budgets_def key_blocks_def)
  qed
qed

lemma to_compensate_props: "distinct (to_compensate steps)" "i \<in> set (to_compensate steps) \<Longrightarrow> i < length steps"
  by (auto simp: to_compensate_def)

lemma silent_skip [simp]: "sent (snd (run_state (skip_pending ctx ss) w)) = sent w"
  by (induction ss arbitrary: w) (auto simp: case_prod_beta)

text \<open>The positions to compensate, described by what they are: all positions of the three statuses, descending.\<close>

lemma to_compensate_order: "sorted_wrt (>) (to_compensate steps)"
  unfolding to_compensate_def sorted_wrt_rev
  by (rule sorted_wrt_filter) (simp add: sorted_wrt_upt [THEN sorted_wrt_mono_rel [rotated]])

lemma to_compensate_set: "set (to_compensate steps) = {i. i < length steps \<and>
    st_status (steps ! i) \<in> {StepStatusSucceeded, StepStatusPolling, StepStatusCompensating}}"
  by (auto simp: to_compensate_def needs_compensation_def)

lemma to_compensate_unique:
  assumes "sorted_wrt (>) is" and "set is = {i. i < length steps \<and>
    st_status (steps ! i) \<in> {StepStatusSucceeded, StepStatusPolling, StepStatusCompensating}}"
  shows "is = to_compensate steps"
proof -
  have "sorted_wrt (<) (rev is)" "sorted_wrt (<) (rev (to_compensate steps))"
    using assms(1) to_compensate_order by (simp_all add: sorted_wrt_rev)
  moreover have "set (rev is) = set (rev (to_compensate steps))" using assms(2) by (simp add: to_compensate_set)
  ultimately have "rev is = rev (to_compensate steps)"
    by (metis strict_sorted_equal)
  then show ?thesis by simp
qed

text \<open>
  C13. Compensation in every run, whatever fails: the requests it sends are, for the steps that
  succeeded, are polling or were being compensated, in reverse order of the steps, a block of attempts
  of each step, no block longer than the retry budget of its step (max_retry, or 3 when that is 0, and
  one more), every request with the idempotency key of its step. No other step is compensated.
\<close>

theorem compensation_requests:
  assumes "run_state (executeCompensation E ctx tx steps) w = (r, w')"
  shows "\<exists>is ns. sorted_wrt (>) is \<and>
    set is = {i. i < length steps \<and>
      st_status (steps ! i) \<in> {StepStatusSucceeded, StepStatusPolling, StepStatusCompensating}} \<and>
    list_all2 (\<lambda>i n. int n \<le> max 0 ((if max_retry (steps ! i) = 0 then 3 else max_retry (steps ! i)) + 1)) is ns \<and>
    map request_key (sent w') = map request_key (sent w) @
      concat (map2 (\<lambda>i n. replicate n (st_id (steps ! i) @ ''-compensate'')) is ns)"
proof -
  let ?c = "run_state (compensate_all E ctx tx (to_compensate steps) steps True) w"
  have "sent w' = sent (snd ?c)"
    using assms by (auto simp: executeCompensation_def case_prod_beta store_defs split: option.splits)
  moreover obtain ns where "within_budgets steps (to_compensate steps) ns"
    "map request_key (sent (snd ?c)) = map request_key (sent w) @ key_blocks steps (to_compensate steps) ns"
    using compensate_all_keys [of E ctx tx "to_compensate steps" steps True w "fst ?c" "snd ?c"]
    by (auto simp: to_compensate_props)
  moreover have "within_budgets steps is ns \<longleftrightarrow>
      list_all2 (\<lambda>i n. int n \<le> max 0 ((if max_retry (steps ! i) = 0 then 3 else max_retry (steps ! i)) + 1)) is ns" for "is" ns
    unfolding within_budgets_def by (rule arg_cong [where f = "\<lambda>P. list_all2 P is ns"])
      (auto simp: fun_eq_iff compensation_budget_def compensation_retries_def le_nat_iff max_def)
  ultimately show ?thesis
    using to_compensate_order to_compensate_set
    by (intro exI [of _ "to_compensate steps"] exI [of _ ns]) (simp add: key_blocks_def compensation_key_def)
qed

text \<open>Two steps that succeeded, one that is pending, and a peer that answers every request.\<close>

definition shop_tx :: transaction where
  "shop_tx = \<lparr>tx_id = ''t1'', tx_status = TxStatusRunning, tx_payload = None, current_step = 0,
     created_at = 0, updated_at = 0, finished_at = None, timeout_at = None, tx_retry_count = 0,
     tx_last_error = ''''\<rparr>"

definition shop_step :: "string \<Rightarrow> int \<Rightarrow> step_status \<Rightarrow> step" where
  "shop_step i k st = sample_step\<lparr>st_id := i, st_tx_id := ''t1'', st_index := k, st_status := st,
     st_type := StepTypeSync, max_retry := 2\<rparr>"

definition shop_steps :: "step list" where
  "shop_steps = [shop_step ''s0'' 0 StepStatusSucceeded, shop_step ''s1'' 1 StepStatusSucceeded,
     shop_step ''s2'' 2 StepStatusPending]"

definition shop_world :: world where
  "shop_world = idle_world\<lparr>net := replicate 5 (Inr \<lparr>hr_status = 200, hr_body = ''{}'', hr_read_error = None\<rparr>)\<rparr>"

theorem compensation_requests_witness:
  "\<exists>m n. m \<le> 3 \<and> n \<le> 3 \<and>
     map request_key (sent (snd (run_state (executeCompensation sample_env background shop_tx shop_steps) shop_world)))
       = replicate m ''s1-compensate'' @ replicate n ''s0-compensate''"
proof -
  have two: "is = [1, 0]" if "sorted_wrt (>) is" "set is = {i. i < length shop_steps \<and>
      st_status (shop_steps ! i) \<in> {StepStatusSucceeded, StepStatusPolling, StepStatusCompensating}}" for "is"
  proof -
    have "to_compensate shop_steps = [1, 0]" by code_simp
    with to_compensate_unique [OF that] show ?thesis by simp
  qed
  show ?thesis
    using compensation_requests [of sample_env background shop_tx shop_steps shop_world
        "fst (run_state (executeCompensation sample_env background shop_tx shop_steps) shop_world)"
        "snd (run_state (executeCompensation sample_env background shop_tx shop_steps) shop_world)"]
    by (auto simp: prod_eq_iff shop_world_def idle_world_def list_all2_Cons1 dest!: two)
       (auto simp: shop_steps_def shop_step_def sample_step_def)
qed

section \<open>Forward actions\<close>

lemma log_action:
  "log_to (sent_since l0 n (st_id s)) (perform_action E ctx tx s steps) (\<lambda>_. sent_since l0 (Suc n) (st_id s))"
  unfolding perform_action_def Let_def
  by (rule log_skip, simp, rule ensures_sum, rule log_silent, simp, erule sent_since_Suc,
      rule ensures_sum, rule log_silent, simp add: case_prod_beta, erule sent_since_Suc,
      rule ensures_sum, rule log_silent, simp add: case_prod_beta, erule sent_since_Suc,
      rule ensures_sum, rule log_silent, simp add: case_prod_beta, erule sent_since_Suc,
      rule log_exchange)
     (auto simp: case_prod_beta split: sum.splits)

lemma log_execute:
  "log_to (sent_since l0 n (st_id s)) (ExecuteStep E ctx tx s steps) (\<lambda>_. sent_since l0 (Suc n) (st_id s))"
  "log_to (sent_since l0 n (st_id s)) (ExecuteAsyncStep E ctx tx s steps) (\<lambda>_. sent_since l0 (Suc n) (st_id s))"
  unfolding ExecuteStep_def ExecuteAsyncStep_def
  by (rule anywhere.ensures_bind [OF log_action silent_log],
      auto simp: case_prod_beta time_now_def Let_def split: sum.splits)+

lemma log_then: "log_to B m (\<lambda>_. C) \<Longrightarrow> (\<And>x. silent (f x)) \<Longrightarrow> log_to B (State_Monad.bind m f) (\<lambda>_. C)"
  by (rule anywhere.ensures_bind) (auto intro: silent_log)

lemma log_executeStep:
  "log_to (sent_since l0 n (st_id s)) (executeStep E cfg ctx tx s steps) (\<lambda>_. sent_since l0 (Suc n) (st_id s))"
proof -
  have late: "log_to (sent_since l0 n (st_id s)) (compensate_and_go ctx tx m) (\<lambda>_. sent_since l0 (Suc n) (st_id s))" for m
    by (rule log_silent) (auto intro: sent_since_Suc)
  have sync: "log_to (sent_since l0 n (st_id s)) (executeSyncStep E ctx tx s steps) (\<lambda>_. sent_since l0 (Suc n) (st_id s))"
    unfolding executeSyncStep_def Let_def
    by (rule log_skip, simp, rule ensures_if, rule late, rule log_then, rule log_execute)
       (auto simp: case_prod_beta durably_def time_now_def store_defs split: option.splits)
  have async: "log_to (sent_since l0 n (st_id s)) (executeAsyncStep E cfg ctx tx s steps) (\<lambda>_. sent_since l0 (Suc n) (st_id s))"
    unfolding executeAsyncStep_def Let_def
    by (rule log_skip, simp, rule ensures_if, rule late, rule log_then, rule log_execute)
       (auto simp: case_prod_beta split: option.splits)
  show ?thesis
    unfolding executeStep_def using sync async by (cases "st_type s") simp_all
qed

text \<open>The step whose action is due, stated without the scan.\<close>

definition in_progress :: "step \<Rightarrow> bool" where
  "in_progress s \<longleftrightarrow> st_status s = StepStatusRunning \<or> st_status s = StepStatusPolling"

definition due_step :: "step list \<Rightarrow> step option" where
  "due_step steps =
     (if \<exists>s \<in> set steps. st_status s = StepStatusFailed then None
      else if \<exists>s \<in> set steps. in_progress s then
        (let s = last (filter in_progress steps)
         in if st_status s = StepStatusRunning \<and> st_type s = StepTypeSync then Some s else None)
      else find (\<lambda>s. st_status s = StepStatusPending) steps)"

lemma scan_steps_current:
  "scan_steps steps cur ok = Inr (c, all) \<Longrightarrow>
     (\<forall>s \<in> set steps. st_status s \<noteq> StepStatusFailed) \<and>
     c = (if \<exists>s \<in> set steps. in_progress s then Some (last (filter in_progress steps))
          else if cur = None then find (\<lambda>s. st_status s = StepStatusPending) steps else cur)"
proof (induction steps arbitrary: cur ok)
  case (Cons s ss)
  have none: "filter in_progress ss = [] \<longleftrightarrow> \<not> (\<exists>x \<in> set ss. in_progress x)" by (simp add: filter_empty_conv)
  show ?case
  proof (cases "st_status s = StepStatusPending")
    case True
    with Cons.prems have "scan_steps ss (if cur = None then Some s else cur) False = Inr (c, all)" by simp
    from Cons.IH [OF this] True show ?thesis by (auto simp: in_progress_def)
  next
    case False
    show ?thesis
    proof (cases "in_progress s")
      case True
      with Cons.prems have "scan_steps ss (Some s) False = Inr (c, all)" by (auto simp: in_progress_def)
      moreover from True have "st_status s \<noteq> StepStatusFailed" by (auto simp: in_progress_def)
      ultimately show ?thesis using Cons.IH [of "Some s" False] True none by simp
    next
      case F: False
      with False Cons.prems obtain b where "st_status s \<noteq> StepStatusFailed" "scan_steps ss cur b = Inr (c, all)"
        by (cases "st_status s") (auto simp: in_progress_def)
      with Cons.IH [OF this(2)] False F show ?thesis by auto
    qed
  qed
qed simp

lemma scan_steps_due:
  assumes "scan_steps steps None True = Inr (Some s, all)"
    and "st_status s = StepStatusPending \<or> st_status s = StepStatusRunning \<and> st_type s = StepTypeSync"
  shows "due_step steps = Some s"
proof (cases "\<exists>x \<in> set steps. in_progress x")
  case True
  then have "filter in_progress steps \<noteq> []" by (auto simp: filter_empty_conv)
  then have "in_progress (last (filter in_progress steps))" using last_in_set by fastforce
  with True assms scan_steps_current [OF assms(1)] show ?thesis
    by (auto simp: due_step_def in_progress_def Let_def)
next
  case False
  with scan_steps_current [OF assms(1)] show ?thesis by (auto simp: due_step_def)
qed

text \<open>
  C14. One round of forward execution, whatever fails, sends at most one request, and only for
  the step that is due: no step has failed, and it is the sync step in progress, or the first pending
  one when no step is in progress. The request carries the id of that step as its idempotency key, so a
  repetition after a crash carries the same key.
\<close>

theorem forward_request:
  assumes "run_state (executeNextStep E cfg ctx tx steps) w = (r, w')"
  shows "sent w' = sent w \<or>
    (\<exists>s q. due_step steps = Some s \<and> sent w' = sent w @ [q] \<and> request_key q = st_id s)"
proof (cases "\<exists>s all. scan_steps steps None True = Inr (Some s, all) \<and> \<not> all \<and>
    (st_status s = StepStatusPending \<or> st_status s = StepStatusRunning \<and> st_type s = StepTypeSync)")
  case True
  then obtain s where scan: "scan_steps steps None True = Inr (Some s, False)"
    and st: "st_status s = StepStatusPending \<or> st_status s = StepStatusRunning \<and> st_type s = StepTypeSync"
    by auto
  have "sent w' = sent w \<or> run_state (executeStep E cfg ctx tx s steps) w = (r, w')"
    using assms scan st silent_compensate [of ctx tx timeout_reason w]
    by (auto simp: executeNextStep_def simp del: silent_compensate split: if_splits)
  moreover have "sent_since (sent w) 1 (st_id s) (sent w')"
    if "run_state (executeStep E cfg ctx tx s steps) w = (r, w')"
    using ensuresD [OF log_executeStep _ that, of "sent w" 0] by simp
  ultimately have "sent_since (sent w) 1 (st_id s) (sent w')" by (auto simp: sent_since_refl)
  then obtain ext where "sent w' = sent w @ ext" "length ext \<le> 1" "\<forall>q \<in> set ext. request_key q = st_id s"
    by (auto simp: sent_since_def)
  then show ?thesis using scan_steps_due [OF scan st] by (cases ext) auto
next
  case False
  have w': "w' = snd (run_state (executeNextStep E cfg ctx tx steps) w)" using assms by simp
  have "sent (snd (run_state (executeNextStep E cfg ctx tx steps) w)) = sent w"
    using False
    by (auto simp: executeNextStep_def store_defs case_prod_beta
        split: sum.splits prod.splits option.splits step_status.splits)
  then show ?thesis by (simp add: w')
qed

theorem forward_request_witness:
  "let l = sent (snd (run_state (executeNextStep sample_env DefaultCoordinatorConfig background shop_tx shop_steps)
       shop_world))
   in l = [] \<or> (\<exists>q. l = [q] \<and> request_key q = ''s2'')"
proof -
  have "due_step shop_steps = Some (shop_step ''s2'' 2 StepStatusPending)"
    by (simp add: due_step_def shop_steps_def shop_step_def in_progress_def)
  moreover have "sent shop_world = []" by (simp add: shop_world_def idle_world_def)
  ultimately show ?thesis
    using forward_request [of sample_env DefaultCoordinatorConfig background shop_tx shop_steps shop_world
        "fst (run_state (executeNextStep sample_env DefaultCoordinatorConfig background shop_tx shop_steps) shop_world)"
        "snd (run_state (executeNextStep sample_env DefaultCoordinatorConfig background shop_tx shop_steps) shop_world)"]
    by (auto simp: prod_eq_iff Let_def shop_step_def)
qed

end
