(* ===== verification/Saga_Quiet.thy ===== *)
theory Saga_Quiet
  imports Saga_View Saga_Requests
begin

text \<open>
  What the engine does when nothing disturbs it: no faults, no other sessions, no cancellation. Every
  operation then ends in a state that is known exactly.
\<close>

section \<open>Quiet worlds\<close>

definition quiet :: "world \<Rightarrow> bool" where
  "quiet w \<longleftrightarrow> ticks w = [] \<and> cancelled_at w = None \<and> \<not> stop_closed w"

definition live :: "gctx \<Rightarrow> int \<Rightarrow> bool" where
  "live ctx t \<longleftrightarrow> (case cx_deadline ctx of None \<Rightarrow> True | Some d \<Rightarrow> t < d)"

lemma next_tick_quiet: "quiet w \<Longrightarrow> next_tick w = quiet_tick"
  by (simp add: quiet_def next_tick_def)

lemma ctx_Err_quiet: "quiet w \<Longrightarrow> live ctx (now w) \<Longrightarrow> ctx_Err ctx w = None"
  by (auto simp: quiet_def live_def ctx_Err_def cancelled_first_def cancel_seen_def deadline_passed_def
      split: option.splits)

lemma pass_quiet: "quiet w \<Longrightarrow> pass (now w) w = w"
  by (simp add: pass_def next_tick_quiet quiet_tick_def Let_def) (simp add: quiet_def)

lemma store_call_quiet:
  "quiet w \<Longrightarrow> live ctx (now w) \<Longrightarrow> run_state (store_call ctx body) w =
     (fst (body no_faults (\<lambda>_. False) (now w) (now w) (wdb w)),
      w\<lparr>wdb := snd (body no_faults (\<lambda>_. False) (now w) (now w) (wdb w))\<rparr>)"
  by (simp add: store_call_def ctx_Err_quiet next_tick_quiet Let_def case_prod_beta)
     (simp add: quiet_tick_def pass_quiet)

lemma fault_none [simp]: "fault no_faults k = None"
  by (simp add: fault_def no_faults_def)

lemma http_quiet:
  "quiet w \<Longrightarrow> live ctx (now w) \<Longrightarrow> net w = a # as \<Longrightarrow>
   run_state (http_do ctx req) w = (a, w\<lparr>sent := sent w @ [req], net := as\<rparr>)"
  by (simp add: http_do_def ctx_Err_quiet next_tick_quiet Let_def) (simp add: quiet_tick_def pass_quiet)

section \<open>The state of one saga\<close>

text \<open>
  The clock, the row and the steps of the saga, the answers the peers will give and the requests
  they got.
\<close>

definition saga_at ::
  "stdlib \<Rightarrow> string \<Rightarrow> int \<Rightarrow> tx_row \<Rightarrow> step list \<Rightarrow> (gerr + http_response) list \<Rightarrow> request list \<Rightarrow> world \<Rightarrow> bool"
where
  "saga_at L txID t row steps answers l w \<longleftrightarrow>
     quiet w \<and> now w = t \<and> find_tx (wdb w) txID = Some row \<and> steps_of L (wdb w) txID = Inr steps \<and>
     distinct (map tx_id (saga_transactions (wdb w))) \<and> net w = answers \<and> sent w = l"

abbreviation does :: "(world \<Rightarrow> bool) \<Rightarrow> 'a prog \<Rightarrow> ('a \<Rightarrow> world \<Rightarrow> bool) \<Rightarrow> bool" where
  "does \<equiv> ensures (\<lambda>_ _. True)"

lemmas does_bind = anywhere.ensures_bind
lemmas does_return = anywhere.ensures_return

lemma does_pure: "(\<And>w. P w \<Longrightarrow> A) \<Longrightarrow> (A \<Longrightarrow> does P m Q) \<Longrightarrow> does P m Q"
  by (auto simp: ensures_def)

lemma run_update_quiet [simp]:
  "run_update no_faults what f n d = (Inr (n d), f d)" "run_exec no_faults what f d = (Inr (), f d)"
  "commit no_faults k what x d d' = (Inr x, d')"
  by (simp_all add: run_update_def run_exec_def commit_def)

lemma does_store_call:
  assumes "live ctx t"
    and "\<And>w. saga_at L txID t row steps a l w \<Longrightarrow>
      (case body no_faults (\<lambda>_. False) t t (wdb w) of (r, d) \<Rightarrow> Q r (w\<lparr>wdb := d\<rparr>))"
  shows "does (saga_at L txID t row steps a l) (store_call ctx body) Q"
proof (rule ensuresI)
  fix w r w'
  assume w: "saga_at L txID t row steps a l w" and run: "run_state (store_call ctx body) w = (r, w')"
  from w assms(1) have "quiet w" "live ctx (now w)" "now w = t" by (auto simp: saga_at_def)
  with run assms(2) [OF w] show "True \<and> Q r w'"
    by (auto simp: store_call_quiet case_prod_beta)
qed

subsection \<open>The store\<close>

lemma does_UpdateStepStatus:
  assumes "live ctx t" and "s \<in> set steps"
  shows "does (saga_at L txID t row steps a l) (UpdateStepStatus ctx (st_id s) st err)
     (\<lambda>r w. r = Inr () \<and> saga_at L txID t row (at_step (st_id s) (put_status st err t) steps) a l w)"
  unfolding UpdateStepStatus_def
  by (rule does_store_call [OF assms(1)])
     (use assms(2) in \<open>auto simp: need_row_def saga_at_def steps_of_status count_step_view quiet_def\<close>)

lemma does_UpdateStepResponse:
  assumes "live ctx t" and "s \<in> set steps" and "stored_as L m doc"
  shows "does (saga_at L txID t row steps a l) (UpdateStepResponse L ctx (st_id s) m)
     (\<lambda>r w. r = Inr () \<and> saga_at L txID t row (at_step (st_id s) (put_response m) steps) a l w)"
proof -
  have "marshal_map L m = Inr doc" using assms(3) by (simp add: stored_as_def)
  then show ?thesis
    unfolding UpdateStepResponse_def
    by simp (rule does_store_call [OF assms(1)],
      use assms(2,3) in \<open>auto simp: need_row_def saga_at_def steps_of_response count_step_view quiet_def\<close>)
qed

text \<open>Updates of the transaction's row.\<close>

lemma update_tx_distinct:
  "(\<And>r. P r \<Longrightarrow> tx_id (f r) = tx_id r) \<Longrightarrow>
   map tx_id (saga_transactions (update_tx P f d)) = map tx_id (saga_transactions d)"
  by (simp add: update_tx_def map_update_where)

lemma saga_at_update_tx:
  assumes "saga_at L txID t row steps a l w" and "\<And>r. P r \<Longrightarrow> tx_id (f r) = tx_id r"
  shows "saga_at L txID t (if P row then f row else row) steps a l (w\<lparr>wdb := update_tx P f (wdb w)\<rparr>)"
  using assms by (auto simp: saga_at_def quiet_def find_tx_update_tx update_tx_distinct)

lemma saga_at_row: "saga_at L txID t row steps a l w \<Longrightarrow> tx_id row = txID"
  by (auto simp: saga_at_def dest: find_txD)

lemma saga_at_count:
  "saga_at L txID t row steps a l w \<Longrightarrow>
   0 < count_tx (\<lambda>r. tx_id r = txID \<and> Q r) (wdb w) \<longleftrightarrow> Q row"
  by (auto simp: saga_at_def count_tx_pos)

lemma does_UpdateTransactionStep:
  assumes "live ctx t"
  shows "does (saga_at L txID t row steps a l) (UpdateTransactionStep ctx txID n)
     (\<lambda>r w. r = Inr () \<and> saga_at L txID t (row\<lparr>current_step := n, updated_at := t\<rparr>) steps a l w)"
  unfolding UpdateTransactionStep_def
proof (rule does_store_call [OF assms])
  fix w assume w: "saga_at L txID t row steps a l w"
  have "count_tx (\<lambda>r. tx_id r = txID) (wdb w) \<noteq> 0" using saga_at_count [OF w, of "\<lambda>_. True"] by simp
  then show "case need_row ''transaction not found'' txID
      (run_update no_faults ''failed to update transaction step''
        (update_tx (\<lambda>r. tx_id r = txID) (\<lambda>r. r\<lparr>current_step := n, updated_at := t\<rparr>))
        (count_tx (\<lambda>r. tx_id r = txID)) (wdb w)) of
      (r, d) \<Rightarrow> r = Inr () \<and> saga_at L txID t (row\<lparr>current_step := n, updated_at := t\<rparr>) steps a l (w\<lparr>wdb := d\<rparr>)"
    using saga_at_update_tx [OF w, of "\<lambda>r. tx_id r = txID" "\<lambda>r. r\<lparr>current_step := n, updated_at := t\<rparr>"]
      saga_at_row [OF w] by (simp add: need_row_def)
qed

lemma does_status_CAS:
  assumes "live ctx t" and "tx_status row = s"
  shows "does (saga_at L txID t row steps a l) (UpdateTransactionStatusCAS ctx txID s s' err)
     (\<lambda>r w. r = Inr True \<and> saga_at L txID t (set_tx_status s' err t t row) steps a l w)"
  unfolding UpdateTransactionStatusCAS_def
proof (rule does_store_call [OF assms(1)])
  fix w assume w: "saga_at L txID t row steps a l w"
  show "case got_row (run_update no_faults ''failed to CAS update transaction status''
        (update_tx (\<lambda>r. tx_id r = txID \<and> tx_status r = s) (set_tx_status s' err t t))
        (count_tx (\<lambda>r. tx_id r = txID \<and> tx_status r = s)) (wdb w)) of
      (r, d) \<Rightarrow> r = Inr True \<and> saga_at L txID t (set_tx_status s' err t t row) steps a l (w\<lparr>wdb := d\<rparr>)"
    using saga_at_update_tx [OF w, of "\<lambda>r. tx_id r = txID \<and> tx_status r = s" "set_tx_status s' err t t"]
      saga_at_row [OF w] saga_at_count [OF w, of "\<lambda>r. tx_status r = s"] assms(2)
    by (simp add: got_row_def set_tx_status_def)
qed

lemma does_UpdateTransactionStatus:
  assumes "live ctx t"
  shows "does (saga_at L txID t row steps a l) (UpdateTransactionStatus ctx txID s err)
     (\<lambda>r w. r = Inr () \<and> saga_at L txID t (set_tx_status s err t t row) steps a l w)"
  unfolding UpdateTransactionStatus_def
proof (rule does_store_call [OF assms(1)])
  fix w assume w: "saga_at L txID t row steps a l w"
  have "count_tx (\<lambda>r. tx_id r = txID) (wdb w) \<noteq> 0" using saga_at_count [OF w, of "\<lambda>_. True"] by simp
  then show "case need_row ''transaction not found'' txID
      (run_update no_faults ''failed to update transaction status''
        (update_tx (\<lambda>r. tx_id r = txID) (set_tx_status s err t t))
        (count_tx (\<lambda>r. tx_id r = txID)) (wdb w)) of
      (r, d) \<Rightarrow> r = Inr () \<and> saga_at L txID t (set_tx_status s err t t row) steps a l (w\<lparr>wdb := d\<rparr>)"
    using saga_at_update_tx [OF w, of "\<lambda>r. tx_id r = txID" "set_tx_status s err t t"]
      saga_at_row [OF w] by (simp add: need_row_def set_tx_status_def)
qed

definition can_claim :: "string \<Rightarrow> int \<Rightarrow> tx_row \<Rightarrow> bool" where
  "can_claim inst t row \<longleftrightarrow> active_status (tx_status row) \<and> (lock_free t row \<or> locked_by row = Some inst)"

lemma does_ClaimTransaction:
  assumes "live ctx t" and "can_claim inst t row"
  shows "does (saga_at L txID t row steps a l) (ClaimTransaction ctx txID inst lease)
     (\<lambda>r w. r = Inr True \<and> saga_at L txID t (set_lease inst (t + lease) t row) steps a l w)"
  unfolding ClaimTransaction_def
proof (rule does_store_call [OF assms(1)])
  fix w assume w: "saga_at L txID t row steps a l w"
  have c: "claimable txID inst t = (\<lambda>r. tx_id r = txID \<and> can_claim inst t r)"
    by (auto simp: claimable_def can_claim_def)
  show "case got_row (run_update no_faults ''failed to claim transaction''
        (update_tx (claimable txID inst t) (set_lease inst (t + lease) t))
        (count_tx (claimable txID inst t)) (wdb w)) of
      (r, d) \<Rightarrow> r = Inr True \<and> saga_at L txID t (set_lease inst (t + lease) t row) steps a l (w\<lparr>wdb := d\<rparr>)"
    using saga_at_update_tx [OF w, of "claimable txID inst t" "set_lease inst (t + lease) t"]
      saga_at_row [OF w] saga_at_count [OF w, of "can_claim inst t"] assms(2)
    by (simp add: got_row_def set_lease_def c)
qed

lemma does_ReleaseTransaction:
  assumes "live ctx t" and "locked_by row = Some inst"
  shows "does (saga_at L txID t row steps a l) (ReleaseTransaction ctx txID inst)
     (\<lambda>r. saga_at L txID t (row\<lparr>locked_by := None, locked_until := None, updated_at := t\<rparr>) steps a l)"
  unfolding ReleaseTransaction_def
proof (rule does_store_call [OF assms(1)])
  fix w assume w: "saga_at L txID t row steps a l w"
  show "case run_exec no_faults ''failed to release transaction''
        (update_tx (\<lambda>r. tx_id r = txID \<and> locked_by r = Some inst)
          (\<lambda>r. r\<lparr>locked_by := None, locked_until := None, updated_at := t\<rparr>)) (wdb w) of
      (r, d) \<Rightarrow> saga_at L txID t (row\<lparr>locked_by := None, locked_until := None, updated_at := t\<rparr>) steps a l (w\<lparr>wdb := d\<rparr>)"
    using saga_at_update_tx [OF w, of "\<lambda>r. tx_id r = txID \<and> locked_by r = Some inst"
        "\<lambda>r. r\<lparr>locked_by := None, locked_until := None, updated_at := t\<rparr>"]
      saga_at_row [OF w] assms(2) by simp
qed

lemma does_GetTransaction:
  assumes "live ctx t" and "scan_tx L row = Inr tx"
  shows "does (saga_at L txID t row steps a l) (GetTransaction L ctx txID)
     (\<lambda>r w. r = Inr (Some tx) \<and> saga_at L txID t row steps a l w)"
  unfolding GetTransaction_def
  by (rule does_store_call [OF assms(1)]) (auto simp: saga_at_def quiet_def assms(2))

lemma does_GetSteps:
  assumes "live ctx t"
  shows "does (saga_at L txID t row steps a l) (GetSteps L ctx txID)
     (\<lambda>r w. r = Inr steps \<and> saga_at L txID t row steps a l w)"
  unfolding GetSteps_def
  by (rule does_store_call [OF assms(1)])
     (auto simp: saga_at_def quiet_def steps_of_def rows_of_def)

section \<open>Contexts\<close>

definition timely :: "int option \<Rightarrow> int \<Rightarrow> bool" where
  "timely deadline t \<longleftrightarrow> (case deadline of None \<Rightarrow> True | Some d \<Rightarrow> t < d)"

lemma live_durable [simp]: "live (durableStoreContext ctx t) t"
  by (simp add: live_def durableStoreContext_def sagaStoreWriteTimeout_def second_def)

lemma live_execution: "live ctx t \<Longrightarrow> timely (timeout_at tx) t \<Longrightarrow> live (withTransactionExecutionContext ctx tx) t"
  by (auto simp: live_def timely_def withTransactionExecutionContext_def split: option.splits)

lemma not_late:
  "saga_at L txID t row steps a l w \<Longrightarrow> timely (timeout_at tx) t \<Longrightarrow> \<not> transactionTimedOut tx w"
  by (auto simp: saga_at_def transactionTimedOut_def timely_def split: option.splits)

lemma not_execution_late:
  "saga_at L txID t row steps a l w \<Longrightarrow> live ctx t \<Longrightarrow> \<not> transactionExecutionTimedOut ctx w"
  by (auto simp: saga_at_def transactionExecutionTimedOut_def deadline_passed_def live_def split: option.splits)

lemma does_reads: "(\<And>w. P w \<Longrightarrow> f w = x) \<Longrightarrow> does P (reads f) (\<lambda>r w. r = x \<and> P w)"
  by (auto simp: ensures_def)

lemma does_durably:
  "does (saga_at L txID t row steps a l) (m (durableStoreContext ctx t)) Q \<Longrightarrow>
   does (saga_at L txID t row steps a l) (durably ctx m) Q"
  unfolding durably_def time_now_def
  by (rule does_bind [OF does_reads [where x = t]], simp add: saga_at_def, rule ensures_pure, simp)

lemma does_False [simp]: "does (\<lambda>w. False) m Q"
  by (simp add: ensures_def)

text \<open>Programs that only draw random bytes.\<close>

lemma does_entropy:
  assumes "\<And>w. \<exists>e. snd (run_state m w) = w\<lparr>entropy := e\<rparr>" and "\<And>w. Q (fst (run_state m w))"
  shows "does (saga_at L txID t row steps a l) m (\<lambda>r w. Q r \<and> saga_at L txID t row steps a l w)"
proof (rule ensuresI)
  fix w r w' assume w: "saga_at L txID t row steps a l w" and run: "run_state m w = (r, w')"
  obtain e where "w' = w\<lparr>entropy := e\<rparr>" using assms(1) [of w] run by auto
  with w assms(2) [of w] run show "True \<and> Q r \<and> saga_at L txID t row steps a l w'"
    by (simp add: saga_at_def quiet_def)
qed

lemma extract_entropy: "\<exists>e. snd (run_state (extractTraceFromPayload p) w) = w\<lparr>entropy := e\<rparr>"
  by (auto simp: extractTraceFromPayload_def use_entropy_def case_prod_beta intro: exI [of _ "entropy w"]
      split: option.splits)

lemma same_entropy [simp]: "\<exists>e. w = w\<lparr>entropy := e\<rparr>"
  by (rule exI [of _ "entropy w"]) simp

section \<open>Requests\<close>

text \<open>What a peer sees of a request, besides trace and signature headers.\<close>

definition carries :: "request \<Rightarrow> request \<Rightarrow> bool" where
  "carries q req \<longleftrightarrow> rq_method q = rq_method req \<and> rq_url q = rq_url req \<and> rq_body q = rq_body req \<and>
     request_key q = request_key req \<and>
     get_header q ''X-Saga-Transaction-Id'' = get_header req ''X-Saga-Transaction-Id''"

lemma tx_header_keys [simp]:
  "canonical_key HeaderTraceID \<noteq> canonical_key ''X-Saga-Transaction-Id''"
  "canonical_key HeaderSpanId \<noteq> canonical_key ''X-Saga-Transaction-Id''"
  "canonical_key HeaderSampled \<noteq> canonical_key ''X-Saga-Transaction-Id''"
  by code_simp+

lemma carries_inject: "carries (fst (run_state (inject_trace ctx tx req) w)) req"
  by (auto simp: carries_def inject_trace_def request_key_def get_header_def Inject_def hdr_get_set Let_def
      case_prod_beta split: option.splits)

lemma does_inject:
  "does (saga_at L txID t row steps a l) (inject_trace ctx tx req)
     (\<lambda>q w. carries q req \<and> saga_at L txID t row steps a l w)"
proof (rule does_entropy)
  show "\<exists>e. snd (run_state (inject_trace ctx tx req) w) = w\<lparr>entropy := e\<rparr>" for w
    using extract_entropy by (auto simp: inject_trace_def case_prod_beta split: option.splits)
qed (rule carries_inject)

lemma sign_unsigned: "auth_ak s = '''' \<Longrightarrow> signRequestIfNeeded E s req = State_Monad.return (Inr req)"
  by (simp add: signRequestIfNeeded_def split: option.splits)

lemma does_http:
  assumes "live ctx t"
  shows "does (saga_at L txID t row steps (a # as) l) (http_do ctx q)
     (\<lambda>r w. r = a \<and> saga_at L txID t row steps as (l @ [q]) w)"
proof (rule ensuresI)
  fix w r w'
  assume w: "saga_at L txID t row steps (a # as) l w" and run: "run_state (http_do ctx q) w = (r, w')"
  have "run_state (http_do ctx q) w = (a, w\<lparr>sent := sent w @ [q], net := as\<rparr>)"
    using w assms by (intro http_quiet) (auto simp: saga_at_def)
  with w run show "True \<and> r = a \<and> saga_at L txID t row steps as (l @ [q]) w'"
    by (auto simp: saga_at_def quiet_def)
qed

text \<open>Preparing and sending an unsigned request that gets an answer.\<close>

lemma does_exchange:
  assumes "live ctx t" and "auth_ak s = ''''"
    and "\<And>q. carries q req \<Longrightarrow> does (saga_at L txID t row steps as (l @ [q])) (good a) Q"
  shows "does (saga_at L txID t row steps (a # as) l)
     (do {
        req \<leftarrow> inject_trace ctx tx req;
        sg \<leftarrow> signRequestIfNeeded E s req;
        case sg of Inl e \<Rightarrow> bad e | Inr signed \<Rightarrow> do { r \<leftarrow> http_do ctx signed; good r } }) Q"
proof (rule does_bind [OF does_inject], rule ensures_pure)
  fix q assume q: "carries q req"
  have "does (saga_at L txID t row steps (a # as) l) (do { r \<leftarrow> http_do ctx q; good r }) Q"
    by (rule does_bind [OF does_http [OF assms(1)]], rule ensures_pure) (use assms(3) [OF q] in auto)
  then show "does (saga_at L txID t row steps (a # as) l)
     (do { sg \<leftarrow> signRequestIfNeeded E s q;
           case sg of Inl e \<Rightarrow> bad e | Inr signed \<Rightarrow> do { r \<leftarrow> http_do ctx signed; good r } }) Q"
    by (simp add: sign_unsigned [OF assms(2)] State_Monad.bind_left_identity)
qed

section \<open>Step updates\<close>

lemma at_step_ids [simp]:
  "(\<And>s. st_id (f s) = st_id s) \<Longrightarrow> map st_id (at_step i f steps) = map st_id steps"
  by (simp add: at_step_def)

lemma at_step_twice [simp]:
  "(\<And>s. st_id (g s) = st_id s) \<Longrightarrow> at_step i f (at_step i g steps) = at_step i (\<lambda>s. f (g s)) steps"
  by (simp add: at_step_def)

lemma at_step_in:
  "(\<And>s. st_id (f s) = st_id s) \<Longrightarrow> s \<in> set steps \<Longrightarrow> \<exists>s' \<in> set (at_step i f steps). st_id s' = st_id s"
  by (auto simp: at_step_def)

lemma put_ids [simp]: "st_id (put_status st err t s) = st_id s" "st_id (put_response m s) = st_id s"
  by (simp_all add: put_status_def put_response_def)

lemma does_step_status:
  assumes "live ctx t" and "i \<in> st_id ` set steps"
  shows "does (saga_at L txID t row steps a l) (UpdateStepStatus ctx i st err)
     (\<lambda>r w. r = Inr () \<and> saga_at L txID t row (at_step i (put_status st err t) steps) a l w)"
  using assms does_UpdateStepStatus by auto

lemma does_step_response:
  assumes "live ctx t" and "i \<in> st_id ` set steps" and "stored_as L m doc"
  shows "does (saga_at L txID t row steps a l) (UpdateStepResponse L ctx i m)
     (\<lambda>r w. r = Inr () \<and> saga_at L txID t row (at_step i (put_response m) steps) a l w)"
  using assms does_UpdateStepResponse by auto

lemma does_durable_status:
  "i \<in> st_id ` set steps \<Longrightarrow>
   does (saga_at L txID t row steps a l) (updateStepStatus ctx i st err)
     (\<lambda>r w. r = Inr () \<and> saga_at L txID t row (at_step i (put_status st err t) steps) a l w)"
  unfolding updateStepStatus_def by (rule does_durably) (rule does_step_status [OF live_durable])

lemma does_durable_response:
  "i \<in> st_id ` set steps \<Longrightarrow> stored_as L m doc \<Longrightarrow>
   does (saga_at L txID t row steps a l) (updateStepResponse L ctx i m)
     (\<lambda>r w. r = Inr () \<and> saga_at L txID t row (at_step i (put_response m) steps) a l w)"
  unfolding updateStepResponse_def by (rule does_durably) (rule does_step_response [OF live_durable])

lemma in_ids_at_step [simp]:
  "(\<And>s. st_id (f s) = st_id s) \<Longrightarrow> st_id ` set (at_step i f steps) = st_id ` set steps"
  by (metis at_step_ids list.set_map)

lemma does_ex: "(\<And>x. does (P x) m Q) \<Longrightarrow> does (\<lambda>w. \<exists>x. P x w) m Q"
  by (fastforce simp: ensures_def)

lemma does_weaken: "does P m Q' \<Longrightarrow> (\<And>r w. Q' r w \<Longrightarrow> Q r w) \<Longrightarrow> does P m Q"
  by (rule ensures_weaken)

definition advanced :: "int \<Rightarrow> int \<Rightarrow> tx_row \<Rightarrow> tx_row" where
  "advanced t n row = row\<lparr>current_step := n, updated_at := t\<rparr>"

lemma at_step_Nil [simp]: "at_step i f [] = []"
  by (simp add: at_step_def)

lemma at_step_append [simp]: "at_step i f (xs @ ys) = at_step i f xs @ at_step i f ys"
  by (simp add: at_step_def)

lemma at_step_Cons [simp]: "at_step i f (x # xs) = (if st_id x = i then f x else x) # at_step i f xs"
  by (simp add: at_step_def)

lemma at_step_other: "i \<notin> st_id ` set xs \<Longrightarrow> at_step i f xs = xs"
  by (induction xs) auto

subsection \<open>The row of a driven transaction\<close>

definition driven :: "stdlib \<Rightarrow> string \<Rightarrow> tx_status \<Rightarrow> gomap \<Rightarrow> int option \<Rightarrow> tx_row \<Rightarrow> bool" where
  "driven L inst st p deadline row \<longleftrightarrow>
     load_json L ''failed to unmarshal payload'' (tx_payload row) = Inr p \<and> timeout_at row = deadline \<and>
     tx_status row = st \<and> locked_by row = Some inst"

lemma driven_scan:
  "driven L inst st p deadline row \<Longrightarrow> \<exists>tx. scan_tx L row = Inr tx \<and> tx_id tx = tx_id row \<and> tx_status tx = st \<and>
     tx_payload tx = p \<and> timeout_at tx = deadline"
  by (auto simp: driven_def scan_tx_def)

lemma driven_can_claim: "driven L inst st p deadline row \<Longrightarrow> active_status st \<Longrightarrow> can_claim inst t row"
  by (simp add: driven_def can_claim_def)

lemma driven_updates [simp]:
  "driven L inst st p deadline row \<Longrightarrow> driven L inst st p deadline (set_lease inst u t row)"
  "driven L inst st p deadline row \<Longrightarrow> driven L inst st p deadline (advanced t n row)"
  "driven L inst st p deadline row \<Longrightarrow> driven L inst st' p deadline (set_tx_status st' e t t' row)"
  by (simp_all add: driven_def set_lease_def advanced_def set_tx_status_def)

lemma does_rehydrate:
  "does (saga_at L txID t row steps a l) (rehydrateSagaTraceContext ctx tx)
     (\<lambda>c w. cx_deadline c = cx_deadline ctx \<and> saga_at L txID t row steps a l w)"
proof (rule does_entropy)
  show "\<exists>e. snd (run_state (rehydrateSagaTraceContext ctx tx) w) = w\<lparr>entropy := e\<rparr>" for w
    using extract_entropy [of "tx_payload tx" w]
    by (auto simp: rehydrateSagaTraceContext_def case_prod_beta split: option.splits)
qed (auto simp: rehydrateSagaTraceContext_def withSagaTraceContext_def case_prod_beta split: option.splits)

lemma does_halted:
  "live ctx t \<Longrightarrow> does (saga_at L txID t row steps a l) (halted ctx) (\<lambda>r w. \<not> r \<and> saga_at L txID t row steps a l w)"
  unfolding halted_def
  by (rule does_weaken [OF does_reads [where x = False]]) (auto simp: saga_at_def quiet_def ctx_Err_quiet)

text \<open>What a round does once the transaction is loaded and the lease renewed.\<close>

lemma does_round:
  assumes live: "live ctx t" and d: "driven (lib E) (InstanceID cfg) st p deadline row" and st: "active_status st"
    and id: "tx_id row = txID"
    and act: "\<And>c tx row'. cx_deadline c = cx_deadline ctx \<Longrightarrow> tx_id tx = txID \<Longrightarrow> tx_status tx = st \<Longrightarrow>
      tx_payload tx = p \<Longrightarrow> timeout_at tx = deadline \<Longrightarrow>
      driven (lib E) (InstanceID cfg) st p deadline row' \<Longrightarrow> tx_id row' = txID \<Longrightarrow>
      does (saga_at (lib E) txID t row' steps a l)
        (case tx_status tx of
           TxStatusPending \<Rightarrow> do {
             ok \<leftarrow> UpdateTransactionStatusCAS c txID TxStatusPending TxStatusRunning '''';
             State_Monad.return (ok = Inr True) }
         | TxStatusRunning \<Rightarrow> executeNextStep E cfg c tx steps
         | TxStatusCompensating \<Rightarrow> do {
             _ \<leftarrow> executeCompensation E c tx steps; State_Monad.return False }
         | TxStatusSucceeded \<Rightarrow> State_Monad.return False
         | TxStatusFailed \<Rightarrow> State_Monad.return False) Q"
  shows "does (saga_at (lib E) txID t row steps a l) (drive_round E cfg ctx txID) Q"
proof -
  obtain tx where tx: "scan_tx (lib E) row = Inr tx" "tx_id tx = txID" "tx_status tx = st"
    "tx_payload tx = p" "timeout_at tx = deadline"
    using driven_scan [OF d] id by auto
  let ?row = "set_lease (InstanceID cfg) (t + LeaseDuration cfg) t row"
  have row: "driven (lib E) (InstanceID cfg) st p deadline ?row" "tx_id ?row = txID"
    using d id by (simp_all add: set_lease_def driven_def)
  have c: "live c t" if "cx_deadline c = cx_deadline ctx" for c using live that by (simp add: live_def)
  show ?thesis
    unfolding drive_round_def drive_loaded_def
    apply (rule does_bind [OF does_halted [OF live]], rule ensures_pure, simp)
    apply (rule does_bind [OF does_GetTransaction [OF live tx(1)]], rule ensures_pure, simp)
    apply (rule does_bind [OF does_rehydrate], rule ensures_pure)
    apply (rule does_bind [OF does_GetSteps [OF c]], assumption, rule ensures_pure, simp)
    apply (rule does_bind [OF does_ClaimTransaction [OF c driven_can_claim [OF d st]]], assumption,
        rule ensures_pure, simp)
    using act [OF _ tx(2-5) row] by simp
qed

lemma does_leave: "does (saga_at L txID t row steps a l) (leave_active j) (\<lambda>_. saga_at L txID t row steps a l)"
  by (auto simp: ensures_def leave_active_def saga_at_def quiet_def)

text \<open>Claim, drive, release, whatever the loop achieves.\<close>

lemma does_drive:
  assumes live: "live ctx t" and claim: "can_claim (InstanceID cfg) t row"
    and loop: "does (saga_at L txID t (set_lease (InstanceID cfg) (t + LeaseDuration cfg) t row) steps a l)
       (drive_loop E cfg ctx txID n)
       (\<lambda>r w. r \<and> (\<exists>row' qs. F row' qs \<and> locked_by row' = Some (InstanceID cfg) \<and>
          saga_at L txID t row' steps' a' (l @ qs) w))"
  shows "does (saga_at L txID t row steps a l) (driveTransaction E cfg ctx txID n)
     (\<lambda>r w. r \<and> (\<exists>row' qs. F row' qs \<and>
        saga_at L txID t (row'\<lparr>locked_by := None, locked_until := None, updated_at := t\<rparr>) steps' a' (l @ qs) w))"
proof -
  have rel: "does (saga_at L txID t row' steps' a' (l @ qs)) (ReleaseTransaction ctx txID (InstanceID cfg))
     (\<lambda>_ w. \<exists>row' qs. F row' qs \<and>
        saga_at L txID t (row'\<lparr>locked_by := None, locked_until := None, updated_at := t\<rparr>) steps' a' (l @ qs) w)"
    if "F row' qs" "locked_by row' = Some (InstanceID cfg)" for row' qs
    by (rule does_weaken [OF does_ReleaseTransaction [OF live that(2)]]) (use that(1) in blast)
  let ?claimed_drive = "do { claimed \<leftarrow> ClaimTransaction ctx txID (InstanceID cfg) (LeaseDuration cfg);
           if claimed \<noteq> Inr True then State_Monad.return True
           else do { ended \<leftarrow> drive_loop E cfg ctx txID n;
                     _ \<leftarrow> ReleaseTransaction ctx txID (InstanceID cfg);
                     State_Monad.return ended } }"
  have main: "does (saga_at L txID t row steps a l) ?claimed_drive
     (\<lambda>r w. r \<and> (\<exists>row' qs. F row' qs \<and>
        saga_at L txID t (row'\<lparr>locked_by := None, locked_until := None, updated_at := t\<rparr>) steps' a' (l @ qs) w))"
    apply (rule does_bind [OF does_ClaimTransaction [OF live claim]], rule ensures_pure, simp)
    apply (rule does_bind [OF loop], rule ensures_pure, rule does_ex, rule does_ex, rule ensures_pure, rule ensures_pure)
    by (rule does_bind [OF rel], assumption, assumption, rule does_return) simp
  have split: "driveTransaction E cfg ctx txID n
      = do { r \<leftarrow> ?claimed_drive; _ \<leftarrow> leave_active txID; State_Monad.return r }"
    by (simp add: driveTransaction_def)
  show ?thesis
    unfolding split
    apply (rule does_bind [OF main], rule ensures_pure, rule does_ex, rule does_ex, rule ensures_pure)
    by (rule does_bind [OF does_leave], rule does_return) blast
qed

end
