(* ===== verification/Saga_Forward.thy ===== *)
theory Saga_Forward
  imports Saga_Quiet
begin

text \<open>
  The undisturbed run of a saga of synchronous steps, from the first action to success.
\<close>

section \<open>A forward action that succeeds\<close>

definition action_request :: "stdlib \<Rightarrow> transaction \<Rightarrow> step list \<Rightarrow> step \<Rightarrow> request option" where
  "action_request L tx steps s =
     (let data = BuildTemplateData (Some tx) steps (Some s) in
      case RenderURL L (action_url s) data of
        Inl e \<Rightarrow> None
      | Inr url \<Rightarrow>
     (case RenderPayloadJSON L (action_payload s) data of
        Inl e \<Rightarrow> None
      | Inr body \<Rightarrow>
     (case NewRequest L (action_method s) url (Some (case body of Some b \<Rightarrow> b | None \<Rightarrow> '''')) of
        Inl e \<Rightarrow> None
      | Inr req \<Rightarrow> Some (saga_headers tx (st_id s) req))))"

definition accepted :: "stdlib \<Rightarrow> gerr + http_response \<Rightarrow> gomap \<Rightarrow> bool" where
  "accepted L a m \<longleftrightarrow> (\<exists>resp doc. a = Inr resp \<and> parseHTTPResponseEnvelope L resp = Inr m \<and> stored_as L m doc)"

lemma does_action:
  assumes live: "live ctx t" and i: "st_id s \<in> st_id ` set steps"
    and req: "action_request (lib E) tx steps s = Some req" and ak: "auth_ak s = ''''"
    and a: "accepted (lib E) a m"
  shows "does (saga_at (lib E) txID t row steps (a # as) l) (perform_action E ctx tx s steps)
     (\<lambda>r w. r = Inr m \<and> (\<exists>q. carries q req \<and> saga_at (lib E) txID t row
        (at_step (st_id s) (\<lambda>s. put_response m (put_status StepStatusRunning '''' t s)) steps) as (l @ [q]) w))"
proof -
  obtain url body base where r1: "RenderURL (lib E) (action_url s) (BuildTemplateData (Some tx) steps (Some s)) = Inr url"
    and r2: "RenderPayloadJSON (lib E) (action_payload s) (BuildTemplateData (Some tx) steps (Some s)) = Inr body"
    and r3: "NewRequest (lib E) (action_method s) url (Some (case body of Some b \<Rightarrow> b | None \<Rightarrow> '''')) = Inr base"
    and base: "req = saga_headers tx (st_id s) base"
    using req by (auto simp: action_request_def Let_def split: sum.splits)
  obtain resp doc where resp: "a = Inr resp" "parseHTTPResponseEnvelope (lib E) resp = Inr m"
    and st: "stored_as (lib E) m doc" using a by (auto simp: accepted_def)
  show ?thesis
    unfolding perform_action_def Let_def r1 r2 r3 sum.case
    apply (rule does_bind [OF does_step_status [OF live i]], rule ensures_pure, simp only: sum.case)
    apply (rule does_exchange [OF live ak])
    apply (simp add: resp)
    apply (rule does_bind [OF does_durable_response [OF _ st]])
    subgoal using i by simp
    by (rule ensures_pure, rule does_return) (auto simp: base)
qed

definition completed :: "int \<Rightarrow> gomap \<Rightarrow> step \<Rightarrow> step" where
  "completed t m s = put_status StepStatusSucceeded '''' t
     (put_response m (put_status StepStatusRunning '''' t s))"

lemma completed_simps [simp]:
  "st_id (completed t m s) = st_id s" "st_status (completed t m s) = StepStatusSucceeded"
  "action_response (completed t m s) = m"
  by (simp_all add: completed_def put_status_def put_response_def)

lemma does_ExecuteStep:
  assumes "live ctx t" and i: "st_id s \<in> st_id ` set steps"
    and "action_request (lib E) tx steps s = Some req" and "auth_ak s = ''''" and "accepted (lib E) a m"
  shows "does (saga_at (lib E) txID t row steps (a # as) l) (ExecuteStep E ctx tx s steps)
     (\<lambda>r w. fst r = None \<and> (\<exists>q. carries q req \<and>
        saga_at (lib E) txID t row (at_step (st_id s) (completed t m) steps) as (l @ [q]) w))"
proof -
  let ?run = "\<lambda>s. put_response m (put_status StepStatusRunning '''' t s)"
  have u: "does (saga_at (lib E) txID t row (at_step (st_id s) ?run steps) as (l @ [q]))
     (updateStepStatus ctx (st_id s) StepStatusSucceeded '''')
     (\<lambda>r w. r = Inr () \<and> saga_at (lib E) txID t row (at_step (st_id s) (completed t m) steps) as (l @ [q]) w)" for q
    using does_durable_status [of "st_id s" "at_step (st_id s) ?run steps"] i by (simp add: completed_def [abs_def])
  show ?thesis
    unfolding ExecuteStep_def
    apply (rule does_bind [OF does_action [OF assms]], rule ensures_pure, simp, rule does_ex, rule ensures_pure)
    by (rule does_bind [OF u], rule ensures_pure, rule does_return) auto
qed

section \<open>Driving a saga of synchronous steps\<close>

lemma does_executeSyncStep:
  assumes live: "live ctx t" and timely: "timely (timeout_at tx) t" and id: "tx_id tx = txID"
    and step: "st_id s \<in> st_id ` set steps" "action_request (lib E) tx steps s = Some req"
      "auth_ak s = ''''" "accepted (lib E) a m"
  shows "does (saga_at (lib E) txID t row steps (a # as) l) (executeSyncStep E ctx tx s steps)
     (\<lambda>r w. r \<and> (\<exists>q. carries q req \<and> saga_at (lib E) txID t (advanced t (st_index s + 1) row)
        (at_step (st_id s) (completed t m) steps) as (l @ [q]) w))"
proof -
  let ?x = "withTransactionExecutionContext ctx tx"
  let ?done = "at_step (st_id s) (completed t m) steps"
  have x: "live ?x t" using live timely by (rule live_execution)
  have rest: "does (saga_at (lib E) txID t row ?done as (l @ [q]))
     (do { late \<leftarrow> reads (\<lambda>w. transactionTimedOut tx w \<or> transactionExecutionTimedOut ?x w);
           if late then compensate_and_go ctx tx timeout_reason
           else do { _ \<leftarrow> durably ctx (\<lambda>c. UpdateTransactionStep c (tx_id tx) (st_index s + 1));
                     State_Monad.return True } })
     (\<lambda>r w. r \<and> saga_at (lib E) txID t (advanced t (st_index s + 1) row) ?done as (l @ [q]) w)" for q
    unfolding advanced_def id
    by (rule does_bind [OF does_reads [where x = False]],
        simp add: not_late [OF _ timely] not_execution_late [OF _ x], rule ensures_pure, simp,
        rule does_bind [OF does_durably], rule does_UpdateTransactionStep, simp, rule ensures_pure, rule does_return)
       auto
  show ?thesis
    unfolding executeSyncStep_def Let_def
    by (rule does_bind [OF does_reads [where x = False]], simp add: not_late [OF _ timely], rule ensures_pure, simp,
        rule does_bind [OF does_ExecuteStep [OF x step]], rule ensures_pure, simp, rule does_ex, rule ensures_pure,
        rule does_weaken [OF rest]) auto
qed

text \<open>The saga after its first \<open>k\<close> steps have succeeded with the responses \<open>ms\<close>.\<close>

definition progress :: "int \<Rightarrow> gomap list \<Rightarrow> step list \<Rightarrow> nat \<Rightarrow> step list" where
  "progress t ms steps k = map2 (completed t) (take k ms) (take k steps) @ drop k steps"

lemma progress_0 [simp]: "progress t ms steps 0 = steps"
  by (simp add: progress_def)

lemma progress_all: "length ms = length steps \<Longrightarrow> progress t ms steps (length steps) = map2 (completed t) ms steps"
  by (simp add: progress_def)

lemma progress_next:
  assumes "k < length steps" and "length ms = length steps"
  shows "progress t ms steps k = map2 (completed t) (take k ms) (take k steps) @ steps ! k # drop (Suc k) steps"
    and "progress t ms steps (Suc k)
      = map2 (completed t) (take k ms) (take k steps) @ completed t (ms ! k) (steps ! k) # drop (Suc k) steps"
  using assms by (simp_all add: progress_def Cons_nth_drop_Suc take_Suc_conv_app_nth)

lemma ids_completed: "length ms = length xs \<Longrightarrow> map st_id (map2 (completed t) ms xs) = map st_id xs"
  by (induction ms xs rule: list_induct2) auto

lemma progress_ids: "length ms = length steps \<Longrightarrow> map st_id (progress t ms steps k) = map st_id steps"
proof -
  assume "length ms = length steps"
  then have "map st_id (progress t ms steps k) = map st_id (take k steps) @ map st_id (drop k steps)"
    by (simp only: progress_def map_append) (subst ids_completed, simp_all)
  then show ?thesis by (metis append_take_drop_id map_append)
qed

lemma progress_step:
  assumes "k < length steps" and "length ms = length steps" and "distinct (map st_id steps)"
  shows "at_step (st_id (steps ! k)) (completed t (ms ! k)) (progress t ms steps k) = progress t ms steps (Suc k)"
proof -
  have "steps = take k steps @ steps ! k # drop (Suc k) steps" using assms(1) by (rule id_take_nth_drop)
  then have d: "distinct (map st_id (take k steps @ steps ! k # drop (Suc k) steps))" using assms(3) by simp
  have "map st_id (map2 (completed t) (take k ms) (take k steps)) = map st_id (take k steps)"
    using assms(2) by (intro ids_completed) simp
  then have "st_id ` set (map2 (completed t) (take k ms) (take k steps)) = st_id ` set (take k steps)"
    by (metis list.set_map)
  with d have "st_id (steps ! k) \<notin> st_id ` set (map2 (completed t) (take k ms) (take k steps))" by auto
  with d show ?thesis
    unfolding progress_next [OF assms(1,2)] by (simp add: at_step_other del: set_zip)
qed

lemma scan_succeeded:
  "\<forall>s \<in> set xs. st_status s = StepStatusSucceeded \<Longrightarrow> scan_steps (xs @ ys) cur ok = scan_steps ys cur ok"
  by (induction xs arbitrary: cur ok) auto

lemma scan_pending:
  "\<forall>s \<in> set ys. st_status s = StepStatusPending \<Longrightarrow> scan_steps ys (Some s) False = Inr (Some s, False)"
  by (induction ys) auto

lemma completed_status: "s \<in> set (map2 (completed t) ms xs) \<Longrightarrow> st_status s = StepStatusSucceeded"
  by auto

lemma scan_progress:
  assumes "length ms = length steps" and "\<forall>s \<in> set steps. st_status s = StepStatusPending"
  shows "k < length steps \<Longrightarrow> scan_steps (progress t ms steps k) None True = Inr (Some (steps ! k), False)"
    and "scan_steps (progress t ms steps (length steps)) None True = Inr (None, True)"
proof -
  show "scan_steps (progress t ms steps k) None True = Inr (Some (steps ! k), False)" if k: "k < length steps"
  proof -
    have "\<forall>s \<in> set (drop (Suc k) steps). st_status s = StepStatusPending"
      using assms(2) by (auto dest: in_set_dropD)
    moreover have "\<forall>s \<in> set (map2 (completed t) (take k ms) (take k steps)). st_status s = StepStatusSucceeded"
      using completed_status by blast
    ultimately show ?thesis
      using k assms(2) by (simp add: progress_next [OF k assms(1)] scan_succeeded scan_pending)
  qed
  have "\<forall>s \<in> set (map2 (completed t) ms steps). st_status s = StepStatusSucceeded"
    using completed_status by blast
  from scan_succeeded [OF this, of "[]"]
  show "scan_steps (progress t ms steps (length steps)) None True = Inr (None, True)"
    by (simp add: progress_all assms(1))
qed

lemma action_request_cong:
  "tx_id tx = tx_id tx' \<Longrightarrow> tx_payload tx = tx_payload tx' \<Longrightarrow>
   action_request L tx steps s = action_request L tx' steps s"
proof -
  assume "tx_id tx = tx_id tx'" "tx_payload tx = tx_payload tx'"
  then have "saga_headers tx = saga_headers tx'" "BuildTemplateData (Some tx) = BuildTemplateData (Some tx')"
    by (simp_all add: fun_eq_iff saga_headers_def BuildTemplateData_def split: option.split)
  then show ?thesis by (simp only: action_request_def)
qed

subsection \<open>One round\<close>

text \<open>The saga: its steps, all pending, and the answers its peers are going to give.\<close>

definition forward_ready ::
  "stdlib \<Rightarrow> transaction \<Rightarrow> int \<Rightarrow> step list \<Rightarrow> (gerr + http_response) list \<Rightarrow> gomap list \<Rightarrow> request list \<Rightarrow> bool" where
  "forward_ready L tx t steps answers ms reqs \<longleftrightarrow>
     distinct (map st_id steps) \<and> length answers = length steps \<and> length ms = length steps \<and>
     length reqs = length steps \<and>
     (\<forall>s \<in> set steps. st_status s = StepStatusPending \<and> st_type s \<noteq> StepTypeAsync \<and> auth_ak s = '''') \<and>
     (\<forall>k < length steps. accepted L (answers ! k) (ms ! k) \<and>
        action_request L tx (progress t ms steps k) (steps ! k) = Some (reqs ! k))"

lemma does_forward_round:
  assumes live: "live ctx t" and timely: "timely deadline t"
    and d: "driven (lib E) (InstanceID cfg) TxStatusRunning (tx_payload tx) deadline row"
    and id: "tx_id row = txID" "tx_id tx = txID"
    and ready: "forward_ready (lib E) tx t steps answers ms reqs" and k: "k < length steps"
  shows "does (saga_at (lib E) txID t row (progress t ms steps k) (drop k answers) l) (drive_round E cfg ctx txID)
     (\<lambda>r w. r \<and> (\<exists>q row'. carries q (reqs ! k) \<and> tx_id row' = txID \<and>
        driven (lib E) (InstanceID cfg) TxStatusRunning (tx_payload tx) deadline row' \<and>
        saga_at (lib E) txID t row' (progress t ms steps (Suc k)) (drop (Suc k) answers) (l @ [q]) w))"
proof (rule does_round [OF live d _ id(1)], simp add: active_status_def)
  fix c :: gctx and tx' :: transaction and row' :: tx_row
  assume h: "cx_deadline c = cx_deadline ctx" "tx_id tx' = txID" "tx_status tx' = TxStatusRunning"
    "tx_payload tx' = tx_payload tx" "timeout_at tx' = deadline"
    "driven (lib E) (InstanceID cfg) TxStatusRunning (tx_payload tx) deadline row'" "tx_id row' = txID"
  let ?s = "steps ! k"
  have c: "live c t" using live h(1) by (simp add: live_def)
  have t: "timely (timeout_at tx') t" using timely h(5) by simp
  have r: "length answers = length steps" "length ms = length steps" "distinct (map st_id steps)"
    "st_status ?s = StepStatusPending" "st_type ?s \<noteq> StepTypeAsync" "auth_ak ?s = ''''"
    "accepted (lib E) (answers ! k) (ms ! k)"
    "action_request (lib E) tx (progress t ms steps k) ?s = Some (reqs ! k)"
    "\<forall>s \<in> set steps. st_status s = StepStatusPending"
    using ready k by (auto simp: forward_ready_def)
  have req: "action_request (lib E) tx' (progress t ms steps k) ?s = Some (reqs ! k)"
    using r(8) action_request_cong [of tx' tx] h id by simp
  have i: "st_id ?s \<in> st_id ` set (progress t ms steps k)"
    using progress_ids [OF r(2), of t k] k by (metis image_eqI list.set_map nth_mem)
  have scan: "scan_steps (progress t ms steps k) None True = Inr (Some ?s, False)"
    using scan_progress(1) [OF r(2,9) k] by simp
  have ans: "drop k answers = answers ! k # drop (Suc k) answers"
    using k r(1) by (simp add: Cons_nth_drop_Suc)
  have sync: "executeStep E cfg c tx' ?s ss = executeSyncStep E c tx' ?s ss" for ss
    using r(5) by (simp add: executeStep_def split: step_type.split)
  have "does (saga_at (lib E) txID t row' (progress t ms steps k) (drop k answers) l)
     (executeNextStep E cfg c tx' (progress t ms steps k))
     (\<lambda>r w. r \<and> (\<exists>q. carries q (reqs ! k) \<and> saga_at (lib E) txID t (advanced t (st_index ?s + 1) row')
        (progress t ms steps (Suc k)) (drop (Suc k) answers) (l @ [q]) w))"
    unfolding executeNextStep_def scan
    using does_executeSyncStep [OF c t h(2) i req r(6,7)]
    by (intro does_bind [OF does_reads [where x = False]])
       (auto simp: not_late [OF _ t] r(4) sync ans progress_step [OF k r(2,3)] intro: ensures_pure)
  then show "does (saga_at (lib E) txID t row' (progress t ms steps k) (drop k answers) l)
     (case tx_status tx' of
        TxStatusPending \<Rightarrow> do {
          ok \<leftarrow> UpdateTransactionStatusCAS c txID TxStatusPending TxStatusRunning '''';
          State_Monad.return (ok = Inr True) }
      | TxStatusRunning \<Rightarrow> executeNextStep E cfg c tx' (progress t ms steps k)
      | TxStatusCompensating \<Rightarrow> do {
          _ \<leftarrow> executeCompensation E c tx' (progress t ms steps k); State_Monad.return False }
      | TxStatusSucceeded \<Rightarrow> State_Monad.return False
      | TxStatusFailed \<Rightarrow> State_Monad.return False)
     (\<lambda>r w. r \<and> (\<exists>q row'. carries q (reqs ! k) \<and> tx_id row' = txID \<and>
        driven (lib E) (InstanceID cfg) TxStatusRunning (tx_payload tx) deadline row' \<and>
        saga_at (lib E) txID t row' (progress t ms steps (Suc k)) (drop (Suc k) answers) (l @ [q]) w))"
    unfolding h(3) tx_status.case
  proof (rule does_weaken)
    have row: "driven (lib E) (InstanceID cfg) TxStatusRunning (tx_payload tx) deadline (advanced t n row')"
      "tx_id (advanced t n row') = txID" for n
      using h(6,7) by (simp_all add: advanced_def driven_def)
    fix r w
    assume "r \<and> (\<exists>q. carries q (reqs ! k) \<and> saga_at (lib E) txID t (advanced t (st_index ?s + 1) row')
        (progress t ms steps (Suc k)) (drop (Suc k) answers) (l @ [q]) w)"
    with row show "r \<and> (\<exists>q row'. carries q (reqs ! k) \<and> tx_id row' = txID \<and>
        driven (lib E) (InstanceID cfg) TxStatusRunning (tx_payload tx) deadline row' \<and>
        saga_at (lib E) txID t row' (progress t ms steps (Suc k)) (drop (Suc k) answers) (l @ [q]) w)"
      by blast
  qed
qed

lemma does_last_round:
  assumes live: "live ctx t" and timely: "timely deadline t"
    and d: "driven (lib E) (InstanceID cfg) TxStatusRunning (tx_payload tx) deadline row"
    and id: "tx_id row = txID"
    and ready: "forward_ready (lib E) tx t steps answers ms reqs"
  shows "does (saga_at (lib E) txID t row (progress t ms steps (length steps)) [] l) (drive_round E cfg ctx txID)
     (\<lambda>r w. \<not> r \<and> (\<exists>row'. tx_status row' = TxStatusSucceeded \<and> finished_at row' = Some t \<and>
        locked_by row' = Some (InstanceID cfg) \<and>
        saga_at (lib E) txID t row' (progress t ms steps (length steps)) [] l w))"
proof (rule does_round [OF live d _ id(1)], simp add: active_status_def)
  fix c :: gctx and tx' :: transaction and row' :: tx_row
  assume h: "cx_deadline c = cx_deadline ctx" "tx_id tx' = txID" "tx_status tx' = TxStatusRunning"
    "tx_payload tx' = tx_payload tx" "timeout_at tx' = deadline"
    "driven (lib E) (InstanceID cfg) TxStatusRunning (tx_payload tx) deadline row'" "tx_id row' = txID"
  let ?done = "progress t ms steps (length steps)"
  have c: "live c t" using live h(1) by (simp add: live_def)
  have t: "timely (timeout_at tx') t" using timely h(5) by simp
  have scan: "scan_steps ?done None True = Inr (None, True)"
    using scan_progress(2) ready by (auto simp: forward_ready_def)
  have st: "tx_status row' = TxStatusRunning" using h(6) by (simp add: driven_def)
  have "does (saga_at (lib E) txID t row' ?done [] l) (executeNextStep E cfg c tx' ?done)
     (\<lambda>r w. \<not> r \<and> saga_at (lib E) txID t (set_tx_status TxStatusSucceeded '''' t t row') ?done [] l w)"
    unfolding executeNextStep_def scan h(2) sum.case prod.case
    apply (rule does_bind [OF does_reads [where x = False]], simp add: not_late [OF _ t], rule ensures_pure, simp)
    apply (rule does_bind [OF does_reads [where x = False]], simp add: not_late [OF _ t], rule ensures_pure, simp)
    by (rule does_bind [OF does_status_CAS [OF c st]], rule ensures_pure, rule does_return) simp
  then show "does (saga_at (lib E) txID t row' ?done [] l)
     (case tx_status tx' of
        TxStatusPending \<Rightarrow> do {
          ok \<leftarrow> UpdateTransactionStatusCAS c txID TxStatusPending TxStatusRunning '''';
          State_Monad.return (ok = Inr True) }
      | TxStatusRunning \<Rightarrow> executeNextStep E cfg c tx' ?done
      | TxStatusCompensating \<Rightarrow> do { _ \<leftarrow> executeCompensation E c tx' ?done; State_Monad.return False }
      | TxStatusSucceeded \<Rightarrow> State_Monad.return False
      | TxStatusFailed \<Rightarrow> State_Monad.return False)
     (\<lambda>r w. \<not> r \<and> (\<exists>row'. tx_status row' = TxStatusSucceeded \<and> finished_at row' = Some t \<and>
        locked_by row' = Some (InstanceID cfg) \<and> saga_at (lib E) txID t row' ?done [] l w))"
    unfolding h(3) tx_status.case
    by (rule does_weaken)
       (use h(6) in \<open>auto simp: driven_def set_tx_status_def
          intro: exI [of _ "set_tx_status TxStatusSucceeded [] t t row'"]\<close>)
qed

lemma does_start_round:
  assumes live: "live ctx t"
    and d: "driven (lib E) (InstanceID cfg) TxStatusPending p deadline row" and id: "tx_id row = txID"
  shows "does (saga_at (lib E) txID t row steps a l) (drive_round E cfg ctx txID)
     (\<lambda>r w. r \<and> (\<exists>row'. tx_id row' = txID \<and>
        driven (lib E) (InstanceID cfg) TxStatusRunning p deadline row' \<and> saga_at (lib E) txID t row' steps a l w))"
proof (rule does_round [OF live d _ id(1)], simp add: active_status_def)
  fix c :: gctx and tx' :: transaction and row' :: tx_row
  assume h: "cx_deadline c = cx_deadline ctx" "tx_id tx' = txID" "tx_status tx' = TxStatusPending"
    "driven (lib E) (InstanceID cfg) TxStatusPending p deadline row'" "tx_id row' = txID"
  have c: "live c t" using live h(1) by (simp add: live_def)
  have st: "tx_status row' = TxStatusPending" using h(4) by (simp add: driven_def)
  let ?row = "set_tx_status TxStatusRunning '''' t t row'"
  have row: "tx_id ?row = txID" "driven (lib E) (InstanceID cfg) TxStatusRunning p deadline ?row"
    using h(4,5) by (simp_all add: set_tx_status_def driven_def)
  show "does (saga_at (lib E) txID t row' steps a l)
     (case tx_status tx' of
        TxStatusPending \<Rightarrow> do {
          ok \<leftarrow> UpdateTransactionStatusCAS c txID TxStatusPending TxStatusRunning '''';
          State_Monad.return (ok = Inr True) }
      | TxStatusRunning \<Rightarrow> executeNextStep E cfg c tx' steps
      | TxStatusCompensating \<Rightarrow> do { _ \<leftarrow> executeCompensation E c tx' steps; State_Monad.return False }
      | TxStatusSucceeded \<Rightarrow> State_Monad.return False
      | TxStatusFailed \<Rightarrow> State_Monad.return False)
     (\<lambda>r w. r \<and> (\<exists>row'. tx_id row' = txID \<and>
        driven (lib E) (InstanceID cfg) TxStatusRunning p deadline row' \<and> saga_at (lib E) txID t row' steps a l w))"
    unfolding h(3) tx_status.case
    by (rule does_bind [OF does_status_CAS [OF c st]], rule ensures_pure, rule does_return) (use row in auto)
qed

subsection \<open>The whole drive\<close>

lemma does_forward_loop:
  assumes live: "live ctx t" and timely: "timely deadline t" and id: "tx_id tx = txID"
    and ready: "forward_ready (lib E) tx t steps answers ms reqs"
  shows "k \<le> length steps \<Longrightarrow> length steps - k < n \<Longrightarrow> tx_id row = txID \<Longrightarrow>
    driven (lib E) (InstanceID cfg) TxStatusRunning (tx_payload tx) deadline row \<Longrightarrow>
    does (saga_at (lib E) txID t row (progress t ms steps k) (drop k answers) l) (drive_loop E cfg ctx txID n)
     (\<lambda>r w. r \<and> (\<exists>row' qs. tx_status row' = TxStatusSucceeded \<and> finished_at row' = Some t \<and>
        locked_by row' = Some (InstanceID cfg) \<and> list_all2 carries qs (drop k reqs) \<and>
        saga_at (lib E) txID t row' (progress t ms steps (length steps)) [] (l @ qs) w))"
proof (induction n arbitrary: k row l)
  case (Suc n)
  have len: "length answers = length steps" "length reqs = length steps" using ready by (auto simp: forward_ready_def)
  show ?case
  proof (cases "k = length steps")
    case True
    have nil: "drop (length steps) answers = []" "drop (length steps) reqs = []" using len by auto
    show ?thesis
      unfolding drive_loop.simps True nil
      by (rule does_bind [OF does_last_round [OF live timely Suc.prems(4,3) ready]], rule ensures_pure, simp,
          rule does_return) force
  next
    case False
    with Suc.prems have k: "k < length steps" by simp
    have here: "drop k reqs = reqs ! k # drop (Suc k) reqs" using k len by (simp add: Cons_nth_drop_Suc)
    have IH: "does (saga_at (lib E) txID t row' (progress t ms steps (Suc k)) (drop (Suc k) answers) (l @ [q]))
       (drive_loop E cfg ctx txID n)
       (\<lambda>r w. r \<and> (\<exists>row' qs. tx_status row' = TxStatusSucceeded \<and> finished_at row' = Some t \<and>
        locked_by row' = Some (InstanceID cfg) \<and> list_all2 carries qs (drop k reqs) \<and>
        saga_at (lib E) txID t row' (progress t ms steps (length steps)) [] (l @ qs) w))"
      if "carries q (reqs ! k)" "tx_id row' = txID"
        "driven (lib E) (InstanceID cfg) TxStatusRunning (tx_payload tx) deadline row'" for q row'
    proof -
      have "does (saga_at (lib E) txID t row' (progress t ms steps (Suc k)) (drop (Suc k) answers) (l @ [q]))
         (drive_loop E cfg ctx txID n)
         (\<lambda>r w. r \<and> (\<exists>row' qs. tx_status row' = TxStatusSucceeded \<and> finished_at row' = Some t \<and>
          locked_by row' = Some (InstanceID cfg) \<and> list_all2 carries qs (drop (Suc k) reqs) \<and>
          saga_at (lib E) txID t row' (progress t ms steps (length steps)) [] ((l @ [q]) @ qs) w))"
        using k Suc.prems(2) that(2,3) by (intro Suc.IH) auto
      then show ?thesis
        by (rule does_weaken) (use that(1) here in \<open>fastforce intro: exI [of _ "q # _"]\<close>)
    qed
    show ?thesis
      unfolding drive_loop.simps
      by (rule does_bind [OF does_forward_round [OF live timely Suc.prems(4,3) id ready k]], rule ensures_pure, simp only: if_True,
          rule does_ex, rule does_ex, rule ensures_pure, rule ensures_pure, rule ensures_pure) (rule IH)
  qed
qed simp

text \<open>
  C15. An undisturbed saga of synchronous steps succeeds. Given a pending or running transaction
  whose steps are all pending, synchronous and unsigned (no access key), peers that accept every action and templates that render, one drive sends
  exactly one request per step, in order, each rendered from the responses of the steps before it and
  keyed by its step; every step ends succeeded with its response stored, the transaction ends succeeded
  with the lease released, and the loop stops by itself after one round per step and two more.
\<close>

theorem saga_succeeds:
  assumes "saga_at (lib E) txID t row steps answers l w"
    and "scan_tx (lib E) row = Inr tx" and "tx_status row \<in> {TxStatusPending, TxStatusRunning}"
    and "can_claim (InstanceID cfg) t row" and "timely (timeout_at row) t" and "live ctx t"
    and "forward_ready (lib E) tx t steps answers ms reqs"
    and "length steps + 2 \<le> fuel"
    and "run_state (driveTransaction E cfg ctx txID fuel) w = (r, w')"
  shows "r \<and> (\<exists>row' qs. tx_status row' = TxStatusSucceeded \<and> finished_at row' = Some t \<and>
    locked_by row' = None \<and> list_all2 carries qs reqs \<and>
    saga_at (lib E) txID t row' (map2 (completed t) ms steps) [] (l @ qs) w')"
proof -
  let ?row = "set_lease (InstanceID cfg) (t + LeaseDuration cfg) t row"
  let ?F = "\<lambda>row' qs. tx_status row' = TxStatusSucceeded \<and> finished_at row' = Some t \<and> list_all2 carries qs reqs"
  let ?Q = "\<lambda>r w. r \<and> (\<exists>row' qs. ?F row' qs \<and> locked_by row' = Some (InstanceID cfg) \<and>
      saga_at (lib E) txID t row' (progress t ms steps (length steps)) [] (l @ qs) w)"
  have id: "tx_id row = txID" using assms(1) by (rule saga_at_row)
  have tx: "tx_id tx = txID" using scan_tx_keys [OF assms(2)] id by simp
  have d: "driven (lib E) (InstanceID cfg) (tx_status row) (tx_payload tx) (timeout_at row) ?row"
    using assms(2) by (auto simp: driven_def set_lease_def scan_tx_def split: sum.splits)
  have run: "does (saga_at (lib E) txID t row' steps answers l) (drive_loop E cfg ctx txID n) ?Q"
    if "tx_id row' = txID" "length steps < n"
      "driven (lib E) (InstanceID cfg) TxStatusRunning (tx_payload tx) (timeout_at row) row'" for row' n
    by (rule does_weaken [OF does_forward_loop
          [OF assms(6,5) tx assms(7), of 0 n row' cfg l, simplified, OF that(2,1,3)]]) blast
  have loop: "does (saga_at (lib E) txID t ?row steps answers l) (drive_loop E cfg ctx txID fuel) ?Q"
  proof (cases "tx_status row = TxStatusPending")
    case True
    obtain n where n: "fuel = Suc n" using assms(8) by (cases fuel) auto
    show ?thesis
      unfolding n drive_loop.simps
      by (rule does_bind [OF does_start_round [OF assms(6) d [unfolded True]]], simp add: set_lease_def id,
          rule ensures_pure, simp only: if_True, rule does_ex, rule ensures_pure, rule ensures_pure, rule run)
         (use n assms(8) in auto)
  next
    case False
    with assms(3) d have "driven (lib E) (InstanceID cfg) TxStatusRunning (tx_payload tx) (timeout_at row) ?row"
      by simp
    then show ?thesis using assms(8) id by (intro run) (auto simp: set_lease_def)
  qed
  have len: "length ms = length steps" using assms(7) by (simp add: forward_ready_def)
  from ensuresD [OF does_drive [OF assms(6,4) loop] assms(1,9)]
  obtain row' qs where "r" "?F row' qs" "saga_at (lib E) txID t
      (row'\<lparr>locked_by := None, locked_until := None, updated_at := t\<rparr>) (progress t ms steps (length steps)) [] (l @ qs) w'"
    by auto
  then show ?thesis
    by (intro conjI exI [of _ "row'\<lparr>locked_by := None, locked_until := None, updated_at := t\<rparr>"] exI [of _ qs])
       (simp_all add: progress_all [OF len])
qed

text \<open>A shop: two steps, both accepted by their peers.\<close>

definition shop_lib :: stdlib where
  "shop_lib = sample_lib\<lparr>json_marshal := (\<lambda>_. Some ''ok'')\<rparr>"

definition shop_env :: saga_env where
  "shop_env = sample_env\<lparr>lib := shop_lib\<rparr>"

definition shop_row :: "string \<Rightarrow> int \<Rightarrow> step_row" where
  "shop_row i k = \<lparr>st_id = i, st_tx_id = ''t1'', st_index = k, st_name = i,
     st_type = StepTypeSync, st_status = StepStatusPending,
     action_method = ''POST'', action_url = ''/pay'', action_payload = None, action_response = None,
     auth_ak = '''', compensate_method = ''POST'', compensate_url = ''/refund'',
     compensate_payload = None, poll_url = '''', poll_method = '''', poll_interval_sec = 0,
     poll_max_times = 0, poll_count = 0, poll_success_path = '''', poll_success_value = '''',
     poll_failure_path = '''', poll_failure_value = '''', next_poll_at = None, st_retry_count = 0,
     max_retry = 0, st_last_error = '''', st_started_at = None, st_finished_at = None\<rparr>"

definition order_row :: tx_row where
  "order_row = \<lparr>tx_id = ''t1'', tx_status = TxStatusPending, tx_payload = None, current_step = 0,
     created_at = 0, updated_at = 0, finished_at = None, timeout_at = Some 90, tx_retry_count = 0,
     tx_last_error = '''', locked_by = None, locked_until = None\<rparr>"

definition ok_answer :: "gerr + http_response" where
  "ok_answer = Inr \<lparr>hr_status = 200, hr_body = ''ok'', hr_read_error = None\<rparr>"

definition order_world :: world where
  "order_world = idle_world\<lparr>wdb := empty_db\<lparr>saga_transactions := [order_row],
     saga_steps := [shop_row ''s1'' 1, shop_row ''s0'' 0]\<rparr>, now := 10, net := [ok_answer, ok_answer]\<rparr>"

definition order_tx :: transaction where "order_tx = projr (scan_tx shop_lib order_row)"
definition order_steps :: "step list" where "order_steps = projr (steps_of shop_lib (wdb order_world) ''t1'')"
definition ok_map :: gomap where "ok_map = Some [(''code'', GStr ''0'')]"

definition order_requests :: "request list" where
  "order_requests = map (\<lambda>k. the (action_request shop_lib order_tx
     (progress 10 [ok_map, ok_map] order_steps k) (order_steps ! k))) [0, 1]"

lemma order_view: "steps_of shop_lib (wdb order_world) ''t1'' = Inr order_steps"
  and order_scan: "scan_tx shop_lib order_row = Inr order_tx"
  by code_simp+

lemma order_steps_length: "length order_steps = 2"
  by code_simp

lemma order_ready:
  "forward_ready shop_lib order_tx 10 order_steps [ok_answer, ok_answer] [ok_map, ok_map] order_requests"
proof -
  have s: "length order_steps = 2" "distinct (map st_id order_steps)"
    "\<forall>s \<in> set order_steps. st_status s = StepStatusPending \<and> st_type s \<noteq> StepTypeAsync \<and> auth_ak s = ''''"
    by code_simp+
  have "parseHTTPResponseEnvelope shop_lib (projr ok_answer) = Inr ok_map" "stored_as shop_lib ok_map ''ok''"
    by code_simp+
  then have ok: "accepted shop_lib ok_answer ok_map"
    by (auto simp: accepted_def ok_answer_def)
  have "action_request shop_lib order_tx (progress 10 [ok_map, ok_map] order_steps 0) (order_steps ! 0) \<noteq> None"
    by code_simp
  moreover have "action_request shop_lib order_tx (progress 10 [ok_map, ok_map] order_steps 1) (order_steps ! 1) \<noteq> None"
    by code_simp
  ultimately show ?thesis
    using s ok by (auto simp: forward_ready_def order_requests_def less_2_cases_iff)
qed

theorem saga_succeeds_witness:
  "let (r, w') = run_state (driveTransaction shop_env DefaultCoordinatorConfig background ''t1'' 4) order_world
   in r \<and> (\<exists>row' qs. tx_status row' = TxStatusSucceeded \<and> locked_by row' = None \<and>
        list_all2 carries qs order_requests \<and>
        saga_at shop_lib ''t1'' 10 row' (map2 (completed 10) [ok_map, ok_map] order_steps) [] qs w')"
proof -
  have l: "lib shop_env = shop_lib" by (simp add: shop_env_def)
  have "saga_at (lib shop_env) ''t1'' 10 order_row order_steps [ok_answer, ok_answer] [] order_world"
    using order_view by (simp add: saga_at_def l order_world_def idle_world_def empty_db_def quiet_def find_tx_def order_row_def)
  from saga_succeeds [OF this _ _ _ _ _ order_ready [folded l] _, where cfg = DefaultCoordinatorConfig and ctx = background and fuel = 4
      and r = "fst (run_state (driveTransaction shop_env DefaultCoordinatorConfig background ''t1'' 4) order_world)"
      and w' = "snd (run_state (driveTransaction shop_env DefaultCoordinatorConfig background ''t1'' 4) order_world)"]
    order_scan
  have "fst (run_state (driveTransaction shop_env DefaultCoordinatorConfig background ''t1'' 4) order_world) \<and>
    (\<exists>row' qs. tx_status row' = TxStatusSucceeded \<and> finished_at row' = Some 10 \<and> locked_by row' = None \<and>
      list_all2 carries qs order_requests \<and>
      saga_at (lib shop_env) ''t1'' 10 row' (map2 (completed 10) [ok_map, ok_map] order_steps) [] ([] @ qs)
        (snd (run_state (driveTransaction shop_env DefaultCoordinatorConfig background ''t1'' 4) order_world)))"
    by (simp add: l order_row_def can_claim_def active_status_def lock_free_def timely_def live_def background_def
        order_steps_length)
  then show ?thesis by (auto simp: l case_prod_beta)
qed

end
