(* ===== verification/Saga_Rollback.thy ===== *)
theory Saga_Rollback
  imports Saga_Forward
begin

text \<open>
  The undisturbed compensation of a saga: every step that took effect is undone, last step first, and
  the transaction ends failed.
\<close>

section \<open>One compensation\<close>

definition compensation_request :: "stdlib \<Rightarrow> transaction \<Rightarrow> step list \<Rightarrow> step \<Rightarrow> request option" where
  "compensation_request L tx steps s =
     (let data = BuildTemplateData (Some tx) steps (Some s) in
      case RenderURL L (compensate_url s) data of
        Inl e \<Rightarrow> None
      | Inr url \<Rightarrow>
     (case RenderPayloadJSON L (compensate_payload s) data of
        Inl e \<Rightarrow> None
      | Inr body \<Rightarrow>
     (case NewRequest L (compensate_method s) url (Some (case body of Some b \<Rightarrow> b | None \<Rightarrow> '''')) of
        Inl e \<Rightarrow> None
      | Inr req \<Rightarrow> Some (saga_headers tx (compensation_key s) req))))"

definition acknowledged :: "stdlib \<Rightarrow> gerr + http_response \<Rightarrow> bool" where
  "acknowledged L a \<longleftrightarrow> (case a of Inl e \<Rightarrow> False
     | Inr resp \<Rightarrow> (case parseHTTPResponseEnvelope L resp of Inl e \<Rightarrow> False | Inr m \<Rightarrow> True))"

definition undone :: "int \<Rightarrow> step \<Rightarrow> step" where
  "undone t s = put_status StepStatusCompensated '''' t (put_status StepStatusCompensating '''' t s)"

lemma undone_id [simp]: "st_id (undone t s) = st_id s" "st_status (undone t s) = StepStatusCompensated"
  by (simp_all add: undone_def put_status_def)

lemma does_CompensateStep:
  assumes live: "live ctx t" and i: "st_id s \<in> st_id ` set steps"
    and req: "compensation_request (lib E) tx mem s = Some req" and ak: "auth_ak s = ''''"
    and a: "acknowledged (lib E) a" and retries: "0 \<le> max_retry s"
  shows "does (saga_at (lib E) txID t row steps (a # as) l) (CompensateStep E ctx tx s mem)
     (\<lambda>r w. r = (None, s\<lparr>st_status := StepStatusCompensated\<rparr>) \<and> (\<exists>q. carries q req \<and>
        saga_at (lib E) txID t row (at_step (st_id s) (undone t) steps) as (l @ [q]) w))"
proof -
  obtain url body base where r1: "RenderURL (lib E) (compensate_url s) (BuildTemplateData (Some tx) mem (Some s)) = Inr url"
    and r2: "RenderPayloadJSON (lib E) (compensate_payload s) (BuildTemplateData (Some tx) mem (Some s)) = Inr body"
    and r3: "NewRequest (lib E) (compensate_method s) url (Some (case body of Some b \<Rightarrow> b | None \<Rightarrow> '''')) = Inr base"
    and base: "req = saga_headers tx (compensation_key s) base"
    using req by (auto simp: compensation_request_def Let_def split: sum.splits)
  obtain resp m where resp: "a = Inr resp" "parseHTTPResponseEnvelope (lib E) resp = Inr m"
    using a by (auto simp: acknowledged_def split: sum.splits)
  obtain n where n: "nat (compensation_retries s + 1) = Suc n"
    using retries by (cases "nat (compensation_retries s + 1)") (auto simp: compensation_retries_def split: if_splits)
  let ?started = "at_step (st_id s) (put_status StepStatusCompensating '''' t) steps"
  let ?done = "at_step (st_id s) (undone t) steps"
  have started: "st_id s \<in> st_id ` set ?started" using i by simp
  have fin: "does (saga_at (lib E) txID t row ?started as (l @ [q])) (updateStepStatus ctx (st_id s) StepStatusCompensated '''')
     (\<lambda>r w. r = Inr () \<and> saga_at (lib E) txID t row ?done as (l @ [q]) w)" for q
    using does_durable_status [OF started, where ctx = ctx and st = StepStatusCompensated and err = "''''"]
    by (simp add: undone_def [abs_def])
  have attempt: "does (saga_at (lib E) txID t row ?started (a # as) l)
     (comp_attempt E ctx tx s url (case body of Some b \<Rightarrow> b | None \<Rightarrow> ''''))
     (\<lambda>r w. r = Inl (CompReturn None (s\<lparr>st_status := StepStatusCompensated\<rparr>)) \<and>
        (\<exists>q. carries q req \<and> saga_at (lib E) txID t row ?done as (l @ [q]) w))"
    unfolding comp_attempt_def r3 sum.case base compensation_key_def
    apply (rule does_exchange [OF live ak])
    apply (simp add: resp)
    by (rule does_bind [OF fin], rule ensures_pure, rule does_return) auto
  have loop: "does (saga_at (lib E) txID t row ?started (a # as) l)
     (comp_loop E ctx tx s url (case body of Some b \<Rightarrow> b | None \<Rightarrow> '''') 0 (Suc n) None)
     (\<lambda>r w. r = CompReturn None (s\<lparr>st_status := StepStatusCompensated\<rparr>) \<and>
        (\<exists>q. carries q req \<and> saga_at (lib E) txID t row ?done as (l @ [q]) w))"
    by (simp, rule does_bind [OF attempt], rule ensures_pure, simp, rule does_return) simp
  show ?thesis
    unfolding CompensateStep_def Let_def r1 r2 n sum.case
    apply (rule does_bind [OF does_step_status [OF live i]], rule ensures_pure, simp only: sum.case)
    by (rule does_bind [OF loop], rule ensures_pure, simp, rule does_return) simp
qed

section \<open>All compensations\<close>

text \<open>
  What the compensation of the steps at some positions needs: an acknowledging peer and a request
  that renders from the steps as the earlier compensations left them.
\<close>

fun rollback_ready ::
  "stdlib \<Rightarrow> transaction \<Rightarrow> nat list \<Rightarrow> step list \<Rightarrow> (gerr + http_response) list \<Rightarrow> request list \<Rightarrow> bool" where
  "rollback_ready L tx [] mem [] [] = True"
| "rollback_ready L tx (i # is) mem (a # as) (req # reqs) \<longleftrightarrow>
     auth_ak (mem ! i) = '''' \<and> 0 \<le> max_retry (mem ! i) \<and> acknowledged L a \<and>
     compensation_request L tx mem (mem ! i) = Some req \<and>
     rollback_ready L tx is (mem[i := (mem ! i)\<lparr>st_status := StepStatusCompensated\<rparr>]) as reqs"
| "rollback_ready _ _ _ _ _ _ = False"

definition mark_compensated :: "nat list \<Rightarrow> step list \<Rightarrow> step list" where
  "mark_compensated = fold (\<lambda>i mem. mem[i := (mem ! i)\<lparr>st_status := StepStatusCompensated\<rparr>])"

definition undo_at :: "int \<Rightarrow> string list \<Rightarrow> step list \<Rightarrow> step list" where
  "undo_at t ids = map (\<lambda>s. if st_id s \<in> set ids then undone t s else s)"

lemma undo_ids: "map st_id (undo_at t ids steps) = map st_id steps"
  by (simp add: undo_at_def)

lemma at_step_undo:
  "i \<notin> set ids \<Longrightarrow> undo_at t ids (at_step i (undone t) steps) = undo_at t (i # ids) steps"
  by (auto simp: undo_at_def at_step_def)

lemma does_compensate_all:
  assumes live: "live ctx t"
  shows "rollback_ready (lib E) tx is mem answers reqs \<Longrightarrow> distinct (map (\<lambda>i. st_id (mem ! i)) is) \<Longrightarrow>
    \<forall>i \<in> set is. i < length mem \<and> st_id (mem ! i) \<in> st_id ` set steps \<Longrightarrow>
    does (saga_at (lib E) txID t row steps answers l) (compensate_all E ctx tx is mem True)
     (\<lambda>r w. r = Some (True, mark_compensated is mem) \<and> (\<exists>qs. list_all2 carries qs reqs \<and>
        saga_at (lib E) txID t row (undo_at t (map (\<lambda>i. st_id (mem ! i)) is) steps) [] (l @ qs) w))"
proof (induction "is" arbitrary: mem answers reqs steps l)
  case Nil
  then have "answers = []" "reqs = []" by (cases answers; cases reqs; simp)+
  then show ?case
    by (simp, intro does_return) (simp add: mark_compensated_def undo_at_def)
next
  case (Cons i js)
  obtain a as req qs where l: "answers = a # as" "reqs = req # qs"
    using Cons.prems(1) by (cases answers; cases reqs) auto
  let ?s = "mem ! i"
  let ?mem = "mem[i := ?s\<lparr>st_status := StepStatusCompensated\<rparr>]"
  let ?steps = "at_step (st_id ?s) (undone t) steps"
  have r: "auth_ak ?s = ''''" "0 \<le> max_retry ?s" "acknowledged (lib E) a"
    "compensation_request (lib E) tx mem ?s = Some req" "rollback_ready (lib E) tx js ?mem as qs"
    using Cons.prems(1) l by simp_all
  have i: "st_id ?s \<in> st_id ` set steps" using Cons.prems(3) by simp
  have ids: "st_id (?mem ! k) = st_id (mem ! k)" for k
    using Cons.prems(3) by (cases "k = i") auto
  have IH: "does (saga_at (lib E) txID t row ?steps as (l @ [q])) (compensate_all E ctx tx js ?mem True)
     (\<lambda>r w. r = Some (True, mark_compensated js ?mem) \<and> (\<exists>ps. list_all2 carries ps qs \<and>
        saga_at (lib E) txID t row (undo_at t (map (\<lambda>i. st_id (mem ! i)) js) ?steps) [] ((l @ [q]) @ ps) w))" for q
    using Cons.IH [OF r(5), of ?steps "l @ [q]"] Cons.prems(2,3) by (simp add: ids)
  have undo: "undo_at t (map (\<lambda>i. st_id (mem ! i)) js) ?steps = undo_at t (map (\<lambda>i. st_id (mem ! i)) (i # js)) steps"
    using Cons.prems(2) by (simp add: at_step_undo)
  have rest: "does (\<lambda>w. \<exists>q. carries q req \<and> saga_at (lib E) txID t row ?steps as (l @ [q]) w)
     (compensate_all E ctx tx js ?mem True)
     (\<lambda>r w. r = Some (True, mark_compensated (i # js) mem) \<and> (\<exists>ps. list_all2 carries ps reqs \<and>
        saga_at (lib E) txID t row (undo_at t (map (\<lambda>i. st_id (mem ! i)) (i # js)) steps) [] (l @ ps) w))"
  proof (rule does_ex, rule ensures_pure)
    fix q assume q: "carries q req"
    show "does (saga_at (lib E) txID t row ?steps as (l @ [q])) (compensate_all E ctx tx js ?mem True)
     (\<lambda>r w. r = Some (True, mark_compensated (i # js) mem) \<and> (\<exists>ps. list_all2 carries ps reqs \<and>
        saga_at (lib E) txID t row (undo_at t (map (\<lambda>i. st_id (mem ! i)) (i # js)) steps) [] (l @ ps) w))"
    proof (rule does_weaken [OF IH])
      fix r w
      assume "r = Some (True, mark_compensated js ?mem) \<and> (\<exists>ps. list_all2 carries ps qs \<and>
        saga_at (lib E) txID t row (undo_at t (map (\<lambda>i. st_id (mem ! i)) js) ?steps) [] ((l @ [q]) @ ps) w)"
      then obtain ps where ps: "r = Some (True, mark_compensated (i # js) mem)" "list_all2 carries ps qs"
        "saga_at (lib E) txID t row (undo_at t (map (\<lambda>i. st_id (mem ! i)) (i # js)) steps) [] (l @ q # ps) w"
        by (auto simp: mark_compensated_def undo)
      then show "r = Some (True, mark_compensated (i # js) mem) \<and> (\<exists>ps. list_all2 carries ps reqs \<and>
        saga_at (lib E) txID t row (undo_at t (map (\<lambda>i. st_id (mem ! i)) (i # js)) steps) [] (l @ ps) w)"
        using q l by (intro conjI exI [of _ "q # ps"]) simp_all
    qed
  qed
  show ?case
    unfolding compensate_all.simps l(1)
    by (rule does_bind [OF does_halted [OF live]], rule ensures_pure, simp only: if_False,
        rule does_bind [OF does_CompensateStep [OF live i r(4,1,3,2)]], rule ensures_pure, simp only: fst_conv snd_conv simp_thms,
        rule rest)
qed

lemma compensation_request_cong:
  "tx_id tx = tx_id tx' \<Longrightarrow> tx_payload tx = tx_payload tx' \<Longrightarrow>
   compensation_request L tx steps s = compensation_request L tx' steps s"
proof -
  assume "tx_id tx = tx_id tx'" "tx_payload tx = tx_payload tx'"
  then have "saga_headers tx = saga_headers tx'" "BuildTemplateData (Some tx) = BuildTemplateData (Some tx')"
    by (simp_all add: fun_eq_iff saga_headers_def BuildTemplateData_def split: option.split)
  then show ?thesis by (simp only: compensation_request_def)
qed

lemma rollback_ready_cong:
  "tx_id tx = tx_id tx' \<Longrightarrow> tx_payload tx = tx_payload tx' \<Longrightarrow>
   rollback_ready L tx is mem answers reqs = rollback_ready L tx' is mem answers reqs"
proof (induction L tx "is" mem answers reqs rule: rollback_ready.induct)
  case (2 L tx i "is" mem a as req reqs)
  then show ?case using compensation_request_cong [OF 2(2,3), of L mem "mem ! i"] by simp
qed simp_all

section \<open>Skipping what never ran\<close>

definition skip_ids :: "int \<Rightarrow> string set \<Rightarrow> step list \<Rightarrow> step list" where
  "skip_ids t ids = map (\<lambda>s. if st_id s \<in> ids then put_status StepStatusSkipped '''' t s else s)"

definition pending_ids :: "step list \<Rightarrow> string set" where
  "pending_ids mem = st_id ` {s \<in> set mem. st_status s = StepStatusPending}"

lemma put_status_twice [simp]: "put_status st e t (put_status st e t s) = put_status st e t s"
  by (simp add: put_status_def)

lemma skip_ids_step: "skip_ids t ids (at_step i (put_status StepStatusSkipped '''' t) steps) = skip_ids t (insert i ids) steps"
  by (auto simp: skip_ids_def at_step_def)

lemma pending_ids_Cons:
  "pending_ids (s # mem) = (if st_status s = StepStatusPending then insert (st_id s) (pending_ids mem) else pending_ids mem)"
  by (auto simp: pending_ids_def)

lemma does_skip_pending:
  assumes "live ctx t"
  shows "pending_ids mem \<subseteq> st_id ` set steps \<Longrightarrow>
    does (saga_at L txID t row steps a l) (skip_pending ctx mem)
     (\<lambda>_. saga_at L txID t row (skip_ids t (pending_ids mem) steps) a l)"
proof (induction mem arbitrary: steps)
  case Nil
  show ?case by (simp add: pending_ids_def skip_ids_def does_return)
next
  case (Cons s mem)
  let ?steps = "if st_status s = StepStatusPending
    then at_step (st_id s) (put_status StepStatusSkipped '''' t) steps else steps"
  have one: "does (saga_at L txID t row steps a l)
     (if st_status s = StepStatusPending
      then do { _ \<leftarrow> UpdateStepStatus ctx (st_id s) StepStatusSkipped ''''; State_Monad.return () }
      else State_Monad.return ())
     (\<lambda>_. saga_at L txID t row ?steps a l)"
  proof (cases "st_status s = StepStatusPending")
    case True
    then have i: "st_id s \<in> st_id ` set steps" using Cons.prems by (simp add: pending_ids_Cons)
    show ?thesis
      by (simp add: True, rule does_bind [OF does_step_status [OF assms i]], rule does_return) simp
  qed (simp add: does_return)
  have "pending_ids mem \<subseteq> st_id ` set ?steps"
    using Cons.prems by (auto simp: pending_ids_Cons split: if_splits)
  from Cons.IH [OF this]
  have rest: "does (saga_at L txID t row ?steps a l) (skip_pending ctx mem)
     (\<lambda>_. saga_at L txID t row (skip_ids t (pending_ids (s # mem)) steps) a l)"
    by (simp add: pending_ids_Cons skip_ids_step split: if_splits)
  show ?case
    by (simp only: skip_pending.simps) (rule does_bind [OF one rest])
qed

section \<open>The compensation of a transaction\<close>

definition rolled_back :: "int \<Rightarrow> step \<Rightarrow> step" where
  "rolled_back t s = (if needs_compensation s then undone t s
     else if st_status s = StepStatusPending then put_status StepStatusSkipped '''' t s else s)"

lemma mark_compensated_nth:
  "\<forall>i \<in> set is. i < length mem \<Longrightarrow> length (mark_compensated is mem) = length mem \<and>
   (\<forall>k < length mem. mark_compensated is mem ! k
      = (if k \<in> set is then (mem ! k)\<lparr>st_status := StepStatusCompensated\<rparr> else mem ! k))"
  by (induction "is" arbitrary: mem) (auto simp: mark_compensated_def nth_list_update)

lemma set_to_compensate: "set (to_compensate steps) = {i. i < length steps \<and> needs_compensation (steps ! i)}"
  by (auto simp: to_compensate_def)

lemma pending_after: "pending_ids (mark_compensated (to_compensate steps) steps) = pending_ids steps"
proof -
  let ?m = "mark_compensated (to_compensate steps) steps"
  have m: "length ?m = length steps" "\<forall>k < length steps. ?m ! k
      = (if needs_compensation (steps ! k) then (steps ! k)\<lparr>st_status := StepStatusCompensated\<rparr> else steps ! k)"
    using mark_compensated_nth [of "to_compensate steps" steps] by (simp_all add: set_to_compensate)
  have p: "st_status (?m ! k) = StepStatusPending \<longleftrightarrow> st_status (steps ! k) = StepStatusPending"
    "st_id (?m ! k) = st_id (steps ! k)" if "k < length steps" for k
    using m(2) that by (auto simp: needs_compensation_def)
  have a: "x \<in> pending_ids ?m \<longleftrightarrow> (\<exists>k < length steps. st_status (?m ! k) = StepStatusPending \<and> st_id (?m ! k) = x)" for x
    by (auto simp: pending_ids_def in_set_conv_nth m(1))
  have b: "x \<in> pending_ids steps \<longleftrightarrow>
      (\<exists>k < length steps. st_status (steps ! k) = StepStatusPending \<and> st_id (steps ! k) = x)" for x
    by (auto simp: pending_ids_def in_set_conv_nth)
  show ?thesis by (intro set_eqI) (simp add: a b p cong: conj_cong)
qed

lemma distinct_ids_eq: "distinct (map st_id steps) \<Longrightarrow> s \<in> set steps \<Longrightarrow> s' \<in> set steps \<Longrightarrow> st_id s = st_id s' \<Longrightarrow> s = s'"
  by (auto simp: distinct_map inj_on_def)

lemma rolled_back_all:
  assumes "distinct (map st_id steps)"
  shows "skip_ids t (pending_ids steps) (undo_at t (map (\<lambda>i. st_id (steps ! i)) (to_compensate steps)) steps)
    = map (rolled_back t) steps"
proof -
  have c: "st_id s \<in> (\<lambda>i. st_id (steps ! i)) ` set (to_compensate steps) \<longleftrightarrow> needs_compensation s"
    if s: "s \<in> set steps" for s
  proof
    assume "st_id s \<in> (\<lambda>i. st_id (steps ! i)) ` set (to_compensate steps)"
    then obtain i where "i < length steps" "needs_compensation (steps ! i)" "st_id s = st_id (steps ! i)"
      by (auto simp: set_to_compensate)
    with distinct_ids_eq [OF assms s, of "steps ! i"] show "needs_compensation s" by simp
  next
    assume "needs_compensation s"
    with s show "st_id s \<in> (\<lambda>i. st_id (steps ! i)) ` set (to_compensate steps)"
      by (auto simp: set_to_compensate in_set_conv_nth)
  qed
  have p: "st_id s \<in> pending_ids steps \<longleftrightarrow> st_status s = StepStatusPending" if s: "s \<in> set steps" for s
    using distinct_ids_eq [OF assms s] s by (auto simp: pending_ids_def)
  show ?thesis
    by (auto simp: skip_ids_def undo_at_def rolled_back_def c p needs_compensation_def)
qed

lemma to_compensate_distinct:
  assumes "distinct (map st_id steps)"
  shows "distinct (map (\<lambda>i. st_id (steps ! i)) (to_compensate steps))"
proof -
  have "inj_on (\<lambda>i. st_id (steps ! i)) (set (to_compensate steps))"
    using assms by (auto simp: inj_on_def set_to_compensate distinct_conv_nth)
  then show ?thesis using to_compensate_props(1) by (simp add: distinct_map)
qed

lemma does_executeCompensation:
  assumes live: "live ctx t" and id: "tx_id tx = txID" and d: "distinct (map st_id steps)"
    and ready: "rollback_ready (lib E) tx (to_compensate steps) steps answers reqs"
  shows "does (saga_at (lib E) txID t row steps answers l) (executeCompensation E ctx tx steps)
     (\<lambda>_ w. \<exists>qs. list_all2 carries qs reqs \<and>
        saga_at (lib E) txID t (set_tx_status TxStatusFailed ''compensation completed'' t t row)
          (map (rolled_back t) steps) [] (l @ qs) w)"
proof -
  let ?undo = "undo_at t (map (\<lambda>i. st_id (steps ! i)) (to_compensate steps)) steps"
  have all: "does (saga_at (lib E) txID t row steps answers l) (compensate_all E ctx tx (to_compensate steps) steps True)
     (\<lambda>r w. r = Some (True, mark_compensated (to_compensate steps) steps) \<and> (\<exists>qs. list_all2 carries qs reqs \<and>
        saga_at (lib E) txID t row ?undo [] (l @ qs) w))"
    by (rule does_compensate_all [OF live ready to_compensate_distinct [OF d]]) (auto simp: set_to_compensate)
  have "pending_ids steps \<subseteq> st_id ` set ?undo"
    unfolding list.set_map [symmetric] undo_ids by (auto simp: pending_ids_def)
  from does_skip_pending [OF live, of "mark_compensated (to_compensate steps) steps", unfolded pending_after, OF this]
  have skip: "does (saga_at (lib E) txID t row ?undo [] (l @ qs)) (skip_pending ctx (mark_compensated (to_compensate steps) steps))
     (\<lambda>_. saga_at (lib E) txID t row (map (rolled_back t) steps) [] (l @ qs))" for qs
    by (simp add: rolled_back_all [OF d])
  show ?thesis
    unfolding executeCompensation_def id
    apply (rule does_bind [OF all], rule ensures_pure, simp only: option.case prod.case if_True)
    apply (rule does_ex, rule ensures_pure, rule does_bind [OF skip])
    by (rule does_bind [OF does_UpdateTransactionStatus [OF live]], rule does_return) blast
qed

text \<open>How a step ends, by its status before.\<close>

lemma rolled_back_cases:
  "rolled_back t s = (if st_status s \<in> {StepStatusSucceeded, StepStatusPolling, StepStatusCompensating}
     then s\<lparr>st_status := StepStatusCompensated, st_last_error := '''', st_finished_at := Some t\<rparr>
     else if st_status s = StepStatusPending
     then s\<lparr>st_status := StepStatusSkipped, st_last_error := '''', st_finished_at := None\<rparr> else s)"
  by (simp add: rolled_back_def needs_compensation_def undone_def put_status_def)

text \<open>
  C16. An undisturbed compensation succeeds, also after the deadline of the transaction. If the
  peers acknowledge, one drive of a compensating transaction sends exactly one compensation for every
  step that succeeded, was polling or was being compensated (the positions \<open>ps\<close>), last step first, each rendered from
  the steps as the compensations before it left them and keyed by its step; those steps end compensated,
  steps that never ran end skipped, all others stay as they are, and the transaction ends failed with
  the lease released. The steps to compensate are unsigned (no access key) and their max_retry is not negative:
  both are part of \<open>rollback_ready\<close>.
\<close>

theorem saga_rolls_back:
  assumes "saga_at (lib E) txID t row steps answers l w"
    and "scan_tx (lib E) row = Inr tx" and "tx_status row = TxStatusCompensating"
    and "can_claim (InstanceID cfg) t row" and "live ctx t" and "distinct (map st_id steps)"
    and "sorted_wrt (>) ps" and "set ps = {i. i < length steps \<and>
      st_status (steps ! i) \<in> {StepStatusSucceeded, StepStatusPolling, StepStatusCompensating}}"
    and "rollback_ready (lib E) tx ps steps answers reqs"
    and "1 \<le> fuel"
    and "run_state (driveTransaction E cfg ctx txID fuel) w = (r, w')"
  shows "r \<and> (\<exists>row' qs. tx_status row' = TxStatusFailed \<and> tx_last_error row' = ''compensation completed'' \<and>
    finished_at row' = Some t \<and> locked_by row' = None \<and> list_all2 carries qs reqs \<and>
    saga_at (lib E) txID t row' (map (\<lambda>s.
      if st_status s \<in> {StepStatusSucceeded, StepStatusPolling, StepStatusCompensating}
      then s\<lparr>st_status := StepStatusCompensated, st_last_error := '''', st_finished_at := Some t\<rparr>
      else if st_status s = StepStatusPending
      then s\<lparr>st_status := StepStatusSkipped, st_last_error := '''', st_finished_at := None\<rparr>
      else s) steps) [] (l @ qs) w')"
proof -
  note readies = assms(9) [unfolded to_compensate_unique [OF assms(7,8)]]
  let ?row = "set_lease (InstanceID cfg) (t + LeaseDuration cfg) t row"
  let ?F = "\<lambda>row' qs. tx_status row' = TxStatusFailed \<and> tx_last_error row' = ''compensation completed'' \<and>
    finished_at row' = Some t \<and> list_all2 carries qs reqs"
  let ?Q = "\<lambda>r w. r \<and> (\<exists>row' qs. ?F row' qs \<and> locked_by row' = Some (InstanceID cfg) \<and>
      saga_at (lib E) txID t row' (map (rolled_back t) steps) [] (l @ qs) w)"
  have id: "tx_id row = txID" using assms(1) by (rule saga_at_row)
  have tx: "tx_id tx = txID" using scan_tx_keys [OF assms(2)] id by simp
  have d: "driven (lib E) (InstanceID cfg) TxStatusCompensating (tx_payload tx) (timeout_at row) ?row"
    using assms(2,3) by (auto simp: driven_def set_lease_def scan_tx_def split: sum.splits)
  have round: "does (saga_at (lib E) txID t ?row steps answers l) (drive_round E cfg ctx txID)
     (\<lambda>r w. \<not> r \<and> ?Q True w)"
  proof (rule does_round [OF assms(5) d])
    fix c :: gctx and tx' :: transaction and row' :: tx_row
    assume h: "cx_deadline c = cx_deadline ctx" "tx_id tx' = txID" "tx_status tx' = TxStatusCompensating"
      "tx_payload tx' = tx_payload tx"
      "driven (lib E) (InstanceID cfg) TxStatusCompensating (tx_payload tx) (timeout_at row) row'" "tx_id row' = txID"
    have c: "live c t" using assms(5) h(1) by (simp add: live_def)
    have ready: "rollback_ready (lib E) tx' (to_compensate steps) steps answers reqs"
      using readies rollback_ready_cong [of tx' tx] h(2,4) tx by simp
    let ?final = "set_tx_status TxStatusFailed ''compensation completed'' t t row'"
    have F: "?F ?final qs \<and> locked_by ?final = Some (InstanceID cfg)" if "list_all2 carries qs reqs" for qs
      using that h(5) by (simp add: set_tx_status_def driven_def)
    show "does (saga_at (lib E) txID t row' steps answers l)
       (case tx_status tx' of
          TxStatusPending \<Rightarrow> do {
            ok \<leftarrow> UpdateTransactionStatusCAS c txID TxStatusPending TxStatusRunning '''';
            State_Monad.return (ok = Inr True) }
        | TxStatusRunning \<Rightarrow> executeNextStep E cfg c tx' steps
        | TxStatusCompensating \<Rightarrow> do { _ \<leftarrow> executeCompensation E c tx' steps; State_Monad.return False }
        | TxStatusSucceeded \<Rightarrow> State_Monad.return False
        | TxStatusFailed \<Rightarrow> State_Monad.return False) (\<lambda>r w. \<not> r \<and> ?Q True w)"
      unfolding h(3) tx_status.case
      by (rule does_bind [OF does_executeCompensation [OF c h(2) assms(6) ready]], rule does_return) (use F in blast)
  qed (simp_all add: active_status_def set_lease_def id)
  obtain n where n: "fuel = Suc n" using assms(10) by (cases fuel) auto
  have loop: "does (saga_at (lib E) txID t ?row steps answers l) (drive_loop E cfg ctx txID fuel) ?Q"
    unfolding n drive_loop.simps
    by (rule does_bind [OF round], rule ensures_pure, simp only: if_False, rule does_return) blast
  from ensuresD [OF does_drive [OF assms(5,4) loop] assms(1,11)]
  obtain row' qs where "r" "?F row' qs" "saga_at (lib E) txID t
      (row'\<lparr>locked_by := None, locked_until := None, updated_at := t\<rparr>) (map (rolled_back t) steps) [] (l @ qs) w'"
    by auto
  then show ?thesis
    unfolding rolled_back_cases [abs_def]
    by (intro conjI exI [of _ "row'\<lparr>locked_by := None, locked_until := None, updated_at := t\<rparr>"] exI [of _ qs]) simp_all
qed

text \<open>The shop again: its first step took effect, the deadline has passed.\<close>

definition undo_row :: tx_row where
  "undo_row = order_row\<lparr>tx_status := TxStatusCompensating, timeout_at := Some 5\<rparr>"

definition undo_world :: world where
  "undo_world = idle_world\<lparr>wdb := empty_db\<lparr>saga_transactions := [undo_row],
     saga_steps := [shop_row ''s1'' 1, (shop_row ''s0'' 0)\<lparr>st_status := StepStatusSucceeded\<rparr>]\<rparr>,
     now := 10, net := [ok_answer]\<rparr>"

definition undo_tx :: transaction where "undo_tx = projr (scan_tx shop_lib undo_row)"
definition undo_steps :: "step list" where "undo_steps = projr (steps_of shop_lib (wdb undo_world) ''t1'')"

definition undo_request :: request where
  "undo_request = the (compensation_request shop_lib undo_tx undo_steps (undo_steps ! 0))"

lemma undo_facts:
  "steps_of shop_lib (wdb undo_world) ''t1'' = Inr undo_steps"
  "scan_tx shop_lib undo_row = Inr undo_tx"
  "distinct (map st_id undo_steps)"
  "to_compensate undo_steps = [0]"
  "rollback_ready shop_lib undo_tx [0] undo_steps [ok_answer] [undo_request]"
  by code_simp+

theorem saga_rolls_back_witness:
  "let (r, w') = run_state (driveTransaction shop_env DefaultCoordinatorConfig background ''t1'' 1) undo_world
   in r \<and> (\<exists>row' q. tx_status row' = TxStatusFailed \<and> carries q undo_request \<and>
        saga_at shop_lib ''t1'' 10 row' [(undo_steps ! 0)\<lparr>st_status := StepStatusCompensated, st_finished_at := Some 10\<rparr>,
          (undo_steps ! 1)\<lparr>st_status := StepStatusSkipped\<rparr>] [] [q] w')"
proof -
  let ?run = "run_state (driveTransaction shop_env DefaultCoordinatorConfig background ''t1'' 1) undo_world"
  have l: "lib shop_env = shop_lib" by (simp add: shop_env_def)
  have "saga_at (lib shop_env) ''t1'' 10 undo_row undo_steps [ok_answer] [] undo_world"
    using undo_facts(1) by (simp add: saga_at_def l undo_world_def idle_world_def empty_db_def quiet_def find_tx_def
        undo_row_def order_row_def)
  from saga_rolls_back [OF this, where cfg = DefaultCoordinatorConfig and ctx = background and fuel = 1
      and r = "fst ?run" and w' = "snd ?run" and tx = undo_tx and reqs = "[undo_request]" and ps = "[0]"] undo_facts
  have "fst ?run \<and> (\<exists>row' qs. tx_status row' = TxStatusFailed \<and> list_all2 carries qs [undo_request] \<and>
      saga_at shop_lib ''t1'' 10 row' (map (rolled_back 10) undo_steps) [] qs (snd ?run))"
    using to_compensate_set [of undo_steps]
    by (auto simp: l undo_row_def order_row_def can_claim_def active_status_def lock_free_def live_def background_def
        rolled_back_cases [abs_def])
  moreover have "map (rolled_back 10) undo_steps =
      [(undo_steps ! 0)\<lparr>st_status := StepStatusCompensated, st_finished_at := Some 10\<rparr>,
       (undo_steps ! 1)\<lparr>st_status := StepStatusSkipped\<rparr>]"
    by code_simp
  ultimately show ?thesis by (auto simp: case_prod_beta list_all2_Cons2)
qed

end
