(* ===== verification/Saga_Store_Laws.thy ===== *)
theory Saga_Store_Laws
  imports Saga_Forward
begin

text \<open>
  What the store promises in every run, with faults and other sessions: creation is all or nothing,
  updates of steps refine updates of the list of steps, and the listings lease what they return.
\<close>

text \<open>The tables a call finds: the other sessions have written.\<close>

definition found :: "world \<Rightarrow> db" where
  "found w = tk_env (next_tick w) (wdb w)"

lemma store_call_body:
  assumes "run_state (store_call ctx body) w = (r, w')"
  obtains F skip where "body F skip (now w) (now w') (found w) = (r, wdb w')"
    and "now w' = now w + int (tk_dt (next_tick w))"
  using assms by (auto simp: store_call_def found_def Let_def split: prod.splits)

section \<open>Creation\<close>

definition same_definition :: "step_row \<Rightarrow> step \<Rightarrow> bool" where
  "same_definition r s \<longleftrightarrow> st_id r = st_id s \<and> st_tx_id r = st_tx_id s \<and> st_index r = st_index s \<and>
     st_name r = st_name s \<and> st_type r = st_type s \<and> st_status r = st_status s \<and>
     action_method r = action_method s \<and> action_url r = action_url s \<and> auth_ak r = auth_ak s \<and>
     compensate_method r = compensate_method s \<and> compensate_url r = compensate_url s \<and>
     poll_url r = poll_url s \<and> poll_max_times r = poll_max_times s \<and> max_retry r = max_retry s \<and>
     action_response r = None \<and> st_retry_count r = 0 \<and> poll_count r = 0"

definition created :: "transaction \<Rightarrow> step list \<Rightarrow> db \<Rightarrow> db \<Rightarrow> bool" where
  "created tx steps d d' \<longleftrightarrow> (\<exists>row rows.
     tx_id row = tx_id tx \<and> tx_status row = tx_status tx \<and> timeout_at row = timeout_at tx \<and> locked_by row = None \<and>
     list_all2 same_definition rows steps \<and>
     d' = d\<lparr>saga_transactions := saga_transactions d @ [row], saga_steps := saga_steps d @ rows\<rparr>)"

lemma insert_steps_rows:
  "insert_steps L F k ss d = Inr d' \<Longrightarrow> db_ok d \<Longrightarrow> db_ok d' \<and>
   (\<exists>rows. list_all2 same_definition rows ss \<and> d' = d\<lparr>saga_steps := saga_steps d @ rows\<rparr>)"
proof (induction ss arbitrary: k d)
  case Nil
  then show ?case by (auto intro: exI [of _ "[]"])
next
  case (Cons s ss)
  obtain ap cp d1 where i: "insert_step_row (step_insert_row L s ap cp) d = Inr d1"
    and rest: "insert_steps L F (k + 1) ss d1 = Inr d'"
    using Cons.prems(1) by (auto split: sum.splits option.splits)
  let ?r = "step_insert_row L s ap cp"
  have d1: "d1 = d\<lparr>saga_steps := saga_steps d @ [?r]\<rparr>" and ok: "db_ok d1"
    using i Cons.prems(2) by (auto simp: insert_step_row_def db_ok_def split: if_splits)
  obtain rows where rows: "db_ok d'" "list_all2 same_definition rows ss"
    "d' = d1\<lparr>saga_steps := saga_steps d1 @ rows\<rparr>"
    using Cons.IH [OF rest ok] by blast
  have "same_definition ?r s" by (simp add: same_definition_def step_insert_row_def)
  then show ?case using rows d1 by (intro conjI exI [of _ "?r # rows"]) simp_all
qed

lemma insert_tx_ok: "insert_tx_row r d = Inr d' \<Longrightarrow> db_ok d \<Longrightarrow> db_ok d'"
  by (auto simp: insert_tx_row_def db_ok_def split: if_splits)

lemma create_cases:
  assumes "create_with_steps L tx steps F d = (r, d')" and "db_ok d"
  shows "db_ok d' \<and> (d' = d \<and> r \<noteq> Inr () \<or> created tx steps d d' \<and> (r \<noteq> Inr () \<longrightarrow> fl_lost F))"
proof (cases "d' = d \<and> r \<noteq> Inr ()")
  case True
  with assms(2) show ?thesis by simp
next
  case False
  with assms(1) obtain p d1 where m: "marshal_map L (tx_payload tx) = Inr p"
      and i: "insert_tx_row (tx_insert_row L tx p) d = Inr d1"
    by (auto simp: create_with_steps_def split: option.splits sum.splits)
  have d1: "d1 = d\<lparr>saga_transactions := saga_transactions d @ [tx_insert_row L tx p]\<rparr>" and ok: "db_ok d1"
    using i assms(2) insert_tx_ok [OF i] by (auto simp: insert_tx_row_def split: if_splits)
  obtain k d2 where d2: "insert_steps L F 3 steps d1 = Inr d2 \<or> steps = [] \<and> d2 = d1"
    "commit F k ''failed to commit transaction'' () d d2 = (r, d')"
    using assms(1) False i m by (auto simp: create_with_steps_def split: option.splits sum.splits if_splits)
  obtain rows where rows: "db_ok d2" "list_all2 same_definition rows steps" "d2 = d1\<lparr>saga_steps := saga_steps d1 @ rows\<rparr>"
  proof (cases "insert_steps L F 3 steps d1 = Inr d2")
    case True
    from insert_steps_rows [OF this ok] that show thesis by blast
  next
    case False
    with d2(1) ok that [of "[]"] show thesis by simp
  qed
  have "tx_id (tx_insert_row L tx p) = tx_id tx \<and> tx_status (tx_insert_row L tx p) = tx_status tx \<and>
      timeout_at (tx_insert_row L tx p) = timeout_at tx \<and> locked_by (tx_insert_row L tx p) = None"
    by (simp add: tx_insert_row_def)
  then have "created tx steps d d2"
    using rows d1 unfolding created_def by (intro exI [of _ "tx_insert_row L tx p"] exI [of _ rows]) simp
  with rows(1) d2(2) False assms(2) show ?thesis
    by (auto simp: commit_def split: option.splits if_splits)
qed

text \<open>
  C17. Submission is atomic. Creating a transaction with its steps, in every run, leaves the tables
  as they were or adds exactly the transaction, unlocked, and one row per step in order with the step's
  definition; success means they were added, and after an error they were added only when the
  acknowledgement of the commit was lost. The constraints of the schema are kept.
\<close>

theorem creation_atomic:
  assumes "run_state (CreateTransactionWithSteps L ctx tx steps) w = (r, w')" and "db_ok (found w)"
  shows "db_ok (wdb w') \<and> (wdb w' = found w \<and> r \<noteq> Inr () \<or> created tx steps (found w) (wdb w')) \<and>
    (r = Inr () \<longrightarrow> created tx steps (found w) (wdb w')) \<and>
    (r \<noteq> Inr () \<and> \<not> fl_lost (tk_fault (next_tick w)) \<longrightarrow> wdb w' = found w)"
proof -
  let ?F = "case ctx_Err ctx w of Some e \<Rightarrow> \<lparr>fl_at = Some (0, e), fl_lost = False\<rparr> | None \<Rightarrow> tk_fault (next_tick w)"
  have "create_with_steps L tx steps ?F (found w) = (r, wdb w')"
    using assms(1) by (auto simp: CreateTransactionWithSteps_def store_call_def found_def Let_def split: prod.splits)
  from create_cases [OF this assms(2)] show ?thesis
    by (auto split: option.splits)
qed

text \<open>The shop's order, created in empty tables.\<close>

definition order_step :: step where
  "order_step = sample_step\<lparr>st_id := ''s0'', st_tx_id := ''t1'', st_type := StepTypeSync\<rparr>"

theorem creation_atomic_witness:
  "run_state (CreateTransactionWithSteps shop_lib background order_tx [order_step]) idle_world
     = (Inr (), snd (run_state (CreateTransactionWithSteps shop_lib background order_tx [order_step]) idle_world)) \<and>
   created order_tx [order_step] empty_db
     (wdb (snd (run_state (CreateTransactionWithSteps shop_lib background order_tx [order_step]) idle_world)))"
proof -
  let ?run = "run_state (CreateTransactionWithSteps shop_lib background order_tx [order_step]) idle_world"
  have ok: "fst ?run = Inr ()" by code_simp
  have d: "found idle_world = empty_db"
    by (simp add: found_def next_tick_def idle_world_def quiet_tick_def)
  have "db_ok (found idle_world)" by (simp add: d db_ok_def empty_db_def)
  moreover have "?run = (Inr (), snd ?run)" using ok by (metis prod.collapse)
  ultimately show ?thesis
    using creation_atomic [of shop_lib background order_tx "[order_step]" idle_world "Inr ()" "snd ?run"] by (simp add: d)
qed

section \<open>Updates of steps\<close>

text \<open>The updates as operations on the list of steps that a reader gets.\<close>

datatype step_op = SetStatus string step_status string | SetResponse string gomap | AddRetry string

fun run_op :: "stdlib \<Rightarrow> gctx \<Rightarrow> step_op \<Rightarrow> (gerr + unit) prog" where
  "run_op L ctx (SetStatus i st err) = UpdateStepStatus ctx i st err"
| "run_op L ctx (SetResponse i m) = UpdateStepResponse L ctx i m"
| "run_op L ctx (AddRetry i) = IncrementStepRetry ctx i"

fun apply_op :: "int \<Rightarrow> step_op \<Rightarrow> step list \<Rightarrow> step list" where
  "apply_op t (SetStatus i st err) = at_step i (put_status st err t)"
| "apply_op t (SetResponse i m) = at_step i (put_response m)"
| "apply_op t (AddRetry i) = at_step i (\<lambda>s. s\<lparr>st_retry_count := st_retry_count s + 1\<rparr>)"

text \<open>The response is one that the database gives back as it was.\<close>

fun storable :: "stdlib \<Rightarrow> step_op \<Rightarrow> bool" where
  "storable L (SetResponse i m) \<longleftrightarrow> (case marshal_map L m of Inl e \<Rightarrow> False | Inr doc \<Rightarrow> stored_as L m doc)"
| "storable L _ \<longleftrightarrow> True"

lemma need_update:
  assumes "need_row miss k (run_update F what (update_step i f) n d) = (r, d')"
    and "steps_of L (update_step i f d) txID = Inr steps'" and "steps_of L d txID = Inr steps"
  shows "\<exists>s \<in> {steps, steps'}. steps_of L d' txID = Inr s \<and> (r = Inr () \<longrightarrow> s = steps')"
  using assms by (auto simp: need_row_def run_update_def split: option.splits if_splits)

text \<open>
  C18. The store refines a list of steps. Every update of a step, in every run, acts on the steps
  of any saga as the operation on the list does, or not at all: what a reader gets afterwards is the list
  before or the list with exactly that step updated, and success means the latter.
\<close>

theorem step_updates_refine:
  assumes "run_state (run_op L ctx op) w = (r, w')"
    and "storable L op" and "steps_of L (found w) txID = Inr steps"
  shows "\<exists>s \<in> {steps, apply_op (now w) op steps}.
    steps_of L (wdb w') txID = Inr s \<and> (r = Inr () \<longrightarrow> s = apply_op (now w) op steps)"
proof (cases op)
  case (SetStatus i st err)
  have "run_state (store_call ctx (\<lambda>F _ t0 _ d. need_row ''step not found'' i
       (run_update F ''failed to update step status''
          (update_step i (set_step_status st err t0)) (count_step i) d))) w = (r, w')"
    using assms(1) SetStatus by (simp add: UpdateStepStatus_def)
  from store_call_body [OF this] obtain F where "need_row ''step not found'' i
       (run_update F ''failed to update step status''
          (update_step i (set_step_status st err (now w))) (count_step i) (found w)) = (r, wdb w')" by blast
  from need_update [OF this steps_of_status [OF assms(3)] assms(3)] SetStatus show ?thesis by simp
next
  case (SetResponse i m)
  with assms(2) obtain doc where m: "marshal_map L m = Inr doc" and st: "stored_as L m doc"
    by (auto split: sum.splits)
  have "run_state (store_call ctx (\<lambda>F _ _ _ d. need_row ''step not found'' i
     (run_update F ''failed to update step response''
        (update_step i (\<lambda>r. r\<lparr>action_response := Some (jsonb L doc)\<rparr>)) (count_step i) d))) w = (r, w')"
    using assms(1) SetResponse m by (simp add: UpdateStepResponse_def)
  from store_call_body [OF this] obtain F where "need_row ''step not found'' i
     (run_update F ''failed to update step response''
        (update_step i (\<lambda>r. r\<lparr>action_response := Some (jsonb L doc)\<rparr>)) (count_step i) (found w)) = (r, wdb w')"
    by blast
  from need_update [OF this steps_of_response [OF assms(3) st] assms(3)] SetResponse show ?thesis by simp
next
  case (AddRetry i)
  have "run_state (store_call ctx (\<lambda>F _ _ _ d. need_row ''step not found'' i
       (run_update F ''failed to increment step retry''
          (update_step i (\<lambda>r. r\<lparr>st_retry_count := st_retry_count r + 1\<rparr>)) (count_step i) d))) w = (r, w')"
    using assms(1) AddRetry by (simp add: IncrementStepRetry_def)
  from store_call_body [OF this] obtain F where "need_row ''step not found'' i
       (run_update F ''failed to increment step retry''
          (update_step i (\<lambda>r. r\<lparr>st_retry_count := st_retry_count r + 1\<rparr>)) (count_step i) (found w)) = (r, wdb w')"
    by blast
  from need_update [OF this steps_of_retry [OF assms(3)] assms(3)] AddRetry show ?thesis by simp
qed

theorem step_updates_refine_witness:
  "steps_of shop_lib (wdb (snd (run_state (run_op shop_lib background (SetResponse ''s0'' ok_map)) order_world))) ''t1''
     = Inr (apply_op 10 (SetResponse ''s0'' ok_map) order_steps)"
proof -
  let ?run = "run_state (run_op shop_lib background (SetResponse ''s0'' ok_map)) order_world"
  have ok: "fst ?run = Inr ()" "storable shop_lib (SetResponse ''s0'' ok_map)" by code_simp+
  have f: "found order_world = wdb order_world" "now order_world = 10"
    by (simp_all add: found_def next_tick_def order_world_def idle_world_def quiet_tick_def)
  show ?thesis
    using step_updates_refine [of shop_lib background "SetResponse ''s0'' ok_map" order_world "fst ?run" "snd ?run"
        "''t1''" order_steps] ok order_view by (auto simp: f)
qed

section \<open>Listings\<close>

lemma lease_selected_Inr:
  assumes "lease_selected L q c inst lease F t0 t ok sel d = (Inr txs, d')"
  shows "list_all2 (\<lambda>r x. scan_tx L r = Inr x) sel txs"
    and "d' = update_tx (\<lambda>r. tx_id r \<in> tx_id ` set sel) (set_lease inst (t0 + lease) t) d"
  using assms by (auto simp: lease_selected_def Let_def commit_def dest!: scan_rows_map split: option.splits sum.splits if_splits)

lemma set_lease_id [simp]: "tx_id (set_lease inst u t r) = tx_id r"
  by (simp add: set_lease_def)

lemma list_all2_in: "list_all2 P xs ys \<Longrightarrow> y \<in> set ys \<Longrightarrow> \<exists>x \<in> set xs. P x y"
  by (induction xs ys rule: list_all2_induct) auto

lemma pick_rows_distinct: "distinct (map k rows) \<Longrightarrow> distinct (map k (pick_rows n key skip rows))"
  by (simp add: pick_rows_def take_map [symmetric] distinct_map_filter)

lemma sort_filter_distinct: "distinct (map k rows) \<Longrightarrow> distinct (map k (sort_key f (filter P rows)))"
  by (auto simp: distinct_map intro: inj_on_subset)

lemma length_timed_out: "length (timed_out_rows skip t d) \<le> 50"
  unfolding timed_out_rows_def by (rule order_trans [OF length_pick_rows]) simp

lemma pick_rows_sorted: "sorted (map k rows) \<Longrightarrow> sorted (map k (pick_rows n key skip rows))"
  by (simp add: pick_rows_def take_map [symmetric] sorted_filter sorted_wrt_take)

lemma scanned_keys:
  "list_all2 (\<lambda>r x. scan_tx L r = Inr x) sel txs \<Longrightarrow>
   map tx_id txs = map tx_id sel \<and> map timeout_at txs = map timeout_at sel"
  by (induction sel txs rule: list_all2_induct) (auto dest: scan_tx_keys)

text \<open>
  What a listing returns is leased to the caller. When the scan for timed-out
  transactions succeeds, it returns at most 50 running or compensating transactions whose deadline has
  passed and whose lease is free, earliest deadline first and each once; these rows are then leased to
  the instance for the duration it asked for, and all others are as they were.
\<close>

theorem timed_out_leased:
  assumes "run_state (ListTimedOutTransactions L ctx inst lease) w = (Inr txs, w')" and "db_ok (found w)"
  shows "length txs \<le> 50 \<and> distinct (map tx_id txs) \<and> sorted (map (the \<circ> timeout_at) txs) \<and>
    (\<forall>tx \<in> set txs. \<exists>r. find_tx (found w) (tx_id tx) = Some r \<and> scan_tx L r = Inr tx \<and>
       tx_status r \<in> {TxStatusRunning, TxStatusCompensating} \<and> lock_free (now w') r \<and>
       (\<exists>u. timeout_at r = Some u \<and> u < now w')) \<and>
    (\<forall>i. find_tx (wdb w') i = (if i \<in> tx_id ` set txs
       then map_option (set_lease inst (now w + lease) (now w')) (find_tx (found w) i) else find_tx (found w) i))"
proof -
  let ?d = "found w"
  obtain skip F where run: "lease_selected L ''failed to query timed out transactions''
      ''failed to claim timed out transactions'' inst lease F (now w) (now w') True
      (timed_out_rows skip (now w') ?d) ?d = (Inr txs, wdb w')"
    using store_call_body [OF assms(1) [unfolded ListTimedOutTransactions_def]] by blast
  let ?sel = "timed_out_rows skip (now w') ?d"
  note scan = lease_selected_Inr(1) [OF run] and d' = lease_selected_Inr(2) [OF run]
  have ids: "map tx_id txs = map tx_id ?sel" "map timeout_at txs = map timeout_at ?sel"
    using scanned_keys [OF scan] by simp_all
  have keys: "distinct (map tx_id (saga_transactions ?d))" using assms(2) by (simp add: db_ok_def)
  have len: "length txs \<le> 50"
    using list_all2_lengthD [OF scan] length_timed_out [of skip "now w'" ?d] by simp
  have dist: "distinct (map tx_id txs)"
    using keys unfolding ids timed_out_rows_def by (intro pick_rows_distinct sort_filter_distinct)
  have "sorted (map (the \<circ> timeout_at) ?sel)"
    unfolding timed_out_rows_def by (intro pick_rows_sorted) (simp add: comp_def)
  then have srt: "sorted (map (the \<circ> timeout_at) txs)"
    using ids(2) by (metis list.map_comp)
  have each: "\<exists>r. find_tx ?d (tx_id tx) = Some r \<and> scan_tx L r = Inr tx \<and>
       tx_status r \<in> {TxStatusRunning, TxStatusCompensating} \<and> lock_free (now w') r \<and>
       (\<exists>u. timeout_at r = Some u \<and> u < now w')" if tx: "tx \<in> set txs" for tx
  proof -
    obtain r where r: "r \<in> set ?sel" "scan_tx L r = Inr tx"
      using list_all2_in [OF scan tx] by blast
    then have "find_tx ?d (tx_id tx) = Some r"
      using timed_out_rowsD [OF r(1)] scan_tx_keys [OF r(2)] keys by (simp add: find_tx_def find_key_iff)
    with r timed_out_rowsD [OF r(1)] show ?thesis by blast
  qed
  have "tx_id ` set ?sel = tx_id ` set txs" using ids(1) by (metis list.set_map)
  then have after: "find_tx (wdb w') i = (if i \<in> tx_id ` set txs
       then map_option (set_lease inst (now w + lease) (now w')) (find_tx ?d i) else find_tx ?d i)" for i
    by (cases "find_tx ?d i") (auto simp: d' find_tx_update_tx dest: find_txD)
  show ?thesis using len dist srt each after by blast
qed

text \<open>The shop's order, running and past its deadline.\<close>

definition overdue_world :: world where
  "overdue_world = idle_world\<lparr>wdb := empty_db\<lparr>saga_transactions :=
     [order_row\<lparr>tx_status := TxStatusRunning, timeout_at := Some 5\<rparr>]\<rparr>, now := 10\<rparr>"

theorem timed_out_leased_witness:
  "let w' = snd (run_state (ListTimedOutTransactions shop_lib background ''b'' 60) overdue_world) in
   find_tx (wdb w') ''t1'' = map_option (set_lease ''b'' 70 (now w')) (find_tx (wdb overdue_world) ''t1'')"
proof -
  let ?run = "run_state (ListTimedOutTransactions shop_lib background ''b'' 60) overdue_world"
  have r: "\<exists>txs. fst ?run = Inr txs \<and> map tx_id txs = [''t1'']"
  proof (intro exI conjI)
    show "fst ?run = Inr (projr (fst ?run))" "map tx_id (projr (fst ?run)) = [''t1'']" by code_simp+
  qed
  then obtain txs where txs: "?run = (Inr txs, snd ?run)" "map tx_id txs = [''t1'']"
    by (metis prod.collapse)
  have f: "found overdue_world = wdb overdue_world" "now overdue_world = 10"
    by (simp_all add: found_def next_tick_def overdue_world_def idle_world_def quiet_tick_def)
  have ok: "db_ok (wdb overdue_world)"
    by (simp add: overdue_world_def idle_world_def db_ok_def empty_db_def)
  have "''t1'' \<in> tx_id ` set txs" using txs(2) by (metis list.set_intros(1) list.set_map)
  then show ?thesis
    using timed_out_leased [OF txs(1)] ok by (simp add: f Let_def)
qed

end
