(* ===== verification/Saga_Lifecycle.thy ===== *)
theory Saga_Lifecycle
  imports Saga_Coordinator
begin

text \<open>
  The goroutines of a started engine (\<^verbatim>\<open>saga/engine.go\<close>, \<^verbatim>\<open>coordinator.go\<close>, \<^verbatim>\<open>poller.go\<close>): the workers with
  their queue and the set of active transactions, the recovery scan, the timeout scanner, the poll loop
  and the goroutines of its scans, the callers of \<^verbatim>\<open>Submit\<close> and of \<^verbatim>\<open>Stop\<close>, interleaved in any way. What a
  scan or a drive does to the tables is in theories Saga_Coordinator and Saga_Poller.
\<close>

section \<open>Goroutines\<close>

datatype go_thread = Worker nat | Recovery | Timeouts | Polling | Client nat

text \<open>
  Where a goroutine stands: in its \<^verbatim>\<open>select\<close> (a client: outside \<^verbatim>\<open>Submit\<close>), in a scan, in the
  coordinator's \<^verbatim>\<open>Submit\<close> with the transaction marked as active or found not to fit into the queue, in
  \<^verbatim>\<open>driveTransaction\<close>, or gone.
\<close>

datatype go_pc = Waiting | Busy | Marked string | Full string | Driving string | Exited

text \<open>A call of the engine's \<^verbatim>\<open>Stop\<close>: before each of its steps.\<close>

datatype stop_pc =
  Stop_Idle | Stop_Coord | Stop_Coord_Wait | Stop_Poll | Stop_Poll_Wait | Stop_Close | Stop_Done

record life =
  lf_pc :: "go_thread \<Rightarrow> go_pc"
  lf_poll_tasks :: nat
  lf_active :: "string set"
  lf_queue :: "string list"
  lf_cancelled :: bool
  lf_stop_coord :: bool
  lf_stop_poll :: bool
  lf_stop :: "nat \<Rightarrow> stop_pc"
  lf_db_open :: bool
  lf_panicked :: bool

text \<open>An engine after \<^verbatim>\<open>NewEngine\<close>; a goroutine that was not started counts as gone.\<close>

definition new_life :: life where
  "new_life = \<lparr>lf_pc = (\<lambda>t. case t of Client _ \<Rightarrow> Waiting | _ \<Rightarrow> Exited), lf_poll_tasks = 0, lf_active = {},
     lf_queue = [], lf_cancelled = False, lf_stop_coord = False, lf_stop_poll = False,
     lf_stop = (\<lambda>_. Stop_Idle), lf_db_open = True, lf_panicked = False\<rparr>"

definition at_pc :: "go_thread \<Rightarrow> go_pc \<Rightarrow> life \<Rightarrow> life" where
  "at_pc t pc s = s\<lparr>lf_pc := (lf_pc s)(t := pc)\<rparr>"

definition at_stop :: "nat \<Rightarrow> stop_pc \<Rightarrow> life \<Rightarrow> life" where
  "at_stop g pc s = s\<lparr>lf_stop := (lf_stop s)(g := pc)\<rparr>"

definition poller_Start :: "life \<Rightarrow> life" where
  "poller_Start s = at_pc Polling Waiting s"

definition coordinator_Start :: "nat \<Rightarrow> life \<Rightarrow> life" where
  "coordinator_Start workers s = s\<lparr>lf_pc := (\<lambda>t. case t of
     Worker i \<Rightarrow> (if i < workers then Waiting else lf_pc s t) | Recovery \<Rightarrow> Waiting | Timeouts \<Rightarrow> Waiting | _ \<Rightarrow> lf_pc s t)\<rparr>"

definition engine_Start :: "nat \<Rightarrow> life \<Rightarrow> life" where
  "engine_Start workers s = coordinator_Start workers (poller_Start s)"

section \<open>Steps\<close>

text \<open>Who calls the coordinator's \<^verbatim>\<open>Submit\<close>: clients, and the two scans.\<close>

fun may_submit :: "go_thread \<Rightarrow> go_pc \<Rightarrow> bool" where
  "may_submit (Client _) pc \<longleftrightarrow> pc = Waiting"
| "may_submit Recovery pc \<longleftrightarrow> pc = Busy"
| "may_submit Timeouts pc \<longleftrightarrow> pc = Busy"
| "may_submit _ _ \<longleftrightarrow> False"

fun submitted :: "go_thread \<Rightarrow> go_pc" where
  "submitted (Client _) = Waiting"
| "submitted _ = Busy"

fun of_coordinator :: "go_thread \<Rightarrow> bool" where
  "of_coordinator (Worker _) = True"
| "of_coordinator Recovery = True"
| "of_coordinator Timeouts = True"
| "of_coordinator _ = False"

text \<open>A \<^verbatim>\<open>select\<close> with several ready cases takes any of them.\<close>

inductive go_step :: "go_thread \<Rightarrow> life \<Rightarrow> life \<Rightarrow> bool" for t where
  submit: "may_submit t (lf_pc s t) \<Longrightarrow> tx \<notin> lf_active s \<Longrightarrow>
    go_step t s (at_pc t (Marked tx) (s\<lparr>lf_active := insert tx (lf_active s)\<rparr>))"
| submit_active: "may_submit t (lf_pc s t) \<Longrightarrow> tx \<in> lf_active s \<Longrightarrow> go_step t s s"
| send: "lf_pc s t = Marked tx \<Longrightarrow> length (lf_queue s) < queue_capacity \<Longrightarrow>
    go_step t s (at_pc t (submitted t) (s\<lparr>lf_queue := lf_queue s @ [tx]\<rparr>))"
| queue_full: "lf_pc s t = Marked tx \<Longrightarrow> \<not> length (lf_queue s) < queue_capacity \<Longrightarrow>
    go_step t s (at_pc t (Full tx) s)"
| dropped: "lf_pc s t = Full tx \<Longrightarrow>
    go_step t s (at_pc t (submitted t) (s\<lparr>lf_active := lf_active s - {tx}\<rparr>))"
| take_tx: "t = Worker i \<Longrightarrow> lf_pc s t = Waiting \<Longrightarrow> lf_queue s = tx # q \<Longrightarrow>
    go_step t s (at_pc t (Driving tx) (s\<lparr>lf_queue := q\<rparr>))"
| driven: "lf_pc s t = Driving tx \<Longrightarrow>
    go_step t s (at_pc t Waiting (s\<lparr>lf_active := lf_active s - {tx}\<rparr>))"
| coord_exit: "of_coordinator t \<Longrightarrow> lf_pc s t = Waiting \<Longrightarrow> lf_cancelled s \<or> lf_stop_coord s \<Longrightarrow>
    go_step t s (at_pc t Exited s)"
| scan: "t \<in> {Recovery, Timeouts} \<Longrightarrow> lf_pc s t = Waiting \<Longrightarrow> go_step t s (at_pc t Busy s)"
| recovered: "t = Recovery \<Longrightarrow> lf_pc s t = Busy \<Longrightarrow> go_step t s (at_pc t Exited s)"
| scanned: "t = Timeouts \<Longrightarrow> lf_pc s t = Busy \<Longrightarrow> go_step t s (at_pc t Waiting s)"
| poll_exit: "t = Polling \<Longrightarrow> lf_pc s t = Waiting \<Longrightarrow> lf_cancelled s \<or> lf_stop_poll s \<Longrightarrow>
    go_step t s (at_pc t Exited s)"
| poll_scan: "t = Polling \<Longrightarrow> lf_pc s t = Waiting \<Longrightarrow> go_step t s (at_pc t Busy (s\<lparr>lf_poll_tasks := n\<rparr>))"
| poll_task: "t = Polling \<Longrightarrow> lf_pc s t = Busy \<Longrightarrow> lf_poll_tasks s = Suc n \<Longrightarrow> go_step t s (s\<lparr>lf_poll_tasks := n\<rparr>)"
| polled: "t = Polling \<Longrightarrow> lf_pc s t = Busy \<Longrightarrow> lf_poll_tasks s = 0 \<Longrightarrow> go_step t s (at_pc t Waiting s)"

text \<open>Closing a closed channel panics.\<close>

inductive stop_step :: "nat \<Rightarrow> life \<Rightarrow> life \<Rightarrow> bool" for g where
  stop: "lf_stop s g = Stop_Idle \<Longrightarrow> stop_step g s (at_stop g Stop_Coord (s\<lparr>lf_cancelled := True\<rparr>))"
| close_coord: "lf_stop s g = Stop_Coord \<Longrightarrow> \<not> lf_stop_coord s \<Longrightarrow>
    stop_step g s (at_stop g Stop_Coord_Wait (s\<lparr>lf_stop_coord := True\<rparr>))"
| panic_coord: "lf_stop s g = Stop_Coord \<Longrightarrow> lf_stop_coord s \<Longrightarrow> stop_step g s (s\<lparr>lf_panicked := True\<rparr>)"
| coord_waited: "lf_stop s g = Stop_Coord_Wait \<Longrightarrow> (\<And>t. of_coordinator t \<Longrightarrow> lf_pc s t = Exited) \<Longrightarrow>
    stop_step g s (at_stop g Stop_Poll s)"
| close_poll: "lf_stop s g = Stop_Poll \<Longrightarrow> \<not> lf_stop_poll s \<Longrightarrow>
    stop_step g s (at_stop g Stop_Poll_Wait (s\<lparr>lf_stop_poll := True\<rparr>))"
| panic_poll: "lf_stop s g = Stop_Poll \<Longrightarrow> lf_stop_poll s \<Longrightarrow> stop_step g s (s\<lparr>lf_panicked := True\<rparr>)"
| poll_waited: "lf_stop s g = Stop_Poll_Wait \<Longrightarrow> lf_pc s Polling = Exited \<Longrightarrow> stop_step g s (at_stop g Stop_Close s)"
| close_db: "lf_stop s g = Stop_Close \<Longrightarrow> stop_step g s (at_stop g Stop_Done (s\<lparr>lf_db_open := False\<rparr>))"

text \<open>The context that was given to \<^verbatim>\<open>Start\<close> may be cancelled by the program; a panic ends everything.\<close>

inductive life_step :: "life \<Rightarrow> life \<Rightarrow> bool" where
  go: "\<not> lf_panicked s \<Longrightarrow> go_step t s s' \<Longrightarrow> life_step s s'"
| stopping: "\<not> lf_panicked s \<Longrightarrow> stop_step g s s' \<Longrightarrow> life_step s s'"
| cancel: "\<not> lf_panicked s \<Longrightarrow> life_step s (s\<lparr>lf_cancelled := True\<rparr>)"

definition life_reachable :: "nat \<Rightarrow> life \<Rightarrow> bool" where
  "life_reachable workers s \<longleftrightarrow> life_step\<^sup>*\<^sup>* (engine_Start workers new_life) s"

lemma at_pc_simps [simp]:
  "lf_pc (at_pc t pc s) = (lf_pc s)(t := pc)" "lf_poll_tasks (at_pc t pc s) = lf_poll_tasks s"
  "lf_active (at_pc t pc s) = lf_active s" "lf_queue (at_pc t pc s) = lf_queue s"
  "lf_cancelled (at_pc t pc s) = lf_cancelled s" "lf_stop_coord (at_pc t pc s) = lf_stop_coord s"
  "lf_stop_poll (at_pc t pc s) = lf_stop_poll s" "lf_stop (at_pc t pc s) = lf_stop s"
  "lf_db_open (at_pc t pc s) = lf_db_open s" "lf_panicked (at_pc t pc s) = lf_panicked s"
  by (simp_all add: at_pc_def)

lemma at_stop_simps [simp]:
  "lf_pc (at_stop g pc s) = lf_pc s" "lf_poll_tasks (at_stop g pc s) = lf_poll_tasks s"
  "lf_active (at_stop g pc s) = lf_active s" "lf_queue (at_stop g pc s) = lf_queue s"
  "lf_cancelled (at_stop g pc s) = lf_cancelled s" "lf_stop_coord (at_stop g pc s) = lf_stop_coord s"
  "lf_stop_poll (at_stop g pc s) = lf_stop_poll s" "lf_stop (at_stop g pc s) = (lf_stop s)(g := pc)"
  "lf_db_open (at_stop g pc s) = lf_db_open s" "lf_panicked (at_stop g pc s) = lf_panicked s"
  by (simp_all add: at_stop_def)

section \<open>One place for each transaction\<close>

fun held :: "go_pc \<Rightarrow> string option" where
  "held (Marked tx) = Some tx" | "held (Full tx) = Some tx" | "held (Driving tx) = Some tx" | "held _ = None"

text \<open>\<open>H\<close> says which transaction a goroutine holds, \<open>q\<close> is the queue, \<open>A\<close> the set of active ones.\<close>

definition placed :: "(go_thread \<Rightarrow> string option) \<Rightarrow> string list \<Rightarrow> string set \<Rightarrow> bool" where
  "placed H q A \<longleftrightarrow> inj_on H (dom H) \<and> distinct q \<and> ran H \<inter> set q = {} \<and> A = set q \<union> ran H \<and>
     length q \<le> queue_capacity"

definition places_ok :: "life \<Rightarrow> bool" where
  "places_ok s \<longleftrightarrow> placed (\<lambda>t. held (lf_pc s t)) (lf_queue s) (lf_active s)"

lemma one_holder:
  assumes "inj_on H (dom H)" and "H t = Some tx"
  shows "ran (H(t := None)) = ran H - {tx} \<and> inj_on (H(t := None)) (dom (H(t := None))) \<and> tx \<in> ran H"
proof -
  have one: "t' = t" if "H t' = Some tx" for t'
    using inj_onD [OF assms(1), of t' t] assms(2) that by (simp add: domI)
  have "x \<in> ran (H(t := None)) \<longleftrightarrow> x \<in> ran H - {tx}" for x
  proof
    assume "x \<in> ran (H(t := None))"
    then obtain a where "a \<noteq> t" "H a = Some x" by (auto simp: ran_def split: if_splits)
    with one show "x \<in> ran H - {tx}" by (auto intro: ranI)
  next
    assume "x \<in> ran H - {tx}"
    then obtain a where "H a = Some x" "x \<noteq> tx" by (auto simp: ran_def)
    with assms(2) have "(H(t := None)) a = Some x" by auto
    then show "x \<in> ran (H(t := None))" by (rule ranI)
  qed
  then have "ran (H(t := None)) = ran H - {tx}" by blast
  with assms show ?thesis by (auto simp: inj_on_def ranI)
qed

lemma new_holder:
  assumes "inj_on H (dom H)" and "H t = None" and "tx \<notin> ran H"
  shows "ran (H(t := Some tx)) = insert tx (ran H) \<and> inj_on (H(t := Some tx)) (dom (H(t := Some tx)))"
proof -
  have "ran (H(t := Some tx)) = insert tx (ran H)" using assms(2) by (rule ran_map_upd)
  with assms show ?thesis by (auto simp: inj_on_def ran_def)
qed

lemma placed_mark: "placed H q A \<Longrightarrow> H t = None \<Longrightarrow> tx \<notin> A \<Longrightarrow> placed (H(t := Some tx)) q (insert tx A)"
  using new_holder [of H t tx] by (auto simp: placed_def simp del: fun_upd_apply)

lemma placed_send:
  "placed H q A \<Longrightarrow> H t = Some tx \<Longrightarrow> length q < queue_capacity \<Longrightarrow> placed (H(t := None)) (q @ [tx]) A"
  using one_holder [of H t tx] by (auto simp: placed_def simp del: fun_upd_apply)

lemma placed_drop: "placed H q A \<Longrightarrow> H t = Some tx \<Longrightarrow> placed (H(t := None)) q (A - {tx})"
  using one_holder [of H t tx] by (auto simp: placed_def simp del: fun_upd_apply)

lemma placed_take: "placed H (tx # q) A \<Longrightarrow> H t = None \<Longrightarrow> placed (H(t := Some tx)) q A"
  using new_holder [of H t tx] by (auto simp: placed_def simp del: fun_upd_apply)

lemma held_upd [simp]: "(\<lambda>t'. held ((f(t := pc)) t')) = (\<lambda>t'. held (f t'))(t := held pc)"
  by auto

lemma held_submitted [simp]: "held (submitted t) = None"
  by (cases t) simp_all

lemma may_submit_held: "may_submit t pc \<Longrightarrow> held pc = None"
  by (cases "(t, pc)" rule: may_submit.cases) simp_all

text \<open>A goroutine that holds as much as before changes nothing.\<close>

lemma placed_same: "placed H q A \<Longrightarrow> H t = h \<Longrightarrow> placed (H(t := h)) q A"
  by (simp add: fun_upd_idem)

lemma go_keeps_places: "go_step t s s' \<Longrightarrow> places_ok s \<Longrightarrow> places_ok s'"
  unfolding places_ok_def
  by (induction rule: go_step.induct)
     (auto simp del: fun_upd_apply intro: placed_mark placed_send placed_drop placed_take placed_same may_submit_held)

lemma stop_keeps_places: "stop_step g s s' \<Longrightarrow> places_ok s \<Longrightarrow> places_ok s'"
  by (induction rule: stop_step.induct) (simp_all add: places_ok_def)

lemma started_pc:
  "lf_pc (engine_Start workers new_life) t = (case t of
     Worker i \<Rightarrow> if i < workers then Waiting else Exited | _ \<Rightarrow> Waiting)"
  by (simp add: engine_Start_def coordinator_Start_def poller_Start_def at_pc_def new_life_def split: go_thread.split)

lemma started_rest:
  "lf_queue (engine_Start workers new_life) = []" "lf_active (engine_Start workers new_life) = {}"
  "lf_poll_tasks (engine_Start workers new_life) = 0" "lf_stop (engine_Start workers new_life) g = Stop_Idle"
  "\<not> lf_stop_coord (engine_Start workers new_life)" "\<not> lf_stop_poll (engine_Start workers new_life)"
  "lf_db_open (engine_Start workers new_life)" "\<not> lf_panicked (engine_Start workers new_life)"
  by (simp_all add: engine_Start_def coordinator_Start_def poller_Start_def at_pc_def new_life_def)

lemma places_started: "places_ok (engine_Start workers new_life)"
proof -
  have "(\<lambda>t. held (lf_pc (engine_Start workers new_life) t)) = (\<lambda>_. None)"
    by (auto simp: started_pc fun_eq_iff split: go_thread.splits)
  then show ?thesis by (simp add: places_ok_def placed_def started_rest)
qed

section \<open>Stopping\<close>

text \<open>How far the calls of \<^verbatim>\<open>Stop\<close> have come, and what has ended then.\<close>

fun past_coord :: "stop_pc \<Rightarrow> bool" where
  "past_coord Stop_Idle = False" | "past_coord Stop_Coord = False" | "past_coord Stop_Coord_Wait = False"
| "past_coord _ = True"

fun past_poll :: "stop_pc \<Rightarrow> bool" where
  "past_poll Stop_Close = True" | "past_poll Stop_Done = True" | "past_poll _ = False"

fun closed_coord :: "stop_pc \<Rightarrow> bool" where
  "closed_coord Stop_Idle = False" | "closed_coord Stop_Coord = False" | "closed_coord _ = True"

fun closed_poll :: "stop_pc \<Rightarrow> bool" where
  "closed_poll Stop_Poll_Wait = True" | "closed_poll Stop_Close = True" | "closed_poll Stop_Done = True"
| "closed_poll _ = False"

definition stop_ok :: "life \<Rightarrow> bool" where
  "stop_ok s \<longleftrightarrow>
     (\<forall>g. past_coord (lf_stop s g) \<longrightarrow> (\<forall>t. of_coordinator t \<longrightarrow> lf_pc s t = Exited)) \<and>
     (\<forall>g. past_poll (lf_stop s g) \<longrightarrow> lf_pc s Polling = Exited) \<and>
     (\<not> lf_db_open s \<longleftrightarrow> (\<exists>g. lf_stop s g = Stop_Done)) \<and>
     (lf_poll_tasks s \<noteq> 0 \<longrightarrow> lf_pc s Polling = Busy) \<and>
     (\<forall>g. lf_stop s g \<noteq> Stop_Idle \<longrightarrow> lf_cancelled s)"

text \<open>One call of \<^verbatim>\<open>Stop\<close> closes the channels.\<close>

definition closed_by :: "nat \<Rightarrow> life \<Rightarrow> bool" where
  "closed_by g s \<longleftrightarrow> lf_stop_coord s \<and> closed_coord (lf_stop s g) \<and>
     (\<forall>g'. g' \<noteq> g \<longrightarrow> \<not> closed_coord (lf_stop s g')) \<and> (lf_stop_poll s \<longleftrightarrow> closed_poll (lf_stop s g))"

definition close_ok :: "life \<Rightarrow> bool" where
  "close_ok s \<longleftrightarrow> (\<not> lf_stop_coord s \<and> \<not> lf_stop_poll s \<and> (\<forall>g. \<not> closed_coord (lf_stop s g))) \<or> (\<exists>g. closed_by g s)"

lemma stop_started: "stop_ok (engine_Start workers new_life)"
  by (simp add: stop_ok_def started_rest)

lemma exited_stays:
  assumes "go_step t s s'" and "lf_pc s t' = Exited" and "of_coordinator t' \<or> t' = Polling"
  shows "lf_pc s' t' = Exited"
  using assms by cases (auto elim: may_submit.elims)

lemma go_keeps_stop:
  assumes step: "go_step t s s'" and ok: "stop_ok s"
  shows "stop_ok s'"
proof -
  have frame: "lf_stop s' = lf_stop s" "lf_db_open s' = lf_db_open s" "lf_stop_coord s' = lf_stop_coord s"
    "lf_stop_poll s' = lf_stop_poll s" "lf_cancelled s' = lf_cancelled s"
    using step by (cases; simp)+
  have tasks: "lf_poll_tasks s' \<noteq> 0 \<longrightarrow> lf_pc s' Polling = Busy"
    using step ok by cases (auto simp: stop_ok_def elim: may_submit.elims)
  show ?thesis
    using ok tasks exited_stays [OF step] unfolding stop_ok_def frame by blast
qed

lemma stop_okD:
  assumes "stop_ok s"
  shows "past_coord (lf_stop s g) \<Longrightarrow> of_coordinator t \<Longrightarrow> lf_pc s t = Exited"
    and "past_poll (lf_stop s g) \<Longrightarrow> lf_pc s Polling = Exited"
    and "\<not> lf_db_open s \<longleftrightarrow> (\<exists>g. lf_stop s g = Stop_Done)"
    and "lf_poll_tasks s \<noteq> 0 \<Longrightarrow> lf_pc s Polling = Busy"
  using assms unfolding stop_ok_def by blast+

lemma stop_keeps_stop:
  assumes step: "stop_step g s s'" and ok: "stop_ok s"
  shows "stop_ok s'"
proof -
  have frame: "lf_pc s' = lf_pc s" "lf_poll_tasks s' = lf_poll_tasks s" "\<And>g'. g' \<noteq> g \<Longrightarrow> lf_stop s' g' = lf_stop s g'"
    "lf_cancelled s \<Longrightarrow> lf_cancelled s'"
    using step by (cases; simp)+
  have own: "past_coord (lf_stop s' g) \<Longrightarrow> of_coordinator t \<Longrightarrow> lf_pc s t = Exited"
    "past_poll (lf_stop s' g) \<Longrightarrow> lf_pc s Polling = Exited" for t
    using step stop_okD(1) [OF ok, of g t] stop_okD(2) [OF ok, of g] by (cases; simp)+
  have "lf_stop s g \<noteq> Stop_Done" "\<not> lf_db_open s' \<longleftrightarrow> lf_stop s' g = Stop_Done \<or> \<not> lf_db_open s"
    using step by (cases; simp)+
  then have db: "\<not> lf_db_open s' \<longleftrightarrow> (\<exists>g. lf_stop s' g = Stop_Done)"
    using stop_okD(3) [OF ok] frame(3) by metis
  have cancelled: "lf_stop s' g \<noteq> Stop_Idle \<Longrightarrow> lf_cancelled s'"
    using step ok by cases (auto simp: stop_ok_def)
  have "past_coord (lf_stop s' g') \<Longrightarrow> of_coordinator t \<Longrightarrow> lf_pc s t = Exited"
    "past_poll (lf_stop s' g') \<Longrightarrow> lf_pc s Polling = Exited" for g' t
    using own frame(3) [of g'] stop_okD(1,2) [OF ok, of g'] by (cases "g' = g"; simp)+
  moreover have "lf_stop s' g' \<noteq> Stop_Idle \<Longrightarrow> lf_cancelled s'" for g'
    using cancelled frame(3,4) ok by (cases "g' = g") (auto simp: stop_ok_def)
  ultimately show ?thesis
    using db stop_okD(4) [OF ok] by (auto simp: stop_ok_def frame(1,2))
qed

lemma go_keeps_close: "go_step t s s' \<Longrightarrow> close_ok s \<Longrightarrow> close_ok s'"
  by (induction rule: go_step.induct) (simp_all add: close_ok_def closed_by_def)

lemma stop_keeps_close:
  assumes step: "stop_step g s s'" and ok: "close_ok s"
  shows "close_ok s'"
proof (cases "lf_stop_coord s")
  case False
  with ok have "\<not> lf_stop_poll s" "\<not> closed_coord (lf_stop s g')" for g'
    by (auto simp: close_ok_def closed_by_def)
  note this(1) this(2) [of g] this(2)
  with step False show ?thesis by cases (auto simp: close_ok_def closed_by_def)
next
  case True
  with ok obtain h where h: "closed_by h s" by (auto simp: close_ok_def)
  have "closed_by h s'"
  proof (cases "closed_coord (lf_stop s g)")
    case same: True
    with h have "g = h" by (auto simp: closed_by_def)
    with step h same show ?thesis by cases (simp_all add: closed_by_def)
  next
    case False
    with h have "g \<noteq> h" by (auto simp: closed_by_def)
    with step h False True show ?thesis by cases (simp_all add: closed_by_def)
  qed
  then show ?thesis by (auto simp: close_ok_def)
qed

lemma life_reachable_ok: "life_reachable workers s \<Longrightarrow> places_ok s \<and> stop_ok s \<and> close_ok s"
  unfolding life_reachable_def
proof (induction rule: rtranclp_induct)
  case base
  show ?case by (simp add: places_started stop_started close_ok_def started_rest)
next
  case (step s s')
  from step(2) show ?case
  proof cases
    case (go t)
    with step(3) show ?thesis using go_keeps_places go_keeps_stop go_keeps_close by blast
  next
    case (stopping g)
    with step(3) show ?thesis using stop_keeps_places stop_keeps_stop stop_keeps_close by blast
  next
    case cancel
    with step(3) show ?thesis by (auto simp: places_ok_def stop_ok_def close_ok_def closed_by_def)
  qed
qed

section \<open>Properties\<close>

text \<open>
  C34. The engine drives a transaction once at a time. However submissions, workers, scans and calls of
  \<^verbatim>\<open>Stop\<close> interleave, no two workers of an instance drive the same transaction, none that is being driven is in the
  queue, the queue holds none twice and never more than its 1000 places, and the active transactions are exactly
  those in the queue, with a worker or inside \<^verbatim>\<open>Submit\<close>, so none is left marked as active for ever.
\<close>

theorem driven_once:
  assumes "life_reachable workers s"
  shows "(\<forall>i j tx. lf_pc s (Worker i) = Driving tx \<longrightarrow> lf_pc s (Worker j) = Driving tx \<longrightarrow> i = j) \<and>
    (\<forall>i tx. lf_pc s (Worker i) = Driving tx \<longrightarrow> tx \<notin> set (lf_queue s)) \<and>
    distinct (lf_queue s) \<and> length (lf_queue s) \<le> 1000 \<and>
    lf_active s = set (lf_queue s) \<union> {tx. \<exists>t. lf_pc s t \<in> {Marked tx, Full tx, Driving tx}}"
proof -
  have P: "placed (\<lambda>t. held (lf_pc s t)) (lf_queue s) (lf_active s)"
    using life_reachable_ok [OF assms] by (simp add: places_ok_def)
  have held: "held pc = Some tx \<longleftrightarrow> pc \<in> {Marked tx, Full tx, Driving tx}" for pc tx
    by (cases pc) auto
  have ran: "ran (\<lambda>t. held (lf_pc s t)) = {tx. \<exists>t. lf_pc s t \<in> {Marked tx, Full tx, Driving tx}}"
    by (simp only: ran_def held)
  have "i = j" if "lf_pc s (Worker i) = Driving tx" "lf_pc s (Worker j) = Driving tx" for i j tx
    using P that inj_onD [of "\<lambda>t. held (lf_pc s t)" _ "Worker i" "Worker j"] by (auto simp: placed_def domIff)
  with P show ?thesis
    by (auto simp: placed_def ran queue_capacity_def)
qed

text \<open>
  A run: a client submits a transaction, which a worker takes, and a second client another one; the database is
  closed by a call of \<^verbatim>\<open>Stop\<close> that waits for the worker.
\<close>

definition sample_life :: life where
  "sample_life = (let s0 = engine_Start 2 new_life;
     s1 = at_pc (Client 0) (Marked ''t1'') (s0\<lparr>lf_active := insert ''t1'' (lf_active s0)\<rparr>);
     s2 = at_pc (Client 0) Waiting (s1\<lparr>lf_queue := lf_queue s1 @ [''t1'']\<rparr>);
     s3 = at_pc (Worker 0) (Driving ''t1'') (s2\<lparr>lf_queue := []\<rparr>)
     in at_pc (Client 1) (Marked ''t2'') (s3\<lparr>lf_active := insert ''t2'' (lf_active s3)\<rparr>))"

definition sample_stopping :: life where
  "sample_stopping = at_stop 0 Stop_Coord (sample_life\<lparr>lf_cancelled := True\<rparr>)"

lemma life_go: "life_reachable n s \<Longrightarrow> \<not> lf_panicked s \<Longrightarrow> go_step t s s' \<Longrightarrow> life_reachable n s'"
  unfolding life_reachable_def by (blast intro: rtranclp.rtrancl_into_rtrancl life_step.go)

lemma life_stop: "life_reachable n s \<Longrightarrow> \<not> lf_panicked s \<Longrightarrow> stop_step g s s' \<Longrightarrow> life_reachable n s'"
  unfolding life_reachable_def by (blast intro: rtranclp.rtrancl_into_rtrancl life_step.stopping)

text \<open>
  C35. The Submit of the sequential coordinator is an uninterrupted run of these steps: with the same
  queue and the same active transactions, the caller's own steps end in the queue and the active transactions
  that Submit leaves, its result says whether the transaction was put into the queue, and it can be called again.
\<close>

theorem submit_refines:
  assumes idle: "lf_pc s (Client c) = Waiting"
    and same: "lf_active s = set (activeTx w)" "lf_queue s = taskQueue w"
  shows "\<exists>s'. (go_step (Client c))\<^sup>*\<^sup>* s s' \<and> lf_pc s' (Client c) = Waiting \<and>
    lf_active s' = set (activeTx (snd (run_state (coord_Submit tx) w))) \<and>
    lf_queue s' = taskQueue (snd (run_state (coord_Submit tx) w)) \<and>
    fst (run_state (coord_Submit tx) w) = (lf_queue s' = lf_queue s @ [tx])"
proof (cases "tx \<in> set (activeTx w)")
  case True
  with assms have "run_state (coord_Submit tx) w = (False, w)" by (simp add: coord_Submit_def)
  with assms show ?thesis by (auto intro!: exI [of _ s])
next
  case False
  let ?s1 = "at_pc (Client c) (Marked tx) (s\<lparr>lf_active := insert tx (lf_active s)\<rparr>)"
  have s1: "go_step (Client c) s ?s1" using idle same False by (intro go_step.submit) simp_all
  have marked: "lf_pc ?s1 (Client c) = Marked tx" by simp
  show ?thesis
  proof (cases "length (taskQueue w) < queue_capacity")
    case True
    with same have "length (lf_queue ?s1) < queue_capacity" by simp
    from go_step.send [OF marked this] s1 have
      "(go_step (Client c))\<^sup>*\<^sup>* s (at_pc (Client c) (submitted (Client c)) (?s1\<lparr>lf_queue := lf_queue ?s1 @ [tx]\<rparr>))"
      by (blast intro: converse_rtranclp_into_rtranclp)
    note run = this
    show ?thesis by (intro exI conjI, rule run) (use True False same in \<open>simp_all add: coord_Submit_def\<close>)
  next
    case full: False
    let ?s2 = "at_pc (Client c) (Full tx) ?s1"
    from full same have "\<not> length (lf_queue ?s1) < queue_capacity" by simp
    from go_step.queue_full [OF marked this] have s2: "go_step (Client c) ?s1 ?s2" .
    have "lf_pc ?s2 (Client c) = Full tx" by simp
    from go_step.dropped [OF this] s1 s2 have
      "(go_step (Client c))\<^sup>*\<^sup>* s (at_pc (Client c) (submitted (Client c)) (?s2\<lparr>lf_active := lf_active ?s2 - {tx}\<rparr>))"
      by (blast intro: converse_rtranclp_into_rtranclp)
    note run = this
    show ?thesis by (intro exI conjI, rule run) (use full False same in \<open>simp_all add: coord_Submit_def\<close>)
  qed
qed

lemma submit_refines_witness:
  "\<exists>s'. (go_step (Client 0))\<^sup>*\<^sup>* (engine_Start 1 new_life) s' \<and> lf_pc s' (Client 0) = Waiting \<and>
    lf_active s' = {''t1''} \<and> lf_queue s' = [''t1'']"
proof -
  have "lf_pc (engine_Start 1 new_life) (Client 0) = Waiting" by (simp add: started_pc)
  from submit_refines [OF this, of idle_world "''t1''"] show ?thesis
    by (simp add: started_rest coord_Submit_def idle_world_def queue_capacity_def)
qed

lemma life_started: "life_reachable n (engine_Start n new_life)"
  by (simp add: life_reachable_def)

lemma sample_life_reachable: "life_reachable 2 sample_life"
  unfolding sample_life_def Let_def
  apply (rule life_go [where t = "Client 1"])
    apply (rule life_go [where t = "Worker 0"])
      apply (rule life_go [where t = "Client 0"])
        apply (rule life_go [where t = "Client 0"])
          apply (rule life_started)
         apply (simp add: started_rest)
        apply (rule go_step.submit; simp add: started_pc started_rest)
       apply (simp add: started_rest)
      apply (rule go_step.send [where t = "Client 0", simplified]; simp add: started_rest queue_capacity_def)
     apply (simp add: started_rest)
    apply (rule go_step.take_tx [OF refl]; simp add: started_pc started_rest)
   apply (simp add: started_rest)
  apply (rule go_step.submit; simp add: started_pc started_rest)
  done

lemma sample_stopping_reachable: "life_reachable 2 sample_stopping"
  unfolding sample_stopping_def
  by (rule life_stop [OF sample_life_reachable _ stop_step.stop [where g = 0]])
     (simp_all add: sample_life_def Let_def started_rest)

lemma driven_once_witness:
  "lf_pc sample_life (Worker 0) = Driving ''t1'' \<and> ''t1'' \<notin> set (lf_queue sample_life) \<and>
   distinct (lf_queue sample_life) \<and> length (lf_queue sample_life) \<le> 1000"
proof -
  have "lf_pc sample_life (Worker 0) = Driving ''t1''" by (simp add: sample_life_def Let_def)
  with driven_once [OF sample_life_reachable] show ?thesis by blast
qed

text \<open>A panic takes two calls of \<^verbatim>\<open>Stop\<close>.\<close>

definition panic_ok :: "life \<Rightarrow> bool" where
  "panic_ok s \<longleftrightarrow> (lf_panicked s \<longrightarrow>
     (\<exists>g g'. g \<noteq> g' \<and> lf_stop s g = Stop_Coord \<and> lf_stop s g' \<notin> {Stop_Idle, Stop_Coord}))"

lemma life_reachable_panic: "life_reachable workers s \<Longrightarrow> panic_ok s"
  unfolding life_reachable_def
proof (induction rule: rtranclp_induct)
  case base
  show ?case by (simp add: panic_ok_def started_rest)
next
  case (step s s')
  from step(1) have ok: "close_ok s" using life_reachable_ok by (simp add: life_reachable_def)
  from step(2) show ?case
  proof cases
    case (go t)
    from go(2,1) have "\<not> lf_panicked s'" by cases simp_all
    then show ?thesis by (simp add: panic_ok_def)
  next
    case (stopping g)
    from stopping(2) show ?thesis
    proof cases
      case panic_coord
      with ok obtain h where h: "closed_coord (lf_stop s h)" by (auto simp: close_ok_def closed_by_def)
      then have "h \<noteq> g" "lf_stop s h \<notin> {Stop_Idle, Stop_Coord}" using panic_coord by auto
      then have "g \<noteq> h \<and> lf_stop s g = Stop_Coord \<and> lf_stop s h \<notin> {Stop_Idle, Stop_Coord}"
        using panic_coord by blast
      then show ?thesis unfolding panic_ok_def panic_coord(1) by auto
    next
      case panic_poll
      with ok obtain h where h: "closed_by h s" by (auto simp: close_ok_def)
      then have "g = h" using panic_poll by (auto simp: closed_by_def)
      with h panic_poll show ?thesis by (simp add: closed_by_def)
    qed (use stopping(1) in \<open>simp_all add: panic_ok_def\<close>)
  next
    case cancel
    then show ?thesis by (simp add: panic_ok_def)
  qed
qed

text \<open>
  C36. \<^verbatim>\<open>Stop\<close> closes the database only after everything has ended. In any interleaving, when the
  database is closed no worker, scan, poll loop or poll of the engine is running any more. \<^verbatim>\<open>Stop\<close> panics
  only when it is called a second time, and then it always does.
\<close>

theorem stop_ends_everything:
  assumes "life_reachable workers s"
  shows "(\<not> lf_db_open s \<longrightarrow> (\<forall>t. of_coordinator t \<or> t = Polling \<longrightarrow> lf_pc s t = Exited) \<and> lf_poll_tasks s = 0) \<and>
    (lf_panicked s \<longrightarrow> (\<exists>g g'. g \<noteq> g' \<and> lf_stop s g \<noteq> Stop_Idle \<and> lf_stop s g' \<noteq> Stop_Idle)) \<and>
    (\<forall>g g' s'. lf_stop s g = Stop_Done \<and> lf_stop s g' = Stop_Coord \<and> stop_step g' s s' \<longrightarrow> lf_panicked s')"
proof -
  note ok = life_reachable_ok [OF assms] and panic = life_reachable_panic [OF assms]
  have ended: "(\<forall>t. of_coordinator t \<or> t = Polling \<longrightarrow> lf_pc s t = Exited) \<and> lf_poll_tasks s = 0" if "\<not> lf_db_open s"
  proof -
    from stop_okD(3) [of s] that ok obtain g where "lf_stop s g = Stop_Done" by blast
    with stop_okD(1,2) [of s g] stop_okD(4) [of s] ok show ?thesis by auto
  qed
  have again: "lf_panicked s'" if "lf_stop s g = Stop_Done" "lf_stop s g' = Stop_Coord" "stop_step g' s s'" for g g' s'
  proof -
    have "lf_stop_coord s" using ok that(1) by (metis close_ok_def closed_by_def closed_coord.simps(7))
    with that(3,2) show ?thesis by cases simp_all
  qed
  show ?thesis using ended again panic unfolding panic_ok_def by fastforce
qed

text \<open>An engine without workers, stopped, and \<^verbatim>\<open>Stop\<close> called once more.\<close>

definition sample_stopped :: life where
  "sample_stopped = (let s0 = engine_Start 0 new_life;
     s1 = at_stop 0 Stop_Coord (s0\<lparr>lf_cancelled := True\<rparr>);
     s2 = at_stop 0 Stop_Coord_Wait (s1\<lparr>lf_stop_coord := True\<rparr>);
     s3 = at_pc Timeouts Exited (at_pc Recovery Exited s2);
     s4 = at_stop 0 Stop_Poll_Wait ((at_stop 0 Stop_Poll s3)\<lparr>lf_stop_poll := True\<rparr>);
     s5 = at_stop 0 Stop_Close (at_pc Polling Exited s4);
     s6 = at_stop 0 Stop_Done (s5\<lparr>lf_db_open := False\<rparr>)
     in at_stop 1 Stop_Coord (s6\<lparr>lf_cancelled := True\<rparr>))"

lemma sample_stopped_reachable: "life_reachable 0 sample_stopped"
  unfolding sample_stopped_def Let_def
  apply (rule life_stop [OF _ _ stop_step.stop], rule life_stop [OF _ _ stop_step.close_db],
      rule life_stop [OF _ _ stop_step.poll_waited], rule life_go [OF _ _ go_step.poll_exit [OF refl]],
      rule life_stop [OF _ _ stop_step.close_poll], rule life_stop [OF _ _ stop_step.coord_waited],
      rule life_go [OF _ _ go_step.coord_exit], rule life_go [OF _ _ go_step.coord_exit],
      rule life_stop [OF _ _ stop_step.close_coord], rule life_stop [OF _ _ stop_step.stop], rule life_started)
                      apply (simp_all add: started_rest started_pc)
  subgoal for t by (cases t) (simp_all add: started_pc)
  done

lemma stop_ends_everything_witness:
  "\<not> lf_db_open sample_stopped \<and> lf_pc sample_stopped Polling = Exited \<and>
   lf_panicked (sample_stopped\<lparr>lf_panicked := True\<rparr>) \<and> stop_step 1 sample_stopped (sample_stopped\<lparr>lf_panicked := True\<rparr>)"
proof -
  note ends = stop_ends_everything [OF sample_stopped_reachable]
  have closed: "\<not> lf_db_open sample_stopped" by (simp add: sample_stopped_def Let_def)
  have pcs: "lf_stop sample_stopped 0 = Stop_Done" "lf_stop sample_stopped 1 = Stop_Coord" "lf_stop_coord sample_stopped"
    by (simp_all add: sample_stopped_def Let_def)
  from stop_step.panic_coord [OF pcs(2,3)] have "stop_step 1 sample_stopped (sample_stopped\<lparr>lf_panicked := True\<rparr>)" .
  with ends closed pcs show ?thesis by blast
qed

section \<open>Stop comes back\<close>

text \<open>Workers neither scan nor submit; there are no more than were started.\<close>

definition workers_ok :: "nat \<Rightarrow> life \<Rightarrow> bool" where
  "workers_ok n s \<longleftrightarrow> (\<forall>i. lf_pc s (Worker i) \<in> {Waiting, Exited} \<union> range Driving \<and> (n \<le> i \<longrightarrow> lf_pc s (Worker i) = Exited))"

lemma go_keeps_workers:
  assumes step: "go_step t s s'" and ok: "workers_ok n s"
  shows "workers_ok n s'"
  unfolding workers_ok_def
proof
  fix i
  have i: "lf_pc s (Worker i) \<in> {Waiting, Exited} \<union> range Driving" "n \<le> i \<Longrightarrow> lf_pc s (Worker i) = Exited"
    using ok by (auto simp: workers_ok_def)
  show "lf_pc s' (Worker i) \<in> {Waiting, Exited} \<union> range Driving \<and> (n \<le> i \<longrightarrow> lf_pc s' (Worker i) = Exited)"
  proof (cases "t = Worker i")
    case True
    from step i show ?thesis by cases (auto simp: True)
  next
    case False
    with step i show ?thesis by cases auto
  qed
qed

lemma life_reachable_workers: "life_reachable workers s \<Longrightarrow> workers_ok workers s"
  unfolding life_reachable_def
proof (induction rule: rtranclp_induct)
  case base
  show ?case by (simp add: workers_ok_def started_pc)
next
  case (step s s')
  from step(2) show ?case
  proof cases
    case (go t)
    with step(3) go_keeps_workers show ?thesis by blast
  next
    case (stopping g)
    from stopping(2) step(3) show ?thesis by cases (simp_all add: workers_ok_def)
  next
    case cancel
    with step(3) show ?thesis by (simp add: workers_ok_def)
  qed
qed

text \<open>From \<open>s\<close> to \<open>s'\<close> only goroutines of the engine moved, and those that were gone stayed so.\<close>

definition settles :: "nat \<Rightarrow> life \<Rightarrow> life \<Rightarrow> bool" where
  "settles n s s' \<longleftrightarrow> life_step\<^sup>*\<^sup>* s s' \<and> workers_ok n s' \<and> \<not> lf_panicked s' \<and> lf_cancelled s' \<and>
     lf_stop s' = lf_stop s \<and> lf_stop_coord s' = lf_stop_coord s \<and> lf_stop_poll s' = lf_stop_poll s \<and>
     (\<forall>t. lf_pc s t = Exited \<longrightarrow> lf_pc s' t = Exited)"

lemma settles_refl: "workers_ok n s \<Longrightarrow> \<not> lf_panicked s \<Longrightarrow> lf_cancelled s \<Longrightarrow> settles n s s"
  by (simp add: settles_def)

lemma settles_trans: "settles n s1 s2 \<Longrightarrow> settles n s2 s3 \<Longrightarrow> settles n s1 s3"
  by (auto simp: settles_def)

lemma exited_stuck: "go_step t s s' \<Longrightarrow> lf_pc s t' = Exited \<Longrightarrow> lf_pc s' t' = Exited"
  by (induction rule: go_step.induct) (auto elim: may_submit.elims)

lemma settles_go:
  assumes s: "settles n s s1" and step: "go_step t s1 s2"
  shows "settles n s s2"
proof -
  have "lf_stop s2 = lf_stop s1" "lf_stop_coord s2 = lf_stop_coord s1" "lf_stop_poll s2 = lf_stop_poll s1"
    "lf_panicked s2 = lf_panicked s1" "lf_cancelled s2 = lf_cancelled s1"
    using step by (cases; simp)+
  with s show ?thesis
    using life_step.go [OF _ step] go_keeps_workers [OF step] exited_stuck [OF step]
    by (auto simp: settles_def intro: rtranclp.rtrancl_into_rtrancl)
qed

text \<open>Every goroutine of the engine can come to its end by itself.\<close>

lemma exits:
  assumes start: "settles n s0 s" and t: "of_coordinator t \<or> t = Polling"
  obtains s' where "settles n s0 s'" "lf_pc s' t = Exited"
proof -
  note found = that
  have cancelled: "lf_cancelled s1" if "settles n s0 s1" for s1 using that by (simp add: settles_def)
  have waiting: thesis if s1: "settles n s0 s1" "lf_pc s1 t = Waiting" for s1
  proof (cases "t = Polling")
    case True
    have "go_step t s1 (at_pc t Exited s1)"
      by (rule go_step.poll_exit [OF True s1(2)]) (simp add: cancelled [OF s1(1)])
    from found [OF settles_go [OF s1(1) this]] show ?thesis by simp
  next
    case False
    with t have "go_step t s1 (at_pc t Exited s1)"
      by (intro go_step.coord_exit) (simp_all add: s1(2) cancelled [OF s1(1)])
    from found [OF settles_go [OF s1(1) this]] show ?thesis by simp
  qed
  have polling: thesis if "settles n s0 s1" "lf_pc s1 t = Busy" "t = Polling" for s1
    using that
  proof (induction "lf_poll_tasks s1" arbitrary: s1)
    case 0
    from waiting [OF settles_go [OF 0(2) go_step.polled [OF 0(4,3)]]] 0(1) show ?case by simp
  next
    case (Suc m)
    from Suc(2) have "lf_poll_tasks s1 = Suc m" by simp
    from settles_go [OF Suc(3) go_step.poll_task [OF Suc(5,4) this]] Suc(1) [of "s1\<lparr>lf_poll_tasks := m\<rparr>"] Suc(4,5)
    show ?case by simp
  qed
  have busy: thesis if s1: "settles n s0 s1" "lf_pc s1 t = Busy" for s1
  proof (cases t)
    case (Worker i)
    from s1(1) have "lf_pc s1 (Worker i) \<in> {Waiting, Exited} \<union> range Driving"
      by (simp add: settles_def workers_ok_def)
    with s1(2) Worker show ?thesis by auto
  next
    case Recovery
    from found [OF settles_go [OF s1(1) go_step.recovered [OF Recovery s1(2)]]] show ?thesis by simp
  next
    case Timeouts
    from waiting [OF settles_go [OF s1(1) go_step.scanned [OF Timeouts s1(2)]]] show ?thesis by simp
  next
    case Polling
    from polling [OF s1 Polling] show ?thesis .
  qed (use t in auto)
  have home: thesis if s1: "settles n s0 s1" "lf_pc s1 t = submitted t" for s1
    using busy [OF s1(1)] s1(2) t by (cases t) auto
  show thesis
  proof (cases "lf_pc s t")
    case Waiting
    then show ?thesis by (rule waiting [OF start])
  next
    case Busy
    then show ?thesis by (rule busy [OF start])
  next
    case (Marked tx)
    show ?thesis
    proof (cases "length (lf_queue s) < queue_capacity")
      case True
      from home [OF settles_go [OF start go_step.send [OF Marked True]]] show ?thesis by simp
    next
      case False
      from settles_go [OF start go_step.queue_full [OF Marked False]]
      have s1: "settles n s0 (at_pc t (Full tx) s)" .
      have "lf_pc (at_pc t (Full tx) s) t = Full tx" by simp
      from home [OF settles_go [OF s1 go_step.dropped [OF this]]] show ?thesis by simp
    qed
  next
    case (Full tx)
    from home [OF settles_go [OF start go_step.dropped [OF Full]]] show ?thesis by simp
  next
    case (Driving tx)
    from waiting [OF settles_go [OF start go_step.driven [OF Driving]]] show ?thesis by simp
  next
    case Exited
    then show ?thesis by (rule found [OF start])
  qed
qed

lemma all_exit:
  assumes "settles n s0 s" and "\<forall>t \<in> set ts. of_coordinator t \<or> t = Polling"
  obtains s' where "settles n s0 s'" "\<forall>t \<in> set ts. lf_pc s' t = Exited"
  using assms
proof (induction ts arbitrary: thesis)
  case (Cons t ts)
  from Cons.prems Cons.IH obtain s1 where s1: "settles n s0 s1" "\<forall>t \<in> set ts. lf_pc s1 t = Exited" by auto
  have "settles n s1 s1" using s1(1) by (simp add: settles_def)
  from exits [OF this, of t] Cons.prems(3) obtain s2 where s2: "settles n s1 s2" "lf_pc s2 t = Exited" by auto
  show ?case
    by (rule Cons.prems(1) [OF settles_trans [OF s1(1) s2(1)]]) (use s1(2) s2 in \<open>auto simp: settles_def\<close>)
qed simp

text \<open>What a call of \<^verbatim>\<open>Stop\<close> still does from each of its steps on, when nobody else closes a channel.\<close>

definition stop_can_finish :: "nat \<Rightarrow> life \<Rightarrow> bool" where
  "stop_can_finish g s \<longleftrightarrow> (\<exists>s'. life_step\<^sup>*\<^sup>* s s' \<and> lf_stop s' g = Stop_Done \<and> \<not> lf_db_open s' \<and> \<not> lf_panicked s')"

lemma stop_run_finish: "life_step\<^sup>*\<^sup>* s s1 \<Longrightarrow> stop_can_finish g s1 \<Longrightarrow> stop_can_finish g s"
  unfolding stop_can_finish_def by (meson rtranclp_trans)

lemma stop_step_finish: "stop_step g s s1 \<Longrightarrow> \<not> lf_panicked s \<Longrightarrow> stop_can_finish g s1 \<Longrightarrow> stop_can_finish g s"
  by (blast intro: stop_run_finish life_step.stopping)

lemma finish_done: "lf_stop s g = Stop_Done \<Longrightarrow> \<not> lf_db_open s \<Longrightarrow> \<not> lf_panicked s \<Longrightarrow> stop_can_finish g s"
  unfolding stop_can_finish_def by blast

lemma finish_close:
  assumes pc: "lf_stop s g = Stop_Close" and fine: "\<not> lf_panicked s"
  shows "stop_can_finish g s"
  by (rule stop_step_finish [OF stop_step.close_db [OF pc] fine]) (simp add: finish_done fine)

lemma finish_poll_wait:
  assumes pc: "lf_stop s g = Stop_Poll_Wait" and ok: "workers_ok n s" "\<not> lf_panicked s" "lf_cancelled s"
  shows "stop_can_finish g s"
proof -
  from exits [OF settles_refl [OF ok], of Polling] obtain s1 where s1: "settles n s s1" "lf_pc s1 Polling = Exited"
    by auto
  then have pc1: "lf_stop s1 g = Stop_Poll_Wait" and fine: "\<not> lf_panicked s1" and run: "life_step\<^sup>*\<^sup>* s s1"
    using pc by (simp_all add: settles_def)
  show ?thesis
    by (rule stop_run_finish [OF run stop_step_finish [OF stop_step.poll_waited [OF pc1 s1(2)] fine]])
       (simp add: finish_close fine)
qed

lemma finish_poll:
  assumes pc: "lf_stop s g = Stop_Poll" and ok: "workers_ok n s" "\<not> lf_panicked s" "lf_cancelled s"
    and first: "\<not> lf_stop_poll s"
  shows "stop_can_finish g s"
  by (rule stop_step_finish [OF stop_step.close_poll [OF pc first] ok(2)], rule finish_poll_wait [where n = n])
     (use ok in \<open>simp_all add: workers_ok_def\<close>)

lemma finish_coord_wait:
  assumes pc: "lf_stop s g = Stop_Coord_Wait" and ok: "workers_ok n s" "\<not> lf_panicked s" "lf_cancelled s"
    and first: "\<not> lf_stop_poll s"
  shows "stop_can_finish g s"
proof -
  have "\<forall>t \<in> set ([Recovery, Timeouts] @ map Worker [0..<n]). of_coordinator t \<or> t = Polling" by auto
  from all_exit [OF settles_refl [OF ok] this] obtain s1 where
    s1: "settles n s s1" "\<forall>t \<in> set ([Recovery, Timeouts] @ map Worker [0..<n]). lf_pc s1 t = Exited" by blast
  then have w: "workers_ok n s1" "\<not> lf_panicked s1" "lf_cancelled s1" and run: "life_step\<^sup>*\<^sup>* s s1"
    and pc1: "lf_stop s1 g = Stop_Coord_Wait" and first1: "\<not> lf_stop_poll s1"
    using pc first by (simp_all add: settles_def)
  have ended: "lf_pc s1 t = Exited" if "of_coordinator t" for t
  proof (cases t)
    case (Worker i)
    with s1(2) w(1) show ?thesis by (cases "i < n") (simp_all add: workers_ok_def)
  qed (use s1(2) that in auto)
  show ?thesis
    by (rule stop_run_finish [OF run stop_step_finish [OF stop_step.coord_waited [OF pc1 ended] w(2)]])
       (assumption, rule finish_poll [where n = n], use w first1 in \<open>simp_all add: workers_ok_def\<close>)
qed

lemma finish_coord:
  assumes pc: "lf_stop s g = Stop_Coord" and ok: "workers_ok n s" "\<not> lf_panicked s" "lf_cancelled s"
    and first: "\<not> lf_stop_coord s" "\<not> lf_stop_poll s"
  shows "stop_can_finish g s"
  by (rule stop_step_finish [OF stop_step.close_coord [OF pc first(1)] ok(2)], rule finish_coord_wait [where n = n])
     (use ok first in \<open>simp_all add: workers_ok_def\<close>)

text \<open>
  C37. \<^verbatim>\<open>Stop\<close> can always finish. Whatever the goroutines of the engine were doing, once its only call has
  begun, they can all come to their ends, each by its own steps (drives and scans take finite time),
  and \<^verbatim>\<open>Stop\<close> closes the database and returns, without a panic and without a step of any client.
\<close>

theorem stop_finishes:
  assumes reach: "life_reachable workers s" and begun: "lf_stop s g \<noteq> Stop_Idle"
    and only: "\<And>g'. g' \<noteq> g \<Longrightarrow> lf_stop s g' = Stop_Idle"
  shows "\<exists>s'. life_step\<^sup>*\<^sup>* s s' \<and> lf_stop s' g = Stop_Done \<and> \<not> lf_db_open s' \<and> \<not> lf_panicked s'"
proof -
  note ok = life_reachable_ok [OF reach]
  have fine: "\<not> lf_panicked s"
    using life_reachable_panic [OF reach] only unfolding panic_ok_def by (metis stop_pc.distinct(1) insertI1)
  have cancelled: "lf_cancelled s" using ok begun by (auto simp: stop_ok_def)
  note w = life_reachable_workers [OF reach] fine cancelled
  have other: "\<not> closed_coord (lf_stop s g')" if "g' \<noteq> g" for g' using only [OF that] by simp
  have by_g: "closed_by g s \<or> \<not> lf_stop_coord s \<and> \<not> lf_stop_poll s \<and> \<not> closed_coord (lf_stop s g)"
    using ok other by (metis close_ok_def closed_by_def)
  have "stop_can_finish g s"
  proof (cases "lf_stop s g")
    case Stop_Coord
    with by_g finish_coord [OF _ w] show ?thesis by (auto simp: closed_by_def)
  next
    case Stop_Coord_Wait
    with by_g finish_coord_wait [OF _ w] show ?thesis by (auto simp: closed_by_def)
  next
    case Stop_Poll
    with by_g finish_poll [OF _ w] show ?thesis by (auto simp: closed_by_def)
  next
    case Stop_Poll_Wait
    with finish_poll_wait [OF _ w] show ?thesis by simp
  next
    case Stop_Close
    with finish_close fine show ?thesis by simp
  next
    case Stop_Done
    with stop_okD(3) [of s] ok have "\<not> lf_db_open s" by blast
    with Stop_Done fine show ?thesis by (simp add: finish_done)
  qed (use begun in simp)
  then show ?thesis by (simp add: stop_can_finish_def)
qed


lemma stop_finishes_witness: "\<exists>s'. life_step\<^sup>*\<^sup>* sample_stopping s' \<and> lf_stop s' 0 = Stop_Done \<and> \<not> lf_db_open s'"
proof -
  have "lf_stop sample_stopping 0 \<noteq> Stop_Idle" "\<And>g'. g' \<noteq> 0 \<Longrightarrow> lf_stop sample_stopping g' = Stop_Idle"
    by (simp_all add: sample_stopping_def sample_life_def Let_def started_rest)
  from stop_finishes [OF sample_stopping_reachable this] show ?thesis by blast
qed

end
