(* ===== verification/Saga_Observer.thy ===== *)
theory Saga_Observer
  imports Saga_Forward "HOL-Library.Multiset"
begin

text \<open>
  The read-only observer of the saga tables (\<^verbatim>\<open>saga/observer/reader.go\<close>). It reads the tables the engine
  writes; a read is a function of the tables, the faults of the session and the database's \<^verbatim>\<open>->>\<close>
  operator on a JSON column.
\<close>

section \<open>View models\<close>

definition DefaultLimit :: int where "DefaultLimit = 100"
definition maxLimit :: int where "maxLimit = 10000"

record list_filter =
  lf_Status :: string
  lf_Limit :: int

record tx_summary =
  ts_ID :: string
  ts_Status :: string
  ts_CurrentStep :: int
  ts_CreatedAt :: int
  ts_UpdatedAt :: int
  ts_FinishedAt :: "int option"
  ts_TimeoutAt :: "int option"
  ts_LastError :: string
  ts_TraceID :: string
  ts_LockedBy :: string
  ts_LockedUntil :: "int option"

record list_result =
  lr_Transactions :: "tx_summary list"
  lr_Truncated :: bool
  lr_Limit :: int

record poll_detail =
  pd_NextPollAt :: "int option"
  pd_LockedBy :: string
  pd_LockedUntil :: "int option"

record step_detail =
  sd_ID :: string
  sd_Index :: int
  sd_Name :: string
  sd_Type :: string
  sd_Status :: string
  sd_RetryCount :: int
  sd_PollCount :: int
  sd_PollMaxTimes :: int
  sd_StartedAt :: "int option"
  sd_FinishedAt :: "int option"
  sd_LastError :: string
  sd_ActionResponse :: "string option"
  sd_PollTask :: "poll_detail option"

record tx_detail =
  dt_Summary :: tx_summary
  dt_SpanID :: string
  dt_Steps :: "step_detail list"

section \<open>Reading rows\<close>

text \<open>\<^verbatim>\<open>sql.NullString\<close>: an absent value reads as the empty string.\<close>

definition null_string :: "string option \<Rightarrow> string" where
  "null_string v = (case v of None \<Rightarrow> '''' | Some s \<Rightarrow> s)"

text \<open>\<^verbatim>\<open>payload->>'key'\<close>: null for a null payload.\<close>

type_synonym json_arrow = "string \<Rightarrow> string \<Rightarrow> string option"

definition payload_text :: "json_arrow \<Rightarrow> tx_row \<Rightarrow> string \<Rightarrow> string option" where
  "payload_text J r key = (case tx_payload r of None \<Rightarrow> None | Some p \<Rightarrow> J p key)"

definition normalizeLimit :: "int \<Rightarrow> int" where
  "normalizeLimit limit = (if limit \<le> 0 then DefaultLimit else if limit > maxLimit then maxLimit else limit)"

definition scanTransactionSummary :: "json_arrow \<Rightarrow> tx_row \<Rightarrow> tx_summary" where
  "scanTransactionSummary J r = \<lparr>ts_ID = tx_id r, ts_Status = tx_status_str (tx_status r),
     ts_CurrentStep = current_step r, ts_CreatedAt = created_at r, ts_UpdatedAt = updated_at r,
     ts_FinishedAt = finished_at r, ts_TimeoutAt = timeout_at r, ts_LastError = tx_last_error r,
     ts_TraceID = null_string (payload_text J r ''_trace_id''),
     ts_LockedBy = null_string (locked_by r), ts_LockedUntil = locked_until r\<rparr>"

definition scanTransactionDetailRow :: "json_arrow \<Rightarrow> tx_row \<Rightarrow> string \<times> tx_summary" where
  "scanTransactionDetailRow J r =
     (null_string (payload_text J r ''_span_id''), scanTransactionSummary J r)"

fun step_type_text :: "step_type \<Rightarrow> string" where
  "step_type_text StepTypeSync = ''sync''"
| "step_type_text StepTypeAsync = ''async''"
| "step_type_text (StepTypeOther s) = s"

definition scanStepDetail :: "step_row \<times> poll_task option \<Rightarrow> step_detail" where
  "scanStepDetail row = (case row of (s, p) \<Rightarrow>
     \<lparr>sd_ID = st_id s, sd_Index = st_index s, sd_Name = st_name s, sd_Type = step_type_text (st_type s),
      sd_Status = step_status_str (st_status s), sd_RetryCount = st_retry_count s, sd_PollCount = poll_count s,
      sd_PollMaxTimes = poll_max_times s, sd_StartedAt = st_started_at s, sd_FinishedAt = st_finished_at s,
      sd_LastError = st_last_error s, sd_ActionResponse = action_response s,
      sd_PollTask = (case p of None \<Rightarrow> None
        | Some t \<Rightarrow> Some \<lparr>pd_NextPollAt = Some (pt_next_poll_at t), pd_LockedBy = null_string (pt_locked_by t),
            pd_LockedUntil = pt_locked_until t\<rparr>)\<rparr>)"

section \<open>Queries\<close>

text \<open>
  \<^verbatim>\<open>ORDER BY key DESC LIMIT n\<close>; rows with equal keys keep the order of the table, of the orders SQL
  allows.
\<close>

definition top_rows :: "('r \<Rightarrow> int) \<Rightarrow> int \<Rightarrow> 'r list \<Rightarrow> 'r list" where
  "top_rows key n rows = take (nat n) (sort_key (\<lambda>r. - key r) rows)"

text \<open>The part both listings share: query one row more than the limit, scan, cut.\<close>

definition list_query ::
  "string \<Rightarrow> faults \<Rightarrow> int \<Rightarrow> (tx_row \<Rightarrow> tx_summary) \<Rightarrow> (tx_row \<Rightarrow> int) \<Rightarrow> tx_row list \<Rightarrow> gerr + list_result" where
  "list_query what F limit scan key rows =
     (case fault F 0 of
        Some e \<Rightarrow> Inl (wrap_err what e)
      | None \<Rightarrow>
     (case fault F 1 of
        Some e \<Rightarrow> Inl (wrap_err (what @ '' rows'') e)
      | None \<Rightarrow>
          (let txs = map scan (top_rows key (limit + 1) rows)
           in if int (length txs) > limit
              then Inr \<lparr>lr_Transactions = take (nat limit) txs, lr_Truncated = True, lr_Limit = limit\<rparr>
              else Inr \<lparr>lr_Transactions = txs, lr_Truncated = False, lr_Limit = limit\<rparr>)))"

definition ListTransactions :: "json_arrow \<Rightarrow> faults \<Rightarrow> db \<Rightarrow> list_filter \<Rightarrow> gerr + list_result" where
  "ListTransactions J F d f =
     (let limit = normalizeLimit (lf_Limit f); status = trim_space (lf_Status f)
      in list_query ''list transactions'' F limit (scanTransactionSummary J) created_at
           (filter (\<lambda>r. status = '''' \<or> tx_status_str (tx_status r) = status) (saga_transactions d)))"

definition ListFailedTransactions :: "json_arrow \<Rightarrow> faults \<Rightarrow> db \<Rightarrow> int \<Rightarrow> gerr + list_result" where
  "ListFailedTransactions J F d limit =
     list_query ''list failed transactions'' F (normalizeLimit limit) (scanTransactionSummary J)
       (\<lambda>r. case finished_at r of Some t \<Rightarrow> t | None \<Rightarrow> updated_at r)
       (filter (\<lambda>r. tx_status_str (tx_status r) = ''failed'') (saga_transactions d))"

text \<open>\<^verbatim>\<open>saga_steps LEFT JOIN saga_poll_tasks\<close> on the step id.\<close>

definition join_poll :: "db \<Rightarrow> step_row \<Rightarrow> (step_row \<times> poll_task option) list" where
  "join_poll d s =
     (case filter (\<lambda>p. pt_step_id p = st_id s) (saga_poll_tasks d) of
        [] \<Rightarrow> [(s, None)]
      | ps \<Rightarrow> map (\<lambda>p. (s, Some p)) ps)"

text \<open>\<^verbatim>\<open>GetTransactionDetail\<close>: all reads see one snapshot; the result is \<open>None\<close> for an unknown id.\<close>

definition GetTransactionDetail :: "json_arrow \<Rightarrow> faults \<Rightarrow> db \<Rightarrow> string \<Rightarrow> gerr + tx_detail option" where
  "GetTransactionDetail J F d txID =
     (case fault F 0 of
        Some e \<Rightarrow> Inl (wrap_err ''begin transaction detail snapshot'' e)
      | None \<Rightarrow>
     (case fault F 1 of
        Some e \<Rightarrow> Inl (wrap_err ''scan transaction detail'' e)
      | None \<Rightarrow>
     (case find_tx d txID of
        None \<Rightarrow> Inr None
      | Some r \<Rightarrow>
     (case fault F 2 of
        Some e \<Rightarrow> Inl (wrap_err ''get transaction steps'' e)
      | None \<Rightarrow>
     (case fault F 3 of
        Some e \<Rightarrow> Inl (wrap_err ''get transaction steps rows'' e)
      | None \<Rightarrow>
     (case fault F 4 of
        Some e \<Rightarrow> Inl (wrap_err ''commit transaction detail snapshot'' e)
      | None \<Rightarrow>
          (let (spanID, summary) = scanTransactionDetailRow J r
           in Inr (Some \<lparr>dt_Summary = summary, dt_SpanID = spanID,
                dt_Steps = map scanStepDetail (concat (map (join_poll d) (rows_of d txID)))\<rparr>))))))))"

section \<open>What a listing holds\<close>

text \<open>
  \<open>newest key n all xs\<close>: the list \<open>xs\<close> holds the \<open>n\<close> elements of \<open>all\<close> with the largest keys (all
  of them when there are fewer), largest first.
\<close>

definition newest :: "('a \<Rightarrow> int) \<Rightarrow> int \<Rightarrow> 'a list \<Rightarrow> 'a list \<Rightarrow> bool" where
  "newest key n xs ys \<longleftrightarrow>
     length ys = min (nat n) (length xs) \<and> sorted_wrt (\<lambda>x y. key y \<le> key x) ys \<and>
     (\<exists>rest. mset xs = mset ys + mset rest \<and> (\<forall>y \<in> set ys. \<forall>x \<in> set rest. key x \<le> key y))"

lemma sorted_desc: "sorted_wrt (\<lambda>x y. key y \<le> key x) (sort_key (\<lambda>x. - key x) xs)"
  for key :: "'a \<Rightarrow> int"
  using sorted_sort_key [of "\<lambda>x. - key x" xs] by (simp add: sorted_map)

lemma newest_top_rows: "newest key n xs (top_rows key n xs)"
proof -
  let ?s = "sort_key (\<lambda>x. - key x) xs"
  have split: "take (nat n) ?s @ drop (nat n) ?s = ?s" by simp
  have sorted: "sorted_wrt (\<lambda>x y. key y \<le> key x) (take (nat n) ?s @ drop (nat n) ?s)"
    unfolding split by (rule sorted_desc)
  have "mset xs = mset (take (nat n) ?s) + mset (drop (nat n) ?s)"
    by (metis split mset_append mset_sort)
  moreover have "\<forall>y \<in> set (take (nat n) ?s). \<forall>x \<in> set (drop (nat n) ?s). key x \<le> key y"
    using sorted by (simp only: sorted_wrt_append) blast
  ultimately show ?thesis
    using sorted by (auto simp: newest_def top_rows_def sorted_wrt_append simp del: append_take_drop_id)
qed

lemma newest_map: "newest (\<lambda>r. key (f r)) n xs ys \<Longrightarrow> newest key n (map f xs) (map f ys)"
  unfolding newest_def
proof (elim conjE exE, intro conjI exI)
  fix rest assume m: "mset xs = mset ys + mset rest"
    and r: "\<forall>y \<in> set ys. \<forall>x \<in> set rest. key (f x) \<le> key (f y)"
  show "mset (map f xs) = mset (map f ys) + mset (map f rest)" using m by simp
  show "\<forall>y \<in> set (map f ys). \<forall>x \<in> set (map f rest). key x \<le> key y" using r by simp
qed (simp_all add: sorted_wrt_map)

lemma take_top_rows: "0 \<le> n \<Longrightarrow> take (nat n) (top_rows key (n + 1) rows) = top_rows key n rows"
  by (simp add: top_rows_def min_def)

lemma length_top_rows: "length (top_rows key n rows) = min (nat n) (length rows)"
  by (simp add: top_rows_def)

lemma list_query_newest:
  assumes "list_query what F n scan key rows = Inr r" and "0 < n" and "\<And>x. key' (scan x) = key x"
  shows "lr_Limit r = n \<and> newest key' n (map scan rows) (lr_Transactions r) \<and>
    (lr_Truncated r \<longleftrightarrow> n < int (length rows))"
proof -
  have new: "newest key' m (map scan rows) (map scan (top_rows key m rows))" for m
    using newest_map [of key' scan m rows] newest_top_rows [of key m rows] by (simp add: assms(3))
  show ?thesis
  proof (cases "int (length (top_rows key (n + 1) rows)) > n")
    case True
    with assms(1,2) new [of n] show ?thesis
      by (auto simp: list_query_def take_map take_top_rows length_top_rows split: option.splits)
  next
    case False
    then have small: "int (length rows) \<le> n" using assms(2) by (auto simp: length_top_rows)
    then have "top_rows key (n + 1) rows = top_rows key n rows"
      using assms(2) by (simp add: top_rows_def)
    with assms(1,2) False small new [of n] show ?thesis
      by (auto simp: list_query_def split: option.splits)
  qed
qed

lemma normalizeLimit_range: "0 < normalizeLimit n \<and> normalizeLimit n \<le> 10000"
  by (simp add: normalizeLimit_def DefaultLimit_def maxLimit_def)

section \<open>What the detail shows\<close>

lemma filter_key_find:
  "distinct (map k rows) \<Longrightarrow>
   filter (\<lambda>r. k r = i) rows = (case find (\<lambda>r. k r = i) rows of None \<Rightarrow> [] | Some r \<Rightarrow> [r])"
proof (induction rows)
  case (Cons r rows)
  then show ?case
    using find_key_None [of k i rows] by (cases "k r = i") auto
qed simp

lemma join_poll_one: "db_ok d \<Longrightarrow> join_poll d s = [(s, find_poll d (st_id s))]"
  by (auto simp: join_poll_def find_poll_def db_ok_def filter_key_find split: option.splits)

lemma joined_rows: "db_ok d \<Longrightarrow> concat (map (join_poll d) rows) = map (\<lambda>s. (s, find_poll d (st_id s))) rows"
  by (induction rows) (simp_all add: join_poll_one)

definition summary_shows :: "tx_row \<Rightarrow> transaction \<Rightarrow> tx_summary \<Rightarrow> bool" where
  "summary_shows r tx v \<longleftrightarrow>
     ts_ID v = tx_id tx \<and> ts_Status v = tx_status_str (tx_status tx) \<and> ts_CurrentStep v = current_step tx \<and>
     ts_CreatedAt v = created_at tx \<and> ts_UpdatedAt v = updated_at tx \<and> ts_FinishedAt v = finished_at tx \<and>
     ts_TimeoutAt v = timeout_at tx \<and> ts_LastError v = tx_last_error tx \<and>
     ts_LockedBy v = null_string (locked_by r) \<and> ts_LockedUntil v = locked_until r"

definition poll_shows :: "poll_task option \<Rightarrow> poll_detail option \<Rightarrow> bool" where
  "poll_shows t v \<longleftrightarrow> rel_option (\<lambda>t v. pd_NextPollAt v = Some (pt_next_poll_at t) \<and>
     pd_LockedBy v = null_string (pt_locked_by t) \<and> pd_LockedUntil v = pt_locked_until t) t v"

definition step_shows :: "stdlib \<Rightarrow> db \<Rightarrow> step \<Rightarrow> step_detail \<Rightarrow> bool" where
  "step_shows L d s v \<longleftrightarrow>
     sd_ID v = st_id s \<and> sd_Index v = st_index s \<and> sd_Name v = st_name s \<and>
     sd_Type v = step_type_text (st_type s) \<and> sd_Status v = step_status_str (st_status s) \<and>
     sd_RetryCount v = st_retry_count s \<and> sd_PollCount v = poll_count s \<and> sd_PollMaxTimes v = poll_max_times s \<and>
     sd_StartedAt v = st_started_at s \<and> sd_FinishedAt v = st_finished_at s \<and> sd_LastError v = st_last_error s \<and>
     load_json L ''failed to unmarshal action response'' (sd_ActionResponse v) = Inr (action_response s) \<and>
     poll_shows (find_poll d (st_id s)) (sd_PollTask v)"

lemma summary_scanned:
  "scan_tx L r = Inr tx \<Longrightarrow> summary_shows r tx (scanTransactionSummary J r)"
  by (auto simp: scan_tx_def summary_shows_def scanTransactionSummary_def split: sum.splits)

lemma step_scanned:
  "scanStep L r = Inr s \<Longrightarrow> step_shows L d s (scanStepDetail (r, find_poll d (st_id r)))"
  by (auto simp: scanStep_def step_shows_def scanStepDetail_def poll_shows_def split: sum.splits option.splits)

lemma steps_scanned:
  "scan_rows (scanStep L) rows = Inr steps \<Longrightarrow>
   list_all2 (step_shows L d) steps (map (\<lambda>r. scanStepDetail (r, find_poll d (st_id r))) rows)"
  by (induction rows arbitrary: steps) (auto simp: step_scanned split: sum.splits)

lemma rows_of_ascending:
  assumes "db_ok d" shows "sorted_wrt (<) (map st_index (rows_of d txID))"
proof -
  have "distinct (map (\<lambda>s. (st_tx_id s, st_index s)) rows) \<Longrightarrow>
      distinct (map st_index (filter (\<lambda>s. st_tx_id s = txID) rows))" for rows :: "step_row list"
    by (induction rows) (auto simp: image_iff)
  then have "distinct (map st_index (filter (\<lambda>s. st_tx_id s = txID) (saga_steps d)))"
    using assms by (simp add: db_ok_def)
  then have "distinct (map st_index (rows_of d txID))"
    by (metis (no_types, lifting) distinct_map distinct_sort rows_of_def set_sort)
  then show ?thesis by (simp add: rows_of_def strict_sorted_iff)
qed

lemma shown_indices: "map (\<lambda>r. sd_Index (scanStepDetail (r, g r))) rows = map st_index rows"
  by (simp add: scanStepDetail_def)

section \<open>Correctness\<close>

text \<open>
  C38. The transaction detail agrees with the state the engine itself reads. For a database that
  satisfies its constraints, an id the engine has no transaction for gives no detail, and a
  transaction the engine can read gives, unless one of the reader's own database calls fails, the
  same transaction, the same steps in the same order with strictly increasing indices, each exactly
  once whatever poll tasks exist, the poll task the poller holds for it, and a response text that
  decodes to the response the engine uses.
\<close>

theorem observer_agrees:
  assumes "db_ok d" and "steps_of L d txID = Inr steps"
  shows "case GetTransactionDetail J F d txID of
      Inl e \<Rightarrow> \<exists>k what err. fault F k = Some err \<and> e = wrap_err what err
    | Inr None \<Rightarrow> tx_of L d txID = Inr None
    | Inr (Some v) \<Rightarrow> \<exists>r. find_tx d txID = Some r \<and>
        (\<forall>tx. tx_of L d txID = Inr (Some tx) \<longrightarrow> summary_shows r tx (dt_Summary v)) \<and>
        list_all2 (step_shows L d) steps (dt_Steps v) \<and> sorted_wrt (<) (map sd_Index (dt_Steps v))"
proof -
  let ?steps = "map (\<lambda>r. scanStepDetail (r, find_poll d (st_id r))) (rows_of d txID)"
  have "list_all2 (step_shows L d) steps ?steps"
    using assms(2) unfolding steps_of_def by (rule steps_scanned)
  moreover have "sorted_wrt (<) (map sd_Index ?steps)"
    using rows_of_ascending [OF assms(1), of txID] by (simp add: o_def shown_indices)
  moreover have "summary_shows r tx (scanTransactionSummary J r)"
    if "find_tx d txID = Some r" "tx_of L d txID = Inr (Some tx)" for r tx
    using that by (auto simp: tx_of_def summary_scanned map_sum_def split: sum.splits)
  ultimately show ?thesis
    using joined_rows [OF assms(1)]
    by (auto simp: GetTransactionDetail_def scanTransactionDetailRow_def tx_of_def o_def split: option.splits)
qed

text \<open>
  A listing is the head of the matching transactions. Without a database error the effective
  limit lies in 1..10000 (the requested one clamped, 100 for a non-positive one), the rows are the
  newest of the matching transactions, as many as the limit allows, newest first, and the result is
  marked truncated exactly when some matching transaction was left out.
\<close>

lemma listing_newest:
  assumes "ListTransactions J F d f = Inr r"
  shows "0 < lr_Limit r \<and> lr_Limit r \<le> 10000 \<and> (1 \<le> lf_Limit f \<and> lf_Limit f \<le> 10000 \<longrightarrow> lr_Limit r = lf_Limit f) \<and>
    (let shown = map (scanTransactionSummary J) (filter (\<lambda>t. trim_space (lf_Status f) = '''' \<or>
           tx_status_str (tx_status t) = trim_space (lf_Status f)) (saga_transactions d))
     in newest ts_CreatedAt (lr_Limit r) shown (lr_Transactions r) \<and>
        (lr_Truncated r \<longleftrightarrow> lr_Limit r < int (length shown)))"
proof -
  have "0 < normalizeLimit (lf_Limit f)" by (simp add: normalizeLimit_range)
  from list_query_newest [OF assms [unfolded ListTransactions_def Let_def] this, of ts_CreatedAt]
  show ?thesis
    using normalizeLimit_range [of "lf_Limit f"]
    by (simp add: Let_def scanTransactionSummary_def normalizeLimit_def maxLimit_def)
qed


section \<open>A database with two transactions\<close>

definition payload_arrow :: json_arrow where
  "payload_arrow p key = (if key = ''_trace_id'' then Some p else None)"

definition observed_db :: db where
  "observed_db = (wdb order_world)\<lparr>
     saga_transactions := [order_row\<lparr>tx_payload := Some ''ok''\<rparr>, order_row\<lparr>tx_id := ''t2'', created_at := 7\<rparr>],
     saga_poll_tasks := [\<lparr>pt_id = 1, pt_step_id = ''s1'', pt_tx_id = ''t1'', pt_next_poll_at = 12,
       pt_locked_until = None, pt_locked_by = Some ''i1''\<rparr>],
     next_poll_id := 2\<rparr>"

lemma observed_ok: "db_ok observed_db"
  by (simp add: observed_db_def order_world_def idle_world_def empty_db_def db_ok_def order_row_def shop_row_def)

lemma observed_steps: "steps_of shop_lib observed_db ''t1'' = Inr order_steps"
proof -
  have "steps_of shop_lib observed_db ''t1'' = steps_of shop_lib (wdb order_world) ''t1''"
    by (simp add: steps_of_def rows_of_def observed_db_def)
  then show ?thesis by (simp add: order_view)
qed

theorem observer_agrees_witness:
  "\<exists>v. GetTransactionDetail payload_arrow no_faults observed_db ''t1'' = Inr (Some v) \<and>
     list_all2 (step_shows shop_lib observed_db) order_steps (dt_Steps v) \<and>
     map sd_ID (dt_Steps v) = [''s0'', ''s1''] \<and> sd_PollTask (dt_Steps v ! 1) \<noteq> None"
proof -
  let ?D = "GetTransactionDetail payload_arrow no_faults observed_db ''t1''"
  obtain v where v: "?D = Inr (Some v)" "map sd_ID (dt_Steps v) = [''s0'', ''s1'']" "sd_PollTask (dt_Steps v ! 1) \<noteq> None"
  proof -
    have "(case ?D of Inr (Some v) \<Rightarrow> map sd_ID (dt_Steps v) = [''s0'', ''s1''] \<and> sd_PollTask (dt_Steps v ! 1) \<noteq> None
        | _ \<Rightarrow> False)"
      by code_simp
    then show thesis by (cases ?D) (auto split: option.splits intro: that)
  qed
  then show ?thesis
    using observer_agrees [OF observed_ok observed_steps, where J = payload_arrow and F = no_faults] by auto
qed

theorem listing_newest_witness:
  "\<exists>r. ListTransactions payload_arrow no_faults observed_db \<lparr>lf_Status = '' pending '', lf_Limit = 1\<rparr> = Inr r \<and>
     map ts_ID (lr_Transactions r) = [''t2''] \<and> lr_Truncated r \<and> lr_Limit r = 1"
proof -
  let ?R = "ListTransactions payload_arrow no_faults observed_db \<lparr>lf_Status = '' pending '', lf_Limit = 1\<rparr>"
  obtain r where r: "?R = Inr r" "map ts_ID (lr_Transactions r) = [''t2'']" "lr_Truncated r"
  proof -
    have "(case ?R of Inr r \<Rightarrow> map ts_ID (lr_Transactions r) = [''t2''] \<and> lr_Truncated r | _ \<Rightarrow> False)"
      by code_simp
    then show thesis by (cases ?R) (auto intro: that)
  qed
  then show ?thesis using listing_newest [OF r(1)] by simp
qed

end
