(* ===== verification/Sagactl_Flags.thy ===== *)
theory Sagactl_Flags
  imports Saga_Observer
begin

text \<open>
  The part of Go's \<^verbatim>\<open>flag\<close> package the command line of \<^verbatim>\<open>cmd/sagactl/main.go\<close> is built on: flag sets
  whose flags all take a value, parsed with \<^verbatim>\<open>ContinueOnError\<close>.
\<close>

datatype flag_kind = StringFlag | IntFlag | DurationFlag

datatype flag_value = FlagString string | FlagInt int | FlagDuration int

text \<open>\<^verbatim>\<open>strconv.ParseInt(s, 0, 64)\<close> and \<^verbatim>\<open>time.ParseDuration\<close>, with the text of their error.\<close>

record flag_lib =
  parse_int :: "string \<Rightarrow> string + int"
  parse_duration :: "string \<Rightarrow> string + int"
  flag_quote :: "string \<Rightarrow> string"

definition set_flag :: "flag_lib \<Rightarrow> flag_kind \<Rightarrow> string \<Rightarrow> string + flag_value" where
  "set_flag P k v =
     (case k of
        StringFlag \<Rightarrow> Inr (FlagString v)
      | IntFlag \<Rightarrow> map_sum id FlagInt (parse_int P v)
      | DurationFlag \<Rightarrow> map_sum id FlagDuration (parse_duration P v))"

text \<open>
  What the first argument is: the end of the flags (with the arguments left), a syntax error, or a
  flag with its name and the value after an equals sign.
\<close>

datatype flag_arg = FlagsEnd "string list" | BadFlag string | FlagArg string "string option" "string list"

definition split_equals :: "string \<Rightarrow> string \<times> string option" where
  "split_equals name =
     (case name of
        [] \<Rightarrow> ([], None)
      | c # cs \<Rightarrow>
          (let key = takeWhile (\<lambda>x. x \<noteq> CHR ''='') cs; rest = dropWhile (\<lambda>x. x \<noteq> CHR ''='') cs
           in (c # key, case rest of [] \<Rightarrow> None | _ # v \<Rightarrow> Some v)))"

definition flag_arg :: "string list \<Rightarrow> flag_arg" where
  "flag_arg args =
     (case args of
        [] \<Rightarrow> FlagsEnd []
      | s # rest \<Rightarrow>
          (if length s < 2 \<or> hd s \<noteq> CHR ''-'' then FlagsEnd (s # rest)
           else if s = ''--'' then FlagsEnd rest
           else (let name = (if s ! 1 = CHR ''-'' then drop 2 s else drop 1 s)
                 in if name = '''' \<or> hd name = CHR ''-'' \<or> hd name = CHR ''='' then BadFlag s
                    else (case split_equals name of (key, v) \<Rightarrow> FlagArg key v rest))))"

lemma flag_arg_shorter: "flag_arg args = FlagArg name v rest \<Longrightarrow> length rest < length args"
  by (auto simp: flag_arg_def Let_def split: list.splits if_splits prod.splits)

text \<open>
  \<^verbatim>\<open>FlagSet.Parse\<close>: the values of the flags that were set, in the order they were set, and the
  remaining arguments. An error carries whether it is \<^verbatim>\<open>flag.ErrHelp\<close>, whose message is not printed.
\<close>

datatype flag_error = HelpError | FlagError string

function parse_flags ::
  "flag_lib \<Rightarrow> (string \<times> flag_kind) list \<Rightarrow> string list \<Rightarrow> flag_error + (string \<times> flag_value) list \<times> string list" where
  "parse_flags P defs args =
     (case flag_arg args of
        FlagsEnd rest \<Rightarrow> Inr ([], rest)
      | BadFlag s \<Rightarrow> Inl (FlagError (''bad flag syntax: '' @ s))
      | FlagArg name v rest \<Rightarrow>
     (case map_of defs name of
        None \<Rightarrow> (if name = ''help'' \<or> name = ''h'' then Inl HelpError
                 else Inl (FlagError (''flag provided but not defined: -'' @ name)))
      | Some k \<Rightarrow>
     (let (v, rest) = (case v of
          Some v \<Rightarrow> (Some v, rest)
        | None \<Rightarrow> (case rest of [] \<Rightarrow> (None, []) | a # rest \<Rightarrow> (Some a, rest)))
      in case v of
           None \<Rightarrow> Inl (FlagError (''flag needs an argument: -'' @ name))
         | Some v \<Rightarrow>
     (case set_flag P k v of
        Inl e \<Rightarrow> Inl (FlagError (''invalid value '' @ flag_quote P v @ '' for flag -'' @ name @ '': '' @ e))
      | Inr x \<Rightarrow>
     (case parse_flags P defs rest of
        Inl e \<Rightarrow> Inl e
      | Inr (vs, left) \<Rightarrow> Inr ((name, x) # vs, left))))))"
  by pat_completeness auto
termination
  by (relation "measure (\<lambda>(P, defs, args). length args)")
     (auto dest!: flag_arg_shorter split: option.splits list.splits prod.splits)

declare parse_flags.simps [simp del]

text \<open>The last value a flag was set to, or its default.\<close>

definition flag_value :: "(string \<times> flag_value) list \<Rightarrow> string \<Rightarrow> flag_value \<Rightarrow> flag_value" where
  "flag_value vs name d = (case map_of (rev vs) name of Some v \<Rightarrow> v | None \<Rightarrow> d)"

definition string_flag :: "(string \<times> flag_value) list \<Rightarrow> string \<Rightarrow> string \<Rightarrow> string" where
  "string_flag vs name d = (case flag_value vs name (FlagString d) of FlagString s \<Rightarrow> s | _ \<Rightarrow> d)"

definition int_flag :: "(string \<times> flag_value) list \<Rightarrow> string \<Rightarrow> int \<Rightarrow> int" where
  "int_flag vs name d = (case flag_value vs name (FlagInt d) of FlagInt i \<Rightarrow> i | _ \<Rightarrow> d)"

definition duration_flag :: "(string \<times> flag_value) list \<Rightarrow> string \<Rightarrow> int \<Rightarrow> int" where
  "duration_flag vs name d = (case flag_value vs name (FlagDuration d) of FlagDuration i \<Rightarrow> i | _ \<Rightarrow> d)"

end
