(* ===== verification/Sagactl.thy ===== *)
theory Sagactl
  imports Sagactl_Flags "HOL-Library.Monad_Syntax"
begin

text \<open>
  The command line over the observer (\<^verbatim>\<open>cmd/sagactl/main.go\<close>): arguments, the four subcommands and
  the texts they print. What the program takes from Go's library (number and time formats, UTF-8,
  JSON, tab alignment) is a parameter, as are the environment and the way to open the observer.
\<close>

section \<open>What the program runs in\<close>

text \<open>The interface \<^verbatim>\<open>observerService\<close>, on the state of the database behind it.\<close>

record 's observer_service =
  sv_List :: "list_filter \<Rightarrow> 's \<Rightarrow> (gerr + list_result option) \<times> 's"
  sv_Failed :: "int \<Rightarrow> 's \<Rightarrow> (gerr + list_result option) \<times> 's"
  sv_Detail :: "string \<Rightarrow> 's \<Rightarrow> (gerr + tx_detail option) \<times> 's"

text \<open>
  \<open>ct_runes\<close> splits a text into the UTF-8 texts of its runes; \<open>ct_compact\<close> decodes a JSON text and
  encodes it again (\<open>None\<close>: one of both fails); \<open>ct_tabulate\<close> is the tab writer; \<open>ct_usage\<close> is what
  a flag set prints as its usage; \<open>ct_open\<close> is the opener, which may fail.
\<close>

record 's ctl_env =
  ct_flags :: flag_lib
  ct_usage :: "string \<Rightarrow> string"
  ct_dsn :: string
  ct_rfc3339 :: "int \<Rightarrow> string"
  ct_duration :: "int \<Rightarrow> string"
  ct_quote :: "string \<Rightarrow> string"
  ct_runes :: "string \<Rightarrow> string list"
  ct_compact :: "string \<Rightarrow> string option"
  ct_tabulate :: "string \<Rightarrow> string"
  ct_open :: "string \<Rightarrow> 's \<Rightarrow> (gerr + 's observer_service) \<times> 's"

text \<open>
  Output and error stream, the database, and the waits of \<^verbatim>\<open>watch\<close>: whether each ends with the
  context being done (or with a tick). With no wait left, the program still waits.
\<close>

record 's ctl_world =
  cw_out :: string
  cw_err :: string
  cw_db :: 's
  cw_waits :: "bool list"

type_synonym ('s, 'a) ctl = "('s ctl_world, 'a) state"

definition newline :: string where "newline = [CHR 0x0A]"

definition tabchar :: string where "tabchar = [CHR 0x09]"

definition print_out :: "string \<Rightarrow> ('s, unit) ctl" where
  "print_out s = modifies (\<lambda>w. w\<lparr>cw_out := cw_out w @ s\<rparr>)"

definition print_err :: "string \<Rightarrow> ('s, unit) ctl" where
  "print_err s = modifies (\<lambda>w. w\<lparr>cw_err := cw_err w @ s\<rparr>)"

definition ask :: "('s \<Rightarrow> 'a \<times> 's) \<Rightarrow> ('s, 'a) ctl" where
  "ask f = State (\<lambda>w. case f (cw_db w) of (x, d) \<Rightarrow> (x, w\<lparr>cw_db := d\<rparr>))"

section \<open>Texts\<close>

definition formatOptionalTime :: "'s ctl_env \<Rightarrow> int option \<Rightarrow> string" where
  "formatOptionalTime E t = (case t of None \<Rightarrow> ''-'' | Some t \<Rightarrow> ct_rfc3339 E t)"

definition fallback :: "string \<Rightarrow> string \<Rightarrow> string" where
  "fallback value alt = (if trim_space value = '''' then alt else value)"

definition truncateText :: "'s ctl_env \<Rightarrow> string \<Rightarrow> int \<Rightarrow> string" where
  "truncateText E value limit =
     (let value = trim_space value
      in if value = '''' \<or> limit \<le> 0 then value
         else (let runes = ct_runes E value
               in if int (length runes) \<le> limit then value
                  else if limit \<le> 3 then concat (take (nat limit) runes)
                  else concat (take (nat (limit - 3)) runes) @ ''...''))"

definition summarizeJSON :: "'s ctl_env \<Rightarrow> string option \<Rightarrow> int \<Rightarrow> string" where
  "summarizeJSON E raw limit =
     (case raw of
        None \<Rightarrow> ''-''
      | Some raw \<Rightarrow>
          (if raw = '''' then ''-''
           else case ct_compact E raw of
                  Some compact \<Rightarrow> truncateText E compact limit
                | None \<Rightarrow> truncateText E raw limit))"

definition line :: "string list \<Rightarrow> string" where
  "line parts = concat parts @ newline"

definition list_header :: string where
  "list_header = line [join_str tabchar [''ID'', ''STATUS'', ''STEP'', ''CREATED'', ''UPDATED'', ''TRACE'', ''LAST ERROR'']]"

definition list_row :: "'s ctl_env \<Rightarrow> tx_summary \<Rightarrow> string" where
  "list_row E tx = line [join_str tabchar [ts_ID tx, ts_Status tx, itoa (ts_CurrentStep tx),
     ct_rfc3339 E (ts_CreatedAt tx), ct_rfc3339 E (ts_UpdatedAt tx), fallback (ts_TraceID tx) ''-'',
     truncateText E (ts_LastError tx) 60]]"

definition renderTransactionList :: "'s ctl_env \<Rightarrow> list_result option \<Rightarrow> string \<Rightarrow> ('s, unit) ctl" where
  "renderTransactionList E result filt =
     (case result of
        None \<Rightarrow> print_out (line [''no results''])
      | Some r \<Rightarrow> do {
          print_out (if filt = '''' then line [''transactions:'']
                     else line [''transactions (status='', filt, ''):'']);
          print_out (ct_tabulate E (list_header @ concat (map (list_row E) (lr_Transactions r))));
          (if lr_Truncated r
           then print_out (newline @ line [''output truncated to '', itoa (lr_Limit r),
                  '' results; rerun with --limit to see more''])
           else State_Monad.return ())
        })"

definition render_step :: "'s ctl_env \<Rightarrow> step_detail \<Rightarrow> string" where
  "render_step E s =
     line [''  ['', itoa (sd_Index s), ''] '', sd_Name s, '' ('', sd_Type s, '')''] @
     line [''    status: '', sd_Status s] @
     line [''    retry_count: '', itoa (sd_RetryCount s)] @
     line [''    poll_count: '', itoa (sd_PollCount s), ''/'', itoa (sd_PollMaxTimes s)] @
     line [''    started_at: '', formatOptionalTime E (sd_StartedAt s)] @
     line [''    finished_at: '', formatOptionalTime E (sd_FinishedAt s)] @
     line [''    last_error: '', fallback (sd_LastError s) ''-''] @
     (case sd_PollTask s of
        None \<Rightarrow> ''''
      | Some p \<Rightarrow>
          line [''    poll_task.next_poll_at: '', formatOptionalTime E (pd_NextPollAt p)] @
          (if pd_LockedBy p \<noteq> '''' then line [''    poll_task.locked_by: '', pd_LockedBy p] else '''') @
          (if pd_LockedUntil p \<noteq> None
           then line [''    poll_task.locked_until: '', formatOptionalTime E (pd_LockedUntil p)] else '''')) @
     line [''    action_response: '', summarizeJSON E (sd_ActionResponse s) 160]"

definition renderTransactionDetail :: "'s ctl_env \<Rightarrow> tx_detail \<Rightarrow> bool \<Rightarrow> int \<Rightarrow> string" where
  "renderTransactionDetail E d watching interval =
     (let s = dt_Summary d
      in (if watching
          then line [''watching transaction '', ts_ID s, '' (refresh='', ct_duration E interval, '')''] @ newline
          else '''') @
         line [''Transaction''] @
         line [''  id: '', ts_ID s] @
         line [''  status: '', ts_Status s] @
         line [''  current_step: '', itoa (ts_CurrentStep s)] @
         line [''  created_at: '', ct_rfc3339 E (ts_CreatedAt s)] @
         line [''  updated_at: '', ct_rfc3339 E (ts_UpdatedAt s)] @
         line [''  finished_at: '', formatOptionalTime E (ts_FinishedAt s)] @
         line [''  timeout_at: '', formatOptionalTime E (ts_TimeoutAt s)] @
         line [''  trace_id: '', fallback (ts_TraceID s) ''unavailable''] @
         line [''  span_id: '', fallback (dt_SpanID d) ''unavailable''] @
         (if ts_LockedBy s \<noteq> '''' then line [''  locked_by: '', ts_LockedBy s] else '''') @
         (if ts_LockedUntil s \<noteq> None then line [''  locked_until: '', formatOptionalTime E (ts_LockedUntil s)] else '''') @
         (if ts_LastError s \<noteq> '''' then line [''  last_error: '', ts_LastError s] else '''') @
         newline @ line [''Steps''] @
         concat (map (render_step E) (dt_Steps d)))"

section \<open>Arguments\<close>

text \<open>A failed parse is printed with the usage of the flag set; asking for help prints the usage only.\<close>

definition parse_args ::
  "'s ctl_env \<Rightarrow> string \<Rightarrow> (string \<times> flag_kind) list \<Rightarrow> string list
     \<Rightarrow> ('s, gerr + (string \<times> flag_value) list \<times> string list) ctl" where
  "parse_args E name defs args =
     (case parse_flags (ct_flags E) defs args of
        Inl HelpError \<Rightarrow> do {
          print_err (ct_usage E name);
          State_Monad.return (Inl (errors_New ''flag: help requested''))
        }
      | Inl (FlagError m) \<Rightarrow> do {
          print_err (line [m] @ ct_usage E name);
          State_Monad.return (Inl (errors_New m))
        }
      | Inr r \<Rightarrow> State_Monad.return (Inr r))"

definition validateStatus :: "'s ctl_env \<Rightarrow> string \<Rightarrow> gerr option" where
  "validateStatus E status =
     (if status \<in> {'''', ''pending'', ''running'', ''compensating'', ''succeeded'', ''failed''} then None
      else Some (errors_New (''invalid status '' @ ct_quote E status)))"

definition defaultWatchInterval :: int where "defaultWatchInterval = 3000000000"

definition parseListArgs :: "'s ctl_env \<Rightarrow> string list \<Rightarrow> ('s, gerr + string \<times> int) ctl" where
  "parseListArgs E args = do {
     r \<leftarrow> parse_args E ''list'' [(''status'', StringFlag), (''limit'', IntFlag)] args;
     State_Monad.return (case r of
         Inl e \<Rightarrow> Inl e
       | Inr (vs, rest) \<Rightarrow>
           (let status = string_flag vs ''status'' ''''
            in case validateStatus E status of
                 Some e \<Rightarrow> Inl e
               | None \<Rightarrow> Inr (status, int_flag vs ''limit'' DefaultLimit)))
   }"

definition parseFailedArgs :: "'s ctl_env \<Rightarrow> string list \<Rightarrow> ('s, gerr + int) ctl" where
  "parseFailedArgs E args = do {
     r \<leftarrow> parse_args E ''failed'' [(''limit'', IntFlag)] args;
     State_Monad.return (case r of
         Inl e \<Rightarrow> Inl e
       | Inr (vs, rest) \<Rightarrow> Inr (int_flag vs ''limit'' DefaultLimit))
   }"

definition parseShowArgs :: "'s ctl_env \<Rightarrow> string list \<Rightarrow> ('s, gerr + string) ctl" where
  "parseShowArgs E args = do {
     r \<leftarrow> parse_args E ''show'' [] args;
     State_Monad.return (case r of
         Inl e \<Rightarrow> Inl e
       | Inr (vs, [txID]) \<Rightarrow> Inr txID
       | Inr _ \<Rightarrow> Inl (errors_New ''show requires exactly one transaction id''))
   }"

definition parseWatchArgs :: "'s ctl_env \<Rightarrow> string list \<Rightarrow> ('s, gerr + string \<times> int) ctl" where
  "parseWatchArgs E args = do {
     r \<leftarrow> parse_args E ''watch'' [(''interval'', DurationFlag)] args;
     State_Monad.return (case r of
         Inl e \<Rightarrow> Inl e
       | Inr (vs, [txID]) \<Rightarrow>
           (let interval = duration_flag vs ''interval'' defaultWatchInterval
            in if interval \<le> 0 then Inl (errors_New ''interval must be positive'') else Inr (txID, interval))
       | Inr _ \<Rightarrow> Inl (errors_New ''watch requires exactly one transaction id''))
   }"

section \<open>Subcommands\<close>

definition not_found :: "string \<Rightarrow> gerr" where
  "not_found txID = errors_New (''transaction not found: '' @ txID)"

definition execList :: "'s ctl_env \<Rightarrow> 's observer_service \<Rightarrow> string \<Rightarrow> int \<Rightarrow> ('s, gerr option) ctl" where
  "execList E svc status limit = do {
     r \<leftarrow> ask (sv_List svc \<lparr>lf_Status = status, lf_Limit = limit\<rparr>);
     (case r of
        Inl e \<Rightarrow> State_Monad.return (Some e)
      | Inr result \<Rightarrow> do {
          renderTransactionList E result status;
          State_Monad.return None
        })
   }"

definition execFailed :: "'s ctl_env \<Rightarrow> 's observer_service \<Rightarrow> int \<Rightarrow> ('s, gerr option) ctl" where
  "execFailed E svc limit = do {
     r \<leftarrow> ask (sv_Failed svc limit);
     (case r of
        Inl e \<Rightarrow> State_Monad.return (Some e)
      | Inr result \<Rightarrow> do {
          renderTransactionList E result ''failed'';
          State_Monad.return None
        })
   }"

definition execShow :: "'s ctl_env \<Rightarrow> 's observer_service \<Rightarrow> string \<Rightarrow> ('s, gerr option) ctl" where
  "execShow E svc txID = do {
     r \<leftarrow> ask (sv_Detail svc txID);
     (case r of
        Inl e \<Rightarrow> State_Monad.return (Some e)
      | Inr None \<Rightarrow> State_Monad.return (Some (not_found txID))
      | Inr (Some d) \<Rightarrow> do {
          print_out (renderTransactionDetail E d False 0);
          State_Monad.return None
        })
   }"

text \<open>The escape sequences that clear the screen.\<close>

definition clear_screen :: string where
  "clear_screen = [CHR 0x1B] @ ''[H'' @ [CHR 0x1B] @ ''[2J''"

text \<open>
  \<^verbatim>\<open>execWatch\<close>, one round per wait that ended; \<open>None\<close> when it is still waiting after the last of
  them.
\<close>

fun watch_loop ::
  "'s ctl_env \<Rightarrow> 's observer_service \<Rightarrow> string \<Rightarrow> int \<Rightarrow> bool list \<Rightarrow> ('s, gerr option option) ctl" where
  "watch_loop E svc txID interval ended = do {
     r \<leftarrow> ask (sv_Detail svc txID);
     (case r of
        Inl e \<Rightarrow> State_Monad.return (Some (Some e))
      | Inr None \<Rightarrow> State_Monad.return (Some (Some (not_found txID)))
      | Inr (Some d) \<Rightarrow> do {
          print_out clear_screen;
          print_out (renderTransactionDetail E d True interval);
          (case ended of
             [] \<Rightarrow> State_Monad.return None
           | cancelled # rest \<Rightarrow>
               (if cancelled then State_Monad.return (Some None) else watch_loop E svc txID interval rest))
        })
   }"

declare watch_loop.simps [simp del]

definition execWatch ::
  "'s ctl_env \<Rightarrow> 's observer_service \<Rightarrow> string \<Rightarrow> int \<Rightarrow> ('s, gerr option option) ctl" where
  "execWatch E svc txID interval = do {
     ended \<leftarrow> reads cw_waits;
     watch_loop E svc txID interval ended
   }"

text \<open>\<^verbatim>\<open>openObserverService\<close>: what opening and pinging the database do is a parameter.\<close>

definition openObserverService ::
  "('s \<Rightarrow> (gerr + unit) \<times> 's) \<Rightarrow> ('s \<Rightarrow> gerr option \<times> 's) \<Rightarrow> 's observer_service \<Rightarrow> 's \<Rightarrow> (gerr + 's observer_service) \<times> 's" where
  "openObserverService sql_Open ping reader s =
     (case sql_Open s of
        (Inl e, s) \<Rightarrow> (Inl (wrap_err ''open observer database'' e), s)
      | (Inr _, s) \<Rightarrow>
          (case ping s of
             (Some e, s) \<Rightarrow> (Inl (wrap_err ''ping observer database'' e), s)
           | (None, s) \<Rightarrow> (Inr reader, s)))"

definition withObserver ::
  "'s ctl_env \<Rightarrow> string \<Rightarrow> ('s observer_service \<Rightarrow> ('s, gerr option option) ctl) \<Rightarrow> ('s, gerr option option) ctl" where
  "withObserver E dsnFlag body =
     (let dsn = (if trim_space dsnFlag = '''' then trim_space (ct_dsn E) else trim_space dsnFlag)
      in if dsn = '''' then State_Monad.return (Some (Some (errors_New ''dsn is required via --dsn or SAGA_OBSERVER_DSN'')))
         else do {
           r \<leftarrow> ask (ct_open E dsn);
           (case r of
              Inl e \<Rightarrow> State_Monad.return (Some (Some e))
            | Inr svc \<Rightarrow> body svc)
         })"

definition printRootUsage :: "('s, unit) ctl" where
  "printRootUsage = print_err (line [''usage: sagactl [--dsn <dsn>] <list|failed|show|watch> [flags]''])"

definition finished :: "('s, gerr option) ctl \<Rightarrow> ('s, gerr option option) ctl" where
  "finished m = do { r \<leftarrow> m; State_Monad.return (Some r) }"

definition with_args ::
  "('s, gerr + 'a) ctl \<Rightarrow> ('a \<Rightarrow> ('s, gerr option option) ctl) \<Rightarrow> ('s, gerr option option) ctl" where
  "with_args m f = do {
     r \<leftarrow> m;
     (case r of Inl e \<Rightarrow> State_Monad.return (Some (Some e)) | Inr x \<Rightarrow> f x)
   }"

text \<open>\<^verbatim>\<open>run\<close>: the error it returns, or \<open>None\<close> while it is still watching.\<close>

definition ctl_run :: "'s ctl_env \<Rightarrow> string list \<Rightarrow> ('s, gerr option option) ctl" where
  "ctl_run E args = with_args (parse_args E ''sagactl'' [(''dsn'', StringFlag)] args) (\<lambda>(vs, subArgs).
     let dsn = string_flag vs ''dsn'' ''''
     in case subArgs of
          [] \<Rightarrow> do { printRootUsage; State_Monad.return (Some (Some (errors_New ''missing subcommand''))) }
        | cmd # rest \<Rightarrow>
            (if cmd = ''list'' then with_args (parseListArgs E rest) (\<lambda>(status, limit).
               withObserver E dsn (\<lambda>svc. finished (execList E svc status limit)))
             else if cmd = ''failed'' then with_args (parseFailedArgs E rest) (\<lambda>limit.
               withObserver E dsn (\<lambda>svc. finished (execFailed E svc limit)))
             else if cmd = ''show'' then with_args (parseShowArgs E rest) (\<lambda>txID.
               withObserver E dsn (\<lambda>svc. finished (execShow E svc txID)))
             else if cmd = ''watch'' then with_args (parseWatchArgs E rest) (\<lambda>(txID, interval).
               withObserver E dsn (\<lambda>svc. execWatch E svc txID interval))
             else do {
               printRootUsage;
               State_Monad.return (Some (Some (errors_New (''unknown subcommand '' @ ct_quote E cmd))))
             }))"

text \<open>\<^verbatim>\<open>main\<close>: the exit code, when \<^verbatim>\<open>run\<close> returned.\<close>

definition ctl_main :: "'s ctl_env \<Rightarrow> string list \<Rightarrow> ('s, int option) ctl" where
  "ctl_main E args = do {
     r \<leftarrow> ctl_run E args;
     (case r of
        None \<Rightarrow> State_Monad.return None
      | Some None \<Rightarrow> State_Monad.return (Some 0)
      | Some (Some e) \<Rightarrow> do { print_err (line [''error: '', msg e]); State_Monad.return (Some 1) })
   }"

section \<open>The observer behind the command line\<close>

text \<open>
  \<^verbatim>\<open>observer.Reader\<close> as the service: the state is the faults and the tables that the next queries meet,
  since other sessions write between any two of them.
\<close>

type_synonym snapshots = "(faults \<times> db) list"

definition reader_query :: "(faults \<Rightarrow> db \<Rightarrow> gerr + 'a) \<Rightarrow> snapshots \<Rightarrow> (gerr + 'a) \<times> snapshots" where
  "reader_query q s = (case s of [] \<Rightarrow> (q no_faults empty_db, []) | (F, d) # rest \<Rightarrow> (q F d, rest))"

definition NewReader :: "json_arrow \<Rightarrow> snapshots observer_service" where
  "NewReader J = \<lparr>sv_List = (\<lambda>f. reader_query (\<lambda>F d. map_sum id Some (ListTransactions J F d f))),
     sv_Failed = (\<lambda>n. reader_query (\<lambda>F d. map_sum id Some (ListFailedTransactions J F d n))),
     sv_Detail = (\<lambda>i. reader_query (\<lambda>F d. GetTransactionDetail J F d i))\<rparr>"

section \<open>Correctness\<close>

lemma run_ctl [simp]:
  "run_state (print_out s) w = ((), w\<lparr>cw_out := cw_out w @ s\<rparr>)"
  "run_state (print_err s) w = ((), w\<lparr>cw_err := cw_err w @ s\<rparr>)"
  "run_state (ask f) w = (fst (f (cw_db w)), w\<lparr>cw_db := snd (f (cw_db w))\<rparr>)"
  by (simp_all add: print_out_def print_err_def ask_def case_prod_beta)

lemma run_ctl_return [simp]: "run_state (State_Monad.return x) w = (x, w)"
  by (simp add: State_Monad.return_def)

lemma run_ctl_bind: "run_state (m \<bind> f) w = (case run_state m w of (x, v) \<Rightarrow> run_state (f x) v)"
  by (simp add: State_Monad.bind_def)

lemma command_no_flag: "parse_flags P defs (''list'' # rest) = Inr ([], ''list'' # rest)"
  by (subst parse_flags.simps) (simp add: flag_arg_def)

text \<open>The text of a listing: heading, table, and the notice when something was left out.\<close>

definition listing_text :: "'s ctl_env \<Rightarrow> string \<Rightarrow> int \<Rightarrow> tx_summary list \<Rightarrow> bool \<Rightarrow> string" where
  "listing_text E status n txs truncated =
     (if status = '''' then line [''transactions:''] else line [''transactions (status='', status, ''):'']) @
     ct_tabulate E (list_header @ concat (map (list_row E) txs)) @
     (if truncated then newline @ line [''output truncated to '', itoa n, '' results; rerun with --limit to see more''] else '''')"

lemma run_renderTransactionList:
  "run_state (renderTransactionList E (Some r) status) w =
     ((), w\<lparr>cw_out := cw_out w @ listing_text E status (lr_Limit r) (lr_Transactions r) (lr_Truncated r)\<rparr>)"
  by (simp add: renderTransactionList_def listing_text_def run_ctl_bind)

text \<open>The rows of a status, as a listing shows them.\<close>

definition matching :: "json_arrow \<Rightarrow> db \<Rightarrow> string \<Rightarrow> tx_summary list" where
  "matching J d status = map (scanTransactionSummary J)
     (filter (\<lambda>t. status = '''' \<or> tx_status_str (tx_status t) = status) (saga_transactions d))"

lemma trim_empty [simp]: "trim_space '''' = ''''"
  by code_simp

lemma valid_status_trimmed: "validateStatus E status = None \<Longrightarrow> trim_space status = status"
proof -
  have "\<forall>s \<in> set ['''', ''pending'', ''running'', ''compensating'', ''succeeded'', ''failed'']. trim_space s = s"
    by code_simp
  then show "validateStatus E status = None \<Longrightarrow> trim_space status = status"
    by (auto simp: validateStatus_def split: if_splits)
qed

text \<open>
  C39. \<^verbatim>\<open>sagactl list\<close>, from the arguments to the output. When its flags parse and the observer
  opens, the program ends: with 1 and no output for a status that does not exist, with 1, no output
  and the error for a query that fails, and otherwise with 0, printing under the heading for the
  status one row for each of the newest matching transactions, newest first, as many as the limit in
  1..10000 allows, and the notice exactly when a matching transaction was left out.
\<close>

theorem sagactl_list:
  assumes "parse_flags (ct_flags E) [(''status'', StringFlag), (''limit'', IntFlag)] rest = Inr (vs, left)"
    and "trim_space (ct_dsn E) \<noteq> ''''" and "\<And>s. ct_open E (trim_space (ct_dsn E)) s = (Inr (NewReader J), s)"
    and "cw_db w = (F, d) # later"
  defines "status \<equiv> string_flag vs ''status'' ''''" and "n \<equiv> normalizeLimit (int_flag vs ''limit'' DefaultLimit)"
  shows "\<exists>code w'. run_state (ctl_main E (''list'' # rest)) w = (Some code, w') \<and>
    (if validateStatus E status \<noteq> None then code = 1 \<and> cw_out w' = cw_out w
     else case ListTransactions J F d \<lparr>lf_Status = status, lf_Limit = int_flag vs ''limit'' DefaultLimit\<rparr> of
       Inl e \<Rightarrow> code = 1 \<and> cw_out w' = cw_out w \<and> cw_err w' = cw_err w @ line [''error: '', msg e]
     | Inr _ \<Rightarrow> code = 0 \<and> cw_err w' = cw_err w \<and> 0 < n \<and> n \<le> 10000 \<and>
         (\<exists>txs. newest ts_CreatedAt n (matching J d status) txs \<and>
            cw_out w' = cw_out w @ listing_text E status n txs (n < int (length (matching J d status)))))"
proof -
  let ?f = "\<lparr>lf_Status = status, lf_Limit = int_flag vs ''limit'' DefaultLimit\<rparr>"
  have main: "run_state (ctl_main E (''list'' # rest)) w =
      (case run_state (with_args (parseListArgs E rest) (\<lambda>(status, limit).
         withObserver E '''' (\<lambda>svc. finished (execList E svc status limit)))) w of
         (None, v) \<Rightarrow> (None, v) | (Some None, v) \<Rightarrow> (Some 0, v)
       | (Some (Some e), v) \<Rightarrow> (Some 1, v\<lparr>cw_err := cw_err v @ line [''error: '', msg e]\<rparr>))"
    by (simp add: ctl_main_def ctl_run_def with_args_def parse_args_def run_ctl_bind command_no_flag
        string_flag_def flag_value_def split: option.splits prod.splits)
  have list: "run_state (parseListArgs E rest) w =
      (case validateStatus E status of Some e \<Rightarrow> Inl e | None \<Rightarrow> Inr (status, int_flag vs ''limit'' DefaultLimit), w)"
    using assms(1) by (simp add: parseListArgs_def parse_args_def run_ctl_bind status_def Let_def split: option.splits)
  show ?thesis
  proof (cases "validateStatus E status")
    case (Some e)
    then show ?thesis by (simp add: main with_args_def run_ctl_bind list)
  next
    case None
    have run: "run_state (with_args (parseListArgs E rest) (\<lambda>(status, limit).
         withObserver E '''' (\<lambda>svc. finished (execList E svc status limit)))) w =
      (case ListTransactions J F d ?f of
         Inl e \<Rightarrow> (Some (Some e), w\<lparr>cw_db := later\<rparr>)
       | Inr r \<Rightarrow> (Some None, w\<lparr>cw_db := later, cw_out := cw_out w @
           listing_text E status (lr_Limit r) (lr_Transactions r) (lr_Truncated r)\<rparr>))"
      using assms(2-4) None
      by (simp add: with_args_def run_ctl_bind list withObserver_def finished_def execList_def NewReader_def
          reader_query_def run_renderTransactionList split: sum.splits)
    show ?thesis
    proof (cases "ListTransactions J F d ?f")
      case (Inl e)
      with None show ?thesis by (simp add: main run)
    next
      case (Inr r)
      have "lr_Limit r = n" using Inr by (auto simp: ListTransactions_def list_query_def Let_def n_def split: option.splits if_splits)
      with listing_newest [OF Inr] None Inr valid_status_trimmed [OF None] show ?thesis
        by (auto simp: main run matching_def Let_def)
    qed
  qed
qed

section \<open>A command line\<close>

text \<open>Digits for numbers; the formats show little.\<close>

definition sample_ctl :: "snapshots ctl_env" where
  "sample_ctl = \<lparr>ct_flags = \<lparr>parse_int = (\<lambda>s. case atoi s of None \<Rightarrow> Inl ''parse error'' | Some i \<Rightarrow> Inr i),
       parse_duration = (\<lambda>s. Inl ''parse error''), flag_quote = (\<lambda>s. s)\<rparr>,
     ct_usage = (\<lambda>name. ''''), ct_dsn = ''db'', ct_rfc3339 = itoa, ct_duration = itoa,
     ct_quote = (\<lambda>s. s), ct_runes = map (\<lambda>c. [c]), ct_compact = Some, ct_tabulate = (\<lambda>s. s),
     ct_open = (\<lambda>dsn s. (Inr (NewReader payload_arrow), s))\<rparr>"

definition sample_ctl_world :: "snapshots ctl_world" where
  "sample_ctl_world = \<lparr>cw_out = '''', cw_err = '''', cw_db = [(no_faults, observed_db)], cw_waits = []\<rparr>"

lemma sample_flags:
  "parse_flags (ct_flags sample_ctl) [(''status'', StringFlag), (''limit'', IntFlag)] [''-status=pending'', ''--limit'', ''1''] =
     Inr ([(''status'', FlagString ''pending''), (''limit'', FlagInt 1)], [])"
  by code_simp

theorem sagactl_list_witness:
  "\<exists>w' txs. run_state (ctl_main sample_ctl [''list'', ''-status=pending'', ''--limit'', ''1'']) sample_ctl_world = (Some 0, w') \<and>
     newest ts_CreatedAt 1 (matching payload_arrow observed_db ''pending'') txs \<and>
     cw_out w' = listing_text sample_ctl ''pending'' 1 txs True"
proof -
  have open_db: "trim_space (ct_dsn sample_ctl) \<noteq> ''''"
    "\<And>s. ct_open sample_ctl (trim_space (ct_dsn sample_ctl)) s = (Inr (NewReader payload_arrow), s)"
    by (code_simp, simp add: sample_ctl_def)
  have db: "cw_db sample_ctl_world = (no_faults, observed_db) # []"
    by (simp add: sample_ctl_world_def)
  have vals: "string_flag [(''status'', FlagString ''pending''), (''limit'', FlagInt 1)] ''status'' '''' = ''pending''"
    "int_flag [(''status'', FlagString ''pending''), (''limit'', FlagInt 1)] ''limit'' DefaultLimit = 1"
    "normalizeLimit 1 = 1" "validateStatus sample_ctl ''pending'' = None"
    "length (matching payload_arrow observed_db ''pending'') = 2" "cw_out sample_ctl_world = ''''"
    by code_simp+
  have ok: "\<not> isl (ListTransactions payload_arrow no_faults observed_db \<lparr>lf_Status = ''pending'', lf_Limit = 1\<rparr>)"
    by code_simp
  then obtain r where r: "ListTransactions payload_arrow no_faults observed_db \<lparr>lf_Status = ''pending'', lf_Limit = 1\<rparr> = Inr r"
    by (cases "ListTransactions payload_arrow no_faults observed_db \<lparr>lf_Status = ''pending'', lf_Limit = 1\<rparr>") auto
  show ?thesis
    using sagactl_list [OF sample_flags open_db db] unfolding vals r by auto
qed

end
