(* ===== verification/Config_Loader.thy ===== *)
theory Config_Loader
  imports Go_Value
begin

text \<open>
  The configuration loader (\<^verbatim>\<open>config/config.go\<close>, \<^verbatim>\<open>config/viper.go\<close>): its set-up over viper, loading,
  and the change callbacks, whose goroutines interleave with the calls of the program. viper is a
  parameter.
\<close>

section \<open>Options and viper\<close>

record config_option =
  co_ConfigFile :: string
  co_ConfigName :: string
  co_ConfigPaths :: "string list"
  co_ConfigType :: string
  co_Defaults :: "(string \<times> goval) list"
  co_Watch :: bool
  co_EnvPrefix :: string

text \<open>
  The operations of viper in use; \<open>'f\<close> is what the file system and the environment hold when a file
  is read, \<open>'a\<close> a configuration of the type a target has.
\<close>

record ('v, 'f, 'a) viper =
  v_New :: 'v
  v_SetConfigFile :: "string \<Rightarrow> 'v \<Rightarrow> 'v"
  v_SetConfigName :: "string \<Rightarrow> 'v \<Rightarrow> 'v"
  v_AddConfigPath :: "string \<Rightarrow> 'v \<Rightarrow> 'v"
  v_SetConfigType :: "string \<Rightarrow> 'v \<Rightarrow> 'v"
  v_SetDefault :: "string \<Rightarrow> goval \<Rightarrow> 'v \<Rightarrow> 'v"
  v_SetEnvPrefix :: "string \<Rightarrow> 'v \<Rightarrow> 'v"
  v_SetEnvKeyReplacer :: "(string \<times> string) list \<Rightarrow> 'v \<Rightarrow> 'v"
  v_AutomaticEnv :: "'v \<Rightarrow> 'v"
  v_ReadInConfig :: "'f \<Rightarrow> 'v \<Rightarrow> gerr option \<times> 'v"
  v_UnmarshalExact :: "'v \<Rightarrow> gerr + 'a"
  v_WatchConfig :: "'v \<Rightarrow> 'v"

text \<open>
  A run of \<^verbatim>\<open>executeCallbacks\<close> in the goroutine of its timer: before its check of \<^verbatim>\<open>done\<close>, ended by that
  check, past it, or running through its copy of the callbacks, of which it has called some.
\<close>

datatype 'c job = Starting | Dropped | Checked | Running "'c list" nat

text \<open>
  Beside the fields of \<^verbatim>\<open>viperLoader\<close> and the debounce timer: whether viper's watcher is in the handler,
  past its check of \<^verbatim>\<open>done\<close>; the clock, the jobs with the times their
  timers fired, the callbacks called so far (by which job, with what \<^verbatim>\<open>apply\<close> gave), and the times of
  the changes the handler took up.
\<close>

record ('v, 'c, 'a) loader =
  cl_viper :: 'v
  cl_callbacks :: "'c list"
  cl_done :: bool
  cl_watch :: bool
  cl_watching :: bool
  cl_handling :: bool
  cl_timer :: "int option"
  cl_now :: int
  cl_jobs :: "('c job \<times> int) list"
  cl_calls :: "(nat \<times> 'c \<times> (gerr + 'a)) list"
  cl_changes :: "int list"

section \<open>The operations\<close>

definition config_source :: "('v, 'f, 'a) viper \<Rightarrow> config_option \<Rightarrow> 'v \<Rightarrow> gerr + 'v" where
  "config_source V opt v =
     (if co_ConfigFile opt \<noteq> '''' then Inr (v_SetConfigFile V (co_ConfigFile opt) v)
      else if co_ConfigName opt = '''' then Inl (errors_New ''ConfigName must be specified when ConfigFile is empty'')
      else if co_ConfigPaths opt = [] then Inl (errors_New ''ConfigPaths must be specified when ConfigFile is empty'')
      else Inr (fold (v_AddConfigPath V) (co_ConfigPaths opt) (v_SetConfigName V (co_ConfigName opt) v)))"

definition newViperLoader :: "('v, 'f, 'a) viper \<Rightarrow> config_option \<Rightarrow> int \<Rightarrow> gerr + ('v, 'c, 'a) loader" where
  "newViperLoader V opt now =
     (case config_source V opt (v_New V) of
        Inl e \<Rightarrow> Inl e
      | Inr v \<Rightarrow>
          (let v = (if co_ConfigType opt \<noteq> '''' then v_SetConfigType V (co_ConfigType opt) v else v);
               v = fold (\<lambda>(k, d). v_SetDefault V k d) (co_Defaults opt) v;
               v = (if co_EnvPrefix opt \<noteq> ''''
                    then v_AutomaticEnv V (v_SetEnvKeyReplacer V [(''.'', ''_'')] (v_SetEnvPrefix V (co_EnvPrefix opt) v))
                    else v)
           in Inr \<lparr>cl_viper = v, cl_callbacks = [], cl_done = False, cl_watch = co_Watch opt,
                cl_watching = False, cl_handling = False, cl_timer = None, cl_now = now, cl_jobs = [], cl_calls = [], cl_changes = []\<rparr>))"

text \<open>\<^verbatim>\<open>config.New\<close> only passes on.\<close>

definition config_New :: "('v, 'f, 'a) viper \<Rightarrow> config_option \<Rightarrow> int \<Rightarrow> gerr + ('v, 'c, 'a) loader" where
  "config_New V opt now = (case newViperLoader V opt now of Inl e \<Rightarrow> Inl e | Inr l \<Rightarrow> Inr l)"

text \<open>\<^verbatim>\<open>startWatching\<close>: the handler it registers is \<open>config_changed\<close>.\<close>

definition startWatching :: "('v, 'f, 'a) viper \<Rightarrow> ('v, 'c, 'a) loader \<Rightarrow> ('v, 'c, 'a) loader" where
  "startWatching V l = l\<lparr>cl_viper := v_WatchConfig V (cl_viper l), cl_watching := True\<rparr>"

definition config_Load ::
  "('v, 'f, 'a) viper \<Rightarrow> 'f \<Rightarrow> ('v, 'c, 'a) loader \<Rightarrow> (gerr + 'a) \<times> ('v, 'c, 'a) loader" where
  "config_Load V files l =
     (case v_ReadInConfig V files (cl_viper l) of
        (Some e, v) \<Rightarrow> (Inl (wrap_err ''failed to read config file'' e), l\<lparr>cl_viper := v\<rparr>)
      | (None, v) \<Rightarrow>
     (case v_UnmarshalExact V v of
        Inl e \<Rightarrow> (Inl e, l\<lparr>cl_viper := v\<rparr>)
      | Inr cfg \<Rightarrow>
          (let l = l\<lparr>cl_viper := v\<rparr>
           in (Inr cfg, if cl_watch l \<and> \<not> cl_watching l then startWatching V l else l))))"

definition OnChange :: "'c \<Rightarrow> ('v, 'c, 'a) loader \<Rightarrow> ('v, 'c, 'a) loader" where
  "OnChange f l = l\<lparr>cl_callbacks := cl_callbacks l @ [f]\<rparr>"

text \<open>The once of \<^verbatim>\<open>Close\<close> makes a second close of the channel impossible.\<close>

definition config_Close :: "('v, 'c, 'a) loader \<Rightarrow> ('v, 'c, 'a) loader" where
  "config_Close l = l\<lparr>cl_done := True\<rparr>"

definition debounce :: int where "debounce = 50 * 1000000"

text \<open>
  A change of the file: viper reads it again (an error keeps its state), then calls the handler, which
  returns when the loader is closed, and otherwise replaces the timer.
\<close>

definition change_seen :: "('v, 'f, 'a) viper \<Rightarrow> 'f \<Rightarrow> ('v, 'c, 'a) loader \<Rightarrow> ('v, 'c, 'a) loader" where
  "change_seen V files l =
     (let l = l\<lparr>cl_viper := snd (v_ReadInConfig V files (cl_viper l))\<rparr>
      in if cl_done l then l else l\<lparr>cl_handling := True\<rparr>)"

definition change_taken :: "('v, 'c, 'a) loader \<Rightarrow> ('v, 'c, 'a) loader" where
  "change_taken l =
     l\<lparr>cl_handling := False, cl_timer := Some (cl_now l + debounce), cl_changes := cl_changes l @ [cl_now l]\<rparr>"

text \<open>The timer fires: a goroutine for \<^verbatim>\<open>executeCallbacks\<close> starts.\<close>

definition timer_fires :: "('v, 'c, 'a) loader \<Rightarrow> ('v, 'c, 'a) loader" where
  "timer_fires l = l\<lparr>cl_timer := None, cl_jobs := cl_jobs l @ [(Starting, cl_now l)]\<rparr>"

text \<open>The start of \<^verbatim>\<open>executeCallbacks\<close>: its check, then, under the mutex, its copy of the callbacks.\<close>

definition job_checks :: "nat \<Rightarrow> ('v, 'c, 'a) loader \<Rightarrow> ('v, 'c, 'a) loader" where
  "job_checks i l = l\<lparr>cl_jobs := (cl_jobs l)[i := (if cl_done l then Dropped else Checked, snd (cl_jobs l ! i))]\<rparr>"

definition job_copies :: "nat \<Rightarrow> ('v, 'c, 'a) loader \<Rightarrow> ('v, 'c, 'a) loader" where
  "job_copies i l = l\<lparr>cl_jobs := (cl_jobs l)[i := (Running (cl_callbacks l) 0, snd (cl_jobs l ! i))]\<rparr>"

text \<open>
  One round of its loop: the next callback runs, with the configuration \<^verbatim>\<open>apply\<close> reads at that moment; a
  panic of the callback is recovered.
\<close>

definition job_calls :: "('v, 'f, 'a) viper \<Rightarrow> nat \<Rightarrow> 'c list \<Rightarrow> nat \<Rightarrow> ('v, 'c, 'a) loader \<Rightarrow> ('v, 'c, 'a) loader" where
  "job_calls V i cbs k l = l\<lparr>cl_jobs := (cl_jobs l)[i := (Running cbs (Suc k), snd (cl_jobs l ! i))],
     cl_calls := cl_calls l @ [(i, cbs ! k, v_UnmarshalExact V (cl_viper l))]\<rparr>"

section \<open>Interleavings\<close>

inductive config_step :: "('v, 'f, 'a) viper \<Rightarrow> ('v, 'c, 'a) loader \<Rightarrow> ('v, 'c, 'a) loader \<Rightarrow> bool"
  for V where
  load: "config_step V l (snd (config_Load V files l))"
| on_change: "config_step V l (OnChange f l)"
| close: "config_step V l (config_Close l)"
| seen: "cl_watching l \<Longrightarrow> \<not> cl_handling l \<Longrightarrow> config_step V l (change_seen V files l)"
| taken: "cl_handling l \<Longrightarrow> config_step V l (change_taken l)"
| elapse: "0 \<le> dt \<Longrightarrow> config_step V l (l\<lparr>cl_now := cl_now l + dt\<rparr>)"
| fire: "cl_timer l = Some t \<Longrightarrow> t \<le> cl_now l \<Longrightarrow> config_step V l (timer_fires l)"
| checks: "i < length (cl_jobs l) \<Longrightarrow> fst (cl_jobs l ! i) = Starting \<Longrightarrow> config_step V l (job_checks i l)"
| copies: "i < length (cl_jobs l) \<Longrightarrow> fst (cl_jobs l ! i) = Checked \<Longrightarrow> config_step V l (job_copies i l)"
| calls: "i < length (cl_jobs l) \<Longrightarrow> fst (cl_jobs l ! i) = Running cbs k \<Longrightarrow> k < length cbs \<Longrightarrow>
    config_step V l (job_calls V i cbs k l)"

inductive config_steps :: "('v, 'f, 'a) viper \<Rightarrow> ('v, 'c, 'a) loader \<Rightarrow> ('v, 'c, 'a) loader \<Rightarrow> bool" for V where
  none: "config_steps V l l"
| step: "config_steps V l l' \<Longrightarrow> config_step V l' l'' \<Longrightarrow> config_steps V l l''"

section \<open>The invariant\<close>

text \<open>What a job has called.\<close>

definition calls_of :: "nat \<Rightarrow> (nat \<times> 'c \<times> (gerr + 'a)) list \<Rightarrow> 'c list" where
  "calls_of i called = map (\<lambda>(j, c, r). c) (filter (\<lambda>(j, c, r). j = i) called)"

definition job_ok :: "'c list \<Rightarrow> 'c list \<Rightarrow> 'c job \<Rightarrow> bool" where
  "job_ok registered called j \<longleftrightarrow> (case j of
       Running cbs k \<Rightarrow> called = take k cbs \<and> (\<exists>rest. registered = cbs @ rest)
     | _ \<Rightarrow> called = [])"

definition jobs_ok :: "('v, 'c, 'a) loader \<Rightarrow> bool" where
  "jobs_ok l \<longleftrightarrow> (\<forall>i < length (cl_jobs l). job_ok (cl_callbacks l) (calls_of i (cl_calls l)) (fst (cl_jobs l ! i))) \<and>
     (\<forall>c \<in> set (cl_calls l). fst c < length (cl_jobs l))"

definition watch_ok :: "('v, 'c, 'a) loader \<Rightarrow> bool" where
  "watch_ok l \<longleftrightarrow> (cl_watching l \<longrightarrow> cl_watch l) \<and>
     (\<not> cl_watching l \<longrightarrow> \<not> cl_handling l \<and> cl_timer l = None \<and> cl_jobs l = []) \<and>
     length (cl_jobs l) + (if cl_timer l = None then 0 else 1) \<le> length (cl_changes l)"

text \<open>No change comes in the debounce time before \<open>t\<close>, and one before it.\<close>

definition debounced :: "int list \<Rightarrow> int \<Rightarrow> bool" where
  "debounced changes t \<longleftrightarrow> (\<exists>e \<in> set changes. e + debounce \<le> t) \<and> (\<forall>e \<in> set changes. e + debounce \<le> t \<or> t \<le> e)"

definition times_ok :: "('v, 'c, 'a) loader \<Rightarrow> bool" where
  "times_ok l \<longleftrightarrow> (\<forall>e \<in> set (cl_changes l). e \<le> cl_now l) \<and>
     (\<forall>t. cl_timer l = Some t \<longrightarrow> debounced (cl_changes l) t \<and> (\<forall>e \<in> set (cl_changes l). e + debounce \<le> t)) \<and>
     (\<forall>t \<in> set (map snd (cl_jobs l)). t \<le> cl_now l \<and> debounced (cl_changes l) t)"

lemmas config_ops = config_Load_def startWatching_def OnChange_def config_Close_def change_seen_def
  change_taken_def timer_fires_def job_checks_def job_copies_def job_calls_def

lemma calls_of_snoc [simp]: "calls_of i (called @ [(j, c, r)]) = calls_of i called @ (if j = i then [c] else [])"
  by (simp add: calls_of_def)

lemma no_calls_yet: "jobs_ok l \<Longrightarrow> length (cl_jobs l) \<le> i \<Longrightarrow> calls_of i (cl_calls l) = []"
proof -
  assume ok: "jobs_ok l" and i: "length (cl_jobs l) \<le> i"
  have "\<forall>c \<in> set (cl_calls l). fst c \<noteq> i" using ok i by (auto simp: jobs_ok_def)
  then show "calls_of i (cl_calls l) = []" by (auto simp: calls_of_def filter_empty_conv)
qed

lemma job_ok_simps [simp]:
  "job_ok r c Starting \<longleftrightarrow> c = []" "job_ok r c Dropped \<longleftrightarrow> c = []" "job_ok r c Checked \<longleftrightarrow> c = []"
  "job_ok r c (Running cbs k) \<longleftrightarrow> c = take k cbs \<and> (\<exists>rest. r = cbs @ rest)"
  by (simp_all add: job_ok_def)

lemma job_ok_registered: "job_ok r c j \<Longrightarrow> job_ok (r @ [f]) c j"
  by (auto simp: job_ok_def split: job.splits)

lemma jobs_ok_step: "config_step V l l' \<Longrightarrow> jobs_ok l \<Longrightarrow> jobs_ok l'"
proof (induction rule: config_step.induct)
  case (load l files)
  then show ?case
    by (simp add: jobs_ok_def config_ops Let_def split: prod.splits option.splits sum.splits)
next
  case (on_change l f)
  then show ?case by (simp add: jobs_ok_def config_ops job_ok_registered)
next
  case (fire l t)
  then show ?case using no_calls_yet [OF fire(3)]
    by (auto simp: jobs_ok_def config_ops nth_append less_Suc_eq)
next
  case (checks i l)
  then show ?case by (fastforce simp: jobs_ok_def config_ops nth_list_update)
next
  case (copies i l)
  then show ?case by (fastforce simp: jobs_ok_def config_ops nth_list_update)
next
  case (calls i l cbs k)
  then show ?case by (fastforce simp: jobs_ok_def config_ops nth_list_update take_Suc_conv_app_nth)
qed (simp_all add: jobs_ok_def config_ops Let_def)

lemma watch_ok_step: "config_step V l l' \<Longrightarrow> watch_ok l \<Longrightarrow> watch_ok l' \<and> cl_watch l' = cl_watch l"
  by (induction rule: config_step.induct)
     (auto simp: watch_ok_def config_ops Let_def split: prod.splits option.splits sum.splits)

lemma debounced_later: "debounced cs t \<Longrightarrow> t \<le> e \<Longrightarrow> debounced (cs @ [e]) t"
  by (auto simp: debounced_def)

lemma debounced_last: "\<forall>e \<in> set cs. e \<le> t \<Longrightarrow> debounced (cs @ [t]) (t + debounce)"
  by (auto simp: debounced_def)

lemma debounced_delayed:
  "debounced cs t \<Longrightarrow> \<forall>e \<in> set cs. e + debounce \<le> t \<Longrightarrow> t \<le> t' \<Longrightarrow> debounced cs t'"
  by (meson debounced_def order_trans)

lemma job_times [simp]: "map snd (xs[i := (x, snd (xs ! i))]) = map snd xs"
proof (cases "i < length xs")
  case True
  then have "snd (xs ! i) = map snd xs ! i" by simp
  then show ?thesis by (simp add: map_update del: nth_map)
qed (simp add: list_update_beyond not_less)

lemma times_ok_step: "config_step V l l' \<Longrightarrow> times_ok l \<Longrightarrow> times_ok l'"
proof (induction rule: config_step.induct)
  case (load l files)
  then show ?case
    by (simp add: times_ok_def config_ops Let_def split: prod.splits option.splits sum.splits)
next
  case (taken l)
  have "0 \<le> debounce" by (simp add: debounce_def)
  with taken show ?case
    by (fastforce simp: times_ok_def config_ops intro: debounced_later debounced_last)
next
  case (elapse dt l)
  then show ?case by (fastforce simp: times_ok_def)
next
  case (fire l t)
  then show ?case by (auto simp: times_ok_def config_ops intro: debounced_delayed)
qed (simp_all add: times_ok_def config_ops Let_def del: set_map)

section \<open>After \<^verbatim>\<open>Close\<close>\<close>

text \<open>A job that has not passed its check, or does not exist yet.\<close>

definition not_begun :: "nat \<Rightarrow> ('v, 'c, 'a) loader \<Rightarrow> bool" where
  "not_begun i l \<longleftrightarrow> (i < length (cl_jobs l) \<longrightarrow> fst (cl_jobs l ! i) \<in> {Starting, Dropped})"

lemma not_begun_step:
  "config_step V l l' \<Longrightarrow> cl_done l \<and> not_begun i l \<and> calls_of i (cl_calls l) = [] \<Longrightarrow>
     cl_done l' \<and> not_begun i l' \<and> calls_of i (cl_calls l') = []"
proof (induction rule: config_step.induct)
  case (load l files)
  then show ?case
    by (simp add: not_begun_def config_ops Let_def split: prod.splits option.splits sum.splits)
qed (auto simp: not_begun_def config_ops Let_def nth_list_update nth_append less_Suc_eq)

lemma not_begun_steps:
  "config_steps V l l' \<Longrightarrow> cl_done l \<and> not_begun i l \<and> calls_of i (cl_calls l) = [] \<Longrightarrow>
     cl_done l' \<and> not_begun i l' \<and> calls_of i (cl_calls l') = []"
  by (induction rule: config_steps.induct) (simp, rule not_begun_step)

section \<open>What holds of every loader\<close>

definition loader_ok :: "('v, 'c, 'a) loader \<Rightarrow> bool" where
  "loader_ok l \<longleftrightarrow> jobs_ok l \<and> watch_ok l \<and> times_ok l"

lemma newViperLoader_ok: "newViperLoader V opt now = Inr l \<Longrightarrow> loader_ok l \<and> cl_watch l = co_Watch opt"
  by (auto simp: newViperLoader_def Let_def loader_ok_def jobs_ok_def watch_ok_def times_ok_def
      split: sum.splits)

lemma loader_ok_steps: "config_steps V l l' \<Longrightarrow> loader_ok l \<Longrightarrow> loader_ok l' \<and> cl_watch l' = cl_watch l"
  by (induction rule: config_steps.induct)
     (auto simp: loader_ok_def dest: jobs_ok_step watch_ok_step times_ok_step)

lemma job_called:
  assumes "jobs_ok l" shows "\<exists>n. calls_of i (cl_calls l) = take n (cl_callbacks l)"
proof (cases "i < length (cl_jobs l)")
  case True
  with assms have ok: "job_ok (cl_callbacks l) (calls_of i (cl_calls l)) (fst (cl_jobs l ! i))"
    by (simp add: jobs_ok_def)
  show ?thesis
  proof (cases "fst (cl_jobs l ! i)")
    case (Running cbs k)
    with ok obtain rest where "calls_of i (cl_calls l) = take k cbs" "cl_callbacks l = cbs @ rest" by auto
    then have "calls_of i (cl_calls l) = take (min k (length cbs)) (cl_callbacks l)" by (simp add: min_def)
    then show ?thesis by blast
  qed (use ok take_0 [symmetric] in auto)
next
  case False
  with no_calls_yet [OF assms] have "calls_of i (cl_calls l) = take 0 (cl_callbacks l)" by simp
  then show ?thesis by blast
qed

text \<open>
  C40. Change callbacks, in any interleaving of loads, registrations, changes of the file, timers,
  callback goroutines and \<^verbatim>\<open>Close\<close>. A goroutine calls callbacks in registration order from the first,
  each once. There are at most as many goroutines as changes taken up, and each started at least 50 ms
  after a change with no change in the 50 ms before it. Without \<^verbatim>\<open>Watch\<close> nothing is called. A
  goroutine that had not passed its check of \<^verbatim>\<open>done\<close> when the loader was closed calls nothing.
\<close>

theorem config_callbacks:
  assumes "config_New V opt now = Inr l0" and "config_steps V l0 l1" and "config_steps V l1 l"
  shows "(\<forall>i. \<exists>n. calls_of i (cl_calls l) = take n (cl_callbacks l)) \<and>
    (\<forall>c \<in> set (cl_calls l). fst c < length (cl_jobs l)) \<and>
    length (cl_jobs l) \<le> length (cl_changes l) \<and>
    (\<forall>t \<in> set (map snd (cl_jobs l)). t \<le> cl_now l \<and> debounced (cl_changes l) t) \<and>
    (\<not> co_Watch opt \<longrightarrow> cl_calls l = []) \<and>
    (cl_done l1 \<longrightarrow> (\<forall>i. not_begun i l1 \<longrightarrow> calls_of i (cl_calls l) = []))"
proof -
  have "loader_ok l0 \<and> cl_watch l0 = co_Watch opt"
    using assms(1) by (auto simp: config_New_def newViperLoader_ok split: sum.splits)
  with loader_ok_steps [OF assms(2)] have l1: "loader_ok l1 \<and> cl_watch l1 = co_Watch opt" by simp
  with loader_ok_steps [OF assms(3)] have l: "jobs_ok l" "watch_ok l" "times_ok l" "cl_watch l = co_Watch opt"
    by (simp_all add: loader_ok_def)
  have idle: "\<not> co_Watch opt \<longrightarrow> cl_calls l = []"
    using l(1,2,4) by (cases "cl_calls l") (auto simp: jobs_ok_def watch_ok_def)
  have closed: "not_begun i l1 \<Longrightarrow> calls_of i (cl_calls l1) = []" for i
    using l1 no_calls_yet [of l1 i] by (fastforce simp: loader_ok_def jobs_ok_def not_begun_def not_less)
  show ?thesis
    using l job_called [OF l(1)] idle closed not_begun_steps [OF assms(3)]
    by (auto simp: jobs_ok_def watch_ok_def times_ok_def split: if_splits)
qed

section \<open>A run\<close>

text \<open>A viper whose state is the text it read last; a configuration is that text.\<close>

definition text_viper :: "(string, string, string) viper" where
  "text_viper = \<lparr>v_New = '''', v_SetConfigFile = (\<lambda>_ v. v), v_SetConfigName = (\<lambda>_ v. v),
     v_AddConfigPath = (\<lambda>_ v. v), v_SetConfigType = (\<lambda>_ v. v), v_SetDefault = (\<lambda>_ _ v. v),
     v_SetEnvPrefix = (\<lambda>_ v. v), v_SetEnvKeyReplacer = (\<lambda>_ v. v), v_AutomaticEnv = (\<lambda>v. v),
     v_ReadInConfig = (\<lambda>f v. (None, f)), v_UnmarshalExact = Inr, v_WatchConfig = (\<lambda>v. v)\<rparr>"

definition sample_option :: config_option where
  "sample_option = \<lparr>co_ConfigFile = ''app.yaml'', co_ConfigName = '''', co_ConfigPaths = [], co_ConfigType = '''',
     co_Defaults = [], co_Watch = True, co_EnvPrefix = ''''\<rparr>"

definition sample_loader :: "(string, string, string) loader" where
  "sample_loader = \<lparr>cl_viper = '''', cl_callbacks = [], cl_done = False, cl_watch = True, cl_watching = False,
     cl_handling = False, cl_timer = None, cl_now = 0, cl_jobs = [], cl_calls = [], cl_changes = []\<rparr>"

text \<open>A second change comes before the loader is closed; its timer fires afterwards.\<close>

definition closed_loader :: "(string, string, string) loader" where
  "closed_loader = sample_loader\<lparr>cl_viper := ''c'', cl_callbacks := [''f'', ''g''], cl_done := True,
     cl_watching := True, cl_timer := Some (2 * debounce), cl_now := debounce,
     cl_jobs := [(Running [''f'', ''g''] 1, debounce)], cl_calls := [(0, ''f'', Inr ''b'')],
     cl_changes := [0, debounce]\<rparr>"

definition final_loader :: "(string, string, string) loader" where
  "final_loader = closed_loader\<lparr>cl_timer := None, cl_now := 2 * debounce,
     cl_jobs := [(Running [''f'', ''g''] 1, debounce), (Dropped, 2 * debounce)]\<rparr>"

lemmas steps_one = config_steps.step [OF config_steps.none]

lemma closed_reached: "config_steps text_viper sample_loader closed_loader"
proof -
  let ?V = text_viper
  let ?a = "OnChange ''g'' (OnChange ''f'' (snd (config_Load ?V ''a'' sample_loader)))"
  let ?b = "change_taken (change_seen ?V ''b'' ?a)"
  let ?c = "job_copies 0 (job_checks 0 (timer_fires (?b\<lparr>cl_now := cl_now ?b + debounce\<rparr>)))"
  let ?d = "change_taken (change_seen ?V ''c'' (job_calls ?V 0 [''f'', ''g''] 0 ?c))"
  note defs = config_ops sample_loader_def text_viper_def debounce_def Let_def
  have a: "config_steps ?V sample_loader ?a"
    by (rule config_steps.step [OF config_steps.step [OF steps_one [OF config_step.load] config_step.on_change] config_step.on_change])
  have b: "config_steps ?V sample_loader ?b"
    by (rule config_steps.step [OF config_steps.step [OF a config_step.seen] config_step.taken]) (simp_all add: defs)
  have c: "config_steps ?V sample_loader ?c"
    by (rule config_steps.step [OF config_steps.step [OF config_steps.step
          [OF config_steps.step [OF b config_step.elapse] config_step.fire [where t = debounce]] config_step.checks] config_step.copies])
       (simp_all add: defs)
  have d: "config_steps ?V sample_loader ?d"
    by (rule config_steps.step [OF config_steps.step [OF config_steps.step
          [OF c config_step.calls] config_step.seen] config_step.taken]) (simp_all add: defs)
  have "config_Close ?d = closed_loader"
    by (simp add: defs closed_loader_def)
  with config_steps.step [OF d config_step.close] show ?thesis by simp
qed

lemma final_reached: "config_steps text_viper closed_loader final_loader"
proof -
  let ?e = "timer_fires (closed_loader\<lparr>cl_now := cl_now closed_loader + debounce\<rparr>)"
  have e: "config_steps text_viper closed_loader (job_checks 1 ?e)"
    by (rule config_steps.step [OF config_steps.step [OF steps_one [OF config_step.elapse]
          config_step.fire [where t = "2 * debounce"]] config_step.checks])
       (simp_all add: config_ops closed_loader_def sample_loader_def debounce_def)
  have "job_checks 1 ?e = final_loader"
    by (simp add: config_ops final_loader_def closed_loader_def sample_loader_def debounce_def)
  with e show ?thesis by simp
qed

theorem config_callbacks_witness:
  "calls_of 0 (cl_calls final_loader) = [''f''] \<and> length (cl_jobs final_loader) = 2 \<and> calls_of 1 (cl_calls final_loader) = []"
proof -
  have new: "config_New text_viper sample_option 0 = Inr sample_loader"
    by (simp add: config_New_def newViperLoader_def config_source_def sample_option_def text_viper_def
        sample_loader_def)
  have closed: "cl_done closed_loader" "not_begun 1 closed_loader"
    by (simp_all add: closed_loader_def not_begun_def)
  show ?thesis
    using config_callbacks [OF new closed_reached final_reached] closed
    by (simp add: final_loader_def closed_loader_def calls_of_def)
qed

end
