(* ===== verification/Trace_Http.thy ===== *)
theory Trace_Http
  imports Trace
begin

text \<open>
  Where traces meet HTTP: the Gin middleware of a service (\<^verbatim>\<open>trace/middleware.go\<close>) and the
  client its handlers call other services with (\<^verbatim>\<open>trace/client.go\<close>). Gin is the part of its
  context the middleware touches; the inner client of \<^verbatim>\<open>net/http\<close> is a parameter.
\<close>

section \<open>Requests with a context\<close>

text \<open>
  What the modules keep in a \<^verbatim>\<open>context.Context\<close>: the trace and the two ids of the logger (an
  absent id reads as the empty string).
\<close>

record trace_ctx =
  cv_trace :: "trace_context option"
  cv_log_trace :: string
  cv_log_span :: string

record ctx_request = request +
  rq_ctx :: trace_ctx

text \<open>A value under \<open>nsp.trace\<close> is \<open>None\<close> when it is of another type than \<^verbatim>\<open>*TraceContext\<close>.\<close>

record trace_gin =
  tg_request :: "ctx_request option"
  tg_keys :: "(string \<times> trace_context option) list"
  tg_response :: header

definition ginTraceKey :: string where "ginTraceKey = ''nsp.trace''"

text \<open>\<^verbatim>\<open>ContextWithTrace\<close>, \<^verbatim>\<open>TraceFromContext\<close>, and the same for the ids of the logger.\<close>

definition ContextWithTrace :: "trace_ctx \<Rightarrow> trace_context \<Rightarrow> trace_ctx" where
  "ContextWithTrace ctx tc = ctx\<lparr>cv_trace := Some tc\<rparr>"

definition TraceFromContext :: "trace_ctx \<Rightarrow> trace_context option" where
  "TraceFromContext ctx = cv_trace ctx"

definition ContextWithTraceID :: "trace_ctx \<Rightarrow> string \<Rightarrow> trace_ctx" where
  "ContextWithTraceID ctx i = ctx\<lparr>cv_log_trace := i\<rparr>"

definition ContextWithSpanID :: "trace_ctx \<Rightarrow> string \<Rightarrow> trace_ctx" where
  "ContextWithSpanID ctx i = ctx\<lparr>cv_log_span := i\<rparr>"

section \<open>The middleware\<close>

text \<open>
  The state in which \<^verbatim>\<open>c.Next()\<close> runs, and the unused random bytes; a Gin context without a
  request is a nil dereference (\<open>None\<close>).
\<close>

definition TraceMiddleware :: "string \<Rightarrow> trace_gin \<Rightarrow> string \<Rightarrow> (trace_gin \<times> string) option" where
  "TraceMiddleware instanceId c supply =
     (case tg_request c of
        None \<Rightarrow> None
      | Some req \<Rightarrow>
          (let (tc, supply') = Extract (rq_header req) instanceId supply;
               ctx = ContextWithTrace (rq_ctx req) tc;
               ctx = ContextWithTraceID ctx (TraceID tc);
               ctx = ContextWithSpanID ctx (SpanId tc)
           in Some (c\<lparr>tg_request := Some (req\<lparr>rq_ctx := ctx\<rparr>),
                      tg_keys := AList.update ginTraceKey (Some tc) (tg_keys c),
                      tg_response := InjectResponse (tg_response c) (Some tc)\<rparr>, supply')))"

definition TraceFromGin :: "trace_gin \<Rightarrow> trace_context option" where
  "TraceFromGin c =
     (case map_of (tg_keys c) ginTraceKey of
        Some (Some tc) \<Rightarrow> Some tc
      | _ \<Rightarrow> (case tg_request c of Some req \<Rightarrow> TraceFromContext (rq_ctx req) | None \<Rightarrow> None))"

section \<open>The client\<close>

record http_client =
  hc_timeout :: int

record traced_client =
  tr_inner :: http_client

definition NewTracedClient :: "http_client option \<Rightarrow> traced_client" where
  "NewTracedClient inner =
     \<lparr>tr_inner = (case inner of None \<Rightarrow> \<lparr>hc_timeout = 30 * 10 ^ 9\<rparr> | Some c \<Rightarrow> c)\<rparr>"

text \<open>\<^verbatim>\<open>http.Client.Do\<close>: what the peers answer, given the client's settings and the request.\<close>

type_synonym ('s, 'r) transport = "http_client \<Rightarrow> ctx_request \<Rightarrow> 's \<Rightarrow> (gerr + 'r) \<times> 's"

text \<open>\<^verbatim>\<open>Do\<close> writes the headers of its argument, which its caller goes on holding.\<close>

definition outgoing :: "ctx_request \<Rightarrow> ctx_request" where
  "outgoing req =
     (case TraceFromContext (rq_ctx req) of
        Some tc \<Rightarrow> req\<lparr>rq_header := Inject (rq_header req) (Some tc)\<rparr>
      | None \<Rightarrow> req)"

definition client_Do :: "('s, 'r) transport \<Rightarrow> traced_client \<Rightarrow> ctx_request \<Rightarrow> 's \<Rightarrow> (gerr + 'r) \<times> 's" where
  "client_Do T c req s = T (tr_inner c) (outgoing req) s"

definition with_ctx :: "trace_ctx \<Rightarrow> request \<Rightarrow> ctx_request" where
  "with_ctx ctx r = request.extend r \<lparr>rq_ctx = ctx\<rparr>"

definition client_Get ::
  "stdlib \<Rightarrow> ('s, 'r) transport \<Rightarrow> traced_client \<Rightarrow> trace_ctx \<Rightarrow> string \<Rightarrow> 's \<Rightarrow> (gerr + 'r) \<times> 's" where
  "client_Get L T c ctx url s =
     (case NewRequest L ''GET'' url None of
        Inl e \<Rightarrow> (Inl e, s)
      | Inr r \<Rightarrow> client_Do T c (with_ctx ctx r) s)"

definition client_Post ::
  "stdlib \<Rightarrow> ('s, 'r) transport \<Rightarrow> traced_client \<Rightarrow> trace_ctx \<Rightarrow> string \<Rightarrow> string \<Rightarrow> string option \<Rightarrow> 's
     \<Rightarrow> (gerr + 'r) \<times> 's" where
  "client_Post L T c ctx url contentType body s =
     (case NewRequest L ''POST'' url body of
        Inl e \<Rightarrow> (Inl e, s)
      | Inr r \<Rightarrow>
          (let r = (if contentType \<noteq> '''' then set_header r ''Content-Type'' contentType else r)
           in client_Do T c (with_ctx ctx r) s))"

definition Client :: "traced_client \<Rightarrow> http_client" where
  "Client c = tr_inner c"

section \<open>Correctness\<close>

text \<open>The context the middleware of a service gives its handlers, for the headers of the request.\<close>

definition received :: "string \<Rightarrow> header \<Rightarrow> string \<Rightarrow> trace_context" where
  "received instanceId h supply = fst (Extract h instanceId supply)"

lemma TraceMiddleware_eq:
  "tg_request c = Some req \<Longrightarrow> TraceMiddleware inst c s =
     (let tc = received inst (rq_header req) s
      in Some (c\<lparr>tg_request := Some (req\<lparr>rq_ctx := \<lparr>cv_trace = Some tc, cv_log_trace = TraceID tc,
                   cv_log_span = SpanId tc\<rparr>\<rparr>),
                 tg_keys := AList.update ginTraceKey (Some tc) (tg_keys c),
                 tg_response := InjectResponse (tg_response c) (Some tc)\<rparr>,
               snd (Extract (rq_header req) inst s)))"
  by (simp add: TraceMiddleware_def received_def Let_def case_prod_beta ContextWithTrace_def
      ContextWithTraceID_def ContextWithSpanID_def)

lemma received_ok: "trace_ok (received inst h s)"
  by (auto simp: received_def Extract_def trace_ok_def new_ids_valid Let_def case_prod_beta)

lemma TraceFromGin_middleware:
  "tg_request c = Some req \<Longrightarrow> TraceMiddleware inst c s = Some (c', s') \<Longrightarrow>
   TraceFromGin c' = Some (received inst (rq_header req) s)"
  by (auto simp: TraceMiddleware_eq TraceFromGin_def update_conv' Let_def)

lemma response_headers:
  assumes "trace_ok tc"
  shows "hdr_get (InjectResponse h (Some tc)) HeaderTraceID = TraceID tc"
    and "hdr_get (InjectResponse h (Some tc)) HeaderRequestID = TraceID tc"
  using assms by (auto simp: InjectResponse_def trace_ok_def hdr_get_set dest!: valid_hex_nonempty)

lemma received_parent: "ParentSpanId (received inst h s) \<in> {p. p = '''' \<or> isValidHexString p 16}"
  unfolding received_def using extract_well_formed by blast

text \<open>The next service receives what the client injects.\<close>

lemma received_outgoing:
  assumes "cv_trace ctx = Some tc" and "trace_ok tc"
  shows "received inst (rq_header (outgoing (call\<lparr>rq_ctx := ctx\<rparr>))) s =
    \<lparr>TraceID = TraceID tc, SpanId = fst (NewSpanId s), ParentSpanId = SpanId tc,
     InstanceId = inst, Sampled = Sampled tc\<rparr>"
  using assms by (simp add: received_def outgoing_def TraceFromContext_def inject_extract)

text \<open>A peer that runs the middleware and answers with the trace its handlers get.\<close>

definition service :: "string \<Rightarrow> trace_gin \<Rightarrow> (string, trace_context option) transport" where
  "service inst g cl r supply =
     (case TraceMiddleware inst (g\<lparr>tg_request := Some r\<rparr>) supply of
        None \<Rightarrow> (Inr None, supply)
      | Some (g', supply') \<Rightarrow> (Inr (TraceFromGin g'), supply'))"

lemma service_eq: "fst (service inst g cl r s) = Inr (Some (received inst (rq_header r) s))"
proof -
  let ?g = "g\<lparr>tg_request := Some r\<rparr>"
  have "tg_request ?g = Some r" by simp
  from TraceMiddleware_eq [OF this] TraceFromGin_middleware [OF this]
  show ?thesis by (auto simp: service_def Let_def split: option.splits)
qed

text \<open>
  C6. A trace crosses services. Whatever headers a request carries to service A, its handlers find
  in the Gin context and in the request context one well-formed trace, of instance A, whose ids the
  logger gets too and whose trace id the response carries in both headers; and any request a handler
  sends with that context through the traced client, over whatever headers it had, gives the handlers
  of service B the same trace id and sampling decision, A's span as the parent, and a fresh span.
\<close>

theorem trace_crosses_services:
  "\<exists>a s' reqA tc. TraceMiddleware instA (g\<lparr>tg_request := Some req\<rparr>) s = Some (a, s') \<and>
     TraceFromGin a = Some tc \<and> tg_request a = Some reqA \<and>
     rq_ctx reqA = \<lparr>cv_trace = Some tc, cv_log_trace = TraceID tc, cv_log_span = SpanId tc\<rparr> \<and>
     trace_ok tc \<and> InstanceId tc = instA \<and> ParentSpanId tc \<in> {p. p = '''' \<or> isValidHexString p 16} \<and>
     hdr_get (tg_response a) HeaderTraceID = TraceID tc \<and> hdr_get (tg_response a) HeaderRequestID = TraceID tc \<and>
     fst (client_Do (service instB b) cl (call\<lparr>rq_ctx := rq_ctx reqA\<rparr>) t) =
       Inr (Some \<lparr>TraceID = TraceID tc, SpanId = fst (NewSpanId t), ParentSpanId = SpanId tc,
                 InstanceId = instB, Sampled = Sampled tc\<rparr>)"
proof -
  let ?c = "g\<lparr>tg_request := Some req\<rparr>" and ?tc = "received instA (rq_header req) s"
  have req: "tg_request ?c = Some req" by simp
  obtain a s' where a: "TraceMiddleware instA ?c s = Some (a, s')"
    "tg_request a = Some (req\<lparr>rq_ctx := \<lparr>cv_trace = Some ?tc, cv_log_trace = TraceID ?tc, cv_log_span = SpanId ?tc\<rparr>\<rparr>)"
    "tg_response a = InjectResponse (tg_response ?c) (Some ?tc)"
    using TraceMiddleware_eq [OF req] by (simp add: Let_def)
  have "InstanceId ?tc = instA" by (simp add: received_def Extract_def Let_def case_prod_beta)
  then show ?thesis
    using a TraceFromGin_middleware [OF req a(1)]
    by (intro exI [of _ a] exI [of _ s'] exI [of _ ?tc])
       (simp add: received_ok received_parent response_headers client_Do_def service_eq received_outgoing del: mem_Collect_eq)
qed

end
