(* ===== verification/Log_Config.thy ===== *)
theory Log_Config
  imports Trace_Http
begin

text \<open>
  The configuration of the logger (\<^verbatim>\<open>logger/config.go\<close>, the configuration part of
  \<^verbatim>\<open>logger/category.go\<close>): levels, formats, outputs, presets, validation and defaults.
\<close>

section \<open>Errors\<close>

definition errServiceNameRequired :: gerr where
  "errServiceNameRequired = GErr [ErrServiceNameRequired] ''logger: service name is required''"

definition errInvalidLevel :: gerr where
  "errInvalidLevel = GErr [ErrInvalidLevel] ''logger: invalid log level''"

definition errInvalidFormat :: gerr where
  "errInvalidFormat = GErr [ErrInvalidFormat] ''logger: invalid log format''"

section \<open>Field keys\<close>

definition FieldService :: string where "FieldService = ''service''"
definition FieldTraceID :: string where "FieldTraceID = ''trace_id''"
definition FieldSpanID :: string where "FieldSpanID = ''span_id''"
definition FieldRequestID :: string where "FieldRequestID = ''request_id''"
definition FieldError :: string where "FieldError = ''error''"
definition FieldHTTPMethod :: string where "FieldHTTPMethod = ''http_method''"
definition FieldHTTPPath :: string where "FieldHTTPPath = ''http_path''"
definition FieldHTTPStatus :: string where "FieldHTTPStatus = ''http_status''"
definition FieldHTTPLatency :: string where "FieldHTTPLatency = ''http_latency_ms''"
definition FieldHTTPQuery :: string where "FieldHTTPQuery = ''http_query''"
definition FieldClientIP :: string where "FieldClientIP = ''client_ip''"
definition FieldUserAgent :: string where "FieldUserAgent = ''user_agent''"
definition FieldResponseSize :: string where "FieldResponseSize = ''response_size''"
definition FieldReferer :: string where "FieldReferer = ''referer''"
definition FieldComponent :: string where "FieldComponent = ''component''"
definition FieldTaskType :: string where "FieldTaskType = ''task_type''"
definition FieldTaskID :: string where "FieldTaskID = ''task_id''"
definition FieldQueue :: string where "FieldQueue = ''queue''"
definition FieldCategory :: string where "FieldCategory = ''category''"

lemmas field_keys = FieldService_def FieldTraceID_def FieldSpanID_def FieldRequestID_def FieldError_def FieldHTTPMethod_def FieldHTTPPath_def FieldHTTPStatus_def
  FieldHTTPLatency_def FieldHTTPQuery_def FieldClientIP_def FieldUserAgent_def FieldResponseSize_def FieldReferer_def FieldComponent_def FieldCategory_def
  FieldTaskType_def FieldTaskID_def FieldQueue_def

section \<open>Levels, formats, outputs\<close>

text \<open>Named string types of Go: any string can be converted to them.\<close>

type_synonym log_level = string
type_synonym log_format = string
type_synonym output_type = string

definition LevelDebug :: log_level where "LevelDebug = ''debug''"
definition LevelInfo :: log_level where "LevelInfo = ''info''"
definition LevelWarn :: log_level where "LevelWarn = ''warn''"
definition LevelError :: log_level where "LevelError = ''error''"

definition FormatJSON :: log_format where "FormatJSON = ''json''"
definition FormatConsole :: log_format where "FormatConsole = ''console''"

definition OutputTypeStdout :: output_type where "OutputTypeStdout = ''stdout''"
definition OutputTypeStderr :: output_type where "OutputTypeStderr = ''stderr''"
definition OutputTypeFile :: output_type where "OutputTypeFile = ''file''"

lemmas log_constants = LevelDebug_def LevelInfo_def LevelWarn_def LevelError_def FormatJSON_def
  FormatConsole_def OutputTypeStdout_def OutputTypeStderr_def OutputTypeFile_def

definition known_level :: "log_level \<Rightarrow> bool" where
  "known_level l \<longleftrightarrow> l \<in> {LevelDebug, LevelInfo, LevelWarn, LevelError}"

record rotation_config =
  rot_MaxSize :: int
  rot_MaxBackups :: int
  rot_MaxAge :: int
  rot_Compress :: bool
  rot_LocalTime :: bool

definition DefaultRotationConfig :: rotation_config where
  "DefaultRotationConfig = \<lparr>rot_MaxSize = 100, rot_MaxBackups = 7, rot_MaxAge = 30,
     rot_Compress = True, rot_LocalTime = True\<rparr>"

record output_config =
  out_Type :: output_type
  out_Path :: string
  out_Rotation :: "rotation_config option"
  out_Level :: log_level
  out_Format :: log_format

record sampling_config =
  smp_Initial :: int
  smp_Thereafter :: int

record log_config =
  lc_Level :: log_level
  lc_Format :: log_format
  lc_ServiceName :: string
  lc_OutputPaths :: "string list"
  lc_Outputs :: "output_config list"
  lc_Rotation :: "rotation_config option"
  lc_EnableCaller :: bool
  lc_EnableStackTrace :: bool
  lc_Development :: bool
  lc_Sampling :: "sampling_config option"

section \<open>Presets\<close>

definition log_DefaultConfig :: "string \<Rightarrow> log_config" where
  "log_DefaultConfig serviceName = \<lparr>lc_Level = LevelInfo, lc_Format = FormatJSON,
     lc_ServiceName = serviceName, lc_OutputPaths = [''stdout''], lc_Outputs = [],
     lc_Rotation = Some DefaultRotationConfig, lc_EnableCaller = True, lc_EnableStackTrace = True,
     lc_Development = False, lc_Sampling = Some \<lparr>smp_Initial = 100, smp_Thereafter = 10\<rparr>\<rparr>"

definition DevelopmentConfig :: "string \<Rightarrow> log_config" where
  "DevelopmentConfig serviceName = \<lparr>lc_Level = LevelDebug, lc_Format = FormatConsole,
     lc_ServiceName = serviceName, lc_OutputPaths = [''stdout''], lc_Outputs = [],
     lc_Rotation = None, lc_EnableCaller = True, lc_EnableStackTrace = True,
     lc_Development = True, lc_Sampling = None\<rparr>"

definition MultiOutputConfig :: "string \<Rightarrow> string \<Rightarrow> log_config" where
  "MultiOutputConfig serviceName logFile = \<lparr>lc_Level = LevelInfo, lc_Format = FormatJSON,
     lc_ServiceName = serviceName, lc_OutputPaths = [],
     lc_Outputs =
       [\<lparr>out_Type = OutputTypeStdout, out_Path = '''', out_Rotation = None, out_Level = '''',
         out_Format = FormatConsole\<rparr>,
        \<lparr>out_Type = OutputTypeFile, out_Path = logFile, out_Rotation = Some DefaultRotationConfig,
         out_Level = '''', out_Format = FormatJSON\<rparr>],
     lc_Rotation = None, lc_EnableCaller = True, lc_EnableStackTrace = True,
     lc_Development = False, lc_Sampling = Some \<lparr>smp_Initial = 100, smp_Thereafter = 10\<rparr>\<rparr>"

section \<open>Validation and defaults\<close>

definition log_Validate :: "log_config \<Rightarrow> gerr option" where
  "log_Validate c =
     (if lc_ServiceName c = '''' then Some errServiceNameRequired
      else if lc_Level c \<notin> {LevelDebug, LevelInfo, LevelWarn, LevelError, ''''} then Some errInvalidLevel
      else if lc_Format c \<notin> {FormatJSON, FormatConsole, ''''} then Some errInvalidFormat
      else if list_ex (\<lambda>out. out_Type out = OutputTypeFile \<and> out_Path out = '''') (lc_Outputs c)
        then Some errInvalidFormat
      else None)"

definition applyDefaults :: "log_config \<Rightarrow> log_config" where
  "applyDefaults c =
     (let c = (if lc_Level c = '''' then c\<lparr>lc_Level := LevelInfo\<rparr> else c);
          c = (if lc_Format c = '''' then c\<lparr>lc_Format := FormatJSON\<rparr> else c)
      in if lc_OutputPaths c = [] \<and> lc_Outputs c = [] then c\<lparr>lc_OutputPaths := [''stdout'']\<rparr> else c)"

section \<open>Categories\<close>

type_synonym log_category = string

definition CategoryAccess :: log_category where "CategoryAccess = ''access''"
definition CategoryPlatform :: log_category where "CategoryPlatform = ''platform''"
definition CategoryBusiness :: log_category where "CategoryBusiness = ''business''"

lemmas category_constants = CategoryAccess_def CategoryPlatform_def CategoryBusiness_def

record category_config =
  cat_Level :: log_level
  cat_Format :: log_format
  cat_Outputs :: "output_config list"
  cat_Sampling :: "sampling_config option"
  cat_EnableCaller :: bool
  cat_EnableStackTrace :: bool

record multi_category_config =
  mc_ServiceName :: string
  mc_Development :: bool
  mc_Access :: "category_config option"
  mc_Platform :: "category_config option"
  mc_Business :: "category_config option"

definition category_part :: "multi_category_config \<Rightarrow> log_category \<Rightarrow> category_config option" where
  "category_part cfg category =
     (if category = CategoryAccess then mc_Access cfg
      else if category = CategoryPlatform then mc_Platform cfg
      else if category = CategoryBusiness then mc_Business cfg
      else None)"

definition buildCategoryLoggerConfig :: "multi_category_config \<Rightarrow> log_category \<Rightarrow> log_config" where
  "buildCategoryLoggerConfig cfg category =
     (let catCfg = category_part cfg category;
          result = \<lparr>lc_Level = '''', lc_Format = '''', lc_ServiceName = mc_ServiceName cfg,
            lc_OutputPaths = [], lc_Outputs = [], lc_Rotation = None, lc_EnableCaller = False,
            lc_EnableStackTrace = False, lc_Development = mc_Development cfg, lc_Sampling = None\<rparr>;
          result = (case catCfg of
              None \<Rightarrow> result
            | Some c \<Rightarrow> result\<lparr>lc_Level := cat_Level c, lc_Format := cat_Format c,
                lc_Outputs := cat_Outputs c, lc_Sampling := cat_Sampling c,
                lc_EnableCaller := cat_EnableCaller c, lc_EnableStackTrace := cat_EnableStackTrace c\<rparr>);
          result = (if category \<in> {CategoryAccess, CategoryPlatform, CategoryBusiness} then
              (let result = (if lc_Level result = '''' then result\<lparr>lc_Level := LevelInfo\<rparr> else result)
               in if lc_Format result = '''' then result\<lparr>lc_Format := FormatJSON\<rparr> else result)
            else result);
          result = (if category = CategoryBusiness \<and> catCfg = None
            then result\<lparr>lc_EnableCaller := True, lc_EnableStackTrace := True\<rparr> else result)
      in if lc_Outputs result = [] \<and> lc_OutputPaths result = []
         then result\<lparr>lc_OutputPaths := [''stdout'']\<rparr> else result)"

text \<open>The presets; \<^verbatim>\<open>filepath.Join\<close> is a parameter.\<close>

definition stdout_output :: "log_format \<Rightarrow> output_config" where
  "stdout_output f = \<lparr>out_Type = OutputTypeStdout, out_Path = '''', out_Rotation = None, out_Level = '''',
     out_Format = f\<rparr>"

definition file_output :: "string \<Rightarrow> output_config" where
  "file_output path = \<lparr>out_Type = OutputTypeFile, out_Path = path,
     out_Rotation = Some DefaultRotationConfig, out_Level = '''', out_Format = FormatJSON\<rparr>"

definition preset :: "log_level \<Rightarrow> log_format \<Rightarrow> output_config \<Rightarrow> bool \<Rightarrow> bool \<Rightarrow> category_config" where
  "preset l f out caller stack = \<lparr>cat_Level = l, cat_Format = f, cat_Outputs = [out],
     cat_Sampling = None, cat_EnableCaller = caller, cat_EnableStackTrace = stack\<rparr>"

definition DefaultMultiCategoryConfig :: "string \<Rightarrow> multi_category_config" where
  "DefaultMultiCategoryConfig serviceName = \<lparr>mc_ServiceName = serviceName, mc_Development = False,
     mc_Access = Some (preset LevelInfo FormatJSON (stdout_output FormatJSON) False False),
     mc_Platform = Some (preset LevelInfo FormatJSON (stdout_output FormatJSON) False False),
     mc_Business = Some (preset LevelInfo FormatJSON (stdout_output FormatJSON) True False)\<rparr>"

definition FileMultiCategoryConfig :: "(string \<Rightarrow> string \<Rightarrow> string) \<Rightarrow> string \<Rightarrow> string \<Rightarrow> multi_category_config" where
  "FileMultiCategoryConfig join serviceName logDir =
     \<lparr>mc_ServiceName = serviceName, mc_Development = False,
      mc_Access = Some (preset LevelInfo FormatJSON (file_output (join logDir ''access.log'')) False False),
      mc_Platform = Some (preset LevelInfo FormatJSON (file_output (join logDir ''platform.log'')) False False),
      mc_Business = Some (preset LevelInfo FormatJSON (file_output (join logDir ''app.log'')) True True)\<rparr>"

definition DevelopmentMultiCategoryConfig :: "string \<Rightarrow> multi_category_config" where
  "DevelopmentMultiCategoryConfig serviceName = \<lparr>mc_ServiceName = serviceName, mc_Development = True,
     mc_Access = Some (preset LevelDebug FormatConsole (stdout_output FormatConsole) False False),
     mc_Platform = Some (preset LevelDebug FormatConsole (stdout_output FormatConsole) False False),
     mc_Business = Some (preset LevelDebug FormatConsole (stdout_output FormatConsole) True True)\<rparr>"

section \<open>Facts\<close>

lemma presets_valid:
  assumes "s \<noteq> ''''"
  shows "log_Validate (log_DefaultConfig s) = None" and "log_Validate (DevelopmentConfig s) = None"
    and "p \<noteq> '''' \<Longrightarrow> log_Validate (MultiOutputConfig s p) = None"
  using assms
  by (simp_all add: log_Validate_def log_DefaultConfig_def DevelopmentConfig_def MultiOutputConfig_def log_constants)

lemma applyDefaults_idem: "applyDefaults (applyDefaults c) = applyDefaults c"
  by (simp add: applyDefaults_def Let_def log_constants)

lemma validated_level:
  "log_Validate c = None \<Longrightarrow> known_level (lc_Level (applyDefaults c))"
  by (auto simp: log_Validate_def applyDefaults_def Let_def known_level_def split: if_splits)

lemma applyDefaults_outputs:
  "lc_OutputPaths (applyDefaults c) \<noteq> [] \<or> lc_Outputs (applyDefaults c) \<noteq> []"
  by (simp add: applyDefaults_def Let_def)

end
