(* ===== verification/Log_Zap.thy ===== *)
theory Log_Zap
  imports Log_Config
begin

text \<open>
  What the logger uses of zap, slog and lumberjack, as a parameter with its documented laws, and the
  core the program itself puts around a sampler (\<^verbatim>\<open>errorExcludeSamplerCore\<close> of
  \<^verbatim>\<open>logger/zap_logger.go\<close>), with the encoders and writers it configures.
\<close>

section \<open>Log entries\<close>

text \<open>An argument of a log call: a value, or a \<^verbatim>\<open>slog.Attr\<close> with its key.\<close>

datatype log_arg = AVal goval | AAttr string goval

abbreviation AStr :: "string \<Rightarrow> log_arg" where "AStr s \<equiv> AVal (GStr s)"

type_synonym zap_field = "string \<times> log_arg"

text \<open>zap's levels are small integers.\<close>

definition DebugLevel :: int where "DebugLevel = -1"
definition InfoLevel :: int where "InfoLevel = 0"
definition WarnLevel :: int where "WarnLevel = 1"
definition ErrorLevel :: int where "ErrorLevel = 2"

lemmas zap_levels = DebugLevel_def InfoLevel_def WarnLevel_def ErrorLevel_def

record log_entry =
  en_level :: int
  en_message :: string
  en_caller :: bool \<comment> \<open>the caller's position is attached\<close>
  en_stack :: bool \<comment> \<open>a stack trace is attached\<close>

datatype level_encoder = LowercaseLevelEncoder | CapitalLevelEncoder | CapitalColorLevelEncoder
datatype value_encoder = ISO8601TimeEncoder | MillisDurationEncoder | ShortCallerEncoder

text \<open>The empty key is \<^verbatim>\<open>zapcore.OmitKey\<close>.\<close>

record encoder_config =
  ec_TimeKey :: string
  ec_LevelKey :: string
  ec_NameKey :: string
  ec_CallerKey :: string
  ec_FunctionKey :: string
  ec_MessageKey :: string
  ec_StacktraceKey :: string
  ec_EncodeLevel :: level_encoder
  ec_EncodeTime :: value_encoder
  ec_EncodeDuration :: value_encoder
  ec_EncodeCaller :: value_encoder

datatype encoder = JSONEncoder encoder_config | ConsoleEncoder encoder_config

record lumberjack =
  lj_Filename :: string
  lj_MaxSize :: int
  lj_MaxBackups :: int
  lj_MaxAge :: int
  lj_Compress :: bool
  lj_LocalTime :: bool

datatype sink = Stdout | Stderr | Rotated lumberjack

text \<open>A write syncer writes to each of its sinks in turn.\<close>

type_synonym write_syncer = "sink list"

record written =
  wr_encoder :: encoder
  wr_sink :: sink
  wr_entry :: log_entry
  wr_fields :: "zap_field list"

section \<open>zap\<close>

text \<open>
  A \<^verbatim>\<open>zapcore.Core\<close> is one of zap's own or the program's \<^verbatim>\<open>errorExcludeSamplerCore\<close>, with the
  sampled and the original core.
\<close>

datatype 'z log_core = ZapCore 'z | ErrorExclude "'z log_core" "'z log_core"

record zap_options =
  zo_Caller :: bool
  zo_Fields :: "zap_field list"
  zo_CallerSkip :: int
  zo_Stacktrace :: "int option"

record handler_options =
  ho_Name :: string
  ho_Caller :: bool
  ho_Stacktrace :: "int option"

text \<open>
  The operations: cores (\<open>z_\<close>), zap loggers (\<open>g_\<close>), sugared loggers (\<open>s_\<close>), slog handlers (\<open>h_\<close>).
  An atomic level is a reference into a store of levels, which the operations that look at it get as
  a list. \<open>z_Write\<close> is \<^verbatim>\<open>Check\<close> followed by \<^verbatim>\<open>Write\<close> on the entry it checked; \<open>'s\<close> is what
  zap keeps itself (clock, sampling counters, buffers). A handler may lack \<^verbatim>\<open>Sync\<close>.
\<close>

record ('z, 'g, 'h, 's) zap =
  z_NewCore :: "encoder \<Rightarrow> write_syncer \<Rightarrow> nat \<Rightarrow> 'z"
  z_NewTee :: "'z list \<Rightarrow> 'z"
  z_NewSampler :: "'z \<Rightarrow> int \<Rightarrow> int \<Rightarrow> int \<Rightarrow> 'z"
  z_With :: "'z \<Rightarrow> zap_field list \<Rightarrow> 'z"
  z_Enabled :: "'z \<Rightarrow> int list \<Rightarrow> int \<Rightarrow> bool"
  z_Write :: "'z \<Rightarrow> int list \<Rightarrow> log_entry \<Rightarrow> zap_field list \<Rightarrow> 's \<Rightarrow> written list \<times> 's"
  z_Sync :: "'z \<Rightarrow> 's \<Rightarrow> gerr option \<times> 's"
  g_New :: "'z log_core \<Rightarrow> zap_options \<Rightarrow> 'g"
  g_With :: "'g \<Rightarrow> zap_field list \<Rightarrow> 'g"
  g_Log :: "'g \<Rightarrow> int list \<Rightarrow> int \<Rightarrow> string \<Rightarrow> zap_field list \<Rightarrow> 's \<Rightarrow> written list \<times> 's"
  g_Sync :: "'g \<Rightarrow> 's \<Rightarrow> 's"
  s_Logf :: "'g \<Rightarrow> int list \<Rightarrow> int \<Rightarrow> string \<Rightarrow> log_arg list \<Rightarrow> 's \<Rightarrow> written list \<times> 's"
  s_With :: "'g \<Rightarrow> log_arg list \<Rightarrow> 'g"
  h_New :: "'z log_core \<Rightarrow> handler_options \<Rightarrow> 'h"
  h_With :: "'h \<Rightarrow> log_arg list \<Rightarrow> 'h"
  h_WithGroup :: "'h \<Rightarrow> string \<Rightarrow> 'h"
  h_Sync :: "('h \<Rightarrow> 's \<Rightarrow> gerr option \<times> 's) option"

section \<open>The core of the program\<close>

text \<open>\<^verbatim>\<open>Enabled\<close> and \<^verbatim>\<open>Sync\<close> of the wrapper are those of the embedded, sampled core.\<close>

primrec core_Enabled :: "('z, 'g, 'h, 's) zap \<Rightarrow> 'z log_core \<Rightarrow> int list \<Rightarrow> int \<Rightarrow> bool" where
  "core_Enabled Z (ZapCore z) lv l = z_Enabled Z z lv l"
| "core_Enabled Z (ErrorExclude c orig) lv l = core_Enabled Z c lv l"

primrec core_Write ::
  "('z, 'g, 'h, 's) zap \<Rightarrow> 'z log_core \<Rightarrow> int list \<Rightarrow> log_entry \<Rightarrow> zap_field list \<Rightarrow> 's \<Rightarrow> written list \<times> 's" where
  "core_Write Z (ZapCore z) lv ent fs s = z_Write Z z lv ent fs s"
| "core_Write Z (ErrorExclude c orig) lv ent fs s =
     (if en_level ent \<ge> ErrorLevel then core_Write Z orig lv ent fs s else core_Write Z c lv ent fs s)"

primrec core_With :: "('z, 'g, 'h, 's) zap \<Rightarrow> zap_field list \<Rightarrow> 'z log_core \<Rightarrow> 'z log_core" where
  "core_With Z fs (ZapCore z) = ZapCore (z_With Z z fs)"
| "core_With Z fs (ErrorExclude c orig) = ErrorExclude (core_With Z fs c) (core_With Z fs orig)"

primrec core_Sync :: "('z, 'g, 'h, 's) zap \<Rightarrow> 'z log_core \<Rightarrow> 's \<Rightarrow> gerr option \<times> 's" where
  "core_Sync Z (ZapCore z) s = z_Sync Z z s"
| "core_Sync Z (ErrorExclude c orig) s = core_Sync Z c s"

section \<open>Levels, encoders and writers\<close>

definition parseZapLevel :: "log_level \<Rightarrow> int" where
  "parseZapLevel level =
     (if level = LevelDebug then DebugLevel
      else if level = LevelInfo then InfoLevel
      else if level = LevelWarn then WarnLevel
      else if level = LevelError then ErrorLevel
      else InfoLevel)"

definition levelFromZap :: "int \<Rightarrow> string" where
  "levelFromZap level =
     (if level = DebugLevel then LevelDebug
      else if level = InfoLevel then LevelInfo
      else if level = WarnLevel then LevelWarn
      else if level = ErrorLevel then LevelError
      else LevelInfo)"

definition base_encoder_config :: "log_config \<Rightarrow> encoder_config" where
  "base_encoder_config cfg = \<lparr>ec_TimeKey = ''timestamp'', ec_LevelKey = ''level'', ec_NameKey = ''logger'',
     ec_CallerKey = (if lc_EnableCaller cfg then ''caller'' else ''''), ec_FunctionKey = '''',
     ec_MessageKey = ''message'', ec_StacktraceKey = ''stacktrace'',
     ec_EncodeLevel = LowercaseLevelEncoder, ec_EncodeTime = ISO8601TimeEncoder,
     ec_EncodeDuration = MillisDurationEncoder, ec_EncodeCaller = ShortCallerEncoder\<rparr>"

definition createEncoderWithFormat :: "log_config \<Rightarrow> log_format \<Rightarrow> encoder" where
  "createEncoderWithFormat cfg format =
     (let ec = base_encoder_config cfg
      in if lc_Development cfg then ConsoleEncoder (ec\<lparr>ec_EncodeLevel := CapitalColorLevelEncoder\<rparr>)
         else if format = FormatConsole then ConsoleEncoder (ec\<lparr>ec_EncodeLevel := CapitalLevelEncoder\<rparr>)
         else JSONEncoder ec)"

definition createEncoder :: "log_config \<Rightarrow> encoder" where
  "createEncoder cfg =
     (let ec = base_encoder_config cfg
      in if lc_Development cfg then ConsoleEncoder (ec\<lparr>ec_EncodeLevel := CapitalColorLevelEncoder,
           ec_EncodeTime := ISO8601TimeEncoder\<rparr>)
         else if lc_Format cfg = FormatConsole then ConsoleEncoder (ec\<lparr>ec_EncodeLevel := CapitalLevelEncoder\<rparr>)
         else JSONEncoder ec)"

definition createFileWriter :: "string \<Rightarrow> rotation_config option \<Rightarrow> sink" where
  "createFileWriter filename rotation =
     (let r = (case rotation of None \<Rightarrow> DefaultRotationConfig | Some r \<Rightarrow> r)
      in Rotated \<lparr>lj_Filename = filename,
           lj_MaxSize = (if rot_MaxSize r \<le> 0 then 100 else rot_MaxSize r),
           lj_MaxBackups = (if rot_MaxBackups r \<le> 0 then 7 else rot_MaxBackups r),
           lj_MaxAge = (if rot_MaxAge r \<le> 0 then 30 else rot_MaxAge r),
           lj_Compress = rot_Compress r, lj_LocalTime = rot_LocalTime r\<rparr>)"

definition createWriteSyncer :: "log_config \<Rightarrow> write_syncer" where
  "createWriteSyncer cfg =
     (let writers = map (\<lambda>path.
          if to_lower path = ''stdout'' then Stdout
          else if to_lower path = ''stderr'' then Stderr
          else createFileWriter path (lc_Rotation cfg)) (lc_OutputPaths cfg)
      in if writers = [] then [Stdout] else writers)"

text \<open>The writer of one output, in the switch of \<^verbatim>\<open>createMultiOutputCore\<close>.\<close>

definition output_sink :: "output_config \<Rightarrow> sink" where
  "output_sink out =
     (if out_Type out = OutputTypeStdout then Stdout
      else if out_Type out = OutputTypeStderr then Stderr
      else if out_Type out = OutputTypeFile then
        createFileWriter (out_Path out)
          (Some (case out_Rotation out of None \<Rightarrow> DefaultRotationConfig | Some r \<Rightarrow> r))
      else Stdout)"

text \<open>
  \<^verbatim>\<open>argsToZapFields\<close>: pairs of key and value; a key that is not a string reads as the empty key,
  a last argument without a partner is dropped.
\<close>

fun argsToZapFields :: "log_arg list \<Rightarrow> zap_field list" where
  "argsToZapFields (k # v # args) =
     ((case k of AVal (GStr key) \<Rightarrow> key | _ \<Rightarrow> ''''), v) # argsToZapFields args"
| "argsToZapFields [k] = []"
| "argsToZapFields [] = []"

end
