(* ===== verification/Log_Logger.thy ===== *)
theory Log_Logger
  imports Log_Zap "HOL-Library.Monad_Syntax"
begin

text \<open>
  The logger (\<^verbatim>\<open>logger/zap_logger.go\<close>, \<^verbatim>\<open>logger/sugar.go\<close>, \<^verbatim>\<open>logger/context.go\<close>): its
  construction, its methods and its printf-style view, as programs over the state of the package.
\<close>

section \<open>State\<close>

record ('z, 'g, 'h) zap_logger =
  zl_zlogger :: 'g
  zl_slogger :: 'h
  zl_handler :: 'h
  zl_atomicLevel :: nat
  zl_zapCore :: "'z log_core"
  zl_config :: log_config

record ('z, 'g, 'h) category_manager =
  cm_serviceName :: string
  cm_access :: "('z, 'g, 'h) zap_logger"
  cm_platform :: "('z, 'g, 'h) zap_logger"
  cm_business :: "('z, 'g, 'h) zap_logger"

text \<open>
  The store of atomic levels, zap's own state, what was written so far, the package variables
  \<^verbatim>\<open>globalLogger\<close>, \<^verbatim>\<open>initialized\<close> and \<^verbatim>\<open>catManager\<close>, and the exit code once \<^verbatim>\<open>exitFunc\<close> was
  called.
\<close>

record ('z, 'g, 'h, 's) log_world =
  lw_levels :: "int list"
  lw_zap :: 's
  lw_out :: "written list"
  lw_global :: "('z, 'g, 'h) zap_logger option"
  lw_initialized :: bool
  lw_categories :: "('z, 'g, 'h) category_manager option"
  lw_exit :: "int option"

text \<open>\<^verbatim>\<open>zap.NewAtomicLevelAt\<close>, \<^verbatim>\<open>SetLevel\<close>, \<^verbatim>\<open>Level\<close>.\<close>

definition new_level :: "int \<Rightarrow> (('z, 'g, 'h, 's) log_world, nat) state" where
  "new_level l = State (\<lambda>w. (length (lw_levels w), w\<lparr>lw_levels := lw_levels w @ [l]\<rparr>))"

definition set_level :: "nat \<Rightarrow> int \<Rightarrow> (('z, 'g, 'h, 's) log_world, unit) state" where
  "set_level r l = modifies (\<lambda>w. w\<lparr>lw_levels := (lw_levels w)[r := l]\<rparr>)"

definition get_level :: "nat \<Rightarrow> (('z, 'g, 'h, 's) log_world, int) state" where
  "get_level r = reads (\<lambda>w. lw_levels w ! r)"

text \<open>A call into zap that may write.\<close>

definition zap_write ::
  "(int list \<Rightarrow> 's \<Rightarrow> written list \<times> 's) \<Rightarrow> (('z, 'g, 'h, 's) log_world, unit) state" where
  "zap_write f = modifies (\<lambda>w. case f (lw_levels w) (lw_zap w) of
     (out, s) \<Rightarrow> w\<lparr>lw_out := lw_out w @ out, lw_zap := s\<rparr>)"

text \<open>A call into zap that returns something.\<close>

definition zap_call :: "('s \<Rightarrow> 'a \<times> 's) \<Rightarrow> (('z, 'g, 'h, 's) log_world, 'a) state" where
  "zap_call f = State (\<lambda>w. case f (lw_zap w) of (x, s) \<Rightarrow> (x, w\<lparr>lw_zap := s\<rparr>))"

definition exitFunc :: "int \<Rightarrow> (('z, 'g, 'h, 's) log_world, unit) state" where
  "exitFunc code = modifies (\<lambda>w. w\<lparr>lw_exit := Some code\<rparr>)"

section \<open>Construction\<close>

text \<open>One round of the loop of \<^verbatim>\<open>createMultiOutputCore\<close>: each output gets a level of its own.\<close>

definition output_core ::
  "('z, 'g, 'h, 's) zap \<Rightarrow> log_config \<Rightarrow> output_config \<Rightarrow> (('z, 'g, 'h, 's) log_world, 'z) state" where
  "output_core Z cfg out = do {
     r \<leftarrow> new_level (parseZapLevel (if out_Level out = '''' then lc_Level cfg else out_Level out));
     State_Monad.return (z_NewCore Z
       (createEncoderWithFormat cfg (if out_Format out = '''' then lc_Format cfg else out_Format out))
       [output_sink out] r)
   }"

fun output_cores ::
  "('z, 'g, 'h, 's) zap \<Rightarrow> log_config \<Rightarrow> output_config list \<Rightarrow> (('z, 'g, 'h, 's) log_world, 'z list) state" where
  "output_cores Z cfg [] = State_Monad.return []"
| "output_cores Z cfg (out # outs) = do {
     c \<leftarrow> output_core Z cfg out;
     cs \<leftarrow> output_cores Z cfg outs;
     State_Monad.return (c # cs)
   }"

text \<open>One core stands for itself, several go under a tee.\<close>

definition tee_of :: "('z, 'g, 'h, 's) zap \<Rightarrow> 'z list \<Rightarrow> 'z" where
  "tee_of Z cores = (case cores of [c] \<Rightarrow> c | _ \<Rightarrow> z_NewTee Z cores)"

definition createMultiOutputCore ::
  "('z, 'g, 'h, 's) zap \<Rightarrow> log_config \<Rightarrow> nat \<Rightarrow> (('z, 'g, 'h, 's) log_world, 'z) state" where
  "createMultiOutputCore Z cfg atomicLevel = do {
     cores \<leftarrow> output_cores Z cfg (lc_Outputs cfg);
     State_Monad.return (tee_of Z cores)
   }"

text \<open>The sampler that is put around a core, when one is configured.\<close>

definition sampled_core :: "('z, 'g, 'h, 's) zap \<Rightarrow> log_config \<Rightarrow> 'z \<Rightarrow> 'z log_core" where
  "sampled_core Z cfg core =
     (case lc_Sampling cfg of
        Some sm \<Rightarrow>
          (if smp_Initial sm > 0
           then ErrorExclude (ZapCore (z_NewSampler Z core 1000000000 (smp_Initial sm) (smp_Thereafter sm)))
                  (ZapCore core)
           else ZapCore core)
      | None \<Rightarrow> ZapCore core)"

definition logger_options :: "log_config \<Rightarrow> zap_options" where
  "logger_options cfg = \<lparr>zo_Caller = lc_EnableCaller cfg,
     zo_Fields = [(FieldService, AStr (lc_ServiceName cfg))],
     zo_CallerSkip = (if lc_EnableCaller cfg then 2 else 0),
     zo_Stacktrace = (if lc_EnableStackTrace cfg then Some ErrorLevel else None)\<rparr>"

definition newZapLogger ::
  "('z, 'g, 'h, 's) zap \<Rightarrow> log_config \<Rightarrow> (('z, 'g, 'h, 's) log_world, gerr + ('z, 'g, 'h) zap_logger) state" where
  "newZapLogger Z cfg = do {
     atomicLevel \<leftarrow> new_level (parseZapLevel (lc_Level cfg));
     core \<leftarrow> (if lc_Outputs cfg \<noteq> [] then createMultiOutputCore Z cfg atomicLevel
              else State_Monad.return (z_NewCore Z (createEncoder cfg) (createWriteSyncer cfg) atomicLevel));
     let core = sampled_core Z cfg core;
     let zlogger = g_New Z core (logger_options cfg);
     let handler = h_With Z (h_New Z core \<lparr>ho_Name = lc_ServiceName cfg, ho_Caller = False,
           ho_Stacktrace = (if lc_EnableStackTrace cfg then Some ErrorLevel else None)\<rparr>)
         [AAttr FieldService (GStr (lc_ServiceName cfg))];
     State_Monad.return (Inr \<lparr>zl_zlogger = zlogger, zl_slogger = handler, zl_handler = handler,
       zl_atomicLevel = atomicLevel, zl_zapCore = core, zl_config = cfg\<rparr>)
   }"

section \<open>Contexts\<close>

text \<open>A context with the logger stored in it; \<^verbatim>\<open>None\<close> where a context may be nil.\<close>

record 'l log_ctx = trace_ctx +
  cv_logger :: "'l option"

definition ContextWithLogger :: "'l log_ctx \<Rightarrow> 'l option \<Rightarrow> 'l log_ctx" where
  "ContextWithLogger ctx l = ctx\<lparr>cv_logger := l\<rparr>"

definition TraceIDFromContext :: "'l log_ctx option \<Rightarrow> string" where
  "TraceIDFromContext ctx = (case ctx of None \<Rightarrow> '''' | Some c \<Rightarrow> cv_log_trace c)"

definition SpanIDFromContext :: "'l log_ctx option \<Rightarrow> string" where
  "SpanIDFromContext ctx = (case ctx of None \<Rightarrow> '''' | Some c \<Rightarrow> cv_log_span c)"

definition extractContextFields :: "'l log_ctx option \<Rightarrow> log_arg list" where
  "extractContextFields ctx =
     (case ctx of
        None \<Rightarrow> []
      | Some _ \<Rightarrow>
          (if TraceIDFromContext ctx \<noteq> '''' then [AStr FieldTraceID, AStr (TraceIDFromContext ctx)] else []) @
          (if SpanIDFromContext ctx \<noteq> '''' then [AStr FieldSpanID, AStr (SpanIDFromContext ctx)] else []))"

definition contextToZapFields :: "'l log_ctx option \<Rightarrow> zap_field list" where
  "contextToZapFields ctx =
     (if TraceIDFromContext ctx \<noteq> '''' then [(FieldTraceID, AStr (TraceIDFromContext ctx))] else []) @
     (if SpanIDFromContext ctx \<noteq> '''' then [(FieldSpanID, AStr (SpanIDFromContext ctx))] else [])"

section \<open>Methods\<close>

text \<open>
  \<open>log_at\<close> is the body the four methods \<^verbatim>\<open>Debug\<close>, \<^verbatim>\<open>Info\<close>, \<^verbatim>\<open>Warn\<close>, \<^verbatim>\<open>Error\<close> share, at their level;
  \<open>log_context_at\<close> that of their variants with a context.
\<close>

type_synonym ('z, 'g, 'h, 's, 'a) log_prog = "(('z, 'g, 'h, 's) log_world, 'a) state"

definition log_at ::
  "('z, 'g, 'h, 's) zap \<Rightarrow> int \<Rightarrow> ('z, 'g, 'h) zap_logger \<Rightarrow> string \<Rightarrow> log_arg list \<Rightarrow> ('z, 'g, 'h, 's, unit) log_prog" where
  "log_at Z level l m args =
     zap_write (\<lambda>lv. g_Log Z (zl_zlogger l) lv level m (argsToZapFields args))"

definition log_context_at ::
  "('z, 'g, 'h, 's) zap \<Rightarrow> int \<Rightarrow> ('z, 'g, 'h) zap_logger \<Rightarrow> 'l log_ctx option \<Rightarrow> string \<Rightarrow> log_arg list
     \<Rightarrow> ('z, 'g, 'h, 's, unit) log_prog" where
  "log_context_at Z level l ctx m args =
     zap_write (\<lambda>lv. g_Log Z (zl_zlogger l) lv level m (contextToZapFields ctx @ argsToZapFields args))"

fun strings_Contains :: "string \<Rightarrow> string \<Rightarrow> bool" where
  "strings_Contains [] t \<longleftrightarrow> t = []"
| "strings_Contains (c # cs) t \<longleftrightarrow> take (length t) (c # cs) = t \<or> strings_Contains cs t"

definition isIgnorableSyncError :: "gerr \<Rightarrow> bool" where
  "isIgnorableSyncError e \<longleftrightarrow> strings_Contains (msg e) ''invalid argument'' \<or>
     strings_Contains (msg e) ''inappropriate ioctl'' \<or> strings_Contains (msg e) ''bad file descriptor''"

text \<open>What is left of the error of a sync.\<close>

definition sync_error :: "gerr option \<Rightarrow> gerr option" where
  "sync_error r = (case r of Some e \<Rightarrow> (if isIgnorableSyncError e then None else Some e) | None \<Rightarrow> None)"

text \<open>\<^verbatim>\<open>Sync\<close>; the final syncs of stdout and stderr, whose errors are dropped, do nothing here.\<close>

definition log_Sync ::
  "('z, 'g, 'h, 's) zap \<Rightarrow> ('z, 'g, 'h) zap_logger \<Rightarrow> ('z, 'g, 'h, 's, gerr option) log_prog" where
  "log_Sync Z l = do {
     zap_call (\<lambda>s. ((), g_Sync Z (zl_zlogger l) s));
     r \<leftarrow> zap_call (core_Sync Z (zl_zapCore l));
     (case sync_error r of
        Some e \<Rightarrow> State_Monad.return (Some e)
      | None \<Rightarrow>
          (case h_Sync Z of
             None \<Rightarrow> State_Monad.return None
           | Some f \<Rightarrow> do {
               r \<leftarrow> zap_call (f (zl_handler l));
               State_Monad.return (sync_error r)
             }))
   }"

definition log_Fatal ::
  "('z, 'g, 'h, 's) zap \<Rightarrow> ('z, 'g, 'h) zap_logger \<Rightarrow> string \<Rightarrow> log_arg list \<Rightarrow> ('z, 'g, 'h, 's, unit) log_prog" where
  "log_Fatal Z l m args = do {
     log_at Z ErrorLevel l m args;
     log_Sync Z l;
     exitFunc 1
   }"

definition log_With ::
  "('z, 'g, 'h, 's) zap \<Rightarrow> ('z, 'g, 'h) zap_logger \<Rightarrow> log_arg list \<Rightarrow> ('z, 'g, 'h) zap_logger" where
  "log_With Z l args = l\<lparr>zl_zlogger := g_With Z (zl_zlogger l) (argsToZapFields args),
     zl_slogger := h_With Z (zl_slogger l) args, zl_handler := h_With Z (zl_slogger l) args\<rparr>"

definition log_WithGroup ::
  "('z, 'g, 'h, 's) zap \<Rightarrow> ('z, 'g, 'h) zap_logger \<Rightarrow> string \<Rightarrow> ('z, 'g, 'h) zap_logger" where
  "log_WithGroup Z l name = l\<lparr>zl_slogger := h_WithGroup Z (zl_slogger l) name,
     zl_handler := h_WithGroup Z (zl_slogger l) name\<rparr>"

definition log_WithContext ::
  "('z, 'g, 'h, 's) zap \<Rightarrow> ('z, 'g, 'h) zap_logger \<Rightarrow> 'l log_ctx option \<Rightarrow> ('z, 'g, 'h) zap_logger" where
  "log_WithContext Z l ctx =
     (if extractContextFields ctx = [] then l else log_With Z l (extractContextFields ctx))"

definition log_SetLevel ::
  "('z, 'g, 'h) zap_logger \<Rightarrow> string \<Rightarrow> ('z, 'g, 'h, 's, gerr option) log_prog" where
  "log_SetLevel l level =
     (let lvl = to_lower level
      in if known_level lvl then do {
           set_level (zl_atomicLevel l) (parseZapLevel lvl);
           State_Monad.return None
         } else State_Monad.return (Some errInvalidLevel))"

definition log_GetLevel :: "('z, 'g, 'h) zap_logger \<Rightarrow> ('z, 'g, 'h, 's, string) log_prog" where
  "log_GetLevel l = do {
     lv \<leftarrow> get_level (zl_atomicLevel l);
     State_Monad.return (levelFromZap lv)
   }"

definition log_Handler :: "('z, 'g, 'h) zap_logger \<Rightarrow> 'h" where
  "log_Handler l = zl_handler l"

section \<open>The printf-style view\<close>

text \<open>A \<^verbatim>\<open>zapSugaredLogger\<close> is the zap logger whose sugared view it holds.\<close>

record 'g sugared =
  sl_slogger :: 'g

definition log_Sugar :: "('z, 'g, 'h) zap_logger \<Rightarrow> 'g sugared" where
  "log_Sugar l = \<lparr>sl_slogger = zl_zlogger l\<rparr>"

text \<open>\<open>logf_at\<close>: \<^verbatim>\<open>Debugf\<close> to \<^verbatim>\<open>Errorf\<close>; \<open>logf_context_at\<close>: their variants with a context.\<close>

definition logf_at ::
  "('z, 'g, 'h, 's) zap \<Rightarrow> int \<Rightarrow> 'g sugared \<Rightarrow> string \<Rightarrow> log_arg list \<Rightarrow> ('z, 'g, 'h, 's, unit) log_prog" where
  "logf_at Z level l format args = zap_write (\<lambda>lv. s_Logf Z (sl_slogger l) lv level format args)"

definition sugar_withContext :: "('z, 'g, 'h, 's) zap \<Rightarrow> 'g sugared \<Rightarrow> 'l log_ctx option \<Rightarrow> 'g" where
  "sugar_withContext Z l ctx =
     (if extractContextFields ctx = [] then sl_slogger l else s_With Z (sl_slogger l) (extractContextFields ctx))"

definition logf_context_at ::
  "('z, 'g, 'h, 's) zap \<Rightarrow> int \<Rightarrow> 'g sugared \<Rightarrow> 'l log_ctx option \<Rightarrow> string \<Rightarrow> log_arg list
     \<Rightarrow> ('z, 'g, 'h, 's, unit) log_prog" where
  "logf_context_at Z level l ctx format args =
     zap_write (\<lambda>lv. s_Logf Z (sugar_withContext Z l ctx) lv level format args)"

definition sugar_Fatalf ::
  "('z, 'g, 'h, 's) zap \<Rightarrow> 'g sugared \<Rightarrow> string \<Rightarrow> log_arg list \<Rightarrow> ('z, 'g, 'h, 's, unit) log_prog" where
  "sugar_Fatalf Z l format args = do {
     logf_at Z ErrorLevel l format args;
     zap_call (\<lambda>s. ((), g_Sync Z (sl_slogger l) s));
     exitFunc 1
   }"

definition sugar_With :: "('z, 'g, 'h, 's) zap \<Rightarrow> 'g sugared \<Rightarrow> log_arg list \<Rightarrow> 'g sugared" where
  "sugar_With Z l keysAndValues = \<lparr>sl_slogger = s_With Z (sl_slogger l) keysAndValues\<rparr>"

end
