(* ===== verification/Log_Global.thy ===== *)
theory Log_Global
  imports Log_Logger
begin

text \<open>
  The package level of the logger: the global logger and its functions (\<^verbatim>\<open>logger/logger.go\<close>), the
  category loggers (\<^verbatim>\<open>logger/category.go\<close>), access log entries (\<^verbatim>\<open>logger/access_middleware.go\<close>)
  and the writer adapter (\<^verbatim>\<open>logger/writer.go\<close>). A mutex only makes the steps of this package atomic,
  which they are here.
\<close>

section \<open>The global logger\<close>

definition set_global :: "('z, 'g, 'h) zap_logger \<Rightarrow> ('z, 'g, 'h, 's, unit) log_prog" where
  "set_global l = modifies (\<lambda>w. w\<lparr>lw_global := Some l, lw_initialized := True\<rparr>)"

definition log_Init ::
  "('z, 'g, 'h, 's) zap \<Rightarrow> log_config option \<Rightarrow> ('z, 'g, 'h, 's, gerr option) log_prog" where
  "log_Init Z ocfg =
     (let cfg = (case ocfg of None \<Rightarrow> log_DefaultConfig ''unknown-service'' | Some c \<Rightarrow> c)
      in case log_Validate cfg of
           Some e \<Rightarrow> State_Monad.return (Some e)
         | None \<Rightarrow> do {
             r \<leftarrow> newZapLogger Z (applyDefaults cfg);
             (case r of
                Inl e \<Rightarrow> State_Monad.return (Some e)
              | Inr l \<Rightarrow> do { set_global l; State_Monad.return None })
           })"

definition fallback_config :: log_config where
  "fallback_config = \<lparr>lc_Level = LevelInfo, lc_Format = FormatJSON, lc_ServiceName = ''uninitialized'',
     lc_OutputPaths = [''stdout''], lc_Outputs = [], lc_Rotation = None, lc_EnableCaller = False,
     lc_EnableStackTrace = False, lc_Development = False, lc_Sampling = None\<rparr>"

text \<open>The error of \<^verbatim>\<open>newZapLogger\<close> is dropped; it returns none.\<close>

definition newFallbackLogger :: "('z, 'g, 'h, 's) zap \<Rightarrow> ('z, 'g, 'h, 's, ('z, 'g, 'h) zap_logger) log_prog" where
  "newFallbackLogger Z = do {
     r \<leftarrow> newZapLogger Z fallback_config;
     State_Monad.return (projr r)
   }"

definition GetLogger :: "('z, 'g, 'h, 's) zap \<Rightarrow> ('z, 'g, 'h, 's, ('z, 'g, 'h) zap_logger) log_prog" where
  "GetLogger Z = do {
     init \<leftarrow> reads lw_initialized;
     g \<leftarrow> reads lw_global;
     (case g of
        Some l \<Rightarrow> (if init then State_Monad.return l else newFallbackLogger Z)
      | None \<Rightarrow> newFallbackLogger Z)
   }"

text \<open>
  \<^verbatim>\<open>Debug\<close> to \<^verbatim>\<open>Error\<close>, their variants with a context and their printf-style variants, on the global logger.
\<close>

definition global_log ::
  "('z, 'g, 'h, 's) zap \<Rightarrow> int \<Rightarrow> string \<Rightarrow> log_arg list \<Rightarrow> ('z, 'g, 'h, 's, unit) log_prog" where
  "global_log Z level m args = do { l \<leftarrow> GetLogger Z; log_at Z level l m args }"

definition global_log_context ::
  "('z, 'g, 'h, 's) zap \<Rightarrow> int \<Rightarrow> 'l log_ctx option \<Rightarrow> string \<Rightarrow> log_arg list \<Rightarrow> ('z, 'g, 'h, 's, unit) log_prog" where
  "global_log_context Z level ctx m args = do { l \<leftarrow> GetLogger Z; log_context_at Z level l ctx m args }"

definition global_logf ::
  "('z, 'g, 'h, 's) zap \<Rightarrow> int \<Rightarrow> string \<Rightarrow> log_arg list \<Rightarrow> ('z, 'g, 'h, 's, unit) log_prog" where
  "global_logf Z level format args = do { l \<leftarrow> GetLogger Z; logf_at Z level (log_Sugar l) format args }"

definition global_logf_context ::
  "('z, 'g, 'h, 's) zap \<Rightarrow> int \<Rightarrow> 'l log_ctx option \<Rightarrow> string \<Rightarrow> log_arg list \<Rightarrow> ('z, 'g, 'h, 's, unit) log_prog" where
  "global_logf_context Z level ctx format args =
     do { l \<leftarrow> GetLogger Z; logf_context_at Z level (log_Sugar l) ctx format args }"

definition global_Fatal ::
  "('z, 'g, 'h, 's) zap \<Rightarrow> string \<Rightarrow> log_arg list \<Rightarrow> ('z, 'g, 'h, 's, unit) log_prog" where
  "global_Fatal Z m args = do { l \<leftarrow> GetLogger Z; log_Fatal Z l m args }"

definition global_Fatalf ::
  "('z, 'g, 'h, 's) zap \<Rightarrow> string \<Rightarrow> log_arg list \<Rightarrow> ('z, 'g, 'h, 's, unit) log_prog" where
  "global_Fatalf Z format args = do { l \<leftarrow> GetLogger Z; sugar_Fatalf Z (log_Sugar l) format args }"

definition global_With ::
  "('z, 'g, 'h, 's) zap \<Rightarrow> log_arg list \<Rightarrow> ('z, 'g, 'h, 's, ('z, 'g, 'h) zap_logger) log_prog" where
  "global_With Z args = do { l \<leftarrow> GetLogger Z; State_Monad.return (log_With Z l args) }"

definition global_WithGroup ::
  "('z, 'g, 'h, 's) zap \<Rightarrow> string \<Rightarrow> ('z, 'g, 'h, 's, ('z, 'g, 'h) zap_logger) log_prog" where
  "global_WithGroup Z name = do { l \<leftarrow> GetLogger Z; State_Monad.return (log_WithGroup Z l name) }"

definition global_Sync :: "('z, 'g, 'h, 's) zap \<Rightarrow> ('z, 'g, 'h, 's, gerr option) log_prog" where
  "global_Sync Z = do {
     g \<leftarrow> reads lw_global;
     (case g of Some l \<Rightarrow> log_Sync Z l | None \<Rightarrow> State_Monad.return None)
   }"

definition global_SetLevel ::
  "('z, 'g, 'h, 's) zap \<Rightarrow> string \<Rightarrow> ('z, 'g, 'h, 's, gerr option) log_prog" where
  "global_SetLevel Z level = do { l \<leftarrow> GetLogger Z; log_SetLevel l level }"

definition global_GetLevel :: "('z, 'g, 'h, 's) zap \<Rightarrow> ('z, 'g, 'h, 's, string) log_prog" where
  "global_GetLevel Z = do { l \<leftarrow> GetLogger Z; log_GetLevel l }"

definition FromContext ::
  "('z, 'g, 'h, 's) zap \<Rightarrow> ('z, 'g, 'h) zap_logger log_ctx option
     \<Rightarrow> ('z, 'g, 'h, 's, ('z, 'g, 'h) zap_logger) log_prog" where
  "FromContext Z ctx =
     (case ctx of
        None \<Rightarrow> GetLogger Z
      | Some c \<Rightarrow> (case cv_logger c of Some l \<Rightarrow> State_Monad.return l | None \<Rightarrow> GetLogger Z))"

section \<open>Category loggers\<close>

text \<open>The logger of one category, with its name as a field.\<close>

definition category_logger ::
  "('z, 'g, 'h, 's) zap \<Rightarrow> multi_category_config \<Rightarrow> log_category
     \<Rightarrow> ('z, 'g, 'h, 's, gerr + ('z, 'g, 'h) zap_logger) log_prog" where
  "category_logger Z cfg category = do {
     r \<leftarrow> newZapLogger Z (buildCategoryLoggerConfig cfg category);
     State_Monad.return (case r of
         Inl e \<Rightarrow> Inl e
       | Inr l \<Rightarrow> Inr (log_With Z l [AStr FieldCategory, AStr category]))
   }"

definition InitMultiCategory ::
  "('z, 'g, 'h, 's) zap \<Rightarrow> multi_category_config option \<Rightarrow> ('z, 'g, 'h, 's, gerr option) log_prog" where
  "InitMultiCategory Z ocfg =
     (case ocfg of
        None \<Rightarrow> State_Monad.return (Some errServiceNameRequired)
      | Some cfg \<Rightarrow>
     (if mc_ServiceName cfg = '''' then State_Monad.return (Some errServiceNameRequired)
      else do {
        access \<leftarrow> category_logger Z cfg CategoryAccess;
        (case access of Inl e \<Rightarrow> State_Monad.return (Some e) | Inr access \<Rightarrow> do {
        platform \<leftarrow> category_logger Z cfg CategoryPlatform;
        (case platform of Inl e \<Rightarrow> State_Monad.return (Some e) | Inr platform \<Rightarrow> do {
        business \<leftarrow> category_logger Z cfg CategoryBusiness;
        (case business of Inl e \<Rightarrow> State_Monad.return (Some e) | Inr business \<Rightarrow> do {
          modifies (\<lambda>w. w\<lparr>lw_categories := Some \<lparr>cm_serviceName = mc_ServiceName cfg,
            cm_access = access, cm_platform = platform, cm_business = business\<rparr>\<rparr>);
          set_global business;
          State_Monad.return None
        })})})
      }))"

definition category_of ::
  "('z, 'g, 'h, 's) zap \<Rightarrow> (('z, 'g, 'h) category_manager \<Rightarrow> ('z, 'g, 'h) zap_logger)
     \<Rightarrow> ('z, 'g, 'h, 's, ('z, 'g, 'h) zap_logger) log_prog" where
  "category_of Z part = do {
     mgr \<leftarrow> reads lw_categories;
     (case mgr of Some m \<Rightarrow> State_Monad.return (part m) | None \<Rightarrow> GetLogger Z)
   }"

definition Access :: "('z, 'g, 'h, 's) zap \<Rightarrow> ('z, 'g, 'h, 's, ('z, 'g, 'h) zap_logger) log_prog" where
  "Access Z = category_of Z cm_access"

definition Platform :: "('z, 'g, 'h, 's) zap \<Rightarrow> ('z, 'g, 'h, 's, ('z, 'g, 'h) zap_logger) log_prog" where
  "Platform Z = category_of Z cm_platform"

definition Business :: "('z, 'g, 'h, 's) zap \<Rightarrow> ('z, 'g, 'h, 's, ('z, 'g, 'h) zap_logger) log_prog" where
  "Business Z = category_of Z cm_business"

definition Biz :: "('z, 'g, 'h, 's) zap \<Rightarrow> ('z, 'g, 'h, 's, ('z, 'g, 'h) zap_logger) log_prog" where
  "Biz Z = Business Z"

definition ForCategory ::
  "('z, 'g, 'h, 's) zap \<Rightarrow> log_category \<Rightarrow> ('z, 'g, 'h, 's, ('z, 'g, 'h) zap_logger) log_prog" where
  "ForCategory Z category =
     (if category = CategoryAccess then Access Z
      else if category = CategoryPlatform then Platform Z
      else if category = CategoryBusiness then Business Z
      else GetLogger Z)"

text \<open>\<^verbatim>\<open>errors.Join\<close>: nil without errors, else their messages on lines of their own.\<close>

definition errors_Join :: "gerr list \<Rightarrow> gerr option" where
  "errors_Join es =
     (if es = [] then None
      else Some (GErr (concat (map sentinels es)) (join_str [CHR 0x0A] (map msg es))))"

definition SyncAll :: "('z, 'g, 'h, 's) zap \<Rightarrow> ('z, 'g, 'h, 's, gerr option) log_prog" where
  "SyncAll Z = do {
     mgr \<leftarrow> reads lw_categories;
     (case mgr of
        None \<Rightarrow> global_Sync Z
      | Some m \<Rightarrow> do {
          e1 \<leftarrow> log_Sync Z (cm_access m);
          e2 \<leftarrow> log_Sync Z (cm_platform m);
          e3 \<leftarrow> log_Sync Z (cm_business m);
          State_Monad.return (errors_Join (List.map_filter (\<lambda>e. e) [e1, e2, e3]))
        })
   }"

end
