(* ===== verification/Log_Access.thy ===== *)
theory Log_Access
  imports Log_Global Saga_Definition
begin

text \<open>
  What other parts of the platform log through: access log entries
  (\<^verbatim>\<open>logger/access_middleware.go\<close>), the adapter for frameworks that write to an \<^verbatim>\<open>io.Writer\<close>
  (\<^verbatim>\<open>logger/writer.go\<close>), and the logger and the fields of the saga module (\<^verbatim>\<open>saga/logging.go\<close>).
\<close>

section \<open>Access log entries\<close>

record access_log_entry =
  ae_Method :: string
  ae_Path :: string
  ae_Query :: string
  ae_ClientIP :: string
  ae_UserAgent :: string
  ae_Referer :: string
  ae_RequestID :: string
  ae_Status :: int
  ae_BodySize :: int
  ae_LatencyMS :: int
  ae_TraceID :: string
  ae_SpanID :: string
  ae_Error :: string

text \<open>A field that is logged only when it is not empty.\<close>

definition unless_empty :: "string \<Rightarrow> string \<Rightarrow> log_arg list" where
  "unless_empty key v = (if v \<noteq> '''' then [AStr key, AStr v] else [])"

definition access_args :: "access_log_entry \<Rightarrow> log_arg list" where
  "access_args e =
     [AStr FieldHTTPMethod, AStr (ae_Method e), AStr FieldHTTPPath, AStr (ae_Path e),
      AStr FieldHTTPStatus, AVal (GInt (ae_Status e)), AStr FieldHTTPLatency, AVal (GInt64 (ae_LatencyMS e)),
      AStr FieldClientIP, AStr (ae_ClientIP e)] @
     unless_empty FieldHTTPQuery (ae_Query e) @
     unless_empty FieldUserAgent (ae_UserAgent e) @
     unless_empty FieldReferer (ae_Referer e) @
     unless_empty FieldRequestID (ae_RequestID e) @
     (if ae_BodySize e > 0 then [AStr FieldResponseSize, AVal (GInt (ae_BodySize e))] else []) @
     unless_empty FieldTraceID (ae_TraceID e) @
     unless_empty FieldSpanID (ae_SpanID e) @
     unless_empty FieldError (ae_Error e)"

definition access_level :: "access_log_entry \<Rightarrow> int" where
  "access_level e =
     (if ae_Status e \<ge> 500 then ErrorLevel else if ae_Status e \<ge> 400 then WarnLevel else InfoLevel)"

definition LogAccess ::
  "('z, 'g, 'h, 's) zap \<Rightarrow> 'l log_ctx option \<Rightarrow> access_log_entry option \<Rightarrow> ('z, 'g, 'h, 's, unit) log_prog" where
  "LogAccess Z ctx oe =
     (case oe of
        None \<Rightarrow> State_Monad.return ()
      | Some e \<Rightarrow> do {
          accessLogger \<leftarrow> Access Z;
          log_context_at Z (access_level e) accessLogger ctx ''HTTP Request'' (access_args e)
        })"

record access_log_config =
  al_SkipPaths :: "string list"
  al_SlowRequestThreshold :: int
  al_IncludeQuery :: bool
  al_IncludeUserAgent :: bool
  al_IncludeReferer :: bool

definition DefaultAccessLogConfig :: access_log_config where
  "DefaultAccessLogConfig = \<lparr>al_SkipPaths = [''/health'', ''/healthz'', ''/ready'', ''/readyz'', ''/metrics'',
       ''/favicon.ico''],
     al_SlowRequestThreshold = 0, al_IncludeQuery = False, al_IncludeUserAgent = True,
     al_IncludeReferer = False\<rparr>"

definition shouldSkipPath :: "access_log_config \<Rightarrow> string \<Rightarrow> bool" where
  "shouldSkipPath c path \<longleftrightarrow> list_ex (\<lambda>skip. path = skip) (al_SkipPaths c)"

section \<open>The writer adapter\<close>

record ('l, 'c) writer_adapter =
  wa_logger :: 'l
  wa_level :: string
  wa_prefix :: string
  wa_ctx :: "'c option"
  wa_useCtx :: bool

definition WithLevel :: "string \<Rightarrow> ('l, 'c) writer_adapter \<Rightarrow> ('l, 'c) writer_adapter" where
  "WithLevel level w = w\<lparr>wa_level := level\<rparr>"

definition WithPrefix :: "string \<Rightarrow> ('l, 'c) writer_adapter \<Rightarrow> ('l, 'c) writer_adapter" where
  "WithPrefix prefix w = w\<lparr>wa_prefix := prefix\<rparr>"

definition WithContext :: "'c option \<Rightarrow> ('l, 'c) writer_adapter \<Rightarrow> ('l, 'c) writer_adapter" where
  "WithContext ctx w = w\<lparr>wa_ctx := ctx, wa_useCtx := True\<rparr>"

definition UpdateContext :: "'c option \<Rightarrow> ('l, 'c) writer_adapter \<Rightarrow> ('l, 'c) writer_adapter" where
  "UpdateContext ctx w = w\<lparr>wa_ctx := ctx, wa_useCtx := (ctx \<noteq> None)\<rparr>"

definition NewWriterAdapter ::
  "('z, 'g, 'h, 's) zap \<Rightarrow> ('z, 'g, 'h) zap_logger option
     \<Rightarrow> ((('z, 'g, 'h) zap_logger, 'c) writer_adapter \<Rightarrow> (('z, 'g, 'h) zap_logger, 'c) writer_adapter) list
     \<Rightarrow> ('z, 'g, 'h, 's, (('z, 'g, 'h) zap_logger, 'c) writer_adapter) log_prog" where
  "NewWriterAdapter Z ol opts = do {
     l \<leftarrow> (case ol of Some l \<Rightarrow> State_Monad.return l | None \<Rightarrow> GetLogger Z);
     State_Monad.return (fold (\<lambda>opt w. opt w) opts
       \<lparr>wa_logger = l, wa_level = ''info'', wa_prefix = '''', wa_ctx = None, wa_useCtx = False\<rparr>)
   }"

text \<open>The switch of \<^verbatim>\<open>log\<close> and \<^verbatim>\<open>logWithContext\<close>.\<close>

definition writer_level :: "string \<Rightarrow> int" where
  "writer_level level =
     (if level = ''debug'' then DebugLevel
      else if level = ''warn'' then WarnLevel
      else if level = ''error'' then ErrorLevel
      else InfoLevel)"

definition trim_right_newlines :: "string \<Rightarrow> string" where
  "trim_right_newlines p = rev (dropWhile (\<lambda>c. c = CHR 0x0A \<or> c = CHR 0x0D) (rev p))"

text \<open>\<^verbatim>\<open>Write\<close> returns the number of bytes it was given and no error.\<close>

definition writer_Write ::
  "('z, 'g, 'h, 's) zap \<Rightarrow> (('z, 'g, 'h) zap_logger, 'l log_ctx) writer_adapter \<Rightarrow> string
     \<Rightarrow> ('z, 'g, 'h, 's, int \<times> gerr option) log_prog" where
  "writer_Write Z w p =
     (let m = trim_right_newlines p
      in if p = '''' then State_Monad.return (0, None)
         else if m = '''' then State_Monad.return (int (length p), None)
         else do {
           let m = (if wa_prefix w \<noteq> '''' then wa_prefix w @ '' '' @ m else m);
           (if wa_useCtx w \<and> wa_ctx w \<noteq> None
            then log_context_at Z (writer_level (wa_level w)) (wa_logger w) (wa_ctx w) m []
            else log_at Z (writer_level (wa_level w)) (wa_logger w) m []);
           State_Monad.return (int (length p), None)
         })"

section \<open>The saga module\<close>

definition resolveSagaLogger ::
  "('z, 'g, 'h, 's) zap \<Rightarrow> ('z, 'g, 'h) zap_logger option \<Rightarrow> ('z, 'g, 'h, 's, ('z, 'g, 'h) zap_logger) log_prog" where
  "resolveSagaLogger Z ol = do {
     l \<leftarrow> (case ol of Some l \<Rightarrow> State_Monad.return l | None \<Rightarrow> Platform Z);
     State_Monad.return (log_With Z l [AStr FieldComponent, AStr ''saga''])
   }"

definition appendTransactionLogFields :: "log_arg list \<Rightarrow> transaction option \<Rightarrow> log_arg list" where
  "appendTransactionLogFields args otx =
     (case otx of
        None \<Rightarrow> args
      | Some tx \<Rightarrow> args @ [AStr ''tx_id'', AStr (tx_id tx)] @ unless_empty ''tx_status'' (tx_status_str (tx_status tx)))"

definition appendStepLogFields :: "log_arg list \<Rightarrow> step option \<Rightarrow> log_arg list" where
  "appendStepLogFields args ostep =
     (case ostep of
        None \<Rightarrow> args
      | Some s \<Rightarrow> args @ [AStr ''step_id'', AStr (st_id s)] @ unless_empty ''step_name'' (st_name s) @
          unless_empty ''step_status'' (step_status_str (st_status s)))"

end
