(* ===== verification/Log_Typing.thy ===== *)
theory Log_Typing
  imports Log_Access
begin

text \<open>
  The documented behaviour of zap as laws, and a store typing for the atomic levels of the logger:
  every logger a program obtains from the package conforms to it, and every call keeps it.
\<close>

section \<open>The laws of zap\<close>

text \<open>The entry a zap logger makes of a call.\<close>

definition entry_of :: "zap_options \<Rightarrow> int \<Rightarrow> string \<Rightarrow> log_entry" where
  "entry_of opts l m = \<lparr>en_level = l, en_message = m, en_caller = zo_Caller opts,
     en_stack = (case zo_Stacktrace opts of None \<Rightarrow> False | Some t \<Rightarrow> t \<le> l)\<rparr>"

definition write_all :: "encoder \<Rightarrow> write_syncer \<Rightarrow> log_entry \<Rightarrow> zap_field list \<Rightarrow> written list" where
  "write_all enc ws ent fs = map (\<lambda>k. \<lparr>wr_encoder = enc, wr_sink = k, wr_entry = ent, wr_fields = fs\<rparr>) ws"

text \<open>
  A core writes the entries from its level on, to all its sinks; a tee does what its cores do; a
  sampler passes an entry on or drops it; fields of \<^verbatim>\<open>With\<close> come before those of the call; a zap
  logger hands the entries its core is enabled for to the core.
\<close>

locale zap_backend =
  fixes Z :: "('z, 'g, 'h, 's) zap"
  assumes enabled_new: "z_Enabled Z (z_NewCore Z e ws r) lv l \<longleftrightarrow> lv ! r \<le> l"
    and write_new: "fst (z_Write Z (z_NewCore Z e ws r) lv ent fs s) =
      (if lv ! r \<le> en_level ent then write_all e ws ent fs else [])"
    and enabled_tee: "z_Enabled Z (z_NewTee Z cs) lv l \<longleftrightarrow> (\<exists>c \<in> set cs. z_Enabled Z c lv l)"
    and write_tee: "\<exists>ss. length ss = length cs \<and> fst (z_Write Z (z_NewTee Z cs) lv ent fs s) =
      concat (map2 (\<lambda>c s. fst (z_Write Z c lv ent fs s)) cs ss)"
    and enabled_sampler: "z_Enabled Z (z_NewSampler Z c t n k) lv l \<longleftrightarrow> z_Enabled Z c lv l"
    and write_sampler: "fst (z_Write Z (z_NewSampler Z c t n k) lv ent fs s) = [] \<or>
      (\<exists>s'. fst (z_Write Z (z_NewSampler Z c t n k) lv ent fs s) = fst (z_Write Z c lv ent fs s'))"
    and log_new: "fst (g_Log Z (g_New Z core opts) lv l m fs s) =
      (if core_Enabled Z core lv l
       then fst (core_Write Z core lv (entry_of opts l m) (zo_Fields opts @ fs) s) else [])"
    and log_with: "g_Log Z (g_With Z g gs) lv l m fs s = g_Log Z g lv l m (gs @ fs) s"

section \<open>The store typing\<close>

text \<open>
  An atomic level is the adjustable level of a logger, which \<^verbatim>\<open>SetLevel\<close> writes, or the level of an
  output, which nothing writes again.
\<close>

datatype level_type = Adjustable | Fixed int

definition valid_level :: "int \<Rightarrow> bool" where
  "valid_level v \<longleftrightarrow> v \<in> {DebugLevel, InfoLevel, WarnLevel, ErrorLevel}"

definition level_ok :: "level_type \<Rightarrow> int \<Rightarrow> bool" where
  "level_ok t v \<longleftrightarrow> valid_level v \<and> (case t of Adjustable \<Rightarrow> True | Fixed k \<Rightarrow> v = k)"

definition output_level :: "log_config \<Rightarrow> output_config \<Rightarrow> int" where
  "output_level cfg out = parseZapLevel (if out_Level out = '''' then lc_Level cfg else out_Level out)"

definition output_encoder :: "log_config \<Rightarrow> output_config \<Rightarrow> encoder" where
  "output_encoder cfg out =
     createEncoderWithFormat cfg (if out_Format out = '''' then lc_Format cfg else out_Format out)"

text \<open>The cores of the outputs when their levels start at reference \<open>n\<close>.\<close>

fun cores_at :: "('z, 'g, 'h, 's) zap \<Rightarrow> log_config \<Rightarrow> nat \<Rightarrow> output_config list \<Rightarrow> 'z list" where
  "cores_at Z cfg n [] = []"
| "cores_at Z cfg n (out # outs) =
     z_NewCore Z (output_encoder cfg out) [output_sink out] n # cores_at Z cfg (Suc n) outs"

definition base_core :: "('z, 'g, 'h, 's) zap \<Rightarrow> log_config \<Rightarrow> nat \<Rightarrow> 'z" where
  "base_core Z cfg n =
     (if lc_Outputs cfg \<noteq> [] then tee_of Z (cores_at Z cfg (Suc n) (lc_Outputs cfg))
      else z_NewCore Z (createEncoder cfg) (createWriteSyncer cfg) n)"

text \<open>The types of the levels a new logger allocates.\<close>

definition level_types :: "log_config \<Rightarrow> level_type list" where
  "level_types cfg = Adjustable # map (\<lambda>out. Fixed (output_level cfg out)) (lc_Outputs cfg)"

text \<open>\<open>fields\<close> are what the loggers it was derived from attached.\<close>

definition logs_as :: "('z, 'g, 'h, 's) zap \<Rightarrow> ('z, 'g, 'h) zap_logger \<Rightarrow> zap_field list \<Rightarrow> bool" where
  "logs_as Z l gs \<longleftrightarrow> (\<forall>lv lev m fs s. g_Log Z (zl_zlogger l) lv lev m fs s =
     g_Log Z (g_New Z (sampled_core Z (zl_config l) (base_core Z (zl_config l) (zl_atomicLevel l)))
       (logger_options (zl_config l))) lv lev m (gs @ fs) s)"

definition logger_ok ::
  "('z, 'g, 'h, 's) zap \<Rightarrow> level_type list \<Rightarrow> ('z, 'g, 'h) zap_logger \<Rightarrow> bool" where
  "logger_ok Z T l \<longleftrightarrow>
     zl_zapCore l = sampled_core Z (zl_config l) (base_core Z (zl_config l) (zl_atomicLevel l)) \<and>
     (\<exists>A B. T = A @ level_types (zl_config l) @ B \<and> length A = zl_atomicLevel l) \<and> (\<exists>gs. logs_as Z l gs)"

definition world_loggers :: "('z, 'g, 'h, 's) log_world \<Rightarrow> ('z, 'g, 'h) zap_logger set" where
  "world_loggers w = set_option (lw_global w) \<union>
     (case lw_categories w of None \<Rightarrow> {} | Some m \<Rightarrow> {cm_access m, cm_platform m, cm_business m})"

definition world_ok :: "('z, 'g, 'h, 's) zap \<Rightarrow> level_type list \<Rightarrow> ('z, 'g, 'h, 's) log_world \<Rightarrow> bool" where
  "world_ok Z T w \<longleftrightarrow> list_all2 level_ok T (lw_levels w) \<and> (\<forall>l \<in> world_loggers w. logger_ok Z T l)"

lemma logger_ok_extend: "logger_ok Z T l \<Longrightarrow> logger_ok Z (T @ D) l"
  unfolding logger_ok_def by fastforce

lemma valid_parse [simp]: "valid_level (parseZapLevel l)"
  by (simp add: valid_level_def parseZapLevel_def)

lemma valid_output [simp]: "valid_level (output_level cfg out)"
  by (simp add: output_level_def)

section \<open>Typed programs\<close>

text \<open>
  \<open>typed Z A m res\<close>: from a typed world in which the loggers in \<open>A\<close> conform, \<open>m\<close> ends in a
  typed world of an extended typing, and the loggers in its result conform.
\<close>

definition typed ::
  "('z, 'g, 'h, 's) zap \<Rightarrow> ('z, 'g, 'h) zap_logger set \<Rightarrow> ('z, 'g, 'h, 's, 'a) log_prog
     \<Rightarrow> ('a \<Rightarrow> ('z, 'g, 'h) zap_logger set) \<Rightarrow> bool" where
  "typed Z A m res \<longleftrightarrow> (\<forall>T w r w'. world_ok Z T w \<longrightarrow> (\<forall>l \<in> A. logger_ok Z T l) \<longrightarrow> run_state m w = (r, w') \<longrightarrow>
     (\<exists>D. world_ok Z (T @ D) w' \<and> (\<forall>l \<in> res r. logger_ok Z (T @ D) l)))"

named_theorems typed_rules

abbreviation no_logger :: "'a \<Rightarrow> 'b set" where "no_logger \<equiv> \<lambda>_. {}"

lemma typedI:
  "(\<And>T w r w'. world_ok Z T w \<Longrightarrow> (\<forall>l \<in> A. logger_ok Z T l) \<Longrightarrow> run_state m w = (r, w') \<Longrightarrow>
     \<exists>D. world_ok Z (T @ D) w' \<and> (\<forall>l \<in> res r. logger_ok Z (T @ D) l)) \<Longrightarrow> typed Z A m res"
  by (simp add: typed_def)

lemma typedD:
  "typed Z A m res \<Longrightarrow> world_ok Z T w \<Longrightarrow> (\<forall>l \<in> A. logger_ok Z T l) \<Longrightarrow> run_state m w = (r, w') \<Longrightarrow>
   \<exists>D. world_ok Z (T @ D) w' \<and> (\<forall>l \<in> res r. logger_ok Z (T @ D) l)"
  by (simp add: typed_def)

lemma typed_return [typed_rules]: "res r \<subseteq> A \<Longrightarrow> typed Z A (State_Monad.return r) res"
  by (rule typedI, rule exI [of _ "[]"]) (auto simp: State_Monad.return_def)

lemma typed_bind [typed_rules]:
  assumes "typed Z A m res" and "\<And>r. typed Z (A \<union> res r) (f r) res'"
  shows "typed Z A (m \<bind> f) res'"
proof (rule typedI)
  fix T w r w'
  assume w: "world_ok Z T w" and A: "\<forall>l \<in> A. logger_ok Z T l" and run: "run_state (m \<bind> f) w = (r, w')"
  obtain x v where m: "run_state m w = (x, v)" by fastforce
  then have f: "run_state (f x) v = (r, w')" using run by (simp add: State_Monad.bind_def)
  obtain D where D: "world_ok Z (T @ D) v" "\<forall>l \<in> res x. logger_ok Z (T @ D) l"
    using typedD [OF assms(1) w A m] by blast
  then have "\<forall>l \<in> A \<union> res x. logger_ok Z (T @ D) l" using A logger_ok_extend by blast
  from typedD [OF assms(2) D(1) this f]
  show "\<exists>D. world_ok Z (T @ D) w' \<and> (\<forall>l \<in> res' r. logger_ok Z (T @ D) l)" by auto
qed

lemma typed_sum [typed_rules]:
  "(\<And>e. r = Inl e \<Longrightarrow> typed Z A (f e) res) \<Longrightarrow> (\<And>x. r = Inr x \<Longrightarrow> typed Z A (g x) res)
    \<Longrightarrow> typed Z A (case r of Inl e \<Rightarrow> f e | Inr x \<Rightarrow> g x) res"
  by (cases r) simp_all

lemma typed_option [typed_rules]:
  "(r = None \<Longrightarrow> typed Z A m res) \<Longrightarrow> (\<And>x. r = Some x \<Longrightarrow> typed Z A (g x) res)
    \<Longrightarrow> typed Z A (case r of None \<Rightarrow> m | Some x \<Rightarrow> g x) res"
  by (cases r) simp_all

lemma typed_if [typed_rules]:
  "(b \<Longrightarrow> typed Z A m res) \<Longrightarrow> (\<not> b \<Longrightarrow> typed Z A n res) \<Longrightarrow> typed Z A (if b then m else n) res"
  by simp

lemma typed_weaken: "typed Z A m res \<Longrightarrow> A \<subseteq> B \<Longrightarrow> typed Z B m res"
  unfolding typed_def by blast

text \<open>Steps that leave levels and package variables alone.\<close>

lemma typed_still:
  assumes "\<And>w r w'. run_state m w = (r, w') \<Longrightarrow> lw_levels w' = lw_levels w \<and>
     lw_global w' = lw_global w \<and> lw_categories w' = lw_categories w"
  shows "typed Z A m no_logger"
proof (rule typedI, rule exI [of _ "[]"])
  fix T w r w' assume "world_ok Z T w" "run_state m w = (r, w')"
  with assms [of w r w'] show "world_ok Z (T @ []) w' \<and> (\<forall>l \<in> {}. logger_ok Z (T @ []) l)"
    by (auto simp: world_ok_def world_loggers_def)
qed

lemma typed_zap_write [typed_rules]: "typed Z A (zap_write f) no_logger"
  by (rule typed_still) (auto simp: zap_write_def split: prod.splits)

lemma typed_zap_call [typed_rules]: "typed Z A (zap_call f) no_logger"
  by (rule typed_still) (auto simp: zap_call_def split: prod.splits)

lemma typed_exit [typed_rules]: "typed Z A (exitFunc c) no_logger"
  by (rule typed_still) (auto simp: exitFunc_def)

lemma typed_get_level [typed_rules]: "typed Z A (get_level r) no_logger"
  by (rule typed_still) (auto simp: get_level_def)

section \<open>Construction is typed\<close>

lemma run_return [simp]: "run_state (State_Monad.return x) w = (x, w)"
  by (simp add: State_Monad.return_def)

lemma run_bind: "run_state (m \<bind> f) w = (case run_state m w of (x, v) \<Rightarrow> run_state (f x) v)"
  by (simp add: State_Monad.bind_def)

lemma run_output_cores:
  "run_state (output_cores Z cfg outs) w = (cores_at Z cfg (length (lw_levels w)) outs,
     w\<lparr>lw_levels := lw_levels w @ map (output_level cfg) outs\<rparr>)"
  by (induction outs arbitrary: w)
     (simp_all add: output_core_def new_level_def run_bind output_level_def output_encoder_def)

definition new_logger :: "('z, 'g, 'h, 's) zap \<Rightarrow> log_config \<Rightarrow> nat \<Rightarrow> ('z, 'g, 'h) zap_logger" where
  "new_logger Z cfg n =
     (let core = sampled_core Z cfg (base_core Z cfg n);
          handler = h_With Z (h_New Z core \<lparr>ho_Name = lc_ServiceName cfg, ho_Caller = False,
            ho_Stacktrace = (if lc_EnableStackTrace cfg then Some ErrorLevel else None)\<rparr>)
            [AAttr FieldService (GStr (lc_ServiceName cfg))]
      in \<lparr>zl_zlogger = g_New Z core (logger_options cfg), zl_slogger = handler, zl_handler = handler,
          zl_atomicLevel = n, zl_zapCore = core, zl_config = cfg\<rparr>)"

lemma run_newZapLogger:
  "run_state (newZapLogger Z cfg) w = (Inr (new_logger Z cfg (length (lw_levels w))),
     w\<lparr>lw_levels := lw_levels w @ parseZapLevel (lc_Level cfg) # map (output_level cfg) (lc_Outputs cfg)\<rparr>)"
  by (simp add: newZapLogger_def createMultiOutputCore_def run_bind new_level_def run_output_cores
      base_core_def new_logger_def Let_def)

lemma new_logger_ok:
  "length T = n \<Longrightarrow> logger_ok Z (T @ level_types cfg) (new_logger Z cfg n)"
  by (auto simp: logger_ok_def new_logger_def logs_as_def Let_def intro: exI [of _ "[]"] exI [of _ T])

lemma levels_of_types:
  "list_all2 level_ok (level_types cfg) (parseZapLevel (lc_Level cfg) # map (output_level cfg) (lc_Outputs cfg))"
  by (simp add: level_types_def level_ok_def list_all2_map1 list_all2_map2 list.rel_refl)

lemma typed_newZapLogger [typed_rules]:
  "typed Z A (newZapLogger Z cfg) (\<lambda>r. case r of Inl e \<Rightarrow> {} | Inr l \<Rightarrow> {l})"
proof (rule typedI, rule exI [of _ "level_types cfg"])
  fix T w r w'
  assume w: "world_ok Z T w" and run: "run_state (newZapLogger Z cfg) w = (r, w')"
  have "length T = length (lw_levels w)" using w by (auto simp: world_ok_def dest: list_all2_lengthD)
  then have "logger_ok Z (T @ level_types cfg) (new_logger Z cfg (length (lw_levels w)))" by (rule new_logger_ok)
  moreover have "world_ok Z (T @ level_types cfg) w'"
    using w run levels_of_types [of cfg]
    by (auto simp: world_ok_def run_newZapLogger world_loggers_def logger_ok_extend intro: list_all2_appendI)
  ultimately show "world_ok Z (T @ level_types cfg) w' \<and>
      (\<forall>l \<in> (case r of Inl e \<Rightarrow> {} | Inr l \<Rightarrow> {l}). logger_ok Z (T @ level_types cfg) l)"
    using run by (auto simp: run_newZapLogger)
qed

section \<open>Setting the level\<close>

lemma typed_set_level:
  assumes "valid_level v"
  shows "typed Z {l} (set_level (zl_atomicLevel l) v) no_logger"
proof (rule typedI, rule exI [of _ "[]"])
  fix T w r w'
  assume w: "world_ok Z T w" and l: "\<forall>l \<in> {l}. logger_ok Z T l"
    and run: "run_state (set_level (zl_atomicLevel l) v) w = (r, w')"
  obtain P Q where T: "T = P @ level_types (zl_config l) @ Q" "length P = zl_atomicLevel l"
    using l by (auto simp: logger_ok_def)
  then have "zl_atomicLevel l < length T" "T ! zl_atomicLevel l = Adjustable"
    by (simp_all add: level_types_def nth_append)
  moreover have "list_all2 level_ok T (lw_levels w)" using w by (simp add: world_ok_def)
  ultimately have "list_all2 level_ok T ((lw_levels w)[zl_atomicLevel l := v])"
    using assms by (auto simp: list_all2_conv_all_nth nth_list_update level_ok_def)
  then show "world_ok Z (T @ []) w' \<and> (\<forall>l \<in> no_logger r. logger_ok Z (T @ []) l)"
    using w run by (auto simp: world_ok_def set_level_def world_loggers_def)
qed

section \<open>Reading and writing the package variables\<close>

lemma typed_set_global:
  "typed Z {l} (set_global l) no_logger"
  by (rule typedI, rule exI [of _ "[]"]) (auto simp: set_global_def world_ok_def world_loggers_def)

lemma typed_set_categories:
  "typed Z {cm_access m, cm_platform m, cm_business m} (modifies (\<lambda>w. w\<lparr>lw_categories := Some m\<rparr>)) no_logger"
  by (rule typedI, rule exI [of _ "[]"]) (auto simp: world_ok_def world_loggers_def)

lemma typed_read_global [typed_rules]: "typed Z A (reads lw_global) set_option"
  by (rule typedI, rule exI [of _ "[]"]) (auto simp: world_ok_def world_loggers_def)

lemma typed_read_initialized [typed_rules]: "typed Z A (reads lw_initialized) no_logger"
  by (rule typedI, rule exI [of _ "[]"]) (auto simp: world_ok_def)

definition manager_loggers :: "('z, 'g, 'h) category_manager option \<Rightarrow> ('z, 'g, 'h) zap_logger set" where
  "manager_loggers mgr = (case mgr of None \<Rightarrow> {} | Some m \<Rightarrow> {cm_access m, cm_platform m, cm_business m})"

lemma typed_read_categories [typed_rules]: "typed Z A (reads lw_categories) manager_loggers"
  by (rule typedI, rule exI [of _ "[]"]) (auto simp: world_ok_def world_loggers_def manager_loggers_def)

lemma typed_newFallbackLogger [typed_rules]: "typed Z A (newFallbackLogger Z) (\<lambda>l. {l})"
proof -
  have "run_state (newFallbackLogger Z) w = (new_logger Z fallback_config (length (lw_levels w)),
      snd (run_state (newZapLogger Z fallback_config) w))" for w
    by (simp add: newFallbackLogger_def run_bind run_newZapLogger)
  then show ?thesis
    using typed_newZapLogger [of Z A fallback_config] by (auto simp: typed_def run_newZapLogger)
qed

lemma typed_GetLogger [typed_rules]: "typed Z A (GetLogger Z) (\<lambda>l. {l})"
  unfolding GetLogger_def by (rule typed_rules | simp)+

lemma typed_set_level' [typed_rules]:
  "valid_level v \<Longrightarrow> l \<in> A \<Longrightarrow> typed Z A (set_level (zl_atomicLevel l) v) no_logger"
  by (rule typed_weaken [OF typed_set_level]) auto

lemma typed_set_global' [typed_rules]: "l \<in> A \<Longrightarrow> typed Z A (set_global l) no_logger"
  by (rule typed_weaken [OF typed_set_global]) auto

lemma typed_set_categories' [typed_rules]:
  "{cm_access m, cm_platform m, cm_business m} \<subseteq> A \<Longrightarrow>
   typed Z A (modifies (\<lambda>w. w\<lparr>lw_categories := Some m\<rparr>)) no_logger"
  by (rule typed_weaken [OF typed_set_categories])

section \<open>The methods are typed\<close>

lemma typed_log_at [typed_rules]: "typed Z A (log_at Z lev l m args) no_logger"
  unfolding log_at_def by (rule typed_rules)

lemma typed_log_context_at [typed_rules]: "typed Z A (log_context_at Z lev l ctx m args) no_logger"
  unfolding log_context_at_def by (rule typed_rules)

lemma typed_logf_at [typed_rules]: "typed Z A (logf_at Z lev l f args) no_logger"
  unfolding logf_at_def by (rule typed_rules)

lemma typed_logf_context_at [typed_rules]: "typed Z A (logf_context_at Z lev l ctx f args) no_logger"
  unfolding logf_context_at_def by (rule typed_rules)

lemma typed_log_Sync [typed_rules]: "typed Z A (log_Sync Z l) no_logger"
  unfolding log_Sync_def by (rule typed_rules | simp)+

lemma typed_log_Fatal [typed_rules]: "typed Z A (log_Fatal Z l m args) no_logger"
  unfolding log_Fatal_def by (rule typed_rules | simp)+

lemma typed_sugar_Fatalf [typed_rules]: "typed Z A (sugar_Fatalf Z l f args) no_logger"
  unfolding sugar_Fatalf_def by (rule typed_rules | simp)+

lemma typed_SetLevel [typed_rules]: "l \<in> A \<Longrightarrow> typed Z A (log_SetLevel l level) no_logger"
  unfolding log_SetLevel_def Let_def by (rule typed_rules | simp)+

lemma typed_GetLevel [typed_rules]: "typed Z A (log_GetLevel l) no_logger"
  unfolding log_GetLevel_def by (rule typed_rules | simp)+

lemma typed_global_Sync [typed_rules]: "typed Z A (global_Sync Z) no_logger"
  unfolding global_Sync_def by (rule typed_rules | simp)+

lemma typed_SyncAll [typed_rules]: "typed Z A (SyncAll Z) no_logger"
  unfolding SyncAll_def by (rule typed_rules | simp)+

lemma typed_category_of:
  assumes "\<And>m. part m \<in> {cm_access m, cm_platform m, cm_business m}"
  shows "typed Z A (category_of Z part) (\<lambda>l. {l})"
  unfolding category_of_def
proof (rule typed_bind [OF typed_read_categories])
  fix r
  show "typed Z (A \<union> manager_loggers r)
      (case r of None \<Rightarrow> GetLogger Z | Some m \<Rightarrow> State_Monad.return (part m)) (\<lambda>l. {l})"
    using assms by (cases r) (auto intro!: typed_rules simp: manager_loggers_def)
qed

lemma typed_ForCategory [typed_rules]: "typed Z A (ForCategory Z cat) (\<lambda>l. {l})"
  unfolding ForCategory_def Access_def Platform_def Business_def
  by (intro typed_if typed_category_of typed_GetLogger) auto

lemma typed_FromContext [typed_rules]:
  "(\<And>c l. ctx = Some c \<Longrightarrow> cv_logger c = Some l \<Longrightarrow> l \<in> A) \<Longrightarrow> typed Z A (FromContext Z ctx) (\<lambda>l. {l})"
  unfolding FromContext_def by (rule typed_rules | simp)+

lemma typed_log_Init [typed_rules]: "typed Z A (log_Init Z cfg) no_logger"
  unfolding log_Init_def Let_def by (rule typed_rules | simp)+

context zap_backend
begin

lemma logs_as_With: "logs_as Z l gs \<Longrightarrow> logs_as Z (log_With Z l args) (gs @ argsToZapFields args)"
  by (simp add: logs_as_def log_With_def log_with)

lemma logs_as_WithGroup: "logs_as Z l gs \<Longrightarrow> logs_as Z (log_WithGroup Z l name) gs"
  by (simp add: logs_as_def log_WithGroup_def)

lemma ok_With: "logger_ok Z T l \<Longrightarrow> logger_ok Z T (log_With Z l args)"
  by (auto simp: logger_ok_def log_With_def dest: logs_as_With [unfolded log_With_def])

lemma ok_WithGroup: "logger_ok Z T l \<Longrightarrow> logger_ok Z T (log_WithGroup Z l name)"
  by (auto simp: logger_ok_def log_WithGroup_def dest: logs_as_WithGroup [unfolded log_WithGroup_def])

lemma ok_WithContext: "logger_ok Z T l \<Longrightarrow> logger_ok Z T (log_WithContext Z l ctx)"
  by (simp add: log_WithContext_def ok_With)

lemma typed_derive:
  "(\<And>T. \<forall>l \<in> A. logger_ok Z T l \<Longrightarrow> logger_ok Z T l') \<Longrightarrow> typed Z A (State_Monad.return l') (\<lambda>l. {l})"
  by (rule typedI, rule exI [of _ "[]"]) auto

lemma typed_category_logger [typed_rules]:
  "typed Z A (category_logger Z cfg cat) (\<lambda>r. case r of Inl e \<Rightarrow> {} | Inr l \<Rightarrow> {l})"
  unfolding category_logger_def
proof (rule typed_bind [OF typed_newZapLogger])
  fix r
  show "typed Z (A \<union> (case r of Inl e \<Rightarrow> {} | Inr l \<Rightarrow> {l}))
      (State_Monad.return (case r of Inl e \<Rightarrow> Inl e | Inr l \<Rightarrow> Inr (log_With Z l [AStr FieldCategory, AStr cat])))
      (\<lambda>r. case r of Inl e \<Rightarrow> {} | Inr l \<Rightarrow> {l})"
    by (rule typedI, rule exI [of _ "[]"]) (auto simp: ok_With split: sum.splits)
qed

lemma typed_InitMultiCategory [typed_rules]: "typed Z A (InitMultiCategory Z cfg) no_logger"
  unfolding InitMultiCategory_def by (rule typed_rules | simp)+

end

end
