(* ===== verification/Log_Guarantee.thy ===== *)
theory Log_Guarantee
  imports Log_Typing
begin

text \<open>
  What a program can rely on when it logs: whatever calls of the package came before, in any order
  and on any loggers, which outputs an entry reaches, at which levels, with which fields.
\<close>

section \<open>Programs that log\<close>

text \<open>
  The calls of the package and of the loggers a program holds. Functions that are not listed are
  compositions of these: the global functions of \<open>GetLogger\<close> and a method, \<open>LogAccess\<close> of
  \<open>ForCategory\<close> and a method.
\<close>

datatype ('l, 'c) log_call =
    C_Init "log_config option"
  | C_InitMultiCategory "multi_category_config option"
  | C_GetLogger
  | C_ForCategory log_category
  | C_Log int 'l string "log_arg list"
  | C_LogContext int 'l "'c option" string "log_arg list"
  | C_Logf int 'l string "log_arg list"
  | C_Fatal 'l string "log_arg list"
  | C_With 'l "log_arg list"
  | C_WithGroup 'l string
  | C_WithContext 'l "'c option"
  | C_SetLevel 'l string
  | C_GetLevel 'l
  | C_Sync 'l
  | C_SyncAll

primrec uses :: "('l, 'c) log_call \<Rightarrow> 'l set" where
  "uses (C_Init cfg) = {}"
| "uses (C_InitMultiCategory cfg) = {}"
| "uses C_GetLogger = {}"
| "uses (C_ForCategory cat) = {}"
| "uses (C_Log lev l m args) = {l}"
| "uses (C_LogContext lev l ctx m args) = {l}"
| "uses (C_Logf lev l f args) = {l}"
| "uses (C_Fatal l m args) = {l}"
| "uses (C_With l args) = {l}"
| "uses (C_WithGroup l name) = {l}"
| "uses (C_WithContext l ctx) = {l}"
| "uses (C_SetLevel l level) = {l}"
| "uses (C_GetLevel l) = {l}"
| "uses (C_Sync l) = {l}"
| "uses C_SyncAll = {}"

text \<open>A call gives the program the logger it returns, if it returns one.\<close>

definition gives_none :: "('z, 'g, 'h, 's, 'a) log_prog \<Rightarrow> ('z, 'g, 'h, 's, ('z, 'g, 'h) zap_logger option) log_prog" where
  "gives_none m = do { m; State_Monad.return None }"

definition gives :: "('z, 'g, 'h, 's, ('z, 'g, 'h) zap_logger) log_prog
    \<Rightarrow> ('z, 'g, 'h, 's, ('z, 'g, 'h) zap_logger option) log_prog" where
  "gives m = do { l \<leftarrow> m; State_Monad.return (Some l) }"

primrec perform ::
  "('z, 'g, 'h, 's) zap \<Rightarrow> (('z, 'g, 'h) zap_logger, 'l log_ctx) log_call
     \<Rightarrow> ('z, 'g, 'h, 's, ('z, 'g, 'h) zap_logger option) log_prog" where
  "perform Z (C_Init cfg) = gives_none (log_Init Z cfg)"
| "perform Z (C_InitMultiCategory cfg) = gives_none (InitMultiCategory Z cfg)"
| "perform Z C_GetLogger = gives (GetLogger Z)"
| "perform Z (C_ForCategory cat) = gives (ForCategory Z cat)"
| "perform Z (C_Log lev l m args) = gives_none (log_at Z lev l m args)"
| "perform Z (C_LogContext lev l ctx m args) = gives_none (log_context_at Z lev l ctx m args)"
| "perform Z (C_Logf lev l f args) = gives_none (logf_at Z lev (log_Sugar l) f args)"
| "perform Z (C_Fatal l m args) = gives_none (log_Fatal Z l m args)"
| "perform Z (C_With l args) = gives (State_Monad.return (log_With Z l args))"
| "perform Z (C_WithGroup l name) = gives (State_Monad.return (log_WithGroup Z l name))"
| "perform Z (C_WithContext l ctx) = gives (State_Monad.return (log_WithContext Z l ctx))"
| "perform Z (C_SetLevel l level) = gives_none (log_SetLevel l level)"
| "perform Z (C_GetLevel l) = gives_none (log_GetLevel l)"
| "perform Z (C_Sync l) = gives_none (log_Sync Z l)"
| "perform Z C_SyncAll = gives_none (SyncAll Z)"

text \<open>The package before the first call, with zap in any state.\<close>

definition fresh_world :: "'s \<Rightarrow> ('z, 'g, 'h, 's) log_world" where
  "fresh_world s = \<lparr>lw_levels = [], lw_zap = s, lw_out = [], lw_global = None, lw_initialized = False,
     lw_categories = None, lw_exit = None\<rparr>"

text \<open>\<open>ls\<close> are the loggers the program has got so far.\<close>

inductive log_reachable ::
  "('z, 'g, 'h, 's) zap \<Rightarrow> ('z, 'g, 'h, 's) log_world \<Rightarrow> ('z, 'g, 'h) zap_logger set \<Rightarrow> bool"
  for Z where
  start: "log_reachable Z (fresh_world s) {}"
| call: "log_reachable Z w ls \<Longrightarrow> uses c \<subseteq> ls \<Longrightarrow>
    run_state (perform Z (c :: (('z, 'g, 'h) zap_logger, unit log_ctx) log_call)) w = (r, w') \<Longrightarrow>
    log_reachable Z w' (ls \<union> set_option r)"

section \<open>Typing is kept\<close>

lemma typed_gives_none [typed_rules]: "typed Z A m no_logger \<Longrightarrow> typed Z A (gives_none m) set_option"
  unfolding gives_none_def by (rule typed_bind) (auto intro: typed_return)

lemma typed_gives [typed_rules]: "typed Z A m (\<lambda>l. {l}) \<Longrightarrow> typed Z A (gives m) set_option"
  unfolding gives_def by (rule typed_bind) (auto intro: typed_return)

context zap_backend
begin

lemma typed_perform: "typed Z (uses c) (perform Z c) set_option"
proof (cases c)
  case (C_With l args)
  then show ?thesis by (auto intro!: typed_gives typed_derive ok_With)
next
  case (C_WithGroup l name)
  then show ?thesis by (auto intro!: typed_gives typed_derive ok_WithGroup)
next
  case (C_WithContext l ctx)
  then show ?thesis by (auto intro!: typed_gives typed_derive ok_WithContext)
next
  case (C_InitMultiCategory cfg)
  then show ?thesis by (auto intro!: typed_gives_none typed_InitMultiCategory)
qed (auto intro!: typed_rules)

lemma reachable_typed:
  "log_reachable Z w ls \<Longrightarrow> \<exists>T. world_ok Z T w \<and> (\<forall>l \<in> ls. logger_ok Z T l)"
proof (induction rule: log_reachable.induct)
  case (start s)
  show ?case by (rule exI [of _ "[]"]) (simp add: world_ok_def fresh_world_def world_loggers_def)
next
  case (call w ls c r w')
  then obtain T where T: "world_ok Z T w" "\<forall>l \<in> ls. logger_ok Z T l" by blast
  then have "\<forall>l \<in> uses c. logger_ok Z T l" using call.hyps(2) by auto
  from typedD [OF typed_perform T(1) this call.hyps(3)]
  obtain D where "world_ok Z (T @ D) w'" "\<forall>l \<in> set_option r. logger_ok Z (T @ D) l" by auto
  then show ?case using T(2) logger_ok_extend by (metis Un_iff)
qed

end

section \<open>What is written\<close>

text \<open>Encoder, sinks and threshold of each output, for the adjustable level \<open>v\<close> of the logger.\<close>

definition targets :: "log_config \<Rightarrow> int \<Rightarrow> (encoder \<times> write_syncer \<times> int) list" where
  "targets cfg v =
     (if lc_Outputs cfg = [] then [(createEncoder cfg, createWriteSyncer cfg, v)]
      else map (\<lambda>out. (output_encoder cfg out, [output_sink out], output_level cfg out)) (lc_Outputs cfg))"

definition delivered :: "log_config \<Rightarrow> int \<Rightarrow> log_entry \<Rightarrow> zap_field list \<Rightarrow> written list" where
  "delivered cfg v ent fs =
     concat (map (\<lambda>(enc, ws, t). if t \<le> en_level ent then write_all enc ws ent fs else []) (targets cfg v))"

definition unsampled :: "log_config \<Rightarrow> bool" where
  "unsampled cfg \<longleftrightarrow> (case lc_Sampling cfg of None \<Rightarrow> True | Some sm \<Rightarrow> smp_Initial sm \<le> 0)"

text \<open>The levels of the store a conforming logger looks at.\<close>

definition levels_match :: "log_config \<Rightarrow> nat \<Rightarrow> int list \<Rightarrow> bool" where
  "levels_match cfg n lv \<longleftrightarrow> n < length lv \<and> valid_level (lv ! n) \<and>
     (\<forall>i < length (lc_Outputs cfg). n + 1 + i < length lv \<and> lv ! (n + 1 + i) = output_level cfg (lc_Outputs cfg ! i))"

lemma conforming_levels:
  assumes "logger_ok Z T l" and "list_all2 level_ok T lv"
  shows "levels_match (zl_config l) (zl_atomicLevel l) lv"
proof -
  obtain A B where T: "T = A @ level_types (zl_config l) @ B" "length A = zl_atomicLevel l"
    using assms(1) by (auto simp: logger_ok_def)
  have len: "length lv = length T" and all: "\<And>i. i < length T \<Longrightarrow> level_ok (T ! i) (lv ! i)"
    using assms(2) by (auto simp: list_all2_conv_all_nth)
  let ?n = "zl_atomicLevel l" and ?outs = "lc_Outputs (zl_config l)"
  have n: "?n + length ?outs < length T" using T by (simp add: level_types_def)
  have fixed: "T ! (?n + 1 + i) = Fixed (output_level (zl_config l) (?outs ! i))" if "i < length ?outs" for i
    using that T by (simp add: nth_append level_types_def)
  have "lv ! (?n + 1 + i) = output_level (zl_config l) (?outs ! i)" if "i < length ?outs" for i
    using all [of "?n + 1 + i"] fixed [OF that] that n by (simp add: level_ok_def)
  moreover have "valid_level (lv ! ?n)" using all [of ?n] n by (simp add: level_ok_def)
  ultimately show ?thesis using n len by (simp add: levels_match_def)
qed

lemma cores_at_nth:
  "length (cores_at Z cfg n outs) = length outs \<and> (\<forall>i < length outs. cores_at Z cfg n outs ! i =
     z_NewCore Z (output_encoder cfg (outs ! i)) [output_sink (outs ! i)] (n + i))"
  by (induction outs arbitrary: n) (auto simp: nth_Cons split: nat.splits)

context zap_backend
begin

lemma write_cores:
  assumes "\<And>i. i < length outs \<Longrightarrow> lv ! (n + i) = output_level cfg (outs ! i)" and "length ss = length outs"
  shows "concat (map2 (\<lambda>c s. fst (z_Write Z c lv ent fs s)) (cores_at Z cfg n outs) ss) =
    concat (map (\<lambda>(enc, ws, t). if t \<le> en_level ent then write_all enc ws ent fs else [])
      (map (\<lambda>out. (output_encoder cfg out, [output_sink out], output_level cfg out)) outs))"
  using assms
proof (induction outs arbitrary: n ss)
  case (Cons out outs)
  then obtain s ss' where ss: "ss = s # ss'" by (cases ss) auto
  have "lv ! n = output_level cfg out" using Cons.prems(1) [of 0] by simp
  moreover have "lv ! (Suc n + i) = output_level cfg (outs ! i)" if "i < length outs" for i
    using Cons.prems(1) [of "Suc i"] that by simp
  ultimately show ?case
    using Cons.IH [of "Suc n" ss'] Cons.prems(2) by (simp add: ss write_new)
qed simp

lemma write_base:
  assumes "levels_match cfg n lv"
  shows "fst (z_Write Z (base_core Z cfg n) lv ent fs s) = delivered cfg (lv ! n) ent fs"
proof (cases "lc_Outputs cfg = []")
  case True
  then show ?thesis by (simp add: base_core_def write_new delivered_def targets_def)
next
  case False
  let ?cs = "cores_at Z cfg (Suc n) (lc_Outputs cfg)"
  have lv: "lv ! (Suc n + i) = output_level cfg (lc_Outputs cfg ! i)" if "i < length (lc_Outputs cfg)" for i
    using assms that by (simp add: levels_match_def)
  obtain ss where ss: "length ss = length (lc_Outputs cfg)" "fst (z_Write Z (tee_of Z ?cs) lv ent fs s) =
      concat (map2 (\<lambda>c s. fst (z_Write Z c lv ent fs s)) ?cs ss)"
  proof (cases "\<exists>c. ?cs = [c]")
    case True
    then obtain c where c: "?cs = [c]" by blast
    then have "length (lc_Outputs cfg) = 1" using cores_at_nth [of Z cfg "Suc n" "lc_Outputs cfg"] by simp
    with c show ?thesis using that [of "[s]"] by (simp add: tee_of_def)
  next
    case False
    then have "tee_of Z ?cs = z_NewTee Z ?cs" by (auto simp: tee_of_def split: list.splits)
    then show ?thesis
      using write_tee [of ?cs lv ent fs s] that cores_at_nth [of Z cfg "Suc n" "lc_Outputs cfg"] by auto
  qed
  with False show ?thesis
    by (simp add: base_core_def delivered_def targets_def write_cores [OF lv])
qed

lemma enabled_base:
  assumes "levels_match cfg n lv"
  shows "z_Enabled Z (base_core Z cfg n) lv lev \<longleftrightarrow> (\<exists>(enc, ws, t) \<in> set (targets cfg (lv ! n)). t \<le> lev)"
proof (cases "lc_Outputs cfg = []")
  case True
  then show ?thesis by (simp add: base_core_def enabled_new targets_def)
next
  case False
  let ?cs = "cores_at Z cfg (Suc n) (lc_Outputs cfg)"
  have cs: "length ?cs = length (lc_Outputs cfg)" "\<And>i. i < length (lc_Outputs cfg) \<Longrightarrow> z_Enabled Z (?cs ! i) lv lev \<longleftrightarrow>
      output_level cfg (lc_Outputs cfg ! i) \<le> lev"
    using cores_at_nth [of Z cfg "Suc n" "lc_Outputs cfg"] assms by (auto simp: levels_match_def enabled_new)
  have "z_Enabled Z (tee_of Z ?cs) lv lev \<longleftrightarrow> (\<exists>c \<in> set ?cs. z_Enabled Z c lv lev)"
    by (auto simp: tee_of_def enabled_tee split: list.splits)
  also have "\<dots> \<longleftrightarrow> (\<exists>i < length ?cs. z_Enabled Z (?cs ! i) lv lev)" by (metis in_set_conv_nth)
  also have "\<dots> \<longleftrightarrow> (\<exists>out \<in> set (lc_Outputs cfg). output_level cfg out \<le> lev)"
    using cs by (metis in_set_conv_nth)
  finally show ?thesis using False by (simp add: base_core_def targets_def)
qed

text \<open>What a core writes, with and without a sampler.\<close>

lemma write_sampled:
  assumes "levels_match cfg n lv"
  shows "(unsampled cfg \<or> ErrorLevel \<le> en_level ent \<longrightarrow>
      fst (core_Write Z (sampled_core Z cfg (base_core Z cfg n)) lv ent fs s) = delivered cfg (lv ! n) ent fs) \<and>
    fst (core_Write Z (sampled_core Z cfg (base_core Z cfg n)) lv ent fs s) \<in> {[], delivered cfg (lv ! n) ent fs}"
  using write_sampler [of "base_core Z cfg n" _ _ _ lv ent fs s]
  by (auto simp: sampled_core_def unsampled_def write_base [OF assms] split: option.splits)

lemma enabled_sampled:
  assumes "levels_match cfg n lv"
  shows "core_Enabled Z (sampled_core Z cfg (base_core Z cfg n)) lv lev \<longleftrightarrow>
    (\<exists>(enc, ws, t) \<in> set (targets cfg (lv ! n)). t \<le> lev)"
  using enabled_base [OF assms, of lev] by (simp add: sampled_core_def enabled_sampler split: option.splits)

lemma not_delivered:
  "\<not> (\<exists>(enc, ws, t) \<in> set (targets cfg v). t \<le> en_level ent) \<Longrightarrow> delivered cfg v ent fs = []"
  by (auto simp: delivered_def split: if_splits)

lemma log_delivers:
  fixes lev :: int and m :: string and fs :: "zap_field list"
  assumes lv: "levels_match (zl_config l) (zl_atomicLevel l) lv" and gs: "logs_as Z l gs"
  defines "D \<equiv> delivered (zl_config l) (lv ! zl_atomicLevel l) (entry_of (logger_options (zl_config l)) lev m)
    ((FieldService, AStr (lc_ServiceName (zl_config l))) # gs @ fs)"
  shows "(unsampled (zl_config l) \<or> ErrorLevel \<le> lev \<longrightarrow> fst (g_Log Z (zl_zlogger l) lv lev m fs s) = D) \<and>
    fst (g_Log Z (zl_zlogger l) lv lev m fs s) \<in> {[], D}"
proof -
  let ?cfg = "zl_config l" and ?n = "zl_atomicLevel l" and ?ent = "entry_of (logger_options (zl_config l)) lev m"
  have ent: "en_level ?ent = lev" by (simp add: entry_of_def)
  have log: "fst (g_Log Z (zl_zlogger l) lv lev m fs s) =
      (if \<exists>(enc, ws, t) \<in> set (targets ?cfg (lv ! ?n)). t \<le> lev
       then fst (core_Write Z (sampled_core Z ?cfg (base_core Z ?cfg ?n)) lv ?ent
         ((FieldService, AStr (lc_ServiceName ?cfg)) # gs @ fs) s) else [])"
    using gs by (simp add: logs_as_def log_new enabled_sampled [OF lv] logger_options_def)
  show ?thesis
    unfolding log D_def
    using write_sampled [OF lv, of ?ent "(FieldService, AStr (lc_ServiceName ?cfg)) # gs @ fs" s]
      not_delivered [of ?cfg "lv ! ?n" ?ent] ent by auto
qed


text \<open>A call of a method writes just that.\<close>

lemma method_delivers:
  assumes "levels_match (zl_config l) (zl_atomicLevel l) (lw_levels u)" and "logs_as Z l gs"
  shows "let D = delivered (zl_config l) (lw_levels u ! zl_atomicLevel l) (entry_of (logger_options (zl_config l)) lev m)
           ((FieldService, AStr (lc_ServiceName (zl_config l))) # gs @ contextToZapFields ctx @ argsToZapFields args);
         out = lw_out (snd (run_state (log_context_at Z lev l ctx m args) u))
     in (unsampled (zl_config l) \<or> ErrorLevel \<le> lev \<longrightarrow> out = lw_out u @ D) \<and> out \<in> {lw_out u, lw_out u @ D}"
  using log_delivers [OF assms, of lev m "contextToZapFields ctx @ argsToZapFields args" "lw_zap u"]
  by (auto simp: log_context_at_def zap_write_def Let_def split: prod.splits)

lemma reachable_logger:
  assumes "log_reachable Z w ls" and "l \<in> ls"
  shows "levels_match (zl_config l) (zl_atomicLevel l) (lw_levels w)" and "\<exists>gs. logs_as Z l gs"
    and "zl_zapCore l = sampled_core Z (zl_config l) (base_core Z (zl_config l) (zl_atomicLevel l))"
    and "\<forall>v \<in> set (lw_levels w). valid_level v"
proof -
  obtain T where T: "world_ok Z T w" "logger_ok Z T l" using reachable_typed [OF assms(1)] assms(2) by blast
  then show "levels_match (zl_config l) (zl_atomicLevel l) (lw_levels w)"
    by (intro conforming_levels) (auto simp: world_ok_def)
  show "\<exists>gs. logs_as Z l gs"
    and "zl_zapCore l = sampled_core Z (zl_config l) (base_core Z (zl_config l) (zl_atomicLevel l))"
    using T(2) by (auto simp: logger_ok_def)
  show "\<forall>v \<in> set (lw_levels w). valid_level v"
    using T(1) by (auto simp: world_ok_def list_all2_conv_all_nth in_set_conv_nth level_ok_def)
qed

end

context zap_backend
begin

lemma set_level_matches:
  "levels_match cfg n lv \<Longrightarrow> valid_level v \<Longrightarrow> levels_match cfg n (lv[n := v])"
  by (simp add: levels_match_def)

lemma run_SetLevel:
  "known_level (to_lower level) \<Longrightarrow> run_state (log_SetLevel l level) w =
     (None, w\<lparr>lw_levels := (lw_levels w)[zl_atomicLevel l := parseZapLevel (to_lower level)]\<rparr>)"
  by (simp add: log_SetLevel_def set_level_def run_bind)

end

lemma run_GetLevel: "run_state (log_GetLevel l) w = (levelFromZap (lw_levels w ! zl_atomicLevel l), w)"
  by (simp add: log_GetLevel_def get_level_def run_bind)

lemma level_names:
  "valid_level v \<Longrightarrow> parseZapLevel (levelFromZap v) = v \<and> known_level (levelFromZap v)"
  by (auto simp: valid_level_def parseZapLevel_def levelFromZap_def zap_levels log_constants known_level_def)

lemma names_levels: "known_level l \<Longrightarrow> levelFromZap (parseZapLevel l) = l"
  by (auto simp: parseZapLevel_def levelFromZap_def zap_levels log_constants known_level_def)

lemma delivered_outputs: "lc_Outputs cfg \<noteq> [] \<Longrightarrow> delivered cfg v = delivered cfg v'"
  by (simp add: delivered_def targets_def fun_eq_iff)

lemma valid_le: "valid_level v \<Longrightarrow> v \<le> ErrorLevel"
  by (auto simp: valid_level_def zap_levels)

lemma targets_reach:
  assumes "valid_level v"
  shows "(enc, ws, t) \<in> set (targets cfg v) \<Longrightarrow> t \<le> ErrorLevel"
  using assms by (auto simp: targets_def valid_le split: if_splits)

text \<open>Every output of a configuration.\<close>

definition everywhere :: "log_config \<Rightarrow> log_entry \<Rightarrow> zap_field list \<Rightarrow> written list" where
  "everywhere cfg ent fs =
     (if lc_Outputs cfg = [] then write_all (createEncoder cfg) (createWriteSyncer cfg) ent fs
      else map (\<lambda>out. \<lparr>wr_encoder = output_encoder cfg out, wr_sink = output_sink out, wr_entry = ent,
             wr_fields = fs\<rparr>) (lc_Outputs cfg))"

lemma delivered_error:
  assumes "valid_level v" and "ErrorLevel \<le> en_level ent"
  shows "delivered cfg v ent fs = everywhere cfg ent fs"
proof -
  have all: "t \<le> en_level ent" if "(enc, ws, t) \<in> set (targets cfg v)" for enc ws t
    using targets_reach [OF assms(1) that] assms(2) by simp
  then have "delivered cfg v ent fs = concat (map (\<lambda>(enc, ws, t). write_all enc ws ent fs) (targets cfg v))"
    unfolding delivered_def by (intro arg_cong [of _ _ concat] map_cong) auto
  also have "\<dots> = everywhere cfg ent fs"
    by (simp add: targets_def everywhere_def write_all_def o_def split_beta flip: map_concat)
  finally show ?thesis .
qed

text \<open>A group only reaches the slog handler: the logger's own methods write as without it.\<close>

lemma group_not_applied:
  "run_state (log_context_at Z lev (log_WithGroup Z l name) ctx m args) w =
   run_state (log_context_at Z lev l ctx m args) w"
  by (simp add: log_context_at_def log_WithGroup_def)

text \<open>A single \<^verbatim>\<open>slog.Attr\<close> argument is dropped, and two are taken for a key and its value.\<close>

lemma attrs_dropped:
  "argsToZapFields [AAttr k v] = []"
  "argsToZapFields [AAttr k v, AAttr k' v'] = [('''', AAttr k' v')]"
  by simp_all

section \<open>Correctness\<close>

text \<open>
  C32. Every logger conforms. Whatever calls were made before, a logger a program holds, and whatever
  it was derived from, still has the core its own configuration describes: its own level and the
  levels of its outputs are in the store and are zap levels, the outputs have exactly their
  configured thresholds, which no call on any logger changed, and \<^verbatim>\<open>GetLevel\<close> names the level the core uses.
\<close>

theorem logger_conforms:
  assumes "zap_backend Z" and "log_reachable Z w ls" and "l \<in> ls"
  shows "zl_zapCore l = sampled_core Z (zl_config l) (base_core Z (zl_config l) (zl_atomicLevel l)) \<and>
    levels_match (zl_config l) (zl_atomicLevel l) (lw_levels w) \<and>
    known_level (fst (run_state (log_GetLevel l) w)) \<and>
    parseZapLevel (fst (run_state (log_GetLevel l) w)) = lw_levels w ! zl_atomicLevel l"
proof -
  note l = zap_backend.reachable_logger [OF assms]
  then have "valid_level (lw_levels w ! zl_atomicLevel l)" by (simp add: levels_match_def)
  with l(1,3) show ?thesis by (simp add: run_GetLevel level_names)
qed

text \<open>What an error call writes, also through a derived logger.\<close>

lemma errors_delivered:
  fixes Z :: "('z, 'g, 'h, 's) zap"
  assumes "zap_backend Z" and "log_reachable Z w ls" and "l \<in> ls"
  shows "\<exists>gs. \<forall>(ctx :: ('z, 'g, 'h) zap_logger log_ctx option) m args extra.
    lw_out (snd (run_state (log_context_at Z ErrorLevel l ctx m args) w)) = lw_out w @
      everywhere (zl_config l) (entry_of (logger_options (zl_config l)) ErrorLevel m)
        ((FieldService, AStr (lc_ServiceName (zl_config l))) # gs @ contextToZapFields ctx @ argsToZapFields args) \<and>
    lw_out (snd (run_state (log_context_at Z ErrorLevel (log_With Z l extra) ctx m args) w)) = lw_out w @
      everywhere (zl_config l) (entry_of (logger_options (zl_config l)) ErrorLevel m)
        ((FieldService, AStr (lc_ServiceName (zl_config l))) # gs @ argsToZapFields extra @
          contextToZapFields ctx @ argsToZapFields args)"
proof -
  note Z = assms(1) and l = zap_backend.reachable_logger [OF assms]
  obtain gs where gs: "logs_as Z l gs" using l(2) by blast
  have derived: "logs_as Z (log_With Z l extra) (gs @ argsToZapFields extra)" for extra
    using gs by (rule zap_backend.logs_as_With [OF Z])
  have same: "zl_config (log_With Z l extra) = zl_config l" "zl_atomicLevel (log_With Z l extra) = zl_atomicLevel l"
    for extra by (simp_all add: log_With_def)
  have valid: "valid_level (lw_levels w ! zl_atomicLevel l)" using l(1) by (simp add: levels_match_def)
  note deliver = zap_backend.method_delivers [OF Z, where u = w and lev = ErrorLevel]
  have own: "lw_out (snd (run_state (log_context_at Z ErrorLevel l ctx m args) w)) = lw_out w @
      everywhere (zl_config l) (entry_of (logger_options (zl_config l)) ErrorLevel m)
        ((FieldService, AStr (lc_ServiceName (zl_config l))) # gs @ contextToZapFields ctx @ argsToZapFields args)"
    for ctx m args
    using deliver [OF l(1) gs, where m = m and ctx = ctx and args = args]
    by (simp add: Let_def delivered_error [OF valid] entry_of_def)
  have more: "lw_out (snd (run_state (log_context_at Z ErrorLevel (log_With Z l extra) ctx m args) w)) = lw_out w @
      everywhere (zl_config l) (entry_of (logger_options (zl_config l)) ErrorLevel m)
        ((FieldService, AStr (lc_ServiceName (zl_config l))) # gs @ argsToZapFields extra @
          contextToZapFields ctx @ argsToZapFields args)"
    for ctx m args extra
    using deliver [OF _ derived [of extra], unfolded same, OF l(1), where m = m and ctx = ctx and args = args]
    by (simp add: Let_def delivered_error [OF valid] entry_of_def)
  show ?thesis by (intro exI [of _ gs]) (simp add: own more)
qed

text \<open>
  C31. No error is lost. Whatever happened before and whatever the sampling configuration, an entry
  at error level reaches every output of the logger exactly once, in the output's own format, with the
  service name, the fields of the loggers it was derived from, the ids of the context and the call's
  own fields; a logger derived with further fields adds just these.
\<close>

theorem errors_reach_every_output:
  fixes Z :: "('z, 'g, 'h, 's) zap"
  assumes "zap_backend Z" and "log_reachable Z w ls" and "l \<in> ls"
  shows "\<exists>gs. \<forall>(ctx :: ('z, 'g, 'h) zap_logger log_ctx option) m args extra.
    lw_out (snd (run_state (log_context_at Z ErrorLevel l ctx m args) w)) = lw_out w @
      everywhere (zl_config l) (entry_of (logger_options (zl_config l)) ErrorLevel m)
        ((FieldService, AStr (lc_ServiceName (zl_config l))) # gs @ contextToZapFields ctx @ argsToZapFields args) \<and>
    lw_out (snd (run_state (log_context_at Z ErrorLevel (log_With Z l extra) ctx m args) w)) = lw_out w @
      everywhere (zl_config l) (entry_of (logger_options (zl_config l)) ErrorLevel m)
        ((FieldService, AStr (lc_ServiceName (zl_config l))) # gs @ argsToZapFields extra @
          contextToZapFields ctx @ argsToZapFields args)"
  using assms by (rule errors_delivered)

text \<open>
  C33. What \<^verbatim>\<open>SetLevel\<close> sets. For a logger without sampling, setting a known level makes \<^verbatim>\<open>GetLevel\<close>
  return it, and from then on an entry reaches an output exactly if it has the output's threshold: the
  level just set for the outputs of \<open>OutputPaths\<close>, but still the configured level for the ones of
  \<open>Outputs\<close>. So with \<open>Outputs\<close> no entry is written differently than if the level had not been set.
\<close>

theorem set_level_effect:
  fixes Z :: "('z, 'g, 'h, 's) zap"
  assumes "zap_backend Z" and "log_reachable Z w ls" and "l \<in> ls" and "unsampled (zl_config l)"
    and "known_level (to_lower level)"
  shows "\<exists>w'. run_state (log_SetLevel l level) w = (None, w') \<and>
    fst (run_state (log_GetLevel l) w') = to_lower level \<and> lw_out w' = lw_out w \<and>
    (\<exists>gs. \<forall>lev (ctx :: ('z, 'g, 'h) zap_logger log_ctx option) m args. lw_out (snd (run_state (log_context_at Z lev l ctx m args) w')) = lw_out w @
       delivered (zl_config l) (parseZapLevel (to_lower level)) (entry_of (logger_options (zl_config l)) lev m)
         ((FieldService, AStr (lc_ServiceName (zl_config l))) # gs @ contextToZapFields ctx @ argsToZapFields args)) \<and>
    (lc_Outputs (zl_config l) \<noteq> [] \<longrightarrow> (\<forall>lev (ctx :: ('z, 'g, 'h) zap_logger log_ctx option) m args.
       lw_out (snd (run_state (log_context_at Z lev l ctx m args) w')) =
       lw_out (snd (run_state (log_context_at Z lev l ctx m args) w))))"
proof -
  note Z = assms(1) and l = zap_backend.reachable_logger [OF assms(1-3)]
  let ?n = "zl_atomicLevel l" and ?v = "parseZapLevel (to_lower level)"
  let ?w = "w\<lparr>lw_levels := (lw_levels w)[?n := ?v]\<rparr>"
  obtain gs where gs: "logs_as Z l gs" using l(2) by blast
  have n: "?n < length (lw_levels w)" using l(1) by (simp add: levels_match_def)
  have m: "levels_match (zl_config l) ?n (lw_levels ?w)"
    using zap_backend.set_level_matches [OF Z l(1)] by simp
  note written = zap_backend.method_delivers [OF Z _ gs]
  have before: "lw_out (snd (run_state (log_context_at Z lev l ctx m args) w)) = lw_out w @
      delivered (zl_config l) (lw_levels w ! ?n) (entry_of (logger_options (zl_config l)) lev m)
        ((FieldService, AStr (lc_ServiceName (zl_config l))) # gs @ contextToZapFields ctx @ argsToZapFields args)"
    for lev ctx m args
    using written [OF l(1), where lev = lev and m = m and ctx = ctx and args = args] assms(4) by (simp add: Let_def)
  have after: "lw_out (snd (run_state (log_context_at Z lev l ctx m args) ?w)) = lw_out w @
      delivered (zl_config l) ?v (entry_of (logger_options (zl_config l)) lev m)
        ((FieldService, AStr (lc_ServiceName (zl_config l))) # gs @ contextToZapFields ctx @ argsToZapFields args)"
    for lev ctx m args
    using written [OF m, where lev = lev and m = m and ctx = ctx and args = args] assms(4) n by (simp add: Let_def)
  show ?thesis
    using n delivered_outputs [of "zl_config l" "lw_levels w ! ?n" ?v]
    by (intro exI [of _ ?w] conjI exI [of _ gs])
       (simp_all add: zap_backend.run_SetLevel [OF Z assms(5)] run_GetLevel names_levels assms(5) before after)
qed

end
