(* ===== verification/Log_Instance.thy ===== *)
theory Log_Instance
  imports Log_Guarantee
begin

text \<open>
  A reference zap that satisfies the laws (its sampler counts entries and never starts anew), a program
  that initialises the package and gets its logger, and the properties at this program.
\<close>

section \<open>The reference zap\<close>

datatype ref_core =
    RNew encoder write_syncer nat
  | RTee "ref_core list"
  | RSampler ref_core int int
  | RWith ref_core "zap_field list"

fun ref_enabled :: "ref_core \<Rightarrow> int list \<Rightarrow> int \<Rightarrow> bool" where
  "ref_enabled (RNew e ws r) lv l = (lv ! r \<le> l)"
| "ref_enabled (RTee cs) lv l = list_ex (\<lambda>c. ref_enabled c lv l) cs"
| "ref_enabled (RSampler c n k) lv l = ref_enabled c lv l"
| "ref_enabled (RWith c gs) lv l = ref_enabled c lv l"

text \<open>The state counts the entries samplers have seen.\<close>

fun ref_write :: "ref_core \<Rightarrow> int list \<Rightarrow> log_entry \<Rightarrow> zap_field list \<Rightarrow> int \<Rightarrow> written list \<times> int"
and ref_writes :: "ref_core list \<Rightarrow> int list \<Rightarrow> log_entry \<Rightarrow> zap_field list \<Rightarrow> int \<Rightarrow> written list \<times> int" where
  "ref_write (RNew e ws r) lv ent fs s = (if lv ! r \<le> en_level ent then write_all e ws ent fs else [], s)"
| "ref_write (RTee cs) lv ent fs s = ref_writes cs lv ent fs s"
| "ref_write (RSampler c n k) lv ent fs s =
     (if s < n \<or> k \<noteq> 0 \<and> (s - n) mod k = 0 then ref_write c lv ent fs (s + 1) else ([], s + 1))"
| "ref_write (RWith c gs) lv ent fs s = ref_write c lv ent (gs @ fs) s"
| "ref_writes [] lv ent fs s = ([], s)"
| "ref_writes (c # cs) lv ent fs s =
     (case ref_write c lv ent fs s of (out, s1) \<Rightarrow>
      case ref_writes cs lv ent fs s1 of (outs, s2) \<Rightarrow> (out @ outs, s2))"

type_synonym ref_logger = "ref_core log_core \<times> zap_options \<times> zap_field list"

definition ref_zap_base :: "(ref_core, ref_logger, string list, int) zap" where
  "ref_zap_base = \<lparr>z_NewCore = RNew, z_NewTee = RTee, z_NewSampler = (\<lambda>c t n k. RSampler c n k),
     z_With = RWith, z_Enabled = ref_enabled, z_Write = ref_write, z_Sync = (\<lambda>c s. (None, s)),
     g_New = (\<lambda>core opts. (core, opts, [])), g_With = (\<lambda>(core, opts, gs) fs. (core, opts, gs @ fs)),
     g_Log = (\<lambda>g lv l m fs s. ([], s)), g_Sync = (\<lambda>g s. s),
     s_Logf = (\<lambda>g lv l f args s. ([], s)), s_With = (\<lambda>g args. g),
     h_New = (\<lambda>core opts. []), h_With = (\<lambda>h args. h), h_WithGroup = (\<lambda>h name. h @ [name]), h_Sync = None\<rparr>"

definition ref_log ::
  "ref_logger \<Rightarrow> int list \<Rightarrow> int \<Rightarrow> string \<Rightarrow> zap_field list \<Rightarrow> int \<Rightarrow> written list \<times> int" where
  "ref_log g lv l m fs s = (case g of (core, opts, gs) \<Rightarrow>
     (if core_Enabled ref_zap_base core lv l
      then core_Write ref_zap_base core lv (entry_of opts l m) (zo_Fields opts @ gs @ fs) s else ([], s)))"

definition ref_zap :: "(ref_core, ref_logger, string list, int) zap" where
  "ref_zap = ref_zap_base\<lparr>g_Log := ref_log, s_Logf := (\<lambda>g lv l f args s. ref_log g lv l f [] s)\<rparr>"

lemma ref_core_ops:
  "core_Enabled ref_zap core lv l = core_Enabled ref_zap_base core lv l"
  "core_Write ref_zap core lv ent fs s = core_Write ref_zap_base core lv ent fs s"
  by (induction core) (simp_all add: ref_zap_def)

lemma ref_writes_each:
  "\<exists>ss. length ss = length cs \<and> fst (ref_writes cs lv ent fs s) = concat (map2 (\<lambda>c s. fst (ref_write c lv ent fs s)) cs ss)"
proof (induction cs arbitrary: s)
  case (Cons c cs)
  obtain out s1 where c: "ref_write c lv ent fs s = (out, s1)" by fastforce
  obtain ss where ss: "length ss = length cs"
    "fst (ref_writes cs lv ent fs s1) = concat (map2 (\<lambda>c s. fst (ref_write c lv ent fs s)) cs ss)"
    using Cons by blast
  then show ?case using c by (intro exI [of _ "s # ss"]) (auto split: prod.splits)
qed simp

interpretation ref: zap_backend ref_zap
proof
  fix cs lv ent fs s
  show "\<exists>ss. length ss = length cs \<and> fst (z_Write ref_zap (z_NewTee ref_zap cs) lv ent fs s) =
      concat (map2 (\<lambda>c s. fst (z_Write ref_zap c lv ent fs s)) cs ss)"
    using ref_writes_each by (simp add: ref_zap_def ref_zap_base_def)
next
  fix core opts lv l m fs s
  show "fst (g_Log ref_zap (g_New ref_zap core opts) lv l m fs s) =
      (if core_Enabled ref_zap core lv l
       then fst (core_Write ref_zap core lv (entry_of opts l m) (zo_Fields opts @ fs) s) else [])"
    unfolding ref_core_ops by (simp add: ref_zap_def ref_zap_base_def ref_log_def)
qed (auto simp: ref_zap_def ref_zap_base_def ref_log_def list_ex_iff split: prod.splits)

section \<open>A program\<close>

definition shop_log_config :: log_config where
  "shop_log_config = (MultiOutputConfig ''shop'' ''/var/log/shop.log'')\<lparr>lc_Sampling := Some \<lparr>smp_Initial = 1, smp_Thereafter = 0\<rparr>\<rparr>"

definition plain_log_config :: log_config where
  "plain_log_config = shop_log_config\<lparr>lc_Sampling := None\<rparr>"

type_synonym ref_world = "(ref_core, ref_logger, string list, int) log_world"

definition init_with :: "log_config \<Rightarrow> ref_world" where
  "init_with cfg = snd (run_state (perform ref_zap (C_Init (Some cfg) ::
     ((ref_core, ref_logger, string list) zap_logger, unit log_ctx) log_call)) (fresh_world 0))"

definition logger_with :: "log_config \<Rightarrow> (ref_core, ref_logger, string list) zap_logger" where
  "logger_with cfg = the (fst (run_state (perform ref_zap (C_GetLogger ::
     ((ref_core, ref_logger, string list) zap_logger, unit log_ctx) log_call)) (init_with cfg)))"

lemma reach_logger:
  assumes "log_Validate cfg = None"
  shows "log_reachable ref_zap (init_with cfg) {logger_with cfg}" and "zl_config (logger_with cfg) = applyDefaults cfg"
proof -
  let ?init = "C_Init (Some cfg) :: ((ref_core, ref_logger, string list) zap_logger, unit log_ctx) log_call"
  let ?get = "C_GetLogger :: ((ref_core, ref_logger, string list) zap_logger, unit log_ctx) log_call"
  have i: "run_state (perform ref_zap ?init) (fresh_world 0) = (None, init_with cfg)"
    using assms by (simp add: init_with_def gives_none_def run_bind log_Init_def Let_def run_newZapLogger set_global_def)
  from log_reachable.call [OF log_reachable.start _ this]
  have r1: "log_reachable ref_zap (init_with cfg) {}" by simp
  have init: "init_with cfg = (fresh_world 0)\<lparr>lw_levels := parseZapLevel (lc_Level (applyDefaults cfg)) #
        map (output_level (applyDefaults cfg)) (lc_Outputs (applyDefaults cfg)),
      lw_global := Some (new_logger ref_zap (applyDefaults cfg) 0), lw_initialized := True\<rparr>"
    using assms
    by (simp add: init_with_def gives_none_def run_bind log_Init_def Let_def run_newZapLogger set_global_def fresh_world_def)
  have g: "run_state (perform ref_zap ?get) (init_with cfg) = (Some (logger_with cfg), init_with cfg)"
    by (simp add: logger_with_def gives_def run_bind GetLogger_def init)
  from log_reachable.call [OF r1 _ this] show "log_reachable ref_zap (init_with cfg) {logger_with cfg}" by simp
  show "zl_config (logger_with cfg) = applyDefaults cfg"
    by (simp add: logger_with_def gives_def run_bind GetLogger_def init new_logger_def Let_def)
qed

lemma shop_valid: "log_Validate shop_log_config = None" "log_Validate plain_log_config = None"
  by code_simp+

section \<open>Witnesses\<close>

theorem logger_conforms_witness:
  "levels_match (zl_config (logger_with shop_log_config)) (zl_atomicLevel (logger_with shop_log_config))
     (lw_levels (init_with shop_log_config))"
  using logger_conforms [OF ref.zap_backend_axioms reach_logger(1) [OF shop_valid(1)]] by simp

theorem errors_reach_every_output_witness:
  "\<exists>gs. lw_out (snd (run_state (log_context_at ref_zap ErrorLevel (logger_with shop_log_config) (None :: (ref_core, ref_logger, string list) zap_logger log_ctx option)
       ''down'' []) (init_with shop_log_config))) =
     everywhere (applyDefaults shop_log_config) (entry_of (logger_options (applyDefaults shop_log_config)) ErrorLevel ''down'')
       ((FieldService, AStr ''shop'') # gs) \<and> length (lc_Outputs (applyDefaults shop_log_config)) = 2"
proof -
  have out: "lw_out (init_with shop_log_config) = []" by code_simp
  have cfg: "lc_ServiceName (applyDefaults shop_log_config) = ''shop''"
    "length (lc_Outputs (applyDefaults shop_log_config)) = 2" by code_simp+
  show ?thesis
    using errors_reach_every_output [OF ref.zap_backend_axioms reach_logger(1) [OF shop_valid(1)], of "logger_with shop_log_config"]
    unfolding reach_logger(2) [OF shop_valid(1)] cfg
    by (auto simp: out cfg contextToZapFields_def TraceIDFromContext_def SpanIDFromContext_def dest: spec [of _ None])
qed

theorem set_level_effect_witness:
  "\<exists>w'. run_state (log_SetLevel (logger_with plain_log_config) ''Error'') (init_with plain_log_config) = (None, w') \<and>
     fst (run_state (log_GetLevel (logger_with plain_log_config)) w') = ''error'' \<and>
     lw_out (snd (run_state (log_context_at ref_zap InfoLevel (logger_with plain_log_config) (None :: (ref_core, ref_logger, string list) zap_logger log_ctx option)
       ''up'' []) w')) =
     lw_out (snd (run_state (log_context_at ref_zap InfoLevel (logger_with plain_log_config) (None :: (ref_core, ref_logger, string list) zap_logger log_ctx option)
       ''up'' []) (init_with plain_log_config)))"
proof -
  have cfg: "unsampled (applyDefaults plain_log_config)" "lc_Outputs (applyDefaults plain_log_config) \<noteq> []"
    "to_lower ''Error'' = ''error''" "known_level (to_lower ''Error'')"
    by code_simp+
  show ?thesis
    using set_level_effect [OF ref.zap_backend_axioms reach_logger(1) [OF shop_valid(2)], of "logger_with plain_log_config" "''Error''"]
    unfolding reach_logger(2) [OF shop_valid(2)] using cfg by auto
qed

end
