(* ===== verification/Lock_Client.thy ===== *)
theory Lock_Client
  imports Prelude "HOL-Library.Signed_Division"
begin

text \<open>
  The distributed lock SDK (\<^verbatim>\<open>lock/lock.go\<close>, \<^verbatim>\<open>lock/option.go\<close>, \<^verbatim>\<open>lock/redis.go\<close>): options and
  their defaults, the two client constructors, and the operations of a \<^verbatim>\<open>redisLock\<close>. The packages
  go-redis and redsync are parameters: records of the calls the code makes on them.
\<close>

definition errNotAcquired :: gerr where
  "errNotAcquired = GErr [ErrNotAcquired] ''lock not acquired''"

definition errLockExpired :: gerr where
  "errLockExpired = GErr [ErrLockExpired] ''lock expired''"

section \<open>Durations\<close>

text \<open>A \<^verbatim>\<open>time.Duration\<close> is a number of nanoseconds in the range of \<^verbatim>\<open>int64\<close>.\<close>

definition Millisecond :: int where "Millisecond = 1000000"
definition Second :: int where "Second = 1000 * Millisecond"

section \<open>Lock options\<close>

record lock_option =
  TTL :: int
  RetryCount :: int
  RetryDelay :: int
  EnableWatchdog :: bool

definition defaultLockOption :: lock_option where
  "defaultLockOption = \<lparr>TTL = 8 * Second, RetryCount = 32, RetryDelay = 100 * Millisecond,
     EnableWatchdog = False\<rparr>"

definition WithTTL :: "int \<Rightarrow> lock_option \<Rightarrow> lock_option" where
  "WithTTL d l = l\<lparr>TTL := d\<rparr>"

definition WithRetryCount :: "int \<Rightarrow> lock_option \<Rightarrow> lock_option" where
  "WithRetryCount n l = l\<lparr>RetryCount := n\<rparr>"

definition WithRetryDelay :: "int \<Rightarrow> lock_option \<Rightarrow> lock_option" where
  "WithRetryDelay d l = l\<lparr>RetryDelay := d\<rparr>"

definition WithWatchdog :: "lock_option \<Rightarrow> lock_option" where
  "WithWatchdog l = l\<lparr>EnableWatchdog := True\<rparr>"

section \<open>Redis clients\<close>

record redis_option =
  ro_Addrs :: "string list"
  ro_Username :: string
  ro_Password :: string
  ro_PoolSize :: int
  ro_DialTimeout :: int
  ro_ReadTimeout :: int
  ro_WriteTimeout :: int
  ro_RouteByLatency :: bool
  ro_RouteRandomly :: bool

record standalone_option =
  so_Addr :: string
  so_Username :: string
  so_Password :: string
  so_PoolSize :: int
  so_DialTimeout :: int
  so_ReadTimeout :: int
  so_WriteTimeout :: int

text \<open>
  go-redis: its two constructors, \<^verbatim>\<open>Ping\<close> under a timeout and \<^verbatim>\<open>Close\<close>. The fields the code sets in
  \<^verbatim>\<open>redis.ClusterOptions\<close> and \<^verbatim>\<open>redis.Options\<close> are those of its own option types.
\<close>

record ('s, 'h) redis_api =
  NewClusterClient :: "redis_option \<Rightarrow> ('s, 'h) state"
  NewClient :: "standalone_option \<Rightarrow> ('s, 'h) state"
  Ping :: "int \<Rightarrow> 'h \<Rightarrow> ('s, gerr option) state"
  CloseClient :: "'h \<Rightarrow> ('s, gerr option) state"

definition or_default :: "int \<Rightarrow> int \<Rightarrow> int" where
  "or_default d v = (if v = 0 then d else v)"

definition newClusterOptions :: "redis_option \<Rightarrow> gerr + redis_option" where
  "newClusterOptions op =
     (if ro_Addrs op = [] then Inl (errors_New ''lock: RedisOption.Addrs must not be empty'')
      else Inr (op\<lparr>ro_PoolSize := or_default 10 (ro_PoolSize op),
                   ro_DialTimeout := or_default (5 * Second) (ro_DialTimeout op),
                   ro_ReadTimeout := or_default (3 * Second) (ro_ReadTimeout op),
                   ro_WriteTimeout := or_default (3 * Second) (ro_WriteTimeout op)\<rparr>))"

definition newStandaloneOptions :: "standalone_option \<Rightarrow> gerr + standalone_option" where
  "newStandaloneOptions op =
     (if so_Addr op = [] then Inl (errors_New ''lock: StandaloneRedisOption.Addr must not be empty'')
      else Inr (op\<lparr>so_PoolSize := or_default 10 (so_PoolSize op),
                   so_DialTimeout := or_default (5 * Second) (so_DialTimeout op),
                   so_ReadTimeout := or_default (3 * Second) (so_ReadTimeout op),
                   so_WriteTimeout := or_default (3 * Second) (so_WriteTimeout op)\<rparr>))"

text \<open>A \<^verbatim>\<open>redisClient\<close>: the redsync instance over a pool, and the connection it closes.\<close>

record 'h redis_client =
  rc_rs :: 'h
  closer :: "'h option"

definition NewRedisClient :: "('s, 'h) redis_api \<Rightarrow> redis_option \<Rightarrow> ('s, gerr + 'h redis_client) state" where
  "NewRedisClient A op =
     (case newClusterOptions op of
        Inl e \<Rightarrow> State_Monad.return (Inl e)
      | Inr cl \<Rightarrow> do {
          h \<leftarrow> NewClusterClient A cl;
          e \<leftarrow> Ping A (ro_DialTimeout cl) h;
          case e of
            Some err \<Rightarrow> do {
              _ \<leftarrow> CloseClient A h;
              State_Monad.return (Inl (wrap_err ''lock: redis cluster unreachable'' err))
            }
          | None \<Rightarrow> State_Monad.return (Inr \<lparr>rc_rs = h, closer = Some h\<rparr>)
        })"

definition NewStandaloneRedisClient ::
  "('s, 'h) redis_api \<Rightarrow> standalone_option \<Rightarrow> ('s, gerr + 'h redis_client) state" where
  "NewStandaloneRedisClient A op =
     (case newStandaloneOptions op of
        Inl e \<Rightarrow> State_Monad.return (Inl e)
      | Inr ro \<Rightarrow> do {
          h \<leftarrow> NewClient A ro;
          e \<leftarrow> Ping A (so_DialTimeout ro) h;
          case e of
            Some err \<Rightarrow> do {
              _ \<leftarrow> CloseClient A h;
              State_Monad.return (Inl (wrap_err ''lock: redis unreachable'' err))
            }
          | None \<Rightarrow> State_Monad.return (Inr \<lparr>rc_rs = h, closer = Some h\<rparr>)
        })"

definition Close :: "('s, 'h) redis_api \<Rightarrow> 'h redis_client \<Rightarrow> ('s, gerr option) state" where
  "Close A c = (case closer c of Some h \<Rightarrow> CloseClient A h | None \<Rightarrow> State_Monad.return None)"

section \<open>Locks\<close>

text \<open>
  redsync: options of a mutex, and the calls of the interface \<^verbatim>\<open>redisMutex\<close> on a handle of type
  \<open>'m\<close>; the token of a mutex is part of the state \<open>'s\<close>. \<open>Err_of\<close> is \<^verbatim>\<open>ctx.Err()\<close>, which may change
  while a call blocks, so it reads the state.
\<close>

datatype rs_option =
    WithExpiry int
  | WithTries int
  | WithRetryDelayFunc "int \<Rightarrow> (int \<Rightarrow> int) \<Rightarrow> string + int"

record ('s, 'h, 'm, 'c) redsync =
  NewMutex :: "'h \<Rightarrow> string \<Rightarrow> rs_option list \<Rightarrow> ('s, 'm) state"
  MutexName :: "'m \<Rightarrow> string"
  LockContext :: "'m \<Rightarrow> 'c \<Rightarrow> ('s, gerr option) state"
  UnlockContext :: "'m \<Rightarrow> 'c \<Rightarrow> ('s, bool \<times> gerr option) state"
  ExtendContext :: "'m \<Rightarrow> 'c \<Rightarrow> ('s, bool \<times> gerr option) state"
  Err_of :: "'c \<Rightarrow> 's \<Rightarrow> gerr option"
  Background :: 'c

text \<open>
  The wait between two attempts. \<open>rnd n\<close> is the number \<^verbatim>\<open>rand.Int63n(n)\<close> draws; the call panics for
  \<open>n \<le> 0\<close>, which is the left result. The parameter \<open>tries\<close> is not used, as in the code.
\<close>

definition retryDelay :: "lock_option \<Rightarrow> int \<Rightarrow> (int \<Rightarrow> int) \<Rightarrow> string + int" where
  "retryDelay op tries rnd =
     (let n = RetryDelay op sdiv 2
      in if n \<le> 0 then Inl ''invalid argument to Int63n'' else Inr (wrap64 (RetryDelay op + rnd n)))"

text \<open>
  A \<^verbatim>\<open>redisLock\<close>: the current mutex, the interval of the running watchdog if there is one, the
  options and the redsync instance. The field \<^verbatim>\<open>muMu\<close> and the goroutine of the watchdog are in
  theory Lock_Watchdog.
\<close>

record ('h, 'm) redis_lock =
  mu :: 'm
  wd :: "int option"
  lopt :: lock_option
  lrs :: 'h

definition New ::
  "('s, 'h, 'm, 'c) redsync \<Rightarrow> 'h redis_client \<Rightarrow> string \<Rightarrow> (lock_option \<Rightarrow> lock_option) list
    \<Rightarrow> ('s, ('h, 'm) redis_lock) state" where
  "New L c name opts =
     (let op = fold (\<lambda>f. f) opts defaultLockOption
      in do {
        m \<leftarrow> NewMutex L (rc_rs c) name
          [WithExpiry (TTL op), WithTries (RetryCount op), WithRetryDelayFunc (retryDelay op)];
        State_Monad.return \<lparr>mu = m, wd = None, lopt = op, lrs = rc_rs c\<rparr>
      })"

definition watchdogInterval :: "int \<Rightarrow> int" where
  "watchdogInterval ttl =
     (if 0 < ttl sdiv 3 then ttl sdiv 3
      else if 0 < ttl sdiv 2 then ttl sdiv 2
      else if 0 < ttl then ttl
      else Millisecond)"

text \<open>A running watchdog is stopped and replaced.\<close>

definition startWatchdog :: "('h, 'm) redis_lock \<Rightarrow> ('h, 'm) redis_lock" where
  "startWatchdog l =
     (if \<not> EnableWatchdog (lopt l) then l else l\<lparr>wd := Some (watchdogInterval (TTL (lopt l)))\<rparr>)"

definition Acquire ::
  "('s, 'h, 'm, 'c) redsync \<Rightarrow> 'c \<Rightarrow> ('h, 'm) redis_lock
    \<Rightarrow> ('s, gerr option \<times> ('h, 'm) redis_lock) state" where
  "Acquire L ctx l = do {
     e \<leftarrow> LockContext L (mu l) ctx;
     case e of
       Some _ \<Rightarrow> do {
         ce \<leftarrow> reads (Err_of L ctx);
         State_Monad.return (case ce of Some err \<Rightarrow> Some err | None \<Rightarrow> Some errNotAcquired, l)
       }
     | None \<Rightarrow> State_Monad.return (None, startWatchdog l)
   }"

definition TryAcquire ::
  "('s, 'h, 'm, 'c) redsync \<Rightarrow> 'c \<Rightarrow> ('h, 'm) redis_lock
    \<Rightarrow> ('s, gerr option \<times> ('h, 'm) redis_lock) state" where
  "TryAcquire L ctx l = do {
     tempMu \<leftarrow> NewMutex L (lrs l) (MutexName L (mu l)) [WithTries 1, WithExpiry (TTL (lopt l))];
     e \<leftarrow> LockContext L tempMu ctx;
     State_Monad.return
       (case e of Some _ \<Rightarrow> (Some errNotAcquired, l)
        | None \<Rightarrow> (None, startWatchdog (l\<lparr>mu := tempMu\<rparr>)))
   }"

text \<open>The verdict of \<^verbatim>\<open>Release\<close> and \<^verbatim>\<open>Renew\<close>: which errors of redsync mean an expired lease.\<close>

definition expired_or :: "sentinel \<Rightarrow> bool \<times> gerr option \<Rightarrow> gerr option" where
  "expired_or gone r =
     (case r of
        (_, Some err) \<Rightarrow>
          (if errors_Is err gone \<or> errors_Is err redsync_ErrTaken then Some errLockExpired else Some err)
      | (ok, None) \<Rightarrow> (if \<not> ok then Some errLockExpired else None))"

definition Release ::
  "('s, 'h, 'm, 'c) redsync \<Rightarrow> 'c \<Rightarrow> ('h, 'm) redis_lock
    \<Rightarrow> ('s, gerr option \<times> ('h, 'm) redis_lock) state" where
  "Release L ctx l = do {
     r \<leftarrow> UnlockContext L (mu l) ctx;
     State_Monad.return (expired_or redsync_ErrLockAlreadyExpired r, l\<lparr>wd := None\<rparr>)
   }"

definition Renew ::
  "('s, 'h, 'm, 'c) redsync \<Rightarrow> 'c \<Rightarrow> ('h, 'm) redis_lock \<Rightarrow> ('s, gerr option) state" where
  "Renew L ctx l = do {
     r \<leftarrow> ExtendContext L (mu l) ctx;
     State_Monad.return (expired_or redsync_ErrExtendFailed r)
   }"

definition Name :: "('s, 'h, 'm, 'c) redsync \<Rightarrow> ('h, 'm) redis_lock \<Rightarrow> string" where
  "Name L l = MutexName L (mu l)"

text \<open>One round of the loop of \<^verbatim>\<open>newWatchdog\<close> whose timer fired: the error is only logged.\<close>

definition watchdog_tick ::
  "('s, 'h, 'm, 'c) redsync \<Rightarrow> ('h, 'm) redis_lock \<Rightarrow> ('s, gerr option) state" where
  "watchdog_tick L l = Renew L (Background L) l"

section \<open>Facts\<close>

lemma sdiv_pos [simp]: "0 \<le> (a :: int) \<Longrightarrow> 0 < b \<Longrightarrow> a sdiv b = a div b"
  by (simp add: signed_divide_int_def sgn_if)

lemma sdiv_nonpos: "(a :: int) \<le> 0 \<Longrightarrow> 0 < b \<Longrightarrow> a sdiv b \<le> 0"
  by (auto simp: signed_divide_int_def sgn_if pos_imp_zdiv_nonneg_iff)

lemma startWatchdog_simps [simp]:
  "mu (startWatchdog l) = mu l" "lopt (startWatchdog l) = lopt l" "lrs (startWatchdog l) = lrs l"
  by (simp_all add: startWatchdog_def)

lemma watchdogInterval_pos: "0 < watchdogInterval ttl"
  by (simp add: watchdogInterval_def Millisecond_def)

lemma watchdogInterval_third:
  assumes "3 \<le> ttl"
  shows "3 * watchdogInterval ttl \<le> ttl" and "ttl < 3 * watchdogInterval ttl + 3"
  using assms by (auto simp: watchdogInterval_def)

end
