(* ===== verification/Lock_Service.thy ===== *)
theory Lock_Service
  imports Lock_Client
begin

text \<open>
  What the lock SDK promises, over what it relies on. The Redis keys as redsync uses them are
  observed through a \<open>lease_view\<close>; \<open>lease_service\<close> states redsync's documented behaviour. Any number
  of lock instances, on any number of nodes, run interleaved (\<open>lock_step\<close>).
\<close>

section \<open>The service\<close>

text \<open>
  \<open>lease V s n\<close>: the mutex whose token the key \<open>n\<close> holds and the time the key expires;
  \<open>known V s\<close>: the mutexes created so far; \<open>mutex_ttl V m\<close>: the expiry \<open>m\<close> was created with.
\<close>

record ('s, 'm) lease_view =
  lease :: "'s \<Rightarrow> string \<Rightarrow> ('m \<times> int) option"
  clock :: "'s \<Rightarrow> int"
  known :: "'s \<Rightarrow> 'm set"
  mutex_ttl :: "'m \<Rightarrow> int"

definition forward :: "('s, 'm) lease_view \<Rightarrow> 's \<Rightarrow> 's \<Rightarrow> bool" where
  "forward V s s' \<longleftrightarrow> clock V s \<le> clock V s' \<and> known V s \<subseteq> known V s'"

text \<open>A key that has not expired is still there, unless it belongs to the mutex \<open>x\<close>.\<close>

definition survive :: "('s, 'm) lease_view \<Rightarrow> 'm option \<Rightarrow> 's \<Rightarrow> 's \<Rightarrow> bool" where
  "survive V x s s' \<longleftrightarrow>
     (\<forall>n m e. lease V s n = Some (m, e) \<longrightarrow> clock V s' < e \<longrightarrow> x \<noteq> Some m \<longrightarrow> lease V s' n = Some (m, e))"

text \<open>
  Time passes: keys expire, free ones may be set. Releases and renewals are calls of the instances, steps of their own.
\<close>

definition elapse :: "('s, 'm) lease_view \<Rightarrow> 's \<Rightarrow> 's \<Rightarrow> bool" where
  "elapse V s s' \<longleftrightarrow> forward V s s' \<and> survive V None s s'"

definition transport_error :: "gerr option \<Rightarrow> bool" where
  "transport_error e \<longleftrightarrow> (\<exists>err. e = Some err \<and> \<not> errors_Is err redsync_ErrLockAlreadyExpired \<and>
     \<not> errors_Is err redsync_ErrExtendFailed \<and> \<not> errors_Is err redsync_ErrTaken)"

text \<open>
  The laws of the four calls. An \<^verbatim>\<open>Acquire\<close> that waits for another node's Release is the call made at its
  last attempt: the attempts before it change nothing of its state, and the calls of others in between are steps
  before it.
\<close>

definition new_mutex_law :: "('s, 'h, 'm, 'c) redsync \<Rightarrow> ('s, 'm) lease_view \<Rightarrow> bool" where
  "new_mutex_law L V \<longleftrightarrow>
     (\<forall>h n os s m s'. run_state (NewMutex L h n os) s = (m, s') \<longrightarrow>
        MutexName L m = n \<and> m \<notin> known V s \<and> m \<in> known V s' \<and> elapse V s s' \<and>
        (\<forall>d. WithExpiry d \<in> set os \<longrightarrow> (\<forall>d'. WithExpiry d' \<in> set os \<longrightarrow> d' = d) \<longrightarrow> mutex_ttl V m = d))"

definition lock_law :: "('s, 'h, 'm, 'c) redsync \<Rightarrow> ('s, 'm) lease_view \<Rightarrow> bool" where
  "lock_law L V \<longleftrightarrow>
     (\<forall>m c s e s'. m \<in> known V s \<longrightarrow> run_state (LockContext L m c) s = (e, s') \<longrightarrow>
        elapse V s s' \<and>
        (e = None \<longrightarrow>
           (\<exists>x. lease V s' (MutexName L m) = Some (m, x) \<and> clock V s' < x) \<and>
           (\<forall>m0 e0. lease V s (MutexName L m) = Some (m0, e0) \<longrightarrow> e0 \<le> clock V s')))"

definition unlock_law :: "('s, 'h, 'm, 'c) redsync \<Rightarrow> ('s, 'm) lease_view \<Rightarrow> bool" where
  "unlock_law L V \<longleftrightarrow>
     (\<forall>m c s ok e s'. m \<in> known V s \<longrightarrow> run_state (UnlockContext L m c) s = ((ok, e), s') \<longrightarrow>
        forward V s s' \<and> survive V (Some m) s s' \<and>
        (ok \<and> e = None \<longrightarrow>
           (\<exists>e0. lease V s (MutexName L m) = Some (m, e0)) \<and>
           (\<forall>x. lease V s' (MutexName L m) \<noteq> Some (m, x))) \<and>
        (\<forall>e0. lease V s (MutexName L m) = Some (m, e0) \<longrightarrow> clock V s' < e0 \<longrightarrow>
           (ok \<and> e = None) \<or> transport_error e))"

definition extend_law :: "('s, 'h, 'm, 'c) redsync \<Rightarrow> ('s, 'm) lease_view \<Rightarrow> bool" where
  "extend_law L V \<longleftrightarrow>
     (\<forall>m c s ok e s'. m \<in> known V s \<longrightarrow> run_state (ExtendContext L m c) s = ((ok, e), s') \<longrightarrow>
        forward V s s' \<and> survive V (Some m) s s' \<and>
        (\<forall>n e0. lease V s n = Some (m, e0) \<longrightarrow> clock V s' < e0 \<longrightarrow>
           (\<exists>e1 \<ge> e0. lease V s' n = Some (m, e1))) \<and>
        (ok \<and> e = None \<longrightarrow>
           (\<exists>e0. lease V s (MutexName L m) = Some (m, e0)) \<and>
           (\<exists>e1 \<ge> clock V s + mutex_ttl V m. lease V s' (MutexName L m) = Some (m, e1))) \<and>
        (\<forall>e0. lease V s (MutexName L m) = Some (m, e0) \<longrightarrow> clock V s' < e0 \<longrightarrow>
           (ok \<and> e = None) \<or> transport_error e))"

definition lease_service :: "('s, 'h, 'm, 'c) redsync \<Rightarrow> ('s, 'm) lease_view \<Rightarrow> bool" where
  "lease_service L V \<longleftrightarrow> new_mutex_law L V \<and> lock_law L V \<and> unlock_law L V \<and> extend_law L V"

section \<open>Lock instances\<close>

datatype 'c lock_op = OpAcquire 'c | OpTryAcquire 'c | OpRelease 'c | OpRenew 'c | OpTick

fun lock_call ::
  "('s, 'h, 'm, 'c) redsync \<Rightarrow> 'c lock_op \<Rightarrow> ('h, 'm) redis_lock
    \<Rightarrow> ('s, gerr option \<times> ('h, 'm) redis_lock) state" where
  "lock_call L (OpAcquire c) l = Acquire L c l"
| "lock_call L (OpTryAcquire c) l = TryAcquire L c l"
| "lock_call L (OpRelease c) l = Release L c l"
| "lock_call L (OpRenew c) l = do { e \<leftarrow> Renew L c l; State_Monad.return (e, l) }"
| "lock_call L OpTick l = do { e \<leftarrow> watchdog_tick L l; State_Monad.return (e, l) }"

record ('s, 'h, 'm) lock_world =
  svc :: 's
  insts :: "nat \<Rightarrow> ('h, 'm) redis_lock option"

datatype 'c lock_event = Made nat | Called nat "'c lock_op" "gerr option" | Elapsed

inductive lock_step ::
  "('s, 'h, 'm, 'c) redsync \<Rightarrow> ('s, 'm) lease_view \<Rightarrow> ('s, 'h, 'm) lock_world
    \<Rightarrow> 'c lock_event \<Rightarrow> ('s, 'h, 'm) lock_world \<Rightarrow> bool"
  for L V where
  make: "insts w i = None \<Longrightarrow> run_state (New L cl name opts) (svc w) = (l, s)
    \<Longrightarrow> lock_step L V w (Made i) \<lparr>svc = s, insts = (insts w)(i \<mapsto> l)\<rparr>"
| call: "insts w i = Some l \<Longrightarrow> (oper = OpTick \<longrightarrow> wd l \<noteq> None)
    \<Longrightarrow> run_state (lock_call L oper l) (svc w) = ((r, l'), s)
    \<Longrightarrow> lock_step L V w (Called i oper r) \<lparr>svc = s, insts = (insts w)(i \<mapsto> l')\<rparr>"
| elapsed: "elapse V (svc w) s \<Longrightarrow> lock_step L V w Elapsed (w\<lparr>svc := s\<rparr>)"

inductive lock_reachable ::
  "('s, 'h, 'm, 'c) redsync \<Rightarrow> ('s, 'm) lease_view \<Rightarrow> ('s, 'h, 'm) lock_world \<Rightarrow> bool"
  for L V where
  start: "lock_reachable L V \<lparr>svc = s, insts = (\<lambda>_. None)\<rparr>"
| step: "lock_reachable L V w \<Longrightarrow> lock_step L V w ev w' \<Longrightarrow> lock_reachable L V w'"

text \<open>The instance \<open>l\<close> owns its key until \<open>e\<close>; it holds the lock now.\<close>

definition owns :: "('s, 'h, 'm, 'c) redsync \<Rightarrow> ('s, 'm) lease_view \<Rightarrow> 's \<Rightarrow> ('h, 'm) redis_lock \<Rightarrow> int \<Rightarrow> bool" where
  "owns L V s l e \<longleftrightarrow> lease V s (Name L l) = Some (mu l, e)"

definition holds :: "('s, 'h, 'm, 'c) redsync \<Rightarrow> ('s, 'm) lease_view \<Rightarrow> 's \<Rightarrow> ('h, 'm) redis_lock \<Rightarrow> bool" where
  "holds L V s l \<longleftrightarrow> (\<exists>e. owns L V s l e \<and> clock V s < e)"

section \<open>What one call does\<close>

lemma survive_None: "survive V None s s' \<Longrightarrow> survive V x s s'"
  by (simp add: survive_def)

lemma elapse_forward: "elapse V s s' \<Longrightarrow> forward V s s'"
  by (simp add: elapse_def)

lemma forward_trans: "forward V s t \<Longrightarrow> forward V t u \<Longrightarrow> forward V s u"
  by (force simp: forward_def)

lemma elapse_trans: "elapse V s t \<Longrightarrow> elapse V t u \<Longrightarrow> elapse V s u"
  by (force simp: elapse_def forward_def survive_def)

definition is_release :: "'c lock_op \<Rightarrow> bool" where
  "is_release oper \<longleftrightarrow> (\<exists>c. oper = OpRelease c)"

text \<open>
  No call changes the name or the options of its lock. Only a successful \<^verbatim>\<open>TryAcquire\<close> changes the
  mutex, to a new one; then the lease of the old one, if any, has expired.
\<close>

definition call_effect ::
  "('s, 'h, 'm, 'c) redsync \<Rightarrow> ('s, 'm) lease_view \<Rightarrow> bool \<Rightarrow> ('h, 'm) redis_lock \<Rightarrow> 's
    \<Rightarrow> ('h, 'm) redis_lock \<Rightarrow> 's \<Rightarrow> bool" where
  "call_effect L V rel l s l' s' \<longleftrightarrow>
     forward V s s' \<and> Name L l' = Name L l \<and> lopt l' = lopt l \<and>
     mu l' \<in> known V s' \<and>
     (mu l' \<noteq> mu l \<longrightarrow> mu l' \<notin> known V s \<and> mutex_ttl V (mu l') = TTL (lopt l) \<and>
        (\<forall>e. lease V s (Name L l) = Some (mu l, e) \<longrightarrow> e \<le> clock V s')) \<and>
     (\<forall>n m e. lease V s n = Some (m, e) \<longrightarrow> clock V s' < e \<longrightarrow> \<not> (rel \<and> m = mu l) \<longrightarrow>
        (\<exists>e' \<ge> e. lease V s' n = Some (m, e')))"

lemma call_effect_same:
  assumes "forward V s s'" "mu l \<in> known V s" "mu l' = mu l" "lopt l' = lopt l"
    and "\<And>n m e. lease V s n = Some (m, e) \<Longrightarrow> clock V s' < e \<Longrightarrow> \<not> (rel \<and> m = mu l)
      \<Longrightarrow> \<exists>e' \<ge> e. lease V s' n = Some (m, e')"
  shows "call_effect L V rel l s l' s'"
  using assms by (auto simp: call_effect_def Name_def forward_def)

lemma survive_keeps:
  "survive V x s s' \<Longrightarrow> lease V s n = Some (m, e) \<Longrightarrow> clock V s' < e \<Longrightarrow> x \<noteq> Some m
    \<Longrightarrow> \<exists>e' \<ge> e. lease V s' n = Some (m, e')"
  by (auto simp: survive_def)

lemma new_mutex:
  assumes service: "lease_service L V" and "run_state (NewMutex L h n os) s = (m, s')"
  shows "MutexName L m = n" "m \<notin> known V s" "m \<in> known V s'" "elapse V s s'"
    and "WithExpiry d \<in> set os \<Longrightarrow> (\<And>d'. WithExpiry d' \<in> set os \<Longrightarrow> d' = d) \<Longrightarrow> mutex_ttl V m = d"
  using assms unfolding lease_service_def new_mutex_law_def by blast+

lemma lock_context:
  assumes service: "lease_service L V" and "run_state (LockContext L m c) s = (e, s')" "m \<in> known V s"
  shows "elapse V s s'"
    and "e = None \<Longrightarrow> \<exists>x. lease V s' (MutexName L m) = Some (m, x) \<and> clock V s' < x"
    and "e = None \<Longrightarrow> lease V s (MutexName L m) = Some (m0, e0) \<Longrightarrow> e0 \<le> clock V s'"
  using assms unfolding lease_service_def lock_law_def by blast+

lemma unlock_context:
  assumes service: "lease_service L V" and "run_state (UnlockContext L m c) s = ((ok, e), s')" "m \<in> known V s"
  shows "forward V s s'" "survive V (Some m) s s'"
    and "ok \<Longrightarrow> e = None \<Longrightarrow> \<exists>e0. lease V s (MutexName L m) = Some (m, e0)"
    and "ok \<Longrightarrow> e = None \<Longrightarrow> lease V s' (MutexName L m) \<noteq> Some (m, x)"
    and "lease V s (MutexName L m) = Some (m, e0) \<Longrightarrow> clock V s' < e0 \<Longrightarrow> (ok \<and> e = None) \<or> transport_error e"
  using assms unfolding lease_service_def unlock_law_def by blast+

lemma extend_context:
  assumes service: "lease_service L V" and "run_state (ExtendContext L m c) s = ((ok, e), s')" "m \<in> known V s"
  shows "forward V s s'" "survive V (Some m) s s'"
    and "lease V s n = Some (m, e0) \<Longrightarrow> clock V s' < e0 \<Longrightarrow> \<exists>e1 \<ge> e0. lease V s' n = Some (m, e1)"
    and "ok \<Longrightarrow> e = None \<Longrightarrow> \<exists>e1 \<ge> clock V s + mutex_ttl V m. lease V s' (MutexName L m) = Some (m, e1)"
    and "ok \<Longrightarrow> e = None \<Longrightarrow> \<exists>e0. lease V s (MutexName L m) = Some (m, e0)"
    and "lease V s (MutexName L m) = Some (m, e0) \<Longrightarrow> clock V s' < e0 \<Longrightarrow> (ok \<and> e = None) \<or> transport_error e"
  using assms unfolding lease_service_def extend_law_def by blast+

lemma Acquire_effect:
  assumes service: "lease_service L V" and run: "run_state (Acquire L c l) s = ((r, l'), s')" and k: "mu l \<in> known V s"
  shows "call_effect L V rel l s l' s'"
proof -
  obtain e where e: "run_state (LockContext L (mu l) c) s = (e, s')" and l: "mu l' = mu l" "lopt l' = lopt l"
    using run by (auto simp: Acquire_def split: prod.splits option.splits)
  from lock_context(1) [OF service e k] have el: "forward V s s'" "survive V None s s'"
    by (simp_all add: elapse_def)
  show ?thesis
    by (rule call_effect_same [OF el(1) k l]) (rule survive_keeps [OF el(2)], simp_all)
qed

lemma TryAcquire_effect:
  assumes service: "lease_service L V" and run: "run_state (TryAcquire L c l) s = ((r, l'), s')" and k: "mu l \<in> known V s"
  shows "call_effect L V rel l s l' s'"
proof -
  obtain m s1 e where m: "run_state (NewMutex L (lrs l) (Name L l) [WithTries 1, WithExpiry (TTL (lopt l))]) s = (m, s1)"
    and e: "run_state (LockContext L m c) s1 = (e, s')"
    and l': "l' = (if e = None then startWatchdog (l\<lparr>mu := m\<rparr>) else l)"
    using run by (auto simp: TryAcquire_def Name_def split: prod.splits option.splits)
  note m' = new_mutex [OF service m]
  note e' = lock_context [OF service e m'(3)]
  from elapse_trans [OF m'(4) e'(1)] have el: "elapse V s s'" .
  have gone: "x \<le> clock V s'" if "e = None" "lease V s (Name L l) = Some (mu l, x)" for x
  proof (rule ccontr)
    assume "\<not> x \<le> clock V s'"
    with m'(4) e'(1) that have "lease V s1 (Name L l) = Some (mu l, x)"
      by (auto simp: elapse_def survive_def forward_def)
    with e'(3) that m'(1) have "x \<le> clock V s'" by simp
    with \<open>\<not> x \<le> clock V s'\<close> show False by simp
  qed
  have ttl: "mutex_ttl V m = TTL (lopt l)" by (rule m'(5)) simp_all
  have keep: "\<exists>e' \<ge> e. lease V s' n = Some (m0, e')"
    if "lease V s n = Some (m0, e)" "clock V s' < e" for n m0 e
    using el that by (auto simp: elapse_def survive_def)
  have known: "m \<in> known V s'" "mu l \<in> known V s'"
    using e'(1) el m'(3) k by (auto simp: elapse_def forward_def)
  show ?thesis
    unfolding call_effect_def
  proof (intro conjI)
    show "forward V s s'" using el by (rule elapse_forward)
    show "Name L l' = Name L l" using m'(1) by (simp add: l' Name_def)
    show "mu l' \<in> known V s'" using known by (simp add: l')
  qed (use ttl m'(2) gone keep in \<open>auto simp: l'\<close>)
qed

lemma Release_effect:
  assumes service: "lease_service L V" and run: "run_state (Release L c l) s = ((r, l'), s')" and k: "mu l \<in> known V s"
  shows "call_effect L V True l s l' s'"
proof -
  obtain ok e where e: "run_state (UnlockContext L (mu l) c) s = ((ok, e), s')" and l: "l' = l\<lparr>wd := None\<rparr>"
    using run by (auto simp: Release_def split: prod.splits)
  note u = unlock_context(1,2) [OF service e k]
  show ?thesis
    by (rule call_effect_same [OF u(1) k])
      (simp_all add: l, rule survive_keeps [OF u(2)], simp_all)
qed

lemma Renew_effect:
  assumes service: "lease_service L V" and run: "run_state (Renew L c l) s = (r, s')" and k: "mu l \<in> known V s"
  shows "call_effect L V rel l s l s'"
proof -
  obtain ok e where e: "run_state (ExtendContext L (mu l) c) s = ((ok, e), s')"
    using run by (auto simp: Renew_def split: prod.splits)
  note x = extend_context [OF service e k]
  have "\<exists>e' \<ge> e0. lease V s' n = Some (m, e')"
    if "lease V s n = Some (m, e0)" "clock V s' < e0" for n m e0
    using x(2) x(3) [of n e0] that by (cases "m = mu l") (auto simp: survive_def)
  then show ?thesis
    by (intro call_effect_same [OF x(1) k]) simp_all
qed

lemma lock_call_effect:
  assumes service: "lease_service L V" and "run_state (lock_call L oper l) s = ((r, l'), s')" "mu l \<in> known V s"
  shows "call_effect L V (is_release oper) l s l' s'"
  using assms
  by (cases oper) (auto simp: is_release_def watchdog_tick_def split: prod.splits
      intro: Acquire_effect TryAcquire_effect Release_effect Renew_effect)

section \<open>Interleaved lock instances\<close>

text \<open>
  No two instances share a mutex, and the expiry of a mutex is the TTL option of its lock.
\<close>

definition separate :: "('s, 'm) lease_view \<Rightarrow> ('s, 'h, 'm) lock_world \<Rightarrow> bool" where
  "separate V w \<longleftrightarrow>
     (\<forall>i a. insts w i = Some a \<longrightarrow> mu a \<in> known V (svc w) \<and> mutex_ttl V (mu a) = TTL (lopt a)) \<and>
     (\<forall>i j a b. insts w i = Some a \<longrightarrow> insts w j = Some b \<longrightarrow> mu a = mu b \<longrightarrow> i = j)"

lemma separateD:
  assumes "separate V w" "insts w i = Some a"
  shows "mu a \<in> known V (svc w)" "mutex_ttl V (mu a) = TTL (lopt a)"
    and "insts w j = Some b \<Longrightarrow> mu a = mu b \<Longrightarrow> i = j"
  using assms unfolding separate_def by blast+

text \<open>The state after one instance has been set to \<open>l\<close>, whose mutex is its old one or new.\<close>

lemma separate_update:
  assumes sep: "separate V w" and fwd: "forward V (svc w) s"
    and l: "mu l \<in> known V s" "mutex_ttl V (mu l) = TTL (lopt l)"
    and fresh: "mu l \<notin> known V (svc w) \<or> (\<exists>a. insts w i = Some a \<and> mu a = mu l)"
  shows "separate V \<lparr>svc = s, insts = (insts w)(i \<mapsto> l)\<rparr>"
proof -
  have other: "mu b \<noteq> mu l" if "insts w j = Some b" "j \<noteq> i" for j b
    using fresh separateD [OF sep that(1)] separateD(3) [OF sep] that by metis
  show ?thesis
    unfolding separate_def
  proof (intro conjI allI impI)
    fix j b
    assume b: "insts \<lparr>svc = s, insts = (insts w)(i \<mapsto> l)\<rparr> j = Some b"
    show "mu b \<in> known V (svc \<lparr>svc = s, insts = (insts w)(i \<mapsto> l)\<rparr>)"
      and "mutex_ttl V (mu b) = TTL (lopt b)"
      using b l fwd separateD(1,2) [OF sep] by (auto simp: forward_def split: if_splits)
  next
    fix j k a b
    assume "insts \<lparr>svc = s, insts = (insts w)(i \<mapsto> l)\<rparr> j = Some a"
      "insts \<lparr>svc = s, insts = (insts w)(i \<mapsto> l)\<rparr> k = Some b" "mu a = mu b"
    then show "j = k"
      using other separateD(3) [OF sep] by (auto split: if_splits)
  qed
qed

lemma New_effect:
  assumes service: "lease_service L V" and "run_state (New L cl name opts) s = (l, s')"
  shows "elapse V s s'" "mu l \<in> known V s'" "mu l \<notin> known V s" "mutex_ttl V (mu l) = TTL (lopt l)"
    and "Name L l = name" "wd l = None"
proof -
  define op where "op = fold (\<lambda>f. f) opts defaultLockOption"
  obtain m where m: "run_state (NewMutex L (rc_rs cl) name
        [WithExpiry (TTL op), WithTries (RetryCount op), WithRetryDelayFunc (retryDelay op)]) s = (m, s')"
    and l: "l = \<lparr>mu = m, wd = None, lopt = op, lrs = rc_rs cl\<rparr>"
    using assms(2) by (auto simp: New_def Let_def op_def split: prod.splits)
  note m' = new_mutex [OF service m]
  show "elapse V s s'" "mu l \<in> known V s'" "mu l \<notin> known V s" "Name L l = name" "wd l = None"
    using m' by (simp_all add: l Name_def)
  show "mutex_ttl V (mu l) = TTL (lopt l)"
    using m'(5) [of "TTL op"] by (simp add: l)
qed

lemma step_separate:
  assumes service: "lease_service L V" and step: "lock_step L V w ev w'" and sep: "separate V w"
  shows "separate V w'"
  using step
proof cases
  case (make i cl name opts l s)
  note n = New_effect [OF service make(4)]
  show ?thesis
    unfolding make(2) by (rule separate_update [OF sep elapse_forward [OF n(1)] n(2,4)]) (simp add: n(3))
next
  case (call i l oper r l' s)
  note k = separateD [OF sep call(3)]
  from lock_call_effect [OF service call(5) k(1)]
  have e: "call_effect L V (is_release oper) l (svc w) l' s" .
  show ?thesis
    unfolding call(2)
  proof (rule separate_update [OF sep])
    show "forward V (svc w) s" "mu l' \<in> known V s" using e by (simp_all add: call_effect_def)
    show "mutex_ttl V (mu l') = TTL (lopt l')" using e k(2) by (auto simp: call_effect_def)
    show "mu l' \<notin> known V (svc w) \<or> (\<exists>a. insts w i = Some a \<and> mu a = mu l')"
      using e call(3) by (auto simp: call_effect_def)
  qed
next
  case (elapsed s)
  with sep show ?thesis by (auto simp: separate_def elapse_def forward_def)
qed

lemma reachable_separate:
  assumes service: "lease_service L V" and "lock_reachable L V w"
  shows "separate V w"
  using assms(2)
proof induction
  case (start s)
  show ?case by (simp add: separate_def)
next
  case (step w ev w')
  then show ?case using step_separate [OF service] by blast
qed

lemma lease_protected:
  assumes service: "lease_service L V" and reach: "lock_reachable L V w" and step: "lock_step L V w ev w'"
    and a: "insts w j = Some a" "owns L V (svc w) a e" and live: "clock V (svc w') < e"
    and not_released: "\<nexists>c r. ev = Called j (OpRelease c) r"
  shows "\<exists>a' e'. insts w' j = Some a' \<and> mu a' = mu a \<and> owns L V (svc w') a' e' \<and> e \<le> e'"
  using step
proof cases
  case (make i cl name opts l s)
  from New_effect(1) [OF service make(4)] a live make show ?thesis
    by (auto simp: owns_def elapse_def survive_def)
next
  case (call i l oper r l' s)
  note sep = reachable_separate [OF service reach]
  from lock_call_effect [OF service call(5) separateD(1) [OF sep call(3)]]
  have eff: "call_effect L V (is_release oper) l (svc w) l' s" .
  have own: "lease V (svc w) (Name L a) = Some (mu a, e)" and alive: "clock V s < e"
    using a(2) live call(2) by (simp_all add: owns_def)
  have "\<not> (is_release oper \<and> mu a = mu l)"
    using separateD(3) [OF sep a(1) call(3)] not_released call(1) by (auto simp: is_release_def)
  with eff own alive obtain e' where e': "e \<le> e'" "lease V s (Name L a) = Some (mu a, e')"
    unfolding call_effect_def by blast
  show ?thesis
  proof (cases "i = j")
    case True
    with a(1) call(3) have "l = a" by simp
    with eff own alive have "mu l' = mu a" "Name L l' = Name L a"
      by (auto simp: call_effect_def)
    with e' True show ?thesis by (auto simp: call(2) owns_def)
  next
    case False
    with e' a(1) show ?thesis by (auto simp: call(2) owns_def)
  qed
next
  case (elapsed s)
  with a live show ?thesis by (auto simp: owns_def elapse_def survive_def)
qed

section \<open>Mutual exclusion\<close>

text \<open>The key \<open>n\<close> does not expire between the two states.\<close>

definition key_alive :: "('s, 'm) lease_view \<Rightarrow> string \<Rightarrow> 's \<Rightarrow> 's \<Rightarrow> bool" where
  "key_alive V n s s' \<longleftrightarrow> (\<exists>m e. lease V s n = Some (m, e) \<and> clock V s' < e)"

text \<open>
  Any steps of any instances after the world \<open>w1\<close>, in which the key never expires and the instance \<open>i\<close> does not call
  \<^verbatim>\<open>Release\<close>.
\<close>

inductive unreleased_run ::
  "('s, 'h, 'm, 'c) redsync \<Rightarrow> ('s, 'm) lease_view \<Rightarrow> string \<Rightarrow> nat \<Rightarrow> ('s, 'h, 'm) lock_world
    \<Rightarrow> ('s, 'h, 'm) lock_world \<Rightarrow> bool"
  for L V n i w1 where
  here: "unreleased_run L V n i w1 w1"
| onward: "unreleased_run L V n i w1 w \<Longrightarrow> lock_step L V w ev w' \<Longrightarrow> key_alive V n (svc w) (svc w')
    \<Longrightarrow> \<nexists>c r. ev = Called i (OpRelease c) r \<Longrightarrow> unreleased_run L V n i w1 w'"

definition acquires :: "'c lock_op \<Rightarrow> bool" where
  "acquires oper \<longleftrightarrow> (\<exists>c. oper = OpAcquire c \<or> oper = OpTryAcquire c)"

lemma acquire_nil:
  assumes service: "lease_service L V" and known: "mu l \<in> known V s" and acq: "acquires oper"
    and run: "run_state (lock_call L oper l) s = ((None, l'), s')"
  shows "holds L V s' l'" and "Name L l' = Name L l"
    and "lease V s (Name L l) = Some (m0, e0) \<Longrightarrow> e0 \<le> clock V s'"
proof -
  have "holds L V s' l' \<and> Name L l' = Name L l \<and> (\<forall>m0 e0. lease V s (Name L l) = Some (m0, e0) \<longrightarrow> e0 \<le> clock V s')"
  proof (cases "\<exists>c. oper = OpAcquire c")
    case True
    then obtain c where o: "oper = OpAcquire c" ..
    obtain e where x0: "run_state (LockContext L (mu l) c) s = (e, s')"
      and r: "(None, l') = (if e = None then (None, startWatchdog l)
        else (case Err_of L c s' of Some err \<Rightarrow> Some err | None \<Rightarrow> Some errNotAcquired, l))"
      using run by (auto simp: o Acquire_def split: prod.splits option.splits)
    from r have "e = None" and l': "l' = startWatchdog l" by (simp_all split: if_splits option.splits)
    with x0 have x: "run_state (LockContext L (mu l) c) s = (None, s')" by simp
    note lc = lock_context [OF service x known]
    have "e0 \<le> clock V s'" if "lease V s (Name L l) = Some (m0, e0)" for m0 e0
      using lc(3) that by (simp add: Name_def)
    then show ?thesis using lc(2) by (auto simp: l' holds_def owns_def Name_def)
  next
    case False
    then obtain c where o: "oper = OpTryAcquire c" using acq by (auto simp: acquires_def)
    obtain m s1 e where m: "run_state (NewMutex L (lrs l) (Name L l) [WithTries 1, WithExpiry (TTL (lopt l))]) s = (m, s1)"
      and x0: "run_state (LockContext L m c) s1 = (e, s')"
      and r: "(None, l') = (if e = None then (None, startWatchdog (l\<lparr>mu := m\<rparr>)) else (Some errNotAcquired, l))"
      using run by (auto simp: o TryAcquire_def Name_def split: prod.splits option.splits)
    from r have "e = None" and l': "l' = startWatchdog (l\<lparr>mu := m\<rparr>)" by (simp_all split: if_splits)
    with x0 have x: "run_state (LockContext L m c) s1 = (None, s')" by simp
    note nm = new_mutex [OF service m]
    note lc = lock_context [OF service x nm(3)]
    have "e0 \<le> clock V s'" if "lease V s (Name L l) = Some (m0, e0)" for m0 e0
    proof (rule ccontr)
      assume "\<not> e0 \<le> clock V s'"
      with nm(4) lc(1) that have "lease V s1 (Name L l) = Some (m0, e0)"
        by (auto simp: elapse_def survive_def forward_def)
      with lc(3) nm(1) \<open>\<not> e0 \<le> clock V s'\<close> show False by simp
    qed
    then show ?thesis using lc(2) nm(1) by (auto simp: l' holds_def owns_def Name_def)
  qed
  then show "holds L V s' l'" and "Name L l' = Name L l"
    and "lease V s (Name L l) = Some (m0, e0) \<Longrightarrow> e0 \<le> clock V s'" by blast+
qed

text \<open>What Release, Renew and the watchdog's renewal return on a key that has not expired.\<close>

lemma other_calls_result:
  assumes service: "lease_service L V" and known: "mu l \<in> known V s" and other: "\<not> acquires oper"
    and run: "run_state (lock_call L oper l) s = ((r, l'), s')"
    and key: "lease V s (Name L l) = Some (m, e)" "clock V s' < e"
  shows "m \<noteq> mu l \<Longrightarrow> r \<noteq> None"
    and "m = mu l \<Longrightarrow> r = None \<or> transport_error r"
    and "m = mu l \<Longrightarrow> oper = OpRelease c \<Longrightarrow> r = None \<Longrightarrow> lease V s' (Name L l) \<noteq> Some (m, x)"
proof -
  have "(m \<noteq> mu l \<longrightarrow> r \<noteq> None) \<and> (m = mu l \<longrightarrow> r = None \<or> transport_error r) \<and>
    (m = mu l \<longrightarrow> oper = OpRelease c \<longrightarrow> r = None \<longrightarrow> lease V s' (Name L l) \<noteq> Some (m, x))"
  proof (cases "is_release oper")
    case True
    then obtain d where o: "oper = OpRelease d" by (auto simp: is_release_def)
    obtain ok y where y: "run_state (UnlockContext L (mu l) d) s = ((ok, y), s')"
      and r: "r = expired_or redsync_ErrLockAlreadyExpired (ok, y)"
      using run by (auto simp: o Release_def split: prod.splits)
    note u = unlock_context [OF service y known]
    show ?thesis
      using u(3,4,5) key
      by (auto simp: r Name_def expired_or_def transport_error_def split: option.splits if_splits)
  next
    case False
    with other obtain d where "run_state (Renew L d l) s = (r, s')"
      using run by (cases oper) (auto simp: acquires_def is_release_def watchdog_tick_def split: prod.splits)
    then obtain ok y where y: "run_state (ExtendContext L (mu l) d) s = ((ok, y), s')"
      and r: "r = expired_or redsync_ErrExtendFailed (ok, y)"
      by (auto simp: Renew_def split: prod.splits)
    note u = extend_context [OF service y known]
    have "oper \<noteq> OpRelease c" using False by (auto simp: is_release_def)
    then show ?thesis
      using u(5,6) key
      by (auto simp: r Name_def expired_or_def transport_error_def split: option.splits if_splits)
  qed
  then show "m \<noteq> mu l \<Longrightarrow> r \<noteq> None" and "m = mu l \<Longrightarrow> r = None \<or> transport_error r"
    and "m = mu l \<Longrightarrow> oper = OpRelease c \<Longrightarrow> r = None \<Longrightarrow> lease V s' (Name L l) \<noteq> Some (m, x)" by blast+
qed

text \<open>After a successful acquisition the instance keeps the lock through every such run.\<close>

lemma run_keeps_lock:
  assumes service: "lease_service L V" and reach: "lock_reachable L V w1"
    and a: "insts w1 i = Some a" "Name L a = n" "holds L V (svc w1) a" and run: "unreleased_run L V n i w1 w"
  shows "lock_reachable L V w \<and> (\<exists>a'. insts w i = Some a' \<and> Name L a' = n \<and> holds L V (svc w) a')"
  using run
proof induction
  case here
  with reach a show ?case by blast
next
  case (onward w ev w')
  then obtain a' e where a': "lock_reachable L V w" "insts w i = Some a'" "Name L a' = n" "owns L V (svc w) a' e"
    by (auto simp: holds_def)
  then have live: "clock V (svc w') < e" using onward.hyps(3) by (auto simp: key_alive_def owns_def)
  from lease_protected [OF service a'(1) onward.hyps(2) a'(2,4) live onward.hyps(4)]
  obtain a2 e2 where a2: "insts w' i = Some a2" "mu a2 = mu a'" "owns L V (svc w') a2 e2" "e \<le> e2" by blast
  have "Name L a2 = n" using a2(2) a'(3) by (simp add: Name_def)
  with a2 live have "insts w' i = Some a2 \<and> Name L a2 = n \<and> holds L V (svc w') a2" by (auto simp: holds_def)
  then show ?case using lock_reachable.step [OF a'(1) onward.hyps(2)] by blast
qed

text \<open>
  C19. Mutual exclusion, in what the calls return. Once a call of Acquire or TryAcquire returned nil to an instance,
  and whatever any number of instances do then in any order - new locks, Acquire, TryAcquire, Release, Renew and the
  watchdogs -, as long as the key has not expired and that instance did not call Release: it holds the lock; no
  Acquire or TryAcquire of the name returns nil, to it or to another, and no Release or Renew of another; its own
  Release or Renew returns nil, or the error of the connection to Redis; and after a Release that returned nil the key
  does not carry its token any more.
\<close>

theorem lock_mutual_exclusion:
  assumes service: "lease_service L V" and reach: "lock_reachable L V w"
    and acquired: "lock_step L V w (Called i oper None) w1" "acquires oper" "insts w1 i = Some a"
    and run: "unreleased_run L V (Name L a) i w1 w2"
    and call: "lock_step L V w2 (Called j oper' r) w3" "key_alive V (Name L a) (svc w2) (svc w3)"
    and b: "insts w2 j = Some b" "Name L b = Name L a"
  shows "\<exists>a2. insts w2 i = Some a2 \<and> holds L V (svc w2) a2 \<and>
    (acquires oper' \<or> j \<noteq> i \<longrightarrow> r \<noteq> None) \<and>
    (\<not> acquires oper' \<and> j = i \<longrightarrow> r = None \<or> transport_error r) \<and>
    (j = i \<and> r = None \<and> (\<exists>c. oper' = OpRelease c) \<longrightarrow> (\<forall>e. \<not> owns L V (svc w3) a2 e))"
proof -
  have reach1: "lock_reachable L V w1" by (rule lock_reachable.step [OF reach acquired(1)])
  have a: "holds L V (svc w1) a"
    using acquired(1)
  proof cases
    case (call l l' s)
    from acquire_nil(1) [OF service separateD(1) [OF reachable_separate [OF service reach] call(2)] acquired(2) call(4)]
    show ?thesis using acquired(3) by (simp add: call(1))
  qed
  obtain a2 e where reach2: "lock_reachable L V w2" and a2: "insts w2 i = Some a2" "Name L a2 = Name L a"
    "holds L V (svc w2) a2" "owns L V (svc w2) a2 e"
    using run_keeps_lock [OF service reach1 acquired(3) refl a run] by (auto simp: holds_def)
  have key: "lease V (svc w2) (Name L b) = Some (mu a2, e)" "clock V (svc w3) < e"
    using a2(2,4) b(2) call(2) by (auto simp: owns_def key_alive_def)
  note sep = reachable_separate [OF service reach2]
  note known = separateD(1) [OF sep b(1)]
  have mine: "mu a2 = mu b \<longleftrightarrow> j = i" using separateD(3) [OF sep a2(1) b(1)] a2(1) b(1) by auto
  obtain l' where lc: "run_state (lock_call L oper' b) (svc w2) = ((r, l'), svc w3)"
    using call(1)
  proof cases
    case (call l l' s)
    with b(1) have "run_state (lock_call L oper' b) (svc w2) = ((r, l'), svc w3)" by simp
    then show ?thesis by (rule that)
  qed
  have "r \<noteq> None" if "acquires oper'"
    using acquire_nil(3) [OF service known that, of l' "svc w3" "mu a2" e] lc key by auto
  moreover have "(j \<noteq> i \<longrightarrow> r \<noteq> None) \<and> (j = i \<longrightarrow> r = None \<or> transport_error r) \<and>
      (j = i \<longrightarrow> (\<exists>c. oper' = OpRelease c) \<longrightarrow> r = None \<longrightarrow> (\<forall>x. lease V (svc w3) (Name L b) \<noteq> Some (mu a2, x)))"
    if "\<not> acquires oper'"
    using other_calls_result [OF service known that lc key] mine by blast
  moreover have "\<not> acquires oper'" if "\<exists>c. oper' = OpRelease c" using that by (auto simp: acquires_def)
  moreover have "owns L V (svc w3) a2 x \<longleftrightarrow> lease V (svc w3) (Name L b) = Some (mu a2, x)" for x
    using a2(2) b(2) by (simp add: owns_def)
  ultimately show ?thesis using a2(1,3) by (intro exI [of _ a2]) blast
qed

text \<open>
  C20. No operation takes an unexpired lock away from its holder. While the lease of \<open>a\<close> has not
  expired, any step of any instance leaves it with \<open>a\<close>, except the holder's own Release: another
  node's Release or TryAcquire, a second TryAcquire of the holder and failing renewals included.
\<close>

theorem lock_lease_protected:
  assumes service: "lease_service L V" and reach: "lock_reachable L V w" and step: "lock_step L V w ev w'"
    and a: "insts w j = Some a" "owns L V (svc w) a e" and live: "clock V (svc w') < e"
    and not_released: "\<nexists>c r. ev = Called j (OpRelease c) r"
  shows "\<exists>a' e'. insts w' j = Some a' \<and> mu a' = mu a \<and> owns L V (svc w') a' e' \<and> e \<le> e'"
  using assms by (rule lease_protected)

text \<open>
  What Acquire and TryAcquire return. On success the instance holds the lock with the token of
  its current mutex, and its watchdog runs when the option asks for one. On failure the instance
  is as before; TryAcquire says ErrNotAcquired, Acquire the error of a finished context or
  ErrNotAcquired.
\<close>

theorem acquire_outcome:
  assumes service: "lease_service L V" and known: "mu l \<in> known V s"
    and oper: "oper = OpAcquire c \<or> oper = OpTryAcquire c"
    and run: "run_state (lock_call L oper l) s = ((r, l'), s')"
  shows "case r of
      None \<Rightarrow> holds L V s' l' \<and>
        wd l' = (if EnableWatchdog (lopt l) then Some (watchdogInterval (TTL (lopt l))) else wd l)
    | Some e \<Rightarrow> l' = l \<and>
        e = (case Err_of L c s' of Some ce \<Rightarrow> if oper = OpAcquire c then ce else errNotAcquired
             | None \<Rightarrow> errNotAcquired)"
  using oper
proof
  assume o: "oper = OpAcquire c"
  obtain x where x: "run_state (LockContext L (mu l) c) s = (x, s')"
    and r: "(r, l') = (if x = None then (None, startWatchdog l)
      else (case Err_of L c s' of Some err \<Rightarrow> Some err | None \<Rightarrow> Some errNotAcquired, l))"
    using run by (auto simp: o Acquire_def split: prod.splits option.splits)
  from lock_context(2) [OF service x known] r o show ?thesis
    by (auto simp: holds_def owns_def Name_def startWatchdog_def split: option.splits if_splits)
next
  assume o: "oper = OpTryAcquire c"
  obtain m s1 x where m: "run_state (NewMutex L (lrs l) (Name L l) [WithTries 1, WithExpiry (TTL (lopt l))]) s = (m, s1)"
    and x: "run_state (LockContext L m c) s1 = (x, s')"
    and r: "(r, l') = (if x = None then (None, startWatchdog (l\<lparr>mu := m\<rparr>)) else (Some errNotAcquired, l))"
    using run by (auto simp: o TryAcquire_def Name_def split: prod.splits option.splits)
  from lock_context(2) [OF service x new_mutex(3) [OF service m]] r o show ?thesis
    by (auto simp: holds_def owns_def Name_def startWatchdog_def split: option.splits if_splits)
qed

text \<open>
  What Release returns. Nil only when the key carried this instance's token, which is gone
  afterwards; an unexpired own lock is released, unless the call to Redis itself fails, whose error
  is passed on. In every case the watchdog is stopped.
\<close>

theorem release_outcome:
  assumes service: "lease_service L V" and known: "mu l \<in> known V s"
    and run: "run_state (Release L c l) s = ((r, l'), s')"
  shows "(r = None \<longrightarrow> (\<exists>e. owns L V s l e) \<and> (\<forall>e. \<not> owns L V s' l e)) \<and>
    (\<forall>e. owns L V s l e \<longrightarrow> clock V s' < e \<longrightarrow>
       r = None \<or> (\<exists>ok err. run_state (UnlockContext L (mu l) c) s = ((ok, Some err), s') \<and> r = Some err)) \<and>
    wd l' = None \<and> mu l' = mu l"
proof -
  obtain ok x where x: "run_state (UnlockContext L (mu l) c) s = ((ok, x), s')"
    and r: "r = expired_or redsync_ErrLockAlreadyExpired (ok, x)" and l': "l' = l\<lparr>wd := None\<rparr>"
    using run by (auto simp: Release_def split: prod.splits)
  note u = unlock_context [OF service x known]
  show ?thesis
    using u(3,4,5) by (auto simp: r l' x owns_def Name_def expired_or_def transport_error_def
        split: option.splits if_splits)
qed

section \<open>The watchdog\<close>

text \<open>
  What may happen to the lock of \<open>l\<close> between two rounds: its own key stays until it expires, other keys
  may be released and renewed. Every step of the instances but its own Release is such.
\<close>

definition undisturbed :: "('s, 'h, 'm, 'c) redsync \<Rightarrow> ('s, 'm) lease_view \<Rightarrow> ('h, 'm) redis_lock \<Rightarrow> 's \<Rightarrow> 's \<Rightarrow> bool" where
  "undisturbed L V l s s' \<longleftrightarrow> forward V s s' \<and>
     (\<forall>e. owns L V s l e \<longrightarrow> clock V s' < e \<longrightarrow> (\<exists>e' \<ge> e. owns L V s' l e'))"

lemma step_forward:
  assumes service: "lease_service L V" and "separate V w" and step: "lock_step L V w ev w'"
  shows "forward V (svc w) (svc w')"
  using step
proof cases
  case (make i cl name opts l s)
  with New_effect(1) [OF service make(4)] show ?thesis by (simp add: elapse_def)
next
  case (call i l oper r l' s)
  from lock_call_effect [OF service call(5) separateD(1) [OF assms(2) call(3)]] show ?thesis
    by (simp add: call(2) call_effect_def)
qed (simp add: elapse_def)

lemma step_undisturbed:
  assumes "lease_service L V" "lock_reachable L V w" "lock_step L V w ev w'" "insts w i = Some l"
    and "\<nexists>c r. ev = Called i (OpRelease c) r"
  shows "undisturbed L V l (svc w) (svc w')"
  using step_forward [OF assms(1) reachable_separate [OF assms(1,2)] assms(3)]
    lease_protected [OF assms(1-4) _ _ assms(5)]
  by (fastforce simp: undisturbed_def owns_def Name_def)

text \<open>
  One round of the watchdog's loop: the timer fires at most \<open>late\<close> after its interval, and the
  renewal takes at most \<open>d\<close>.
\<close>

definition watch_round ::
  "('s, 'h, 'm, 'c) redsync \<Rightarrow> ('s, 'm) lease_view \<Rightarrow> int \<Rightarrow> int \<Rightarrow> ('h, 'm) redis_lock
    \<Rightarrow> 's \<Rightarrow> gerr option \<Rightarrow> 's \<Rightarrow> bool" where
  "watch_round L V late d l s r s' \<longleftrightarrow>
     (\<exists>s1. undisturbed L V l s s1 \<and> clock V s1 \<le> clock V s + watchdogInterval (TTL (lopt l)) + late \<and>
        run_state (watchdog_tick L l) s1 = (r, s') \<and> clock V s' \<le> clock V s1 + d)"

text \<open>
  The rounds since \<open>s0\<close>, with no two failed renewals in a row; the flag says whether the last one
  failed.
\<close>

inductive watched ::
  "('s, 'h, 'm, 'c) redsync \<Rightarrow> ('s, 'm) lease_view \<Rightarrow> int \<Rightarrow> int \<Rightarrow> ('h, 'm) redis_lock
    \<Rightarrow> 's \<Rightarrow> bool \<Rightarrow> 's \<Rightarrow> bool"
  for L V late d l s0 where
  begun: "watched L V late d l s0 False s0"
| renewed: "watched L V late d l s0 b s \<Longrightarrow> watch_round L V late d l s None s'
    \<Longrightarrow> watched L V late d l s0 False s'"
| missed: "watched L V late d l s0 False s \<Longrightarrow> watch_round L V late d l s (Some e) s'
    \<Longrightarrow> watched L V late d l s0 True s'"

lemma tick_result:
  assumes service: "lease_service L V" and known: "mu l \<in> known V s"
    and run: "run_state (watchdog_tick L l) s = (r, s')"
  shows "forward V s s'"
    and "owns L V s l e \<Longrightarrow> clock V s' < e \<Longrightarrow> \<exists>e' \<ge> e. owns L V s' l e'"
    and "r = None \<Longrightarrow> \<exists>e' \<ge> clock V s + mutex_ttl V (mu l). owns L V s' l e'"
proof -
  obtain ok x where x: "run_state (ExtendContext L (mu l) (Background L)) s = ((ok, x), s')"
    and r: "r = expired_or redsync_ErrExtendFailed (ok, x)"
    using run by (auto simp: watchdog_tick_def Renew_def split: prod.splits)
  note u = extend_context [OF service x known]
  show "forward V s s'" by (rule u(1))
  show "\<exists>e' \<ge> e. owns L V s' l e'" if "owns L V s l e" "clock V s' < e"
    using u(3) that by (simp add: owns_def)
  show "\<exists>e' \<ge> clock V s + mutex_ttl V (mu l). owns L V s' l e'" if "r = None"
    using u(4) that r by (auto simp: owns_def Name_def expired_or_def split: option.splits if_splits)
qed

text \<open>A round leaves a lease that outlives it in place, and a renewal starts its TTL afresh.\<close>

lemma round_result:
  assumes service: "lease_service L V" and known: "mu l \<in> known V s"
    and round: "watch_round L V late d l s r s'" and own: "owns L V s l e" and live: "clock V s' < e"
  shows "mu l \<in> known V s'" "clock V s' \<le> clock V s + watchdogInterval (TTL (lopt l)) + late + d"
    and "\<exists>e' \<ge> e. owns L V s' l e'"
    and "r = None \<Longrightarrow> \<exists>e'. owns L V s' l e' \<and> clock V s' - d + mutex_ttl V (mu l) \<le> e'"
proof -
  obtain s1 where s1: "undisturbed L V l s s1" "clock V s1 \<le> clock V s + watchdogInterval (TTL (lopt l)) + late"
    and tick: "run_state (watchdog_tick L l) s1 = (r, s')" and quick: "clock V s' \<le> clock V s1 + d"
    using round by (auto simp: watch_round_def)
  have k1: "mu l \<in> known V s1" using s1(1) known by (auto simp: undisturbed_def forward_def)
  note t = tick_result [OF service k1 tick]
  have "clock V s1 < e" using live t(1) by (simp add: forward_def)
  with s1(1) own obtain e1 where e1: "e \<le> e1" and own1: "owns L V s1 l e1"
    by (auto simp: undisturbed_def)
  show "mu l \<in> known V s'" using t(1) k1 by (auto simp: forward_def)
  show "clock V s' \<le> clock V s + watchdogInterval (TTL (lopt l)) + late + d"
    using s1(2) quick by simp
  have "clock V s' < e1" using e1 live by simp
  from t(2) [OF own1 this] obtain e' where "e1 \<le> e'" "owns L V s' l e'" by blast
  with e1 show "\<exists>e' \<ge> e. owns L V s' l e'" by (intro exI [of _ e']) simp
  show "\<exists>e'. owns L V s' l e' \<and> clock V s' - d + mutex_ttl V (mu l) \<le> e'" if r: "r = None"
  proof -
    from t(3) [OF r] obtain e' where "clock V s1 + mutex_ttl V (mu l) \<le> e'" "owns L V s' l e'" by blast
    with quick show ?thesis by (intro exI [of _ e']) simp
  qed
qed

text \<open>
  C21. The watchdog keeps the lock. From a fresh acquisition on, at a TTL of at least 3ns, the lock is
  held for as long as the loop runs, at whatever rounds and whatever other instances do with their locks, if no two renewals in a row fail and the
  delays are small against the interval of TTL/3: twice the timer's lateness and three times the
  duration of a renewal stay below it.
\<close>

theorem watchdog_keeps_lock:
  assumes service: "lease_service L V" and reach: "lock_reachable L V w" and l: "insts w i = Some l"
    and fresh: "owns L V (svc w) l e0" "clock V (svc w) + TTL (lopt l) \<le> e0 + d"
    and ttl: "3 \<le> TTL (lopt l)" and delays: "0 \<le> late" "0 \<le> d"
      "2 * late + 3 * d < watchdogInterval (TTL (lopt l))"
    and watched: "watched L V late d l (svc w) b s"
  shows "holds L V s l"
proof -
  let ?I = "watchdogInterval (TTL (lopt l))"
  let ?slack = "\<lambda>b. TTL (lopt l) - d - (if b then ?I + late + d else 0)"
  note sep = separateD [OF reachable_separate [OF service reach] l]
  have I: "3 * ?I \<le> TTL (lopt l)" by (rule watchdogInterval_third(1) [OF ttl])
  have next_round: "\<exists>e'. owns L V s' l e' \<and> clock V s' + ?slack (r \<noteq> None) \<le> e'" "mu l \<in> known V s'"
    if hyp: "mu l \<in> known V s" "owns L V s l e" "clock V s + ?slack b \<le> e" "r \<noteq> None \<longrightarrow> \<not> b"
      "watch_round L V late d l s r s'" for s s' b e r
  proof -
    obtain s1 where "clock V s1 \<le> clock V s + ?I + late" "clock V s' \<le> clock V s1 + d"
      using hyp(5) by (auto simp: watch_round_def)
    with hyp(3) I delays have live: "clock V s' < e" by (auto split: if_splits)
    note o = round_result [OF service hyp(1) hyp(5) hyp(2) live]
    show "mu l \<in> known V s'" by (rule o(1))
    show "\<exists>e'. owns L V s' l e' \<and> clock V s' + ?slack (r \<noteq> None) \<le> e'"
    proof (cases r)
      case None
      from o(4) [OF None] sep(2) None show ?thesis by auto
    next
      case (Some x)
      from o(3) obtain e' where "e \<le> e'" "owns L V s' l e'" by blast
      with o(2) hyp(3,4) Some show ?thesis by (intro exI [of _ e']) auto
    qed
  qed
  from watched have "mu l \<in> known V s \<and> (\<exists>e. owns L V s l e \<and> clock V s + ?slack b \<le> e)"
  proof induction
    case begun
    from fresh sep(1) show ?case by auto
  next
    case (renewed b s s')
    then obtain e where "mu l \<in> known V s" "owns L V s l e" "clock V s + ?slack b \<le> e" by blast
    from next_round [OF this _ renewed(2)] show ?case by simp
  next
    case (missed s x s')
    then obtain e where "mu l \<in> known V s" "owns L V s l e" "clock V s + ?slack False \<le> e" by auto
    from next_round [OF this _ missed(2)] show ?case by simp
  qed
  then show ?thesis
    using I delays by (auto simp: holds_def split: if_splits)
qed

text \<open>
  The wait between two attempts is the base delay plus a jitter below half of it, when the
  delay is at least 2ns and the sum is in the range of an int64; a shorter delay panics.
\<close>

theorem retry_delay_bounds:
  assumes "\<And>n. 0 < n \<Longrightarrow> 0 \<le> rnd n \<and> rnd n < n" and "2 * RetryDelay op \<le> int64_max"
  shows "case retryDelay op tries rnd of
      Inl _ \<Rightarrow> RetryDelay op < 2
    | Inr w \<Rightarrow> 2 \<le> RetryDelay op \<and> RetryDelay op \<le> w \<and> w < RetryDelay op + RetryDelay op div 2"
proof (cases "2 \<le> RetryDelay op")
  case True
  then have "0 < RetryDelay op div 2" by simp
  with assms(1) have r: "0 \<le> rnd (RetryDelay op div 2)" "rnd (RetryDelay op div 2) < RetryDelay op div 2"
    by blast+
  then have "wrap64 (RetryDelay op + rnd (RetryDelay op div 2)) = RetryDelay op + rnd (RetryDelay op div 2)"
    using True assms(2) by (simp add: wrap64_def int64_max_def)
  with True r show ?thesis by (simp add: retryDelay_def Let_def)
next
  case False
  then have "RetryDelay op sdiv 2 \<le> 0"
    using sdiv_nonpos [of "RetryDelay op" 2] by (cases "0 \<le> RetryDelay op") auto
  with False show ?thesis by (simp add: retryDelay_def Let_def)
qed

end
