(* ===== verification/Lock_Instance.thy ===== *)
theory Lock_Instance
  imports Lock_Service
begin

text \<open>
  A reference Redis: keys with an expiry, set only if absent, deleted and extended only by the
  mutex they belong to. It satisfies the laws of \<open>lease_service\<close>, and the properties of the lock
  SDK are applied on it.
\<close>

datatype ref_mutex = RefMutex (rm_id: nat) (rm_name: string) (rm_ttl: int)

record ref_redis =
  rr_time :: int
  rr_next :: nat
  rr_keys :: "string \<Rightarrow> (ref_mutex \<times> int) option"

fun expiry_of :: "rs_option list \<Rightarrow> int" where
  "expiry_of [] = 8 * Second"
| "expiry_of (WithExpiry d # os) = d"
| "expiry_of (_ # os) = expiry_of os"

definition live_key :: "ref_redis \<Rightarrow> string \<Rightarrow> (ref_mutex \<times> int) option" where
  "live_key s n = (case rr_keys s n of
     Some v \<Rightarrow> if rr_time s < snd v then Some v else None | None \<Rightarrow> None)"

definition owner_key :: "ref_redis \<Rightarrow> ref_mutex \<Rightarrow> bool" where
  "owner_key s m \<longleftrightarrow> (case live_key s (rm_name m) of Some v \<Rightarrow> fst v = m | None \<Rightarrow> False)"

definition refused :: "sentinel \<Rightarrow> ref_redis \<Rightarrow> ref_mutex \<Rightarrow> gerr" where
  "refused gone s m =
     (if live_key s (rm_name m) = None then GErr [gone] ''lock expired'' else GErr [redsync_ErrTaken] ''lock already taken'')"

definition ref_lock :: "ref_mutex \<Rightarrow> ref_redis \<Rightarrow> gerr option \<times> ref_redis" where
  "ref_lock m s =
     (if live_key s (rm_name m) = None \<and> 0 < rm_ttl m
      then (None, s\<lparr>rr_keys := (rr_keys s)(rm_name m \<mapsto> (m, rr_time s + rm_ttl m))\<rparr>)
      else (Some (GErr [redsync_ErrTaken] ''lock already taken''), s))"

definition ref_unlock :: "ref_mutex \<Rightarrow> ref_redis \<Rightarrow> (bool \<times> gerr option) \<times> ref_redis" where
  "ref_unlock m s =
     (if owner_key s m then ((True, None), s\<lparr>rr_keys := (rr_keys s)(rm_name m := None)\<rparr>)
      else ((False, Some (refused redsync_ErrLockAlreadyExpired s m)), s))"

definition ref_extend :: "ref_mutex \<Rightarrow> ref_redis \<Rightarrow> (bool \<times> gerr option) \<times> ref_redis" where
  "ref_extend m s =
     (if owner_key s m
      then ((True, None), s\<lparr>rr_keys := (rr_keys s)(rm_name m \<mapsto>
             (m, max (snd (the (rr_keys s (rm_name m)))) (rr_time s + rm_ttl m)))\<rparr>)
      else ((False, Some (refused redsync_ErrExtendFailed s m)), s))"

definition ref_lib :: "(ref_redis, unit, ref_mutex, unit) redsync" where
  "ref_lib = \<lparr>NewMutex = (\<lambda>h n os. State (\<lambda>s. (RefMutex (rr_next s) n (expiry_of os), s\<lparr>rr_next := Suc (rr_next s)\<rparr>))),
     MutexName = rm_name,
     LockContext = (\<lambda>m c. State (ref_lock m)),
     UnlockContext = (\<lambda>m c. State (ref_unlock m)),
     ExtendContext = (\<lambda>m c. State (ref_extend m)),
     Err_of = (\<lambda>c s. None), Background = ()\<rparr>"

definition ref_view :: "(ref_redis, ref_mutex) lease_view" where
  "ref_view = \<lparr>lease = rr_keys, clock = rr_time, known = (\<lambda>s. {m. rm_id m < rr_next s}), mutex_ttl = rm_ttl\<rparr>"

definition ref_start :: ref_redis where
  "ref_start = \<lparr>rr_time = 0, rr_next = 0, rr_keys = (\<lambda>_. None)\<rparr>"

lemma ref_sel [simp]:
  "NewMutex ref_lib h n os = State (\<lambda>s. (RefMutex (rr_next s) n (expiry_of os), s\<lparr>rr_next := Suc (rr_next s)\<rparr>))"
  "MutexName ref_lib = rm_name" "LockContext ref_lib m c = State (ref_lock m)"
  "UnlockContext ref_lib m c = State (ref_unlock m)" "ExtendContext ref_lib m c = State (ref_extend m)"
  "Err_of ref_lib c s = None"
  "lease ref_view = rr_keys" "clock ref_view = rr_time" "m \<in> known ref_view s \<longleftrightarrow> rm_id m < rr_next s"
  "mutex_ttl ref_view = rm_ttl"
  by (simp_all add: ref_lib_def ref_view_def)

lemma ref_elapse [simp]:
  "elapse ref_view s s' \<longleftrightarrow> forward ref_view s s' \<and> survive ref_view None s s'"
  by (simp add: elapse_def)

lemma ref_forward: "rr_time s \<le> rr_time s' \<Longrightarrow> rr_next s \<le> rr_next s' \<Longrightarrow> forward ref_view s s'"
  by (auto simp: forward_def)

lemma ref_survive:
  "(\<And>n m e. rr_keys s n = Some (m, e) \<Longrightarrow> rr_time s' < e \<Longrightarrow> x \<noteq> Some m \<Longrightarrow> rr_keys s' n = Some (m, e))
    \<Longrightarrow> survive ref_view x s s'"
  by (simp add: survive_def)

lemma owner_key_iff: "owner_key s m \<longleftrightarrow> (\<exists>e. rr_keys s (rm_name m) = Some (m, e) \<and> rr_time s < e)"
  by (cases "rr_keys s (rm_name m)") (auto simp: owner_key_def live_key_def)

lemma live_key_None: "live_key s n = None \<longleftrightarrow> (\<forall>m e. rr_keys s n = Some (m, e) \<longrightarrow> e \<le> rr_time s)"
  by (cases "rr_keys s n") (auto simp: live_key_def)

lemma expiry_of_member:
  "WithExpiry d \<in> set os \<Longrightarrow> \<forall>d'. WithExpiry d' \<in> set os \<longrightarrow> d' = d \<Longrightarrow> expiry_of os = d"
proof (induction os)
  case (Cons x os)
  show ?case
  proof (cases "\<exists>d'. x = WithExpiry d'")
    case True
    then obtain d' where x: "x = WithExpiry d'" ..
    then have "WithExpiry d' \<in> set (x # os)" by simp
    with Cons.prems(2) have "d' = d" by blast
    then show ?thesis by (simp only: x expiry_of.simps)
  next
    case False
    then have "expiry_of (x # os) = expiry_of os" by (cases x) auto
    moreover have "expiry_of os = d"
      by (rule Cons.IH) (use Cons.prems False in \<open>(fastforce dest: spec)+\<close>)
    ultimately show ?thesis by simp
  qed
qed simp

lemma ref_new_mutex_law: "new_mutex_law ref_lib ref_view"
  unfolding new_mutex_law_def
proof (intro allI impI, goal_cases)
  case (1 h n os s m s')
  then have r: "m = RefMutex (rr_next s) n (expiry_of os)" "s' = s\<lparr>rr_next := Suc (rr_next s)\<rparr>"
    by simp_all
  have el: "elapse ref_view s s'" by (simp add: r(2) ref_forward ref_survive)
  show ?case
  proof (intro conjI allI impI)
    fix d
    assume "WithExpiry d \<in> set os" "\<forall>d'. WithExpiry d' \<in> set os \<longrightarrow> d' = d"
    then have "expiry_of os = d" by (rule expiry_of_member)
    then show "mutex_ttl ref_view m = d" by (simp only: r(1) ref_sel ref_mutex.sel)
  qed (rule el | simp add: r)+
qed

lemma ref_lock_law: "lock_law ref_lib ref_view"
  unfolding lock_law_def
proof (intro allI impI, goal_cases)
  case (1 m c s e s')
  show ?case
  proof (cases "live_key s (rm_name m) = None \<and> 0 < rm_ttl m")
    case True
    with 1(2) have "e = None" "s' = s\<lparr>rr_keys := (rr_keys s)(rm_name m \<mapsto> (m, rr_time s + rm_ttl m))\<rparr>"
      by (simp_all add: ref_lock_def)
    with True show ?thesis
      by (fastforce simp: live_key_None intro!: ref_forward ref_survive)
  next
    case False
    with 1(2) have "e = Some (GErr [redsync_ErrTaken] ''lock already taken'')" "s' = s"
      by (auto simp: ref_lock_def)
    then show ?thesis by (simp add: ref_forward ref_survive)
  qed
qed

text \<open>The two scripts act on one's own unexpired key only.\<close>

lemma ref_unlock_law: "unlock_law ref_lib ref_view"
  unfolding unlock_law_def
proof (intro allI impI, goal_cases)
  case (1 m c s ok e s')
  show ?case
  proof (cases "owner_key s m")
    case True
    with 1(2) have r: "ok" "e = None" "s' = s\<lparr>rr_keys := (rr_keys s)(rm_name m := None)\<rparr>"
      by (simp_all add: ref_unlock_def)
    from True obtain x where "rr_keys s (rm_name m) = Some (m, x)" by (auto simp: owner_key_iff)
    with r show ?thesis by (simp add: ref_forward, intro ref_survive) auto
  next
    case False
    with 1(2) have r: "\<not> ok" "s' = s" by (simp_all add: ref_unlock_def)
    with False show ?thesis by (simp add: ref_forward ref_survive owner_key_iff)
  qed
qed

lemma ref_extend_law: "extend_law ref_lib ref_view"
  unfolding extend_law_def
proof (intro allI impI, goal_cases)
  case (1 m c s ok e s')
  show ?case
  proof (cases "owner_key s m")
    case True
    then obtain x where x: "rr_keys s (rm_name m) = Some (m, x)" by (auto simp: owner_key_iff)
    with True 1(2) have r: "ok" "e = None"
        "s' = s\<lparr>rr_keys := (rr_keys s)(rm_name m \<mapsto> (m, max x (rr_time s + rm_ttl m)))\<rparr>"
      by (simp_all add: ref_extend_def)
    have "survive ref_view (Some m) s s'" by (rule ref_survive) (use r x in auto)
    with r x show ?thesis by (simp add: ref_forward)
  next
    case False
    with 1(2) have r: "\<not> ok" "s' = s" by (simp_all add: ref_extend_def)
    with False show ?thesis by (auto simp: ref_forward ref_survive owner_key_iff)
  qed
qed

lemma ref_service: "lease_service ref_lib ref_view"
  by (simp add: lease_service_def ref_new_mutex_law ref_lock_law ref_unlock_law ref_extend_law)

section \<open>Two nodes\<close>

text \<open>Two nodes make a lock of the same name, with a watchdog; the first acquires it.\<close>

definition node_lock :: "nat \<Rightarrow> (unit, ref_mutex) redis_lock" where
  "node_lock i = \<lparr>mu = RefMutex i ''job'' (8 * Second), wd = None, lopt = WithWatchdog defaultLockOption, lrs = ()\<rparr>"

definition made_world :: "(ref_redis, unit, ref_mutex) lock_world" where
  "made_world = \<lparr>svc = ref_start\<lparr>rr_next := 2\<rparr>, insts = [0 \<mapsto> node_lock 0, 1 \<mapsto> node_lock 1]\<rparr>"

definition held_world :: "(ref_redis, unit, ref_mutex) lock_world" where
  "held_world = \<lparr>svc = ref_start\<lparr>rr_next := 3, rr_keys := [''job'' \<mapsto> (RefMutex 2 ''job'' (8 * Second), 8 * Second)]\<rparr>,
     insts = (insts made_world)(0 \<mapsto> startWatchdog (node_lock 0\<lparr>mu := RefMutex 2 ''job'' (8 * Second)\<rparr>))\<rparr>"

definition node_make :: "(ref_redis, (unit, ref_mutex) redis_lock) state" where
  "node_make = New ref_lib \<lparr>rc_rs = (), closer = None\<rparr> ''job'' [WithWatchdog]"

lemma run_node_make:
  "run_state node_make (ref_start\<lparr>rr_next := i\<rparr>) = (node_lock i, ref_start\<lparr>rr_next := Suc i\<rparr>)"
  by (simp add: node_make_def New_def node_lock_def WithWatchdog_def defaultLockOption_def Let_def)

lemma node_makes:
  "insts w i = None \<Longrightarrow> svc w = ref_start\<lparr>rr_next := i\<rparr> \<Longrightarrow>
     lock_step ref_lib ref_view w (Made i) \<lparr>svc = ref_start\<lparr>rr_next := Suc i\<rparr>, insts = (insts w)(i \<mapsto> node_lock i)\<rparr>"
  using lock_step.make [of w i ref_lib "\<lparr>rc_rs = (), closer = None\<rparr>" "''job''" "[WithWatchdog]"] run_node_make [of i]
  by (simp add: node_make_def)

lemma made_reachable: "lock_reachable ref_lib ref_view made_world"
proof -
  let ?w0 = "\<lparr>svc = ref_start\<lparr>rr_next := 0\<rparr>, insts = (\<lambda>_. None)\<rparr>"
  let ?w1 = "\<lparr>svc = ref_start\<lparr>rr_next := Suc 0\<rparr>, insts = [0 \<mapsto> node_lock 0]\<rparr>"
  have "lock_reachable ref_lib ref_view ?w0" by (rule lock_reachable.start)
  moreover have "lock_step ref_lib ref_view ?w0 (Made 0) ?w1" using node_makes [of ?w0 0] by simp
  ultimately have r1: "lock_reachable ref_lib ref_view ?w1" by (rule lock_reachable.step)
  have "\<lparr>svc = ref_start\<lparr>rr_next := Suc (Suc 0)\<rparr>, insts = (insts ?w1)(Suc 0 \<mapsto> node_lock (Suc 0))\<rparr> = made_world"
    by (simp add: made_world_def numeral_2_eq_2)
  with node_makes [of ?w1 "Suc 0"] have "lock_step ref_lib ref_view ?w1 (Made (Suc 0)) made_world" by simp
  with r1 show ?thesis by (rule lock_reachable.step)
qed

lemma node_acquires:
  "run_state (lock_call ref_lib (OpTryAcquire ()) (node_lock 0)) (svc made_world) =
     ((None, startWatchdog (node_lock 0\<lparr>mu := RefMutex 2 ''job'' (8 * Second)\<rparr>)), svc held_world)"
  by (simp add: TryAcquire_def made_world_def held_world_def node_lock_def ref_lock_def live_key_def
      ref_start_def WithWatchdog_def defaultLockOption_def Second_def Millisecond_def)

definition holder :: "(unit, ref_mutex) redis_lock" where
  "holder = startWatchdog (node_lock 0\<lparr>mu := RefMutex 2 ''job'' (8 * Second)\<rparr>)"

lemma node_options [simp]:
  "mu (node_lock i) = RefMutex i ''job'' (8 * Second)" "TTL (lopt (node_lock i)) = 8 * Second"
  "EnableWatchdog (lopt (node_lock i))" "lrs (node_lock i) = ()" "wd (node_lock i) = None"
  by (simp_all add: node_lock_def WithWatchdog_def defaultLockOption_def)

lemma holder_simps [simp]:
  "mu holder = RefMutex 2 ''job'' (8 * Second)" "TTL (lopt holder) = 8 * Second"
  "wd holder = Some (watchdogInterval (8 * Second))"
  by (simp_all add: holder_def startWatchdog_def)

lemma world_simps [simp]:
  "insts held_world 0 = Some holder" "insts held_world (Suc 0) = Some (node_lock 1)"
  "insts made_world 0 = Some (node_lock 0)"
  "rr_time (svc held_world) = 0" "rr_next (svc held_world) = 3" "rr_next (svc made_world) = 2"
  "rr_keys (svc held_world) = [''job'' \<mapsto> (RefMutex 2 ''job'' (8 * Second), 8 * Second)]"
  by (simp_all add: held_world_def made_world_def holder_def ref_start_def)

lemma seconds_pos: "0 < Second"
  by (simp add: Second_def Millisecond_def)

lemma first_acquires: "lock_step ref_lib ref_view made_world (Called 0 (OpTryAcquire ()) None) held_world"
proof -
  have "lock_step ref_lib ref_view made_world (Called 0 (OpTryAcquire ()) None)
      \<lparr>svc = svc held_world, insts = (insts made_world)(0 \<mapsto> holder)\<rparr>"
    by (rule lock_step.call) (use node_acquires in \<open>simp_all add: holder_def\<close>)
  moreover have "\<lparr>svc = svc held_world, insts = (insts made_world)(0 \<mapsto> holder)\<rparr> = held_world"
    by (simp add: held_world_def holder_def)
  ultimately show ?thesis by simp
qed

lemma held_reachable: "lock_reachable ref_lib ref_view held_world"
  by (rule lock_reachable.step [OF made_reachable first_acquires])

lemma holder_holds: "owns ref_lib ref_view (svc held_world) holder (8 * Second)"
  "holds ref_lib ref_view (svc held_world) holder"
  using seconds_pos by (auto simp: holds_def owns_def Name_def)

text \<open>The second node tries in vain, three seconds later.\<close>

definition later :: "ref_redis \<Rightarrow> ref_redis" where
  "later s = s\<lparr>rr_time := rr_time s + 2700 * Millisecond\<rparr>"

lemma later_elapse: "elapse ref_view s (later s)"
  by (auto simp: later_def Millisecond_def intro!: ref_forward ref_survive)

lemma later_undisturbed: "undisturbed ref_lib ref_view l s (later s)"
  by (auto simp: undisturbed_def owns_def later_def Millisecond_def intro!: ref_forward)

definition later_world :: "(ref_redis, unit, ref_mutex) lock_world" where
  "later_world = held_world\<lparr>svc := later (svc held_world)\<rparr>"

theorem lock_mutual_exclusion_witness:
  "\<exists>r l' s. run_state (lock_call ref_lib (OpTryAcquire ()) (node_lock 1)) (svc later_world) = ((r, l'), s) \<and> r \<noteq> None"
proof -
  obtain r l' s where run: "run_state (lock_call ref_lib (OpTryAcquire ()) (node_lock 1)) (svc later_world) = ((r, l'), s)"
    by (metis prod_cases3 surj_pair)
  let ?w3 = "\<lparr>svc = s, insts = (insts later_world)(Suc 0 \<mapsto> l')\<rparr>"
  have insts: "insts later_world = insts held_world" by (simp add: later_world_def)
  have keys: "rr_keys (svc later_world) = rr_keys (svc held_world)" "rr_time (svc later_world) = 2700 * Millisecond"
    by (simp_all add: later_world_def later_def)
  have time: "rr_time s = 2700 * Millisecond"
    using run keys(2) by (auto simp: TryAcquire_def ref_lock_def live_key_def split: if_splits option.splits prod.splits)
  have n: "Name ref_lib holder = ''job''" by (simp add: Name_def)
  have alive: "key_alive ref_view ''job'' (svc held_world) (svc later_world)" "key_alive ref_view ''job'' (svc later_world) s"
    by (simp_all add: key_alive_def keys time Second_def Millisecond_def)
  have "lock_step ref_lib ref_view held_world Elapsed later_world"
    unfolding later_world_def by (rule lock_step.elapsed [OF later_elapse])
  from unreleased_run.onward [OF unreleased_run.here this alive(1)]
  have path: "unreleased_run ref_lib ref_view (Name ref_lib holder) 0 held_world later_world" by (simp add: n)
  have step: "lock_step ref_lib ref_view later_world (Called (Suc 0) (OpTryAcquire ()) r) ?w3"
    by (rule lock_step.call) (use run in \<open>simp_all add: insts\<close>)
  have "acquires (OpTryAcquire ())" by (simp add: acquires_def)
  from lock_mutual_exclusion [OF ref_service made_reachable first_acquires this world_simps(1) path step]
  have "r \<noteq> None" using alive(2) \<open>acquires (OpTryAcquire ())\<close> by (simp add: insts n Name_def)
  with run show ?thesis by blast
qed

theorem lock_lease_protected_witness:
  "\<exists>(w' :: (ref_redis, unit, ref_mutex) lock_world) a' e'. insts w' 0 = Some a' \<and> mu a' = mu holder \<and> owns ref_lib ref_view (svc w') a' e' \<and> 8 * Second \<le> e'"
proof -
  obtain r l' s where run: "run_state (lock_call ref_lib (OpTryAcquire ()) (node_lock 1)) (svc held_world) = ((r, l'), s)"
    by (metis prod_cases3 surj_pair)
  have step: "lock_step ref_lib ref_view held_world (Called 1 (OpTryAcquire ()) r)
      \<lparr>svc = s, insts = (insts held_world)(1 \<mapsto> l')\<rparr>"
    by (rule lock_step.call) (use run in simp_all)
  have "rr_time s = 0"
    using run by (auto simp: TryAcquire_def ref_lock_def live_key_def split: if_splits option.splits prod.splits)
  then have "\<exists>a' e'. insts \<lparr>svc = s, insts = (insts held_world)(1 \<mapsto> l')\<rparr> 0 = Some a' \<and> mu a' = mu holder \<and>
      owns ref_lib ref_view (svc \<lparr>svc = s, insts = (insts held_world)(1 \<mapsto> l')\<rparr>) a' e' \<and> 8 * Second \<le> e'"
    by (intro lock_lease_protected [OF ref_service held_reachable step world_simps(1) holder_holds(1)])
      (use seconds_pos in simp_all)
  then show ?thesis by (rule exI)
qed

theorem acquire_outcome_witness:
  "holds ref_lib ref_view (svc held_world) holder \<and> wd holder = Some (watchdogInterval (8 * Second))"
  using acquire_outcome [OF ref_service _ _ node_acquires, of "()"] by (simp add: holder_def [symmetric])

theorem release_outcome_witness:
  "fst (fst (run_state (Release ref_lib () holder) (svc held_world))) = None"
proof -
  let ?s = "(svc held_world)\<lparr>rr_keys := (rr_keys (svc held_world))(''job'' := None)\<rparr>"
  have u: "run_state (UnlockContext ref_lib (mu holder) ()) (svc held_world) = ((True, None), ?s)"
    using seconds_pos by (simp add: ref_unlock_def owner_key_iff)
  obtain r l' s where run: "run_state (Release ref_lib () holder) (svc held_world) = ((r, l'), s)"
    by (metis prod_cases3 surj_pair)
  with u have "s = ?s" by (simp add: Release_def)
  with release_outcome [OF ref_service _ run] u holder_holds(1) seconds_pos
  show ?thesis by (fastforce simp: run)
qed

theorem watchdog_keeps_lock_witness:
  "holds ref_lib ref_view (snd (run_state (watchdog_tick ref_lib holder) (later (svc held_world)))) holder"
proof -
  let ?s1 = "later (svc held_world)"
  obtain r s where run: "run_state (watchdog_tick ref_lib holder) ?s1 = (r, s)" by fastforce
  have s: "r = None" "rr_time s = 2700 * Millisecond"
    using run by (auto simp: watchdog_tick_def Renew_def ref_extend_def owner_key_iff later_def expired_or_def
        Second_def Millisecond_def)
  have round: "watch_round ref_lib ref_view (100 * Millisecond) 0 holder (svc held_world) None s"
    unfolding watch_round_def
    by (rule exI [of _ ?s1], intro conjI later_undisturbed)
      (use run s in \<open>simp_all add: later_def watchdogInterval_def Second_def Millisecond_def\<close>)
  have "holds ref_lib ref_view s holder"
    by (rule watchdog_keeps_lock [OF ref_service held_reachable world_simps(1) holder_holds(1),
          where late = "100 * Millisecond" and d = 0])
      (use watched.renewed [OF watched.begun round] in \<open>simp_all add: watchdogInterval_def Second_def Millisecond_def\<close>)
  then show ?thesis by (simp add: run)
qed

theorem retry_delay_bounds_witness:
  "case retryDelay defaultLockOption 1 (\<lambda>n. n - 1) of
     Inl _ \<Rightarrow> False | Inr w \<Rightarrow> 100 * Millisecond \<le> w \<and> w < 150 * Millisecond"
  using retry_delay_bounds [of "\<lambda>n. n - 1" defaultLockOption 1]
  by (simp add: defaultLockOption_def int64_max_def Millisecond_def split: sum.splits)

end
