(* ===== verification/Lock_Watchdog.thy ===== *)
theory Lock_Watchdog
  imports Main
begin

text \<open>
  The goroutines of one \<^verbatim>\<open>redisLock\<close> (\<^verbatim>\<open>lock/redis.go\<close>): any number of callers of Acquire, TryAcquire,
  Release and Renew, the watchdogs, the mutex \<^verbatim>\<open>muMu\<close> and the channels \<^verbatim>\<open>stop\<close> and \<^verbatim>\<open>done\<close>. The calls
  to redsync take any time and have any result; what they do is in theory Lock_Client.
\<close>

section \<open>Goroutines\<close>

text \<open>
  Where a caller stands. \<open>A_\<close>: Acquire (TryAcquire enters at \<open>A_Call\<close>), with \<^verbatim>\<open>startWatchdog\<close> from
  \<open>A_Start\<close> to \<open>A_New\<close>; \<open>R_\<close>: Release; \<open>N_\<close>: Renew. The argument is the watchdog the caller stops.
\<close>

datatype caller_pc =
    Idle
  | A_Begin | A_Read | A_Call | A_Lock | A_Start | A_Close nat | A_Wait nat | A_New | A_Unlock
  | R_Begin | R_Take | R_Unlock "nat option" | R_Close nat | R_Wait nat | R_Call
  | N_Begin | N_Read | N_Call

datatype dog_pc = D_Select | D_Begin | D_Read | D_Call | D_Exit

datatype thread = Caller nat | Dog nat

record lock_threads =
  muMu :: "thread option"
  cur_wd :: "nat option"
  stopped :: "nat set"
  exited :: "nat set"
  born :: nat
  caller :: "nat \<Rightarrow> caller_pc"
  dog :: "nat \<Rightarrow> dog_pc"
  panicked :: bool

definition idle_threads :: lock_threads where
  "idle_threads = \<lparr>muMu = None, cur_wd = None, stopped = {}, exited = {}, born = 0,
     caller = (\<lambda>_. Idle), dog = (\<lambda>_. D_Select), panicked = False\<rparr>"

definition goto :: "nat \<Rightarrow> caller_pc \<Rightarrow> lock_threads \<Rightarrow> lock_threads" where
  "goto g pc s = s\<lparr>caller := (caller s)(g := pc)\<rparr>"

definition dog_goto :: "nat \<Rightarrow> dog_pc \<Rightarrow> lock_threads \<Rightarrow> lock_threads" where
  "dog_goto d pc s = s\<lparr>dog := (dog s)(d := pc)\<rparr>"

text \<open>\<^verbatim>\<open>close(w.stop)\<close>; closing a closed channel panics.\<close>

definition close_stop :: "nat \<Rightarrow> lock_threads \<Rightarrow> lock_threads" where
  "close_stop d s = (if d \<in> stopped s then s\<lparr>panicked := True\<rparr> else s\<lparr>stopped := insert d (stopped s)\<rparr>)"

definition lock_by :: "thread \<Rightarrow> lock_threads \<Rightarrow> lock_threads" where
  "lock_by t s = s\<lparr>muMu := Some t\<rparr>"

definition unlock_mu :: "lock_threads \<Rightarrow> lock_threads" where
  "unlock_mu s = s\<lparr>muMu := None\<rparr>"

text \<open>\<^verbatim>\<open>newWatchdog\<close>: a goroutine with fresh channels.\<close>

definition newWatchdog :: "lock_threads \<Rightarrow> lock_threads" where
  "newWatchdog s = s\<lparr>born := Suc (born s), dog := (dog s)(born s := D_Select), cur_wd := Some (born s)\<rparr>"

text \<open>The steps of a caller; \<open>w\<close> is the option EnableWatchdog.\<close>

inductive caller_step :: "bool \<Rightarrow> nat \<Rightarrow> lock_threads \<Rightarrow> lock_threads \<Rightarrow> bool" for w g where
  acquire: "caller s g = Idle \<Longrightarrow> caller_step w g s (goto g A_Begin s)"
| acquire_lock: "caller s g = A_Begin \<Longrightarrow> muMu s = None \<Longrightarrow> caller_step w g s (goto g A_Read (lock_by (Caller g) s))"
| acquire_read: "caller s g = A_Read \<Longrightarrow> caller_step w g s (goto g A_Call (unlock_mu s))"
| try_acquire: "caller s g = Idle \<Longrightarrow> caller_step w g s (goto g A_Call s)"
| not_acquired: "caller s g = A_Call \<Longrightarrow> caller_step w g s (goto g Idle s)"
| acquired: "caller s g = A_Call \<Longrightarrow> caller_step w g s (goto g A_Lock s)"
| start_lock: "caller s g = A_Lock \<Longrightarrow> muMu s = None \<Longrightarrow> caller_step w g s (goto g A_Start (lock_by (Caller g) s))"
| start_off: "caller s g = A_Start \<Longrightarrow> \<not> w \<Longrightarrow> caller_step w g s (goto g A_Unlock s)"
| start_new: "caller s g = A_Start \<Longrightarrow> w \<Longrightarrow> cur_wd s = None \<Longrightarrow> caller_step w g s (goto g A_New s)"
| start_old: "caller s g = A_Start \<Longrightarrow> w \<Longrightarrow> cur_wd s = Some d \<Longrightarrow> caller_step w g s (goto g (A_Close d) s)"
| start_close: "caller s g = A_Close d \<Longrightarrow> caller_step w g s (goto g (A_Wait d) (close_stop d s))"
| start_wait: "caller s g = A_Wait d \<Longrightarrow> d \<in> exited s \<Longrightarrow> caller_step w g s (goto g A_New (s\<lparr>cur_wd := None\<rparr>))"
| start_dog: "caller s g = A_New \<Longrightarrow> caller_step w g s (goto g A_Unlock (newWatchdog s))"
| start_unlock: "caller s g = A_Unlock \<Longrightarrow> caller_step w g s (goto g Idle (unlock_mu s))"
| release: "caller s g = Idle \<Longrightarrow> caller_step w g s (goto g R_Begin s)"
| release_lock: "caller s g = R_Begin \<Longrightarrow> muMu s = None \<Longrightarrow> caller_step w g s (goto g R_Take (lock_by (Caller g) s))"
| release_take: "caller s g = R_Take \<Longrightarrow> caller_step w g s (goto g (R_Unlock (cur_wd s)) (s\<lparr>cur_wd := None\<rparr>))"
| release_none: "caller s g = R_Unlock None \<Longrightarrow> caller_step w g s (goto g R_Call (unlock_mu s))"
| release_some: "caller s g = R_Unlock (Some d) \<Longrightarrow> caller_step w g s (goto g (R_Close d) (unlock_mu s))"
| release_close: "caller s g = R_Close d \<Longrightarrow> caller_step w g s (goto g (R_Wait d) (close_stop d s))"
| release_wait: "caller s g = R_Wait d \<Longrightarrow> d \<in> exited s \<Longrightarrow> caller_step w g s (goto g R_Call s)"
| released: "caller s g = R_Call \<Longrightarrow> caller_step w g s (goto g Idle s)"
| renew: "caller s g = Idle \<Longrightarrow> caller_step w g s (goto g N_Begin s)"
| renew_lock: "caller s g = N_Begin \<Longrightarrow> muMu s = None \<Longrightarrow> caller_step w g s (goto g N_Read (lock_by (Caller g) s))"
| renew_read: "caller s g = N_Read \<Longrightarrow> caller_step w g s (goto g N_Call (unlock_mu s))"
| renewed: "caller s g = N_Call \<Longrightarrow> caller_step w g s (goto g Idle s)"

text \<open>
  The loop of a watchdog: \<^verbatim>\<open>select\<close> on \<^verbatim>\<open>stop\<close> and the timer, which may fire at any time, and
  \<^verbatim>\<open>renewFn\<close>, which is Renew and takes \<^verbatim>\<open>muMu\<close>.
\<close>

inductive dog_step :: "nat \<Rightarrow> lock_threads \<Rightarrow> lock_threads \<Rightarrow> bool" for d where
  stop: "d < born s \<Longrightarrow> dog s d = D_Select \<Longrightarrow> d \<in> stopped s
    \<Longrightarrow> dog_step d s (dog_goto d D_Exit (s\<lparr>exited := insert d (exited s)\<rparr>))"
| timer: "d < born s \<Longrightarrow> dog s d = D_Select \<Longrightarrow> dog_step d s (dog_goto d D_Begin s)"
| dog_lock: "d < born s \<Longrightarrow> dog s d = D_Begin \<Longrightarrow> muMu s = None \<Longrightarrow> dog_step d s (dog_goto d D_Read (lock_by (Dog d) s))"
| dog_read: "d < born s \<Longrightarrow> dog s d = D_Read \<Longrightarrow> dog_step d s (dog_goto d D_Call (unlock_mu s))"
| dog_called: "d < born s \<Longrightarrow> dog s d = D_Call \<Longrightarrow> dog_step d s (dog_goto d D_Select s)"

definition thread_step :: "bool \<Rightarrow> lock_threads \<Rightarrow> lock_threads \<Rightarrow> bool" where
  "thread_step w s s' \<longleftrightarrow> (\<exists>g. caller_step w g s s') \<or> (\<exists>d. dog_step d s s')"

abbreviation thread_steps :: "bool \<Rightarrow> lock_threads \<Rightarrow> lock_threads \<Rightarrow> bool" where
  "thread_steps w \<equiv> (thread_step w)\<^sup>*\<^sup>*"

definition threads_reachable :: "bool \<Rightarrow> lock_threads \<Rightarrow> bool" where
  "threads_reachable w s \<longleftrightarrow> thread_steps w idle_threads s"

lemma goto_simps [simp]:
  "muMu (goto g pc s) = muMu s" "cur_wd (goto g pc s) = cur_wd s" "stopped (goto g pc s) = stopped s"
  "exited (goto g pc s) = exited s" "born (goto g pc s) = born s" "dog (goto g pc s) = dog s"
  "panicked (goto g pc s) = panicked s" "caller (goto g pc s) = (caller s)(g := pc)"
  by (simp_all add: goto_def)

lemma dog_goto_simps [simp]:
  "muMu (dog_goto d pc s) = muMu s" "cur_wd (dog_goto d pc s) = cur_wd s" "stopped (dog_goto d pc s) = stopped s"
  "exited (dog_goto d pc s) = exited s" "born (dog_goto d pc s) = born s" "caller (dog_goto d pc s) = caller s"
  "panicked (dog_goto d pc s) = panicked s" "dog (dog_goto d pc s) = (dog s)(d := pc)"
  by (simp_all add: dog_goto_def)

lemma lock_by_simps [simp]:
  "muMu (lock_by t s) = Some t" "cur_wd (lock_by t s) = cur_wd s" "stopped (lock_by t s) = stopped s"
  "exited (lock_by t s) = exited s" "born (lock_by t s) = born s" "caller (lock_by t s) = caller s"
  "panicked (lock_by t s) = panicked s" "dog (lock_by t s) = dog s"
  by (simp_all add: lock_by_def)

lemma unlock_mu_simps [simp]:
  "muMu (unlock_mu s) = None" "cur_wd (unlock_mu s) = cur_wd s" "stopped (unlock_mu s) = stopped s"
  "exited (unlock_mu s) = exited s" "born (unlock_mu s) = born s" "caller (unlock_mu s) = caller s"
  "panicked (unlock_mu s) = panicked s" "dog (unlock_mu s) = dog s"
  by (simp_all add: unlock_mu_def)

lemma newWatchdog_simps [simp]:
  "muMu (newWatchdog s) = muMu s" "cur_wd (newWatchdog s) = Some (born s)" "stopped (newWatchdog s) = stopped s"
  "exited (newWatchdog s) = exited s" "born (newWatchdog s) = Suc (born s)" "caller (newWatchdog s) = caller s"
  "panicked (newWatchdog s) = panicked s" "dog (newWatchdog s) = (dog s)(born s := D_Select)"
  by (simp_all add: newWatchdog_def)

lemma close_stop_simps [simp]:
  "muMu (close_stop d s) = muMu s" "cur_wd (close_stop d s) = cur_wd s"
  "stopped (close_stop d s) = insert d (stopped s)"
  "exited (close_stop d s) = exited s" "born (close_stop d s) = born s" "caller (close_stop d s) = caller s"
  "panicked (close_stop d s) \<longleftrightarrow> panicked s \<or> d \<in> stopped s" "dog (close_stop d s) = dog s"
  by (auto simp: close_stop_def)

section \<open>The invariant\<close>

text \<open>A caller inside \<^verbatim>\<open>muMu\<close>; a caller that has taken the watchdog and will close its channel.\<close>

fun critical :: "caller_pc \<Rightarrow> bool" where
  "critical A_Read = True" | "critical A_Start = True" | "critical (A_Close _) = True"
| "critical (A_Wait _) = True" | "critical A_New = True" | "critical A_Unlock = True"
| "critical R_Take = True" | "critical (R_Unlock _) = True" | "critical N_Read = True"
| "critical _ = False"

fun took :: "caller_pc \<Rightarrow> nat option" where
  "took (R_Unlock x) = x" | "took (R_Close d) = Some d" | "took _ = None"

definition mutex_inv :: "lock_threads \<Rightarrow> bool" where
  "mutex_inv s \<longleftrightarrow>
     (\<forall>g. critical (caller s g) \<longleftrightarrow> muMu s = Some (Caller g)) \<and>
     (\<forall>d. d < born s \<and> dog s d = D_Read \<longleftrightarrow> muMu s = Some (Dog d))"

definition dog_inv :: "lock_threads \<Rightarrow> bool" where
  "dog_inv s \<longleftrightarrow>
     \<not> panicked s \<and> (\<forall>d \<in> stopped s. d < born s) \<and>
     (\<forall>d. d \<in> exited s \<longleftrightarrow> d < born s \<and> dog s d = D_Exit) \<and>
     (\<forall>d. cur_wd s = Some d \<longrightarrow> d < born s \<and> (d \<in> stopped s \<longrightarrow> (\<exists>g. caller s g = A_Wait d))) \<and>
     (\<forall>g d. took (caller s g) = Some d \<longrightarrow> d < born s \<and> d \<notin> stopped s \<and> cur_wd s \<noteq> Some d) \<and>
     (\<forall>g g' d. took (caller s g) = Some d \<longrightarrow> took (caller s g') = Some d \<longrightarrow> g = g') \<and>
     (\<forall>g d. caller s g = A_Close d \<longrightarrow> cur_wd s = Some d) \<and>
     (\<forall>g d. caller s g = A_Wait d \<longrightarrow> cur_wd s = Some d \<and> d \<in> stopped s) \<and>
     (\<forall>g d. caller s g = R_Wait d \<longrightarrow> d \<in> stopped s) \<and>
     (\<forall>g. caller s g = A_New \<longrightarrow> cur_wd s = None)"

lemma mutex_inv_start: "mutex_inv idle_threads"
  by (simp add: mutex_inv_def idle_threads_def)

lemma dog_inv_start: "dog_inv idle_threads"
  by (simp add: dog_inv_def idle_threads_def)

lemma mutex_invD:
  assumes "mutex_inv s"
  shows "critical (caller s g) \<longleftrightarrow> muMu s = Some (Caller g)"
    and "d < born s \<and> dog s d = D_Read \<longleftrightarrow> muMu s = Some (Dog d)"
  using assms unfolding mutex_inv_def by blast+

lemma caller_keeps_mutex:
  assumes step: "caller_step w g s s'" and inv: "mutex_inv s"
  shows "mutex_inv s'"
  using step mutex_invD(1) [OF inv, of g]
  by cases (use inv in \<open>auto simp: mutex_inv_def less_Suc_eq\<close>)

lemma dog_keeps_mutex:
  assumes step: "dog_step d s s'" and inv: "mutex_inv s"
  shows "mutex_inv s'"
  using step mutex_invD(2) [OF inv, of d]
  by cases (use inv in \<open>auto simp: mutex_inv_def\<close>)

lemma two_critical:
  "mutex_inv s \<Longrightarrow> critical (caller s g) \<Longrightarrow> critical (caller s g') \<Longrightarrow> g = g'"
  by (simp add: mutex_invD)

text \<open>Facts about the callers of a state of the invariant.\<close>

lemma dog_invD:
  assumes "dog_inv s"
  shows "\<not> panicked s" "d \<in> stopped s \<Longrightarrow> d < born s" "d \<in> exited s \<longleftrightarrow> d < born s \<and> dog s d = D_Exit"
    and "cur_wd s = Some d \<Longrightarrow> d < born s"
    and "cur_wd s = Some d \<Longrightarrow> d \<in> stopped s \<Longrightarrow> \<exists>g. caller s g = A_Wait d"
    and "took (caller s g) = Some d \<Longrightarrow> d < born s"
    and "took (caller s g) = Some d \<Longrightarrow> d \<notin> stopped s"
    and "took (caller s g) = Some d \<Longrightarrow> cur_wd s \<noteq> Some d"
    and "took (caller s g) = Some d \<Longrightarrow> took (caller s g') = Some d \<Longrightarrow> g = g'"
    and "caller s g = A_Close d \<Longrightarrow> cur_wd s = Some d"
    and "caller s g = A_Wait d \<Longrightarrow> cur_wd s = Some d"
    and "caller s g = A_Wait d \<Longrightarrow> d \<in> stopped s"
    and "caller s g = R_Wait d \<Longrightarrow> d \<in> stopped s"
    and "caller s g = A_New \<Longrightarrow> cur_wd s = None"
  using assms unfolding dog_inv_def by blast+

lemma dog_invI:
  assumes "\<not> panicked s" "\<And>d. d \<in> stopped s \<Longrightarrow> d < born s"
    and "\<And>d. d \<in> exited s \<longleftrightarrow> d < born s \<and> dog s d = D_Exit"
    and "\<And>d. cur_wd s = Some d \<Longrightarrow> d < born s"
    and "\<And>d. cur_wd s = Some d \<Longrightarrow> d \<in> stopped s \<Longrightarrow> \<exists>g. caller s g = A_Wait d"
    and "\<And>g d. took (caller s g) = Some d \<Longrightarrow> d < born s \<and> d \<notin> stopped s \<and> cur_wd s \<noteq> Some d"
    and "\<And>g g' d. took (caller s g) = Some d \<Longrightarrow> took (caller s g') = Some d \<Longrightarrow> g = g'"
    and "\<And>g d. caller s g = A_Close d \<Longrightarrow> cur_wd s = Some d"
    and "\<And>g d. caller s g = A_Wait d \<Longrightarrow> cur_wd s = Some d \<and> d \<in> stopped s"
    and "\<And>g d. caller s g = R_Wait d \<Longrightarrow> d \<in> stopped s"
    and "\<And>g. caller s g = A_New \<Longrightarrow> cur_wd s = None"
  shows "dog_inv s"
  using assms unfolding dog_inv_def by blast

lemma dog_keeps_dog:
  assumes step: "dog_step d s s'" and inv: "dog_inv s"
  shows "dog_inv s'"
proof -
  have frame: "caller s' = caller s" "cur_wd s' = cur_wd s" "stopped s' = stopped s" "born s' = born s"
      "panicked s' = panicked s"
    using step by (cases; simp)+
  have "x \<in> exited s' \<longleftrightarrow> x < born s' \<and> dog s' x = D_Exit" for x
    using step by cases (use dog_invD(3) [OF inv, of x] in \<open>auto split: if_splits\<close>)
  with dog_invD [OF inv] show ?thesis
    by (intro dog_invI) (auto simp: frame)
qed

lemma not_stopped:
  assumes "mutex_inv s" "dog_inv s" "critical (caller s g)" "cur_wd s = Some d" "caller s g \<noteq> A_Wait d"
  shows "d \<notin> stopped s"
  using dog_invD(5) [OF assms(2,4)] two_critical [OF assms(1,3)] assms(5) by (metis critical.simps(4))

lemma caller_keeps_dog:
  assumes step: "caller_step w g s s'" and m: "mutex_inv s" and inv: "dog_inv s"
  shows "dog_inv s'"
proof (rule dog_invI)
  note D = dog_invD [OF inv]
  have alone: "caller s g' \<noteq> A_Wait d" "caller s g' \<noteq> A_Close d" "caller s g' \<noteq> A_New"
    if "critical (caller s g)" "g' \<noteq> g" for g' d
    using two_critical [OF m that(1), of g'] that(2) by auto
  have close: "d \<notin> stopped s" "d < born s" if "caller s g = A_Close d" for d
    using not_stopped [OF m inv, of g d] D(4,10) that by simp_all
  have close': "d \<notin> stopped s" "d < born s" "cur_wd s \<noteq> Some d" if "caller s g = R_Close d" for d
    using D(6-8) [of g d] that by simp_all
  have took_s: "d < born s" "d \<notin> stopped s" "cur_wd s \<noteq> Some d"
    if "took (caller s g') = Some d" for g' d
    using D(6-8) that by blast+
  have one: "g' = g" if "took (caller s g) = Some d" "took (caller s g') = Some d" for g' d
    using D(9) that by blast
  have one_close: "took (caller s g') \<noteq> Some d" if "g' \<noteq> g" "caller s g = A_Close d \<or> caller s g = R_Close d" for g' d
    using that D(10) [of g d] D(8) [of g' d] D(9) [of g d g'] by auto
  have take: "d \<notin> stopped s" "d < born s" "took (caller s g') \<noteq> Some d"
    if "caller s g = R_Take" "cur_wd s = Some d" for g' d
    using not_stopped [OF m inv, of g d] D(4,8) that by auto
  show "\<not> panicked s'"
    using step by cases (use D(1) close close' in auto)
  show "d < born s'" if "d \<in> stopped s'" for d
    using step that by cases (use D(2) close close' in \<open>auto intro: less_SucI\<close>)
  show "d \<in> exited s' \<longleftrightarrow> d < born s' \<and> dog s' d = D_Exit" for d
    using step by cases (use D(3) [of d] in auto)
  show "d < born s'" if "cur_wd s' = Some d" for d
    using step that by cases (use D(4) in auto)
  show "\<exists>g. caller s' g = A_Wait d" if "cur_wd s' = Some d" "d \<in> stopped s'" for d
  proof -
    have "cur_wd s = Some d \<and> d \<in> stopped s \<and> caller s g \<noteq> A_Wait d \<or> caller s' g = A_Wait d"
      using step that by cases (use D(2,10) [of d] close'(3) in auto)
    moreover have "caller s' g' = caller s g'" if "g' \<noteq> g" for g'
      using step that by cases auto
    ultimately show ?thesis using D(5) by metis
  qed
  show "d < born s' \<and> d \<notin> stopped s' \<and> cur_wd s' \<noteq> Some d" if "took (caller s' g') = Some d" for g' d
    using step that
  proof cases
    case (start_close x)
    with that took_s [of g' d] one_close [of g' x] show ?thesis by (auto split: if_splits)
  next
    case (release_close x)
    with that took_s [of g' d] one_close [of g' x] show ?thesis by (auto split: if_splits)
  next
    case release_take
    with that took_s [of g' d] take(1,2) [of d] show ?thesis by (auto split: if_splits)
  qed (use took_s [of g' d] in \<open>auto split: if_splits\<close>)
  show "g1 = g2" if "took (caller s' g1) = Some d" "took (caller s' g2) = Some d" for g1 g2 d
  proof -
    have still: "took (caller s g') = Some d" if "took (caller s' g') = Some d" "caller s g \<noteq> R_Take \<or> g' \<noteq> g" for g'
      using step that by cases (auto split: if_splits)
    show ?thesis
    proof (cases "caller s g = R_Take")
      case True
      with step have cur: "took (caller s' g) = cur_wd s" by cases auto
      show ?thesis using still [of g1] still [of g2] that cur take(3) [OF True] D(9) by metis
    next
      case False
      with still that D(9) show ?thesis by blast
    qed
  qed
  show "cur_wd s' = Some d" if "caller s' g' = A_Close d" for g' d
    using step that
    by cases (use D(10) alone in \<open>auto split: if_splits\<close>)
  show "cur_wd s' = Some d \<and> d \<in> stopped s'" if "caller s' g' = A_Wait d" for g' d
    using step that
    by cases (use D(10-12) alone in \<open>auto split: if_splits\<close>)
  show "d \<in> stopped s'" if "caller s' g' = R_Wait d" for g' d
    using step that by cases (use D(13) in \<open>auto split: if_splits\<close>)
  show "cur_wd s' = None" if "caller s' g' = A_New" for g'
    using step that
    by cases (use D(14) alone in \<open>auto split: if_splits\<close>)
qed

lemma reachable_inv:
  assumes "threads_reachable w s"
  shows "mutex_inv s \<and> dog_inv s"
  using assms unfolding threads_reachable_def
proof (induction rule: rtranclp_induct)
  case base
  show ?case by (simp add: mutex_inv_start dog_inv_start)
next
  case (step s s')
  then show ?case
    unfolding thread_step_def by (blast dest: caller_keeps_mutex dog_keeps_mutex caller_keeps_dog dog_keeps_dog)
qed

text \<open>
  C22. No interleaving of any number of Acquire, TryAcquire, Release and Renew calls on one lock, and
  of its watchdogs, closes the stop channel of a watchdog twice, which would panic.
\<close>

theorem stop_closed_once:
  assumes "threads_reachable w s"
  shows "\<not> panicked s"
  using reachable_inv [OF assms] dog_invD(1) by blast

section \<open>Release comes back\<close>

lemma caller_path: "caller_step w g s s' \<Longrightarrow> thread_steps w s' s'' \<Longrightarrow> thread_steps w s s''"
  by (rule converse_rtranclp_into_rtranclp) (auto simp: thread_step_def)

text \<open>From \<open>s\<close> to \<open>s'\<close> only watchdogs may have moved.\<close>

definition by_dogs :: "bool \<Rightarrow> lock_threads \<Rightarrow> lock_threads \<Rightarrow> bool" where
  "by_dogs w s s' \<longleftrightarrow> thread_steps w s s' \<and> mutex_inv s' \<and> dog_inv s' \<and>
     caller s' = caller s \<and> cur_wd s' = cur_wd s \<and> stopped s' = stopped s \<and> born s' = born s"

lemma by_dogs_refl: "mutex_inv s \<Longrightarrow> dog_inv s \<Longrightarrow> by_dogs w s s"
  by (simp add: by_dogs_def)

lemma by_dogs_step:
  assumes "by_dogs w s s1" and step: "dog_step d s1 s2"
  shows "by_dogs w s s2"
proof -
  have "thread_step w s1 s2" using step by (auto simp: thread_step_def)
  moreover have "caller s2 = caller s1" "cur_wd s2 = cur_wd s1" "stopped s2 = stopped s1" "born s2 = born s1"
    using step by (cases; simp)+
  ultimately show ?thesis
    using assms dog_keeps_mutex [OF step] dog_keeps_dog [OF step] by (auto simp: by_dogs_def)
qed

text \<open>When no caller is inside \<^verbatim>\<open>muMu\<close>, the watchdog that is leaves it.\<close>

lemma mu_freed:
  assumes dogs: "by_dogs w s s1" and free: "\<And>g. \<not> critical (caller s g)"
  obtains s2 where "by_dogs w s s2" "muMu s2 = None" "\<And>d. dog s1 d = D_Begin \<Longrightarrow> dog s2 d = D_Begin"
proof (cases "muMu s1")
  case None
  with dogs show ?thesis using that by blast
next
  case (Some t)
  from dogs have inv: "mutex_inv s1" and "caller s1 = caller s" by (auto simp: by_dogs_def)
  with free Some obtain d where t: "t = Dog d" "d < born s1" "dog s1 d = D_Read"
    by (cases t) (auto simp: mutex_inv_def)
  from by_dogs_step [OF dogs dog_step.dog_read [OF t(2,3)]]
  show ?thesis by (rule that) (auto simp: t(3))
qed

text \<open>A watchdog whose stop channel is closed can come to exit.\<close>

lemma dog_exits:
  assumes inv: "mutex_inv s" "dog_inv s" and free: "\<And>g. \<not> critical (caller s g)" and d: "d \<in> stopped s"
  obtains s' where "by_dogs w s s'" "d \<in> exited s'"
proof -
  note found = that
  have alive: "d < born s1" "d \<in> stopped s1" if "by_dogs w s s1" for s1
    using that d dog_invD(2) [OF inv(2)] by (auto simp: by_dogs_def)
  have from_select: thesis if s1: "by_dogs w s s1" "dog s1 d = D_Select" for s1
    by (rule found [OF by_dogs_step [OF s1(1) dog_step.stop [OF alive(1) [OF s1(1)] s1(2) alive(2) [OF s1(1)]]]]) simp
  have from_call: thesis if s1: "by_dogs w s s1" "dog s1 d = D_Call" for s1
    by (rule from_select [OF by_dogs_step [OF s1(1) dog_step.dog_called [OF alive(1) [OF s1(1)] s1(2)]]]) simp
  have from_read: thesis if s1: "by_dogs w s s1" "dog s1 d = D_Read" for s1
    by (rule from_call [OF by_dogs_step [OF s1(1) dog_step.dog_read [OF alive(1) [OF s1(1)] s1(2)]]]) simp
  have from_begin: thesis if s1: "by_dogs w s s1" "dog s1 d = D_Begin" for s1
  proof -
    obtain s2 where s2: "by_dogs w s s2" "muMu s2 = None" "dog s2 d = D_Begin"
      using mu_freed [OF s1(1) free] s1(2) by metis
    show thesis
      by (rule from_read [OF by_dogs_step [OF s2(1) dog_step.dog_lock [OF alive(1) [OF s2(1)] s2(3,2)]]]) simp
  qed
  note here = by_dogs_refl [OF inv, of w]
  show thesis
  proof (cases "dog s d")
    case D_Exit
    with dog_invD(3) [OF inv(2), of d] alive(1) [OF here] found [OF here] show ?thesis by simp
  qed (use from_select from_call from_read from_begin here in blast)+
qed

text \<open>One caller at a time: the others are idle.\<close>

definition finishes :: "bool \<Rightarrow> nat \<Rightarrow> lock_threads \<Rightarrow> bool" where
  "finishes w g s \<longleftrightarrow> (\<exists>s'. thread_steps w s s' \<and> caller s' g = Idle)"

lemma finishes_step: "caller_step w g s s' \<Longrightarrow> finishes w g s' \<Longrightarrow> finishes w g s"
  unfolding finishes_def by (blast intro: caller_path)

lemma finishes_dogs: "by_dogs w s s' \<Longrightarrow> finishes w g s' \<Longrightarrow> finishes w g s"
  unfolding finishes_def by_dogs_def by (blast intro: rtranclp_trans)

lemma finishes_release:
  assumes inv: "mutex_inv s" "dog_inv s" and others: "\<And>g'. g' \<noteq> g \<Longrightarrow> caller s g' = Idle"
  shows "caller s g = R_Call \<Longrightarrow> finishes w g s"
    and "caller s g = R_Wait d \<Longrightarrow> finishes w g s"
    and "caller s g = R_Close d \<Longrightarrow> finishes w g s"
    and "caller s g = R_Unlock r \<Longrightarrow> finishes w g s"
    and "caller s g = R_Take \<Longrightarrow> finishes w g s"
    and "caller s g = R_Begin \<Longrightarrow> finishes w g s"
proof -
  have crit: "\<not> critical (caller s g')" if "\<not> critical (caller s g)" "\<And>g'. g' \<noteq> g \<Longrightarrow> caller s g' = Idle" for s g'
    using that by (cases "g' = g") auto
  have call: "finishes w g s" if "caller s g = R_Call" for s
    using caller_step.released [OF that] by (rule finishes_step) (auto simp: finishes_def)
  have wait: "finishes w g s"
    if "mutex_inv s" "dog_inv s" "\<And>g'. g' \<noteq> g \<Longrightarrow> caller s g' = Idle" "caller s g = R_Wait d" for s d
  proof -
    have free: "\<not> critical (caller s g')" for g' using crit [OF _ that(3)] that(4) by simp
    note exits = dog_exits [OF that(1,2) free dog_invD(13) [OF that(2,4)], where w = w]
    obtain s' where s': "by_dogs w s s'" "d \<in> exited s'" by (rule exits)
    then have "caller s' g = R_Wait d" using that(4) by (simp add: by_dogs_def)
    then show ?thesis
      by (rule finishes_dogs [OF s'(1) finishes_step [OF caller_step.release_wait [OF _ s'(2)] call]]) simp_all
  qed
  have close: "finishes w g s"
    if "mutex_inv s" "dog_inv s" "\<And>g'. g' \<noteq> g \<Longrightarrow> caller s g' = Idle" "caller s g = R_Close d" for s d
  proof -
    note e = caller_step.release_close [OF that(4)]
    show ?thesis
      by (rule finishes_step [OF e], rule wait [OF caller_keeps_mutex [OF e that(1)] caller_keeps_dog [OF e that(1,2)]])
        (simp_all add: that(3))
  qed
  have unlock: "finishes w g s"
    if "mutex_inv s" "dog_inv s" "\<And>g'. g' \<noteq> g \<Longrightarrow> caller s g' = Idle" "caller s g = R_Unlock r" for s r
  proof (cases r)
    case None
    with that have "caller s g = R_Unlock None" by simp
    from caller_step.release_none [OF this] show ?thesis by (rule finishes_step) (rule call, simp)
  next
    case (Some d)
    with that have "caller s g = R_Unlock (Some d)" by simp
    note e = caller_step.release_some [OF this]
    show ?thesis
      by (rule finishes_step [OF e], rule close [OF caller_keeps_mutex [OF e that(1)] caller_keeps_dog [OF e that(1,2)]])
        (simp_all add: that(3))
  qed
  have take: "finishes w g s"
    if "mutex_inv s" "dog_inv s" "\<And>g'. g' \<noteq> g \<Longrightarrow> caller s g' = Idle" "caller s g = R_Take" for s
  proof -
    note e = caller_step.release_take [OF that(4)]
    show ?thesis
      by (rule finishes_step [OF e], rule unlock [OF caller_keeps_mutex [OF e that(1)] caller_keeps_dog [OF e that(1,2)]])
        (simp_all add: that(3))
  qed
  show "caller s g = R_Call \<Longrightarrow> finishes w g s" by (rule call)
  show "caller s g = R_Wait d \<Longrightarrow> finishes w g s" by (rule wait [OF inv others])
  show "caller s g = R_Close d \<Longrightarrow> finishes w g s" by (rule close [OF inv others])
  show "caller s g = R_Unlock r \<Longrightarrow> finishes w g s" by (rule unlock [OF inv others])
  show "caller s g = R_Take \<Longrightarrow> finishes w g s" by (rule take [OF inv others])
  show "finishes w g s" if begin_: "caller s g = R_Begin"
  proof -
    have free: "\<not> critical (caller s g')" for g' using crit [OF _ others] begin_ by simp
    obtain s' where s': "by_dogs w s s'" "muMu s' = None"
      by (rule mu_freed [OF by_dogs_refl [OF inv] free])
    then have pc: "caller s' g = R_Begin" "\<And>g'. g' \<noteq> g \<Longrightarrow> caller s' g' = Idle"
      and inv': "mutex_inv s'" "dog_inv s'" using begin_ others by (simp_all add: by_dogs_def)
    note e = caller_step.release_lock [OF pc(1) s'(2)]
    show ?thesis
      by (rule finishes_dogs [OF s'(1)], rule finishes_step [OF e],
          rule take [OF caller_keeps_mutex [OF e inv'(1)] caller_keeps_dog [OF e inv']])
        (simp_all add: pc(2))
  qed
qed

definition releasing :: "caller_pc \<Rightarrow> bool" where
  "releasing pc \<longleftrightarrow> pc \<in> {R_Begin, R_Take, R_Call} \<or> (\<exists>x. pc = R_Unlock x) \<or> (\<exists>d. pc = R_Close d \<or> pc = R_Wait d)"

text \<open>
  C23. Release always can finish when one goroutine at a time uses the lock, wherever its watchdog
  stands, also inside a renewal: it waits for the watchdog only after leaving \<^verbatim>\<open>muMu\<close>.
\<close>

theorem release_finishes:
  assumes "threads_reachable w s" and "\<And>g'. g' \<noteq> g \<Longrightarrow> caller s g' = Idle" and "releasing (caller s g)"
  shows "\<exists>s'. thread_steps w s s' \<and> caller s' g = Idle"
  using reachable_inv [OF assms(1)] finishes_release [where s = s and g = g and w = w] assms(2,3)
  unfolding releasing_def finishes_def by blast

section \<open>Acquiring again can block for ever\<close>

text \<open>
  The caller waits for its watchdog to exit while it holds \<^verbatim>\<open>muMu\<close>, which the watchdog waits for.
\<close>

definition deadlocked :: "nat \<Rightarrow> nat \<Rightarrow> lock_threads \<Rightarrow> bool" where
  "deadlocked g d s \<longleftrightarrow> caller s g = A_Wait d \<and> dog s d = D_Begin \<and> d < born s \<and> muMu s = Some (Caller g)"

lemma deadlock_stays:
  assumes "mutex_inv s" "dog_inv s" "deadlocked g d s" "thread_step w s s'"
  shows "deadlocked g d s'"
proof -
  have no: "\<not> critical (caller s h)" if "h \<noteq> g" for h
    using assms(1,3) that by (auto simp: mutex_inv_def deadlocked_def)
  have gone: "d \<notin> exited s" using dog_invD(3) [OF assms(2), of d] assms(3) by (simp add: deadlocked_def)
  from assms(4) consider h where "caller_step w h s s'" | x where "dog_step x s s'"
    by (auto simp: thread_step_def)
  then show ?thesis
  proof cases
    case (1 h)
    then show ?thesis
      using assms(3) gone no [of h] by (cases "h = g"; cases) (auto simp: deadlocked_def)
  next
    case (2 x)
    then show ?thesis
      using assms(1,3) by cases (auto simp: deadlocked_def mutex_inv_def)
  qed
qed

lemma deadlock_permanent:
  assumes "thread_steps w s s'" "mutex_inv s" "dog_inv s" "deadlocked g d s"
  shows "mutex_inv s' \<and> dog_inv s' \<and> deadlocked g d s'"
  using assms
proof (induction rule: rtranclp_induct)
  case (step t u)
  then have t: "mutex_inv t" "dog_inv t" "deadlocked g d t" by simp_all
  with deadlock_stays [OF t step(2)] step(2) show ?case
    unfolding thread_step_def by (blast dest: caller_keeps_mutex dog_keeps_mutex caller_keeps_dog dog_keeps_dog)
qed simp

text \<open>
  The run: acquire with a watchdog; the lease is lost without a Release; acquire again, while the
  watchdog's timer fires between the second \<^verbatim>\<open>LockContext\<close> and \<^verbatim>\<open>startWatchdog\<close>.
\<close>

definition acquired_state :: lock_threads where
  "acquired_state = goto 0 Idle (unlock_mu (goto 0 A_Unlock (newWatchdog (goto 0 A_New (goto 0 A_Start
     (lock_by (Caller 0) (goto 0 A_Lock (goto 0 A_Call idle_threads))))))))"

definition reacquiring_state :: lock_threads where
  "reacquiring_state = goto 0 (A_Wait 0) (close_stop 0 (goto 0 (A_Close 0) (goto 0 A_Start
     (lock_by (Caller 0) (dog_goto 0 D_Begin (goto 0 A_Lock (goto 0 A_Call acquired_state)))))))"

lemma idle_simps [simp]:
  "caller idle_threads g = Idle" "muMu idle_threads = None" "cur_wd idle_threads = None"
  "born idle_threads = 0" "dog idle_threads d = D_Select"
  by (simp_all add: idle_threads_def)

lemma acquired_reachable: "thread_steps True idle_threads acquired_state"
  unfolding acquired_state_def
  by (rule caller_path [OF caller_step.try_acquire [where g = 0]], simp,
      rule caller_path [OF caller_step.acquired [where g = 0]], simp,
      rule caller_path [OF caller_step.start_lock [where g = 0]], simp, simp,
      rule caller_path [OF caller_step.start_new [where g = 0]], simp, simp, simp,
      rule caller_path [OF caller_step.start_dog [where g = 0]], simp,
      rule caller_path [OF caller_step.start_unlock [where g = 0]], simp,
      rule rtranclp.rtrancl_refl)

lemma acquired_simps [simp]:
  "caller acquired_state g = Idle" "muMu acquired_state = None" "cur_wd acquired_state = Some 0"
  "born acquired_state = 1" "dog acquired_state d = D_Select"
  by (simp_all add: acquired_state_def)

lemma dog_path: "dog_step d s s' \<Longrightarrow> thread_steps w s' s'' \<Longrightarrow> thread_steps w s s''"
  by (rule converse_rtranclp_into_rtranclp) (auto simp: thread_step_def)

lemma reacquiring_reachable: "thread_steps True acquired_state reacquiring_state"
  unfolding reacquiring_state_def
  by (rule caller_path [OF caller_step.try_acquire [where g = 0]], simp,
      rule caller_path [OF caller_step.acquired [where g = 0]], simp,
      rule dog_path [OF dog_step.timer [where d = 0]], simp, simp,
      rule caller_path [OF caller_step.start_lock [where g = 0]], simp, simp,
      rule caller_path [OF caller_step.start_old [where g = 0 and d = 0]], simp, simp, simp,
      rule caller_path [OF caller_step.start_close [where g = 0 and d = 0]], simp,
      rule rtranclp.rtrancl_refl)

text \<open>
  C24. A second acquisition without a Release can block for ever. There is a reachable state, with one
  caller and its watchdog, from which no schedule lets the caller return or frees \<^verbatim>\<open>muMu\<close>: the
  caller waits inside \<^verbatim>\<open>startWatchdog\<close>, holding \<^verbatim>\<open>muMu\<close>, for a watchdog whose renewal waits for \<^verbatim>\<open>muMu\<close>.
\<close>

theorem reacquire_can_deadlock:
  "\<exists>s. threads_reachable True s \<and> caller s 0 = A_Wait 0 \<and>
     (\<nexists>s'. thread_steps True s s' \<and> (caller s' 0 = Idle \<or> muMu s' = None))"
proof (intro exI conjI)
  have reach: "threads_reachable True reacquiring_state"
    unfolding threads_reachable_def using acquired_reachable reacquiring_reachable by (rule rtranclp_trans)
  then show "threads_reachable True reacquiring_state" .
  show "caller reacquiring_state 0 = A_Wait 0" by (simp add: reacquiring_state_def)
  have "deadlocked 0 0 reacquiring_state" by (simp add: deadlocked_def reacquiring_state_def)
  with deadlock_permanent reachable_inv [OF reach]
  have "deadlocked 0 0 s'" if "thread_steps True reacquiring_state s'" for s' using that by blast
  then show "\<nexists>s'. thread_steps True reacquiring_state s' \<and> (caller s' 0 = Idle \<or> muMu s' = None)"
    by (auto simp: deadlocked_def)
qed

text \<open>The witnesses: a Release that finds its watchdog in a renewal.\<close>

definition releasing_state :: lock_threads where
  "releasing_state = dog_goto 0 D_Begin (goto 0 R_Begin acquired_state)"

lemma releasing_reachable: "threads_reachable True releasing_state"
proof -
  have "thread_steps True acquired_state releasing_state"
    unfolding releasing_state_def
    by (rule caller_path [OF caller_step.release [where g = 0]], simp,
        rule dog_path [OF dog_step.timer [where d = 0]], simp, simp, rule rtranclp.rtrancl_refl)
  with acquired_reachable show ?thesis unfolding threads_reachable_def by (rule rtranclp_trans)
qed

theorem stop_closed_once_witness: "\<not> panicked releasing_state"
  by (rule stop_closed_once [OF releasing_reachable])

theorem release_finishes_witness: "\<exists>s'. thread_steps True releasing_state s' \<and> caller s' 0 = Idle"
  by (rule release_finishes [OF releasing_reachable]) (simp_all add: releasing_state_def releasing_def)

end
