(* ===== verification/Queue_Envelope.thy ===== *)
theory Queue_Envelope
  imports Trace
begin

text \<open>
  The message envelope of \<^verbatim>\<open>taskqueue/asynqbroker/trace_envelope.go\<close>: wrapping a task's payload with
  trace, reply and metadata, and unwrapping it on the consumer's side, down to what
  \<^verbatim>\<open>encoding/json\<close> does with each field.
\<close>

section \<open>JSON texts\<close>

text \<open>A parsed JSON text; a number is its literal, an object keeps order and duplicates.\<close>

datatype json =
    JNull | JBool bool | JNum string | JStr string | JArr "json list" | JObj "(string \<times> json) list"

text \<open>
  \<^verbatim>\<open>encoding/json\<close> and \<^verbatim>\<open>encoding/base64\<close> as far as they are about texts: \<open>None\<close> is an error. What the
  decoder does with a parsed text and a Go type is defined below.
\<close>

record codec =
  json_text :: "json \<Rightarrow> string option"
  json_parse :: "string \<Rightarrow> json option"
  base64 :: "string \<Rightarrow> string"
  unbase64 :: "string \<Rightarrow> string option"

text \<open>Texts of ASCII characters pass through \<^verbatim>\<open>json.Marshal\<close> and the parser unchanged.\<close>

definition ascii :: "string \<Rightarrow> bool" where
  "ascii s \<longleftrightarrow> (\<forall>c \<in> set s. (of_char c :: nat) < 128)"

fun plain_json :: "json \<Rightarrow> bool" where
  "plain_json (JStr s) = ascii s"
| "plain_json (JNum s) = (\<exists>i. s = itoa i)"
| "plain_json (JArr vs) = (\<forall>v \<in> set vs. plain_json v)"
| "plain_json (JObj kvs) = (\<forall>(k, v) \<in> set kvs. ascii k \<and> plain_json v)"
| "plain_json _ = True"

definition codec_ok :: "codec \<Rightarrow> bool" where
  "codec_ok C \<longleftrightarrow>
     (\<forall>v. plain_json v \<longrightarrow> (\<exists>t. json_text C v = Some t \<and> json_parse C t = Some v)) \<and>
     (\<forall>b. unbase64 C (base64 C b) = Some b \<and> ascii (base64 C b))"

section \<open>Tasks\<close>

text \<open>\<^verbatim>\<open>ReplySpec\<close>, \<^verbatim>\<open>Task\<close>, \<^verbatim>\<open>TaskInfo\<close>. A nil slice or map is \<open>None\<close>.\<close>

datatype reply_spec = ReplySpec (reply_Queue: string)

record task =
  task_Type :: string
  task_Payload :: "string option"
  task_Queue :: string
  task_Reply :: "reply_spec option"
  task_Priority :: int
  task_Metadata :: "(string \<times> string) list option"

record task_info =
  ti_BrokerTaskID :: string
  ti_Queue :: string

text \<open>The values a context carries for this package.\<close>

record task_ctx =
  tk_trace :: "trace_context option"
  tk_log_trace :: string
  tk_log_span :: string

section \<open>The envelope\<close>

record envelope =
  env_Version :: int
  env_TraceID :: string
  env_SpanID :: string
  env_Sampled :: bool
  env_ReplyTo :: "json option"
  env_Meta :: "(string \<times> string) list option"
  env_Payload :: "string option"

definition empty_envelope :: envelope where
  "empty_envelope = \<lparr>env_Version = 0, env_TraceID = '''', env_SpanID = '''', env_Sampled = False,
     env_ReplyTo = None, env_Meta = None, env_Payload = None\<rparr>"

definition cloneMetadata :: "(string \<times> string) list option \<Rightarrow> (string \<times> string) list option" where
  "cloneMetadata m = (case m of None \<Rightarrow> None | Some [] \<Rightarrow> None | Some kvs \<Rightarrow> Some kvs)"

text \<open>What \<^verbatim>\<open>json.Marshal\<close> makes of the struct: its tags, \<^verbatim>\<open>omitempty\<close>, a byte slice as base64.\<close>

definition json_bytes :: "codec \<Rightarrow> string option \<Rightarrow> json" where
  "json_bytes C b = (case b of None \<Rightarrow> JNull | Some s \<Rightarrow> JStr (base64 C s))"

definition omit_string :: "string \<Rightarrow> string \<Rightarrow> (string \<times> json) list" where
  "omit_string k s = (if s = '''' then [] else [(k, JStr s)])"

definition envelope_json :: "codec \<Rightarrow> envelope \<Rightarrow> json" where
  "envelope_json C env = JObj (
     [(''_v'', JNum (itoa (env_Version env)))] @
     omit_string ''_tid'' (env_TraceID env) @
     omit_string ''_sid'' (env_SpanID env) @
     [(''_smpl'', JBool (env_Sampled env))] @
     (case env_ReplyTo env of None \<Rightarrow> [] | Some r \<Rightarrow> [(''_rto'', r)]) @
     (case cloneMetadata (env_Meta env) of None \<Rightarrow> []
      | Some kvs \<Rightarrow> [(''_meta'', JObj (map (\<lambda>(k, v). (k, JStr v)) kvs))]) @
     [(''payload'', json_bytes C (env_Payload env))])"

definition reply_json :: "reply_spec \<Rightarrow> json" where
  "reply_json r = JObj [(''Queue'', JStr (reply_Queue r))]"

text \<open>
  \<^verbatim>\<open>wrapWithTrace\<close>. The reply is marshalled first, to a raw message: here its parsed form. A nil
  payload that is sent as it is has no bytes.
\<close>

definition wrapWithTrace ::
  "codec \<Rightarrow> trace_context option \<Rightarrow> string option \<Rightarrow> reply_spec option
    \<Rightarrow> (string \<times> string) list option \<Rightarrow> string option" where
  "wrapWithTrace C otc payload reply metadata =
     (if otc = None \<and> reply = None \<and> cloneMetadata metadata = None then payload
      else
        let env0 = empty_envelope\<lparr>env_Version := 1, env_Payload := payload\<rparr>;
            env1 = (case otc of None \<Rightarrow> env0
                    | Some tc \<Rightarrow> env0\<lparr>env_TraceID := TraceID tc, env_SpanID := SpanId tc,
                        env_Sampled := Sampled tc\<rparr>);
            replied = (case reply of None \<Rightarrow> Some env1
                       | Some r \<Rightarrow> (case json_text C (reply_json r) of None \<Rightarrow> None
                                    | Some _ \<Rightarrow> Some (env1\<lparr>env_ReplyTo := Some (reply_json r)\<rparr>)))
        in case replied of
             None \<Rightarrow> payload
           | Some env2 \<Rightarrow>
               (case json_text C (envelope_json C (env2\<lparr>env_Meta := cloneMetadata metadata\<rparr>)) of
                  None \<Rightarrow> payload
                | Some data \<Rightarrow> Some data))"

section \<open>Decoding\<close>

text \<open>
  \<^verbatim>\<open>json.Unmarshal\<close> into a struct assigns the members in order, to the field whose name equals the
  key up to case; unknown keys are skipped. A value of a wrong type makes the call fail; \<^verbatim>\<open>null\<close>
  empties a pointer, map or slice and leaves other fields alone. A decoder returns \<open>None\<close> for the
  error.
\<close>

definition same_key :: "string \<Rightarrow> string \<Rightarrow> bool" where
  "same_key k name \<longleftrightarrow> to_lower k = to_lower name"

fun decode_members :: "('a \<Rightarrow> string \<times> json \<Rightarrow> 'a option) \<Rightarrow> 'a \<Rightarrow> (string \<times> json) list \<Rightarrow> 'a option" where
  "decode_members f x [] = Some x"
| "decode_members f x (kv # kvs) =
     (case f x kv of None \<Rightarrow> None | Some y \<Rightarrow> decode_members f y kvs)"

definition decode_struct :: "('a \<Rightarrow> string \<times> json \<Rightarrow> 'a option) \<Rightarrow> 'a \<Rightarrow> json \<Rightarrow> 'a option" where
  "decode_struct f x v =
     (case v of JObj kvs \<Rightarrow> decode_members f x kvs | JNull \<Rightarrow> Some x | _ \<Rightarrow> None)"

fun decode_string :: "string \<Rightarrow> json \<Rightarrow> string option" where
  "decode_string old (JStr s) = Some s"
| "decode_string old JNull = Some old"
| "decode_string old _ = None"

fun decode_bool :: "bool \<Rightarrow> json \<Rightarrow> bool option" where
  "decode_bool old (JBool b) = Some b"
| "decode_bool old JNull = Some old"
| "decode_bool old _ = None"

fun decode_int :: "int \<Rightarrow> json \<Rightarrow> int option" where
  "decode_int old (JNum s) = atoi s"
| "decode_int old JNull = Some old"
| "decode_int old _ = None"

definition decode_raw :: "json \<Rightarrow> json option" where
  "decode_raw v = (if v = JNull then None else Some v)"

definition decode_meta ::
  "(string \<times> string) list option \<Rightarrow> json \<Rightarrow> (string \<times> string) list option option" where
  "decode_meta old v =
     (case v of
        JNull \<Rightarrow> Some None
      | JObj kvs \<Rightarrow>
          map_option Some (decode_members
            (\<lambda>m (k, x). map_option (\<lambda>s. AList.update k s m) (decode_string '''' x))
            (case old of None \<Rightarrow> [] | Some m \<Rightarrow> m) kvs)
      | _ \<Rightarrow> None)"

text \<open>A byte slice is a base64 text, or an array of numbers below 256.\<close>

definition decode_byte :: "json \<Rightarrow> char option" where
  "decode_byte v =
     (case v of
        JNum s \<Rightarrow> (case atoi s of Some i \<Rightarrow> if 0 \<le> i \<and> i < 256 then Some (char_of (nat i)) else None | None \<Rightarrow> None)
      | JNull \<Rightarrow> Some (char_of (0 :: nat))
      | _ \<Rightarrow> None)"

definition decode_bytes :: "codec \<Rightarrow> json \<Rightarrow> string option option" where
  "decode_bytes C v =
     (case v of
        JNull \<Rightarrow> Some None
      | JStr s \<Rightarrow> map_option Some (unbase64 C s)
      | JArr vs \<Rightarrow> (if None \<in> set (map decode_byte vs) then None
                    else Some (Some (map (the \<circ> decode_byte) vs)))
      | _ \<Rightarrow> None)"

text \<open>The struct \<^verbatim>\<open>probe\<close> of \<^verbatim>\<open>unwrapEnvelope\<close>: three pointers.\<close>

record probe =
  pr_Version :: "int option"
  pr_Sampled :: "bool option"
  pr_Payload :: "json option"

definition probe_member :: "probe \<Rightarrow> string \<times> json \<Rightarrow> probe option" where
  "probe_member p kv = (case kv of (k, v) \<Rightarrow>
     if same_key k ''_v'' then
       (if v = JNull then Some (p\<lparr>pr_Version := None\<rparr>)
        else map_option (\<lambda>i. p\<lparr>pr_Version := Some i\<rparr>) (decode_int 0 v))
     else if same_key k ''_smpl'' then
       (if v = JNull then Some (p\<lparr>pr_Sampled := None\<rparr>)
        else map_option (\<lambda>b. p\<lparr>pr_Sampled := Some b\<rparr>) (decode_bool False v))
     else if same_key k ''payload'' then Some (p\<lparr>pr_Payload := decode_raw v\<rparr>)
     else Some p)"

definition envelope_member :: "codec \<Rightarrow> envelope \<Rightarrow> string \<times> json \<Rightarrow> envelope option" where
  "envelope_member C env kv = (case kv of (k, v) \<Rightarrow>
     if same_key k ''_v'' then map_option (\<lambda>i. env\<lparr>env_Version := i\<rparr>) (decode_int (env_Version env) v)
     else if same_key k ''_tid'' then map_option (\<lambda>s. env\<lparr>env_TraceID := s\<rparr>) (decode_string (env_TraceID env) v)
     else if same_key k ''_sid'' then map_option (\<lambda>s. env\<lparr>env_SpanID := s\<rparr>) (decode_string (env_SpanID env) v)
     else if same_key k ''_smpl'' then map_option (\<lambda>b. env\<lparr>env_Sampled := b\<rparr>) (decode_bool (env_Sampled env) v)
     else if same_key k ''_rto'' then Some (env\<lparr>env_ReplyTo := decode_raw v\<rparr>)
     else if same_key k ''_meta'' then map_option (\<lambda>m. env\<lparr>env_Meta := m\<rparr>) (decode_meta (env_Meta env) v)
     else if same_key k ''payload'' then map_option (\<lambda>b. env\<lparr>env_Payload := b\<rparr>) (decode_bytes C v)
     else Some env)"

definition reply_member :: "reply_spec \<Rightarrow> string \<times> json \<Rightarrow> reply_spec option" where
  "reply_member r kv = (case kv of (k, v) \<Rightarrow>
     if same_key k ''Queue'' then map_option ReplySpec (decode_string (reply_Queue r) v) else Some r)"

text \<open>The messages of the package: payload, trace metadata, reply and business metadata.\<close>

type_synonym unwrapped =
  "string option \<times> (string \<times> string) list option \<times> reply_spec option \<times> (string \<times> string) list"

definition is_envelope :: "probe \<Rightarrow> bool" where
  "is_envelope p \<longleftrightarrow> pr_Version p = Some 1 \<and> pr_Sampled p \<noteq> None \<and> pr_Payload p \<noteq> None"

definition unwrapEnvelope :: "codec \<Rightarrow> string \<Rightarrow> unwrapped" where
  "unwrapEnvelope C data =
     (let raw = (Some data, None, None, [])
      in case json_parse C data of
           None \<Rightarrow> raw
         | Some v \<Rightarrow>
        (case decode_struct probe_member \<lparr>pr_Version = None, pr_Sampled = None, pr_Payload = None\<rparr> v of
           None \<Rightarrow> raw
         | Some p \<Rightarrow>
        (if \<not> is_envelope p then raw
         else case decode_struct (envelope_member C) empty_envelope v of
           None \<Rightarrow> raw
         | Some env \<Rightarrow>
             (env_Payload env,
              (if env_TraceID env \<noteq> ''''
               then MetadataFromTraceContext (Some (empty_trace\<lparr>TraceID := env_TraceID env,
                      SpanId := env_SpanID env, Sampled := env_Sampled env\<rparr>))
               else None),
              (case env_ReplyTo env of None \<Rightarrow> None
               | Some r \<Rightarrow> decode_struct reply_member (ReplySpec '''') r),
              (case cloneMetadata (env_Meta env) of None \<Rightarrow> [] | Some kvs \<Rightarrow> kvs)))))"

text \<open>\<^verbatim>\<open>injectTraceFromMetadata\<close>, with the instance id and the random bytes of the new span.\<close>

definition injectTraceFromMetadata ::
  "task_ctx \<Rightarrow> (string \<times> string) list option \<Rightarrow> string \<Rightarrow> string \<Rightarrow> task_ctx \<times> string" where
  "injectTraceFromMetadata ctx metadata inst supply =
     (case TraceFromMetadata (case metadata of None \<Rightarrow> [] | Some m \<Rightarrow> m) inst supply of
        (None, supply') \<Rightarrow> (ctx, supply')
      | (Some tc, supply') \<Rightarrow>
          (ctx\<lparr>tk_trace := Some tc, tk_log_trace := TraceID tc, tk_log_span := SpanId tc\<rparr>, supply'))"

section \<open>Facts\<close>

lemma to_lower_names [simp]:
  "to_lower ''_v'' = ''_v''" "to_lower ''_tid'' = ''_tid''" "to_lower ''_sid'' = ''_sid''"
  "to_lower ''_smpl'' = ''_smpl''" "to_lower ''_rto'' = ''_rto''" "to_lower ''_meta'' = ''_meta''"
  "to_lower ''payload'' = ''payload''"
  by code_simp+

lemma same_key_refl [simp]: "same_key k k"
  by (simp add: same_key_def)

lemma decode_members_append:
  "decode_members f x (as @ bs) =
     (case decode_members f x as of None \<Rightarrow> None | Some y \<Rightarrow> decode_members f y bs)"
  by (induction as arbitrary: x) (auto split: option.splits)

lemma decode_members_map:
  "fst ` set kvs \<inter> fst ` set m = {} \<Longrightarrow> distinct (map fst kvs)
    \<Longrightarrow> decode_members (\<lambda>m (k, x). map_option (\<lambda>s. AList.update k s m) (decode_string '''' x)) m
          (map (\<lambda>(k, v). (k, JStr v)) kvs) = Some (m @ kvs)"
proof (induction kvs arbitrary: m)
  case (Cons kv kvs)
  obtain k v where kv: "kv = (k, v)" by fastforce
  from Cons.prems kv have fresh: "k \<notin> fst ` set m" "k \<notin> fst ` set kvs" by auto
  have "fst ` set kvs \<inter> fst ` set (m @ [(k, v)]) = {}" "distinct (map fst kvs)"
    using Cons.prems fresh by (auto simp: kv)
  note ih = Cons.IH [OF this]
  show ?case using ih fresh by (simp add: kv update_fresh)
qed simp

lemma decode_meta_map:
  "distinct (map fst kvs) \<Longrightarrow> decode_meta None (JObj (map (\<lambda>(k, v). (k, JStr v)) kvs)) = Some (Some kvs)"
  using decode_members_map [of kvs "[]"] by (simp add: decode_meta_def)

lemma atoi_itoa_1 [simp]: "atoi (itoa 1) = Some 1"
  by (rule atoi_itoa) (simp_all add: int64_min_def int64_max_def)

text \<open>The members of an envelope, decoded one after the other.\<close>

lemma probe_envelope:
  assumes "env_Version env = 1"
  shows "decode_struct probe_member \<lparr>pr_Version = None, pr_Sampled = None, pr_Payload = None\<rparr> (envelope_json C env)
    = Some \<lparr>pr_Version = Some 1, pr_Sampled = Some (env_Sampled env),
        pr_Payload = (case env_Payload env of None \<Rightarrow> None | Some b \<Rightarrow> Some (JStr (base64 C b)))\<rparr>"
  using assms
  by (auto simp: decode_struct_def envelope_json_def decode_members_append omit_string_def probe_member_def
      same_key_def json_bytes_def decode_raw_def split: option.splits)

lemma decode_envelope:
  assumes "codec_ok C" and "env_Version env = 1" and "env_ReplyTo env \<noteq> Some JNull"
    and "\<And>kvs. env_Meta env = Some kvs \<Longrightarrow> distinct (map fst kvs)"
  shows "decode_struct (envelope_member C) empty_envelope (envelope_json C env)
    = Some (env\<lparr>env_Meta := cloneMetadata (env_Meta env)\<rparr>)"
proof -
  have b: "decode_bytes C (json_bytes C (env_Payload env)) = Some (env_Payload env)"
    using assms(1) by (cases "env_Payload env") (auto simp: json_bytes_def decode_bytes_def codec_ok_def)
  have m: "decode_meta None (JObj (map (\<lambda>(k, v). (k, JStr v)) kvs)) = Some (Some kvs)"
    if "cloneMetadata (env_Meta env) = Some kvs" for kvs
    using that assms(4) by (intro decode_meta_map) (auto simp: cloneMetadata_def split: option.splits list.splits)
  show ?thesis
    using assms(2,3) b m
    by (cases env) (auto simp: decode_struct_def envelope_json_def decode_members_append omit_string_def
        envelope_member_def same_key_def empty_envelope_def decode_raw_def split: option.splits)
qed

section \<open>What a consumer gets\<close>

text \<open>Texts that \<^verbatim>\<open>encoding/json\<close> carries unchanged, in maps without duplicate keys.\<close>

definition sendable :: "trace_context option \<Rightarrow> reply_spec option \<Rightarrow> (string \<times> string) list option \<Rightarrow> bool" where
  "sendable otc reply metadata \<longleftrightarrow>
     (case otc of None \<Rightarrow> True | Some tc \<Rightarrow> ascii (TraceID tc) \<and> ascii (SpanId tc)) \<and>
     (case reply of None \<Rightarrow> True | Some r \<Rightarrow> ascii (reply_Queue r)) \<and>
     (case metadata of None \<Rightarrow> True
      | Some kvs \<Rightarrow> distinct (map fst kvs) \<and> (\<forall>(k, v) \<in> set kvs. ascii k \<and> ascii v))"

definition needs_envelope :: "trace_context option \<Rightarrow> reply_spec option \<Rightarrow> (string \<times> string) list option \<Rightarrow> bool" where
  "needs_envelope otc reply metadata \<longleftrightarrow> otc \<noteq> None \<or> reply \<noteq> None \<or> cloneMetadata metadata \<noteq> None"

definition task_envelope ::
  "trace_context option \<Rightarrow> string option \<Rightarrow> reply_spec option \<Rightarrow> (string \<times> string) list option \<Rightarrow> envelope" where
  "task_envelope otc payload reply metadata =
     \<lparr>env_Version = 1, env_TraceID = (case otc of None \<Rightarrow> '''' | Some tc \<Rightarrow> TraceID tc),
      env_SpanID = (case otc of None \<Rightarrow> '''' | Some tc \<Rightarrow> SpanId tc),
      env_Sampled = (case otc of None \<Rightarrow> False | Some tc \<Rightarrow> Sampled tc),
      env_ReplyTo = map_option reply_json reply, env_Meta = cloneMetadata metadata, env_Payload = payload\<rparr>"

lemma ascii_names: "ascii ''_v''" "ascii ''_tid''" "ascii ''_sid''" "ascii ''_smpl''" "ascii ''_rto''"
  "ascii ''_meta''" "ascii ''payload''" "ascii ''Queue''" "ascii ''''"
  by code_simp+

lemma plain_envelope:
  assumes "codec_ok C" and "sendable otc reply metadata"
  shows "plain_json (envelope_json C (task_envelope otc payload reply metadata))"
  using assms
  by (fastforce simp: envelope_json_def task_envelope_def omit_string_def json_bytes_def reply_json_def codec_ok_def
      sendable_def ascii_names cloneMetadata_def split: option.splits list.splits)

lemma wrap_text:
  assumes C: "codec_ok C" and s: "sendable otc reply metadata" and n: "needs_envelope otc reply metadata"
  obtains data where "wrapWithTrace C otc payload reply metadata = Some data"
    "json_parse C data = Some (envelope_json C (task_envelope otc payload reply metadata))"
proof -
  obtain data where data: "json_text C (envelope_json C (task_envelope otc payload reply metadata)) = Some data"
      "json_parse C data = Some (envelope_json C (task_envelope otc payload reply metadata))"
    using plain_envelope [OF C s] C unfolding codec_ok_def by blast
  have reply: "\<exists>t. json_text C (reply_json r) = Some t" if "reply = Some r" for r
  proof -
    have "plain_json (reply_json r)" using s that by (simp add: sendable_def reply_json_def ascii_names)
    with C show ?thesis unfolding codec_ok_def by blast
  qed
  have "wrapWithTrace C otc payload reply metadata = Some data"
    using data(1) reply n
    by (cases otc; cases reply)
      (fastforce simp: wrapWithTrace_def task_envelope_def empty_envelope_def needs_envelope_def)+
  with data(2) show thesis using that by blast
qed

lemma cloneMetadata_twice [simp]: "cloneMetadata (cloneMetadata m) = cloneMetadata m"
  by (simp add: cloneMetadata_def split: option.splits list.splits)

text \<open>
  Unwrapping undoes wrapping. A task with a non-nil payload and a trace, a reply queue or
  metadata comes out of the envelope with that payload, reply and metadata, and with the metadata
  of its trace.
\<close>

lemma wrap_unwrap:
  assumes C: "codec_ok C" and s: "sendable otc reply metadata" and n: "needs_envelope otc reply metadata"
  shows "\<exists>data. wrapWithTrace C otc (Some b) reply metadata = Some data \<and>
    unwrapEnvelope C data =
      (Some b, (case otc of Some tc \<Rightarrow> if TraceID tc \<noteq> '''' then MetadataFromTraceContext (Some tc) else None
                | None \<Rightarrow> None), reply, (case metadata of None \<Rightarrow> [] | Some kvs \<Rightarrow> kvs))"
proof -
  define env where "env = task_envelope otc (Some b) reply metadata"
  obtain data where data: "wrapWithTrace C otc (Some b) reply metadata = Some data"
      "json_parse C data = Some (envelope_json C env)"
    unfolding env_def by (rule wrap_text [OF assms])
  have sel: "env_Version env = 1" "env_Payload env = Some b" "env_ReplyTo env = map_option reply_json reply"
      "env_Meta env = cloneMetadata metadata"
      "env_TraceID env = (case otc of None \<Rightarrow> '''' | Some tc \<Rightarrow> TraceID tc)"
      "env_SpanID env = (case otc of None \<Rightarrow> '''' | Some tc \<Rightarrow> SpanId tc)"
      "env_Sampled env = (case otc of None \<Rightarrow> False | Some tc \<Rightarrow> Sampled tc)"
    by (simp_all add: env_def task_envelope_def)
  have r: "env_ReplyTo env \<noteq> Some JNull"
    by (auto simp: sel reply_json_def)
  have m: "distinct (map fst kvs)" if "env_Meta env = Some kvs" for kvs
    using that s by (auto simp: sel cloneMetadata_def sendable_def split: option.splits list.splits)
  have d: "decode_struct (envelope_member C) empty_envelope (envelope_json C env) = Some env"
    using decode_envelope [OF C sel(1) r m] by (simp add: env_def task_envelope_def)
  have q: "decode_struct reply_member (ReplySpec '''') (reply_json x) = Some x" for x
    by (cases x) (simp add: decode_struct_def reply_json_def reply_member_def)
  have k: "(case cloneMetadata metadata of None \<Rightarrow> [] | Some kvs \<Rightarrow> kvs) = (case metadata of None \<Rightarrow> [] | Some kvs \<Rightarrow> kvs)"
    by (auto simp: cloneMetadata_def split: option.splits list.splits)
  have e: "unwrapEnvelope C data =
      (env_Payload env,
       (if env_TraceID env \<noteq> ''''
        then MetadataFromTraceContext (Some (empty_trace\<lparr>TraceID := env_TraceID env,
               SpanId := env_SpanID env, Sampled := env_Sampled env\<rparr>))
        else None),
       (case env_ReplyTo env of None \<Rightarrow> None | Some r \<Rightarrow> decode_struct reply_member (ReplySpec '''') r),
       (case cloneMetadata (env_Meta env) of None \<Rightarrow> [] | Some kvs \<Rightarrow> kvs))"
    by (simp add: unwrapEnvelope_def data(2) probe_envelope [OF sel(1)] d is_envelope_def sel(2))
  have "unwrapEnvelope C data =
      (Some b, (case otc of Some tc \<Rightarrow> if TraceID tc \<noteq> '''' then MetadataFromTraceContext (Some tc) else None
                | None \<Rightarrow> None), reply, (case metadata of None \<Rightarrow> [] | Some kvs \<Rightarrow> kvs))"
    unfolding e sel cloneMetadata_twice k
    by (cases otc; cases reply) (simp_all add: q MetadataFromTraceContext_def)
  with data(1) show ?thesis by blast
qed

text \<open>
  C27. A task without payload is not recognised. Its envelope says \<open>null\<close>, which the probe takes for a
  missing payload: the consumer gets the text of the envelope as payload, and neither trace nor
  reply queue nor metadata.
\<close>

theorem nil_payload_lost:
  assumes C: "codec_ok C" and s: "sendable otc reply metadata" and n: "needs_envelope otc reply metadata"
  shows "\<exists>data. wrapWithTrace C otc None reply metadata = Some data \<and>
    unwrapEnvelope C data = (Some data, None, None, [])"
proof -
  define env where "env = task_envelope otc None reply metadata"
  obtain data where data: "wrapWithTrace C otc None reply metadata = Some data"
      "json_parse C data = Some (envelope_json C env)"
    unfolding env_def by (rule wrap_text [OF assms])
  have sel: "env_Version env = 1" "env_Payload env = None" by (simp_all add: env_def task_envelope_def)
  have "unwrapEnvelope C data = (Some data, None, None, [])"
    by (simp add: unwrapEnvelope_def data(2) probe_envelope [OF sel(1)] is_envelope_def sel(2))
  with data(1) show ?thesis by blast
qed

end
