(* ===== verification/Queue_Codec.thy ===== *)
theory Queue_Codec
  imports Queue_Envelope
begin

text \<open>
  A concrete codec: JSON values as length-prefixed texts, bytes as two letters each. It satisfies
  \<open>codec_ok\<close>, and the properties of the envelope are applied on it.
\<close>

section \<open>Encoding\<close>

definition put_string :: "string \<Rightarrow> string" where
  "put_string s = replicate (length s) CHR ''x'' @ CHR ''.'' # s"

fun put_json :: "json \<Rightarrow> string" where
  "put_json JNull = ''n''"
| "put_json (JBool b) = (if b then ''t'' else ''f'')"
| "put_json (JNum s) = CHR ''#'' # put_string s"
| "put_json (JStr s) = CHR ''$'' # put_string s"
| "put_json (JArr vs) = CHR ''['' # concat (map put_json vs) @ '']''"
| "put_json (JObj kvs) = CHR ''{'' # concat (map (\<lambda>(k, v). put_string k @ put_json v) kvs) @ ''}''"

section \<open>Parsing\<close>

fun get_string :: "nat \<Rightarrow> string \<Rightarrow> (string \<times> string) option" where
  "get_string n [] = None"
| "get_string n (c # cs) =
     (if c = CHR ''x'' then get_string (Suc n) cs
      else if c = CHR ''.'' then Some (take n cs, drop n cs) else None)"

fun get_json :: "nat \<Rightarrow> string \<Rightarrow> (json \<times> string) option"
  and get_list :: "nat \<Rightarrow> string \<Rightarrow> (json list \<times> string) option"
  and get_members :: "nat \<Rightarrow> string \<Rightarrow> ((string \<times> json) list \<times> string) option" where
  "get_json 0 cs = None"
| "get_json (Suc n) [] = None"
| "get_json (Suc n) (c # cs) =
     (if c = CHR ''n'' then Some (JNull, cs)
      else if c = CHR ''t'' then Some (JBool True, cs)
      else if c = CHR ''f'' then Some (JBool False, cs)
      else if c = CHR ''#'' then map_option (\<lambda>(s, r). (JNum s, r)) (get_string 0 cs)
      else if c = CHR ''$'' then map_option (\<lambda>(s, r). (JStr s, r)) (get_string 0 cs)
      else if c = CHR ''['' then map_option (\<lambda>(vs, r). (JArr vs, r)) (get_list n cs)
      else if c = CHR ''{'' then map_option (\<lambda>(kvs, r). (JObj kvs, r)) (get_members n cs)
      else None)"
| "get_list 0 cs = None"
| "get_list (Suc n) cs =
     (if cs \<noteq> [] \<and> hd cs = CHR '']'' then Some ([], tl cs)
      else case get_json n cs of None \<Rightarrow> None
           | Some (v, r) \<Rightarrow> map_option (\<lambda>(vs, r'). (v # vs, r')) (get_list n r))"
| "get_members 0 cs = None"
| "get_members (Suc n) cs =
     (if cs \<noteq> [] \<and> hd cs = CHR ''}'' then Some ([], tl cs)
      else case get_string 0 cs of None \<Rightarrow> None
           | Some (k, r) \<Rightarrow>
               (case get_json n r of None \<Rightarrow> None
                | Some (v, r') \<Rightarrow> map_option (\<lambda>(kvs, r''). ((k, v) # kvs, r'')) (get_members n r')))"

lemma get_string_aux: "get_string n (replicate m CHR ''x'' @ CHR ''.'' # t) = Some (take (n + m) t, drop (n + m) t)"
  by (induction m arbitrary: n) auto

lemma get_put_string [simp]: "get_string 0 (put_string s @ r) = Some (s, r)"
  using get_string_aux [of 0 "length s" "s @ r"] by (simp add: put_string_def)

lemma put_string_hd: "hd (put_string s @ r) \<noteq> CHR ''}''" "put_string s @ r \<noteq> []"
  by (cases s; simp add: put_string_def)+

lemma put_json_hd: "hd (put_json v @ r) \<noteq> CHR '']''" "put_json v @ r \<noteq> []"
  by (cases v; simp)+

lemma get_list_put:
  assumes "\<And>v n r. v \<in> set vs \<Longrightarrow> size v < n \<Longrightarrow> get_json n (put_json v @ r) = Some (v, r)"
    and "size_list size vs < n"
  shows "get_list n (concat (map put_json vs) @ CHR '']'' # r) = Some (vs, r)"
  using assms
proof (induction vs arbitrary: n)
  case Nil
  then show ?case by (cases n) auto
next
  case (Cons v vs)
  from Cons.prems(2) obtain k where k: "n = Suc k" by (cases n) auto
  with Cons.prems(2) have "size v < k" "size_list size vs < k" by auto
  with Cons.IH [of k] Cons.prems(1) [of v k]
  show ?case using put_json_hd [of v "concat (map put_json vs) @ CHR '']'' # r"] Cons.prems(1)
    by (simp add: k)
qed

lemma get_members_put:
  assumes "\<And>k v n r. (k, v) \<in> set kvs \<Longrightarrow> size v < n \<Longrightarrow> get_json n (put_json v @ r) = Some (v, r)"
    and "size_list (\<lambda>(k, v). Suc (size v)) kvs < n"
  shows "get_members n (concat (map (\<lambda>(k, v). put_string k @ put_json v) kvs) @ CHR ''}'' # r) = Some (kvs, r)"
  using assms
proof (induction kvs arbitrary: n)
  case Nil
  then show ?case by (cases n) auto
next
  case (Cons kv kvs)
  obtain k v where kv: "kv = (k, v)" by fastforce
  from Cons.prems(2) obtain m where m: "n = Suc m" by (cases n) auto
  with Cons.prems(2) kv have small: "size v < m" "size_list (\<lambda>(k, v). Suc (size v)) kvs < m" by auto
  have ih: "get_members m (concat (map (\<lambda>(k, v). put_string k @ put_json v) kvs) @ CHR ''}'' # r) = Some (kvs, r)"
  proof (rule Cons.IH [OF _ small(2)])
    fix k' v' n' r'
    assume "(k', v') \<in> set kvs" "size v' < n'"
    then show "get_json n' (put_json v' @ r') = Some (v', r')" by (intro Cons.prems(1) [of k']) simp_all
  qed
  have "(k, v) \<in> set (kv # kvs)" by (simp add: kv)
  then have v: "get_json m (put_json v @ r') = Some (v, r')" for r'
    by (rule Cons.prems(1) [OF _ small(1)])
  show ?case
    using put_string_hd [of k "put_json v @ concat (map (\<lambda>(k, v). put_string k @ put_json v) kvs) @ CHR ''}'' # r"]
    by (simp add: m kv ih v)
qed

lemma size_members: "size (JObj kvs) = Suc (size_list (\<lambda>(k, v). Suc (size v)) kvs)"
  by (simp add: case_prod_beta' size_prod_simp)

lemma get_put_json: "size v < n \<Longrightarrow> get_json n (put_json v @ r) = Some (v, r)"
proof (induction v arbitrary: n r)
  case (JArr vs)
  then obtain m where m: "n = Suc m" "size_list size vs < m" by (cases n) auto
  have "get_list m (concat (map put_json vs) @ CHR '']'' # r) = Some (vs, r)"
    by (rule get_list_put [OF JArr.IH m(2)])
  with m(1) show ?case by simp
next
  case (JObj kvs)
  from JObj.prems obtain m where m: "n = Suc m" "size_list (\<lambda>(k, v). Suc (size v)) kvs < m"
    unfolding size_members by (cases n) auto
  have "get_members m (concat (map (\<lambda>(k, v). put_string k @ put_json v) kvs) @ CHR ''}'' # r) = Some (kvs, r)"
    by (rule get_members_put [OF JObj.IH m(2)]) auto
  with m(1) show ?case by simp
qed (case_tac n; simp)+

section \<open>A codec\<close>

definition letter :: "nat \<Rightarrow> char" where
  "letter n = char_of (65 + n)"

definition put_bytes :: "string \<Rightarrow> string" where
  "put_bytes b = concat (map (\<lambda>c. [letter (of_char c div 16), letter (of_char c mod 16)]) b)"

fun get_bytes :: "string \<Rightarrow> string option" where
  "get_bytes [] = Some []"
| "get_bytes [c] = None"
| "get_bytes (c # d # cs) =
     map_option ((#) (char_of ((of_char c - 65 :: nat) * 16 + (of_char d - 65)))) (get_bytes cs)"

definition text_codec :: codec where
  "text_codec = \<lparr>json_text = (\<lambda>v. Some (put_json v)),
     json_parse = (\<lambda>t. map_option fst (get_json (3 * length t) t)),
     base64 = put_bytes, unbase64 = get_bytes\<rparr>"

lemma of_letter: "n < 16 \<Longrightarrow> (of_char (letter n) :: nat) = 65 + n"
  by (simp add: letter_def)

lemma char_halves: "(of_char c :: nat) div 16 < 16" "(of_char c :: nat) mod 16 < 16"
  using nat_of_char_less_256 [of c] by (simp_all add: less_mult_imp_div_less)

lemma get_put_bytes: "get_bytes (put_bytes b) = Some b"
proof (induction b)
  case (Cons c b)
  from Cons show ?case by (simp add: put_bytes_def of_letter char_halves)
qed (simp add: put_bytes_def)

lemma ascii_bytes: "ascii (put_bytes b)"
proof -
  have "65 + (of_char c :: nat) div 16 < 128" "65 + (of_char c :: nat) mod 16 < 128" for c
    using char_halves [of c] by linarith+
  then show ?thesis by (auto simp: ascii_def put_bytes_def of_letter char_halves)
qed

lemma size_list_bound:
  assumes "\<And>v. v \<in> set vs \<Longrightarrow> size v < 3 * length (put_json v)"
  shows "size_list size vs \<le> 3 * length (concat (map put_json vs))"
  using assms
proof (induction vs)
  case (Cons v vs)
  have "size v < 3 * length (put_json v)" by (rule Cons.prems) simp
  moreover have "size_list size vs \<le> 3 * length (concat (map put_json vs))"
    using Cons.IH Cons.prems by (meson list.set_intros(2))
  ultimately show ?case by simp
qed simp

lemma size_members_bound:
  assumes "\<And>k v. (k, v) \<in> set kvs \<Longrightarrow> size v < 3 * length (put_json v)"
  shows "size_list (\<lambda>(k, v). Suc (size v)) kvs
    \<le> 3 * length (concat (map (\<lambda>(k, v). put_string k @ put_json v) kvs))"
  using assms
proof (induction kvs)
  case (Cons kv kvs)
  obtain k v where kv: "kv = (k, v)" by fastforce
  have rest: "size_list (\<lambda>(k, v). Suc (size v)) kvs
      \<le> 3 * length (concat (map (\<lambda>(k, v). put_string k @ put_json v) kvs))"
    using Cons.IH Cons.prems by (meson list.set_intros(2))
  have "size v < 3 * length (put_json v)" by (rule Cons.prems [of k]) (simp add: kv)
  moreover have "1 \<le> length (put_string k)" by (simp add: put_string_def)
  ultimately show ?case using rest by (simp add: kv)
qed simp

lemma size_bound: "size v < 3 * length (put_json v)"
proof (induction v)
  case (JArr vs)
  then show ?case using size_list_bound [of vs] by simp
next
  case (JObj kvs)
  have "size v < 3 * length (put_json v)" if "(k, v) \<in> set kvs" for k v
    using JObj.IH [of "(k, v)" v] that by simp
  then show ?case using size_members_bound [of kvs] unfolding size_members by simp
qed (simp_all add: put_string_def)

lemma text_codec_ok: "codec_ok text_codec"
proof -
  have "get_json (3 * length (put_json v)) (put_json v) = Some (v, [])" for v
    using get_put_json [OF size_bound [of v], of "[]"] by simp
  then show ?thesis by (simp add: codec_ok_def text_codec_def get_put_bytes ascii_bytes)
qed

section \<open>A task\<close>

definition order_reply :: reply_spec where "order_reply = ReplySpec ''orders''"

definition order_metadata :: "(string \<times> string) list" where
  "order_metadata = [(''tenant'', ''t1''), (''region'', ''eu'')]"

lemma order_sendable: "sendable (Some sample_trace) (Some order_reply) (Some order_metadata)"
  by code_simp

theorem nil_payload_lost_witness:
  "\<exists>data. wrapWithTrace text_codec (Some sample_trace) None (Some order_reply) (Some order_metadata) = Some data \<and>
    unwrapEnvelope text_codec data = (Some data, None, None, [])"
  by (rule nil_payload_lost [OF text_codec_ok order_sendable]) (simp add: needs_envelope_def)

end
