(* ===== verification/Queue_Broker.thy ===== *)
theory Queue_Broker
  imports Queue_Codec
begin

text \<open>
  Publishing and consuming over asynq (\<^verbatim>\<open>taskqueue/asynqbroker/broker.go\<close>, \<^verbatim>\<open>consumer.go\<close>). The asynq
  client and server are parameters; log lines are left out.
\<close>

section \<open>The broker\<close>

text \<open>\<^verbatim>\<open>EnqueueContext\<close>: type, payload and queue option, to the id and the actual queue.\<close>

record 's asynq_client =
  EnqueueContext :: "string \<Rightarrow> string option \<Rightarrow> string option \<Rightarrow> ('s, gerr + string \<times> string) state"
  client_Close :: "('s, gerr option) state"

definition enqueue :: "'s asynq_client \<Rightarrow> task \<Rightarrow> string option \<Rightarrow> ('s, gerr + task_info) state" where
  "enqueue A t wrappedPayload = do {
     r \<leftarrow> EnqueueContext A (task_Type t) wrappedPayload
            (if task_Queue t \<noteq> '''' then Some (task_Queue t) else None);
     State_Monad.return (case r of
         Inl e \<Rightarrow> Inl (wrap_err ''asynq enqueue failed'' e)
       | Inr (i, q) \<Rightarrow> Inr \<lparr>ti_BrokerTaskID = i, ti_Queue = q\<rparr>)
   }"

definition Publish :: "codec \<Rightarrow> 's asynq_client \<Rightarrow> task_ctx \<Rightarrow> task \<Rightarrow> ('s, gerr + task_info) state" where
  "Publish C A ctx t =
     enqueue A t (wrapWithTrace C (tk_trace ctx) (task_Payload t) (task_Reply t) (task_Metadata t))"

definition broker_Close :: "'s asynq_client \<Rightarrow> ('s, gerr option) state" where
  "broker_Close A = client_Close A"

section \<open>The consumer\<close>

definition MinTaskCheckInterval :: int where "MinTaskCheckInterval = 200000000"
definition MaxTaskCheckInterval :: int where "MaxTaskCheckInterval = 2000000000"

record consumer_config =
  cc_Concurrency :: int
  cc_Queues :: "(string \<times> int) list"
  cc_StrictPriority :: bool
  cc_TaskCheckInterval :: int

definition normalizeTaskCheckInterval :: "int \<Rightarrow> int \<times> bool" where
  "normalizeTaskCheckInterval interval =
     (if interval \<le> 0 then (0, False)
      else if interval < MinTaskCheckInterval then (MinTaskCheckInterval, True)
      else if interval > MaxTaskCheckInterval then (MaxTaskCheckInterval, True)
      else (interval, False))"

text \<open>The asynq configuration \<^verbatim>\<open>NewConsumer\<close> builds; an interval of 0 keeps asynq's default.\<close>

definition NewConsumer :: "consumer_config \<Rightarrow> consumer_config" where
  "NewConsumer cfg =
     \<lparr>cc_Concurrency = (if cc_Concurrency cfg \<le> 0 then 2 else cc_Concurrency cfg),
      cc_Queues = cc_Queues cfg, cc_StrictPriority = cc_StrictPriority cfg,
      cc_TaskCheckInterval =
        (let i = fst (normalizeTaskCheckInterval (cc_TaskCheckInterval cfg)) in if i > 0 then i else 0)\<rparr>"

text \<open>
  The function \<^verbatim>\<open>Handle\<close> registers: asynq calls it with a context, the task's type and payload; the
  queue name comes from the context.
\<close>

definition Handle ::
  "codec \<Rightarrow> string \<Rightarrow> (task_ctx \<Rightarrow> task \<Rightarrow> ('s, gerr option) state) \<Rightarrow> task_ctx \<Rightarrow> string \<Rightarrow> string \<Rightarrow> string \<Rightarrow> string
    \<Rightarrow> ('s, gerr option) state" where
  "Handle C inst handler ctx typ queueName data supply =
     (case unwrapEnvelope C data of (payload, traceMeta, reply, metadata) \<Rightarrow>
        handler (fst (injectTraceFromMetadata ctx traceMeta inst supply))
          \<lparr>task_Type = typ, task_Payload = payload, task_Queue = queueName, task_Reply = reply,
           task_Priority = 0, task_Metadata = Some metadata\<rparr>)"

text \<open>The server; \<open>wait\<close> blocks until the context is done or \<^verbatim>\<open>Stop\<close> closed the channel.\<close>

record 's asynq_server =
  ServerStart :: "('s, gerr option) state"
  ServerShutdown :: "('s, unit) state"

definition Start :: "'s asynq_server \<Rightarrow> ('s, unit) state \<Rightarrow> ('s, gerr option) state" where
  "Start A wait = do {
     e \<leftarrow> ServerStart A;
     case e of
       Some err \<Rightarrow> State_Monad.return (Some err)
     | None \<Rightarrow> do { _ \<leftarrow> wait; _ \<leftarrow> ServerShutdown A; State_Monad.return None }
   }"

text \<open>\<^verbatim>\<open>Stop\<close>, with the state of \<^verbatim>\<open>stopOnce\<close>, which is also that of the channel.\<close>

definition consumer_Stop :: "'s asynq_server \<Rightarrow> bool \<Rightarrow> ('s, gerr option \<times> bool) state" where
  "consumer_Stop A stopped =
     (if stopped then State_Monad.return (None, True)
      else do { _ \<leftarrow> ServerShutdown A; State_Monad.return (None, True) })"

section \<open>Correctness\<close>

text \<open>What is published under a valid trace, and what the consumer reads from it.\<close>

lemma published_handled:
  assumes C: "codec_ok C" and tc: "trace_ok tc" and s: "sendable (Some tc) rto meta"
  shows "\<exists>data m. wrapWithTrace C (Some tc) (Some b) rto meta = Some data \<and>
    unwrapEnvelope C data = (Some b, Some m, rto, (case meta of None \<Rightarrow> [] | Some kvs \<Rightarrow> kvs)) \<and>
    (\<forall>ctx. fst (injectTraceFromMetadata ctx (Some m) inst seed) =
      ctx\<lparr>tk_trace := Some \<lparr>TraceID = TraceID tc, SpanId = fst (NewSpanId seed), ParentSpanId = SpanId tc,
              InstanceId = inst, Sampled = Sampled tc\<rparr>,
            tk_log_trace := TraceID tc, tk_log_span := fst (NewSpanId seed)\<rparr>)"
proof -
  have "needs_envelope (Some tc) rto meta" by (simp add: needs_envelope_def)
  from wrap_unwrap [OF C s this] obtain data where w: "wrapWithTrace C (Some tc) (Some b) rto meta = Some data"
      and u: "unwrapEnvelope C data = (Some b, if TraceID tc \<noteq> '''' then MetadataFromTraceContext (Some tc) else None,
        rto, (case meta of None \<Rightarrow> [] | Some kvs \<Rightarrow> kvs))"
    by auto
  have ne: "TraceID tc \<noteq> ''''"
    using tc by (auto simp: trace_ok_def dest!: valid_hex_nonempty)
  obtain m where m: "MetadataFromTraceContext (Some tc) = Some m"
    by (simp add: MetadataFromTraceContext_def)
  have "fst (TraceFromMetadata m inst seed) =
      Some \<lparr>TraceID = TraceID tc, SpanId = fst (NewSpanId seed), ParentSpanId = SpanId tc,
        InstanceId = inst, Sampled = Sampled tc\<rparr>"
    using metadata_continues [OF tc, of inst seed] m by simp
  then show ?thesis
    by (intro exI [of _ data] exI [of _ m], cases "TraceFromMetadata m inst seed")
       (simp add: injectTraceFromMetadata_def w u ne m)
qed

text \<open>
  C25. A published task reaches the handler. A task with a payload, published under a valid trace
  context, is handed to the handler of its type with the same payload, reply queue and metadata,
  in a context that continues the trace: same trace id and sampling decision, the publisher's span as
  parent. Its priority is not transmitted.
\<close>

theorem publish_reaches_handler:
  assumes C: "codec_ok C" and p: "task_Payload t = Some b" and tc: "tk_trace ctx = Some tc" "trace_ok tc"
    and s: "sendable (Some tc) (task_Reply t) (task_Metadata t)"
  shows "\<exists>data. Publish C A ctx t = enqueue A t (Some data) \<and>
    Handle C inst handler ctx' (task_Type t) q data seed =
      handler
        (ctx'\<lparr>tk_trace := Some \<lparr>TraceID = TraceID tc, SpanId = fst (NewSpanId seed), ParentSpanId = SpanId tc,
                InstanceId = inst, Sampled = Sampled tc\<rparr>,
              tk_log_trace := TraceID tc, tk_log_span := fst (NewSpanId seed)\<rparr>)
        \<lparr>task_Type = task_Type t, task_Payload = Some b, task_Queue = q, task_Reply = task_Reply t,
         task_Priority = 0, task_Metadata = Some (case task_Metadata t of None \<Rightarrow> [] | Some kvs \<Rightarrow> kvs)\<rparr>"
  using published_handled [OF C tc(2) s, of b inst seed] by (auto simp: Publish_def Handle_def p tc(1))

definition order_task :: task where
  "order_task = \<lparr>task_Type = ''order:pay'', task_Payload = Some ''{}'', task_Queue = ''orders'',
     task_Reply = Some order_reply, task_Priority = 9, task_Metadata = Some order_metadata\<rparr>"

definition order_ctx :: task_ctx where
  "order_ctx = \<lparr>tk_trace = Some sample_trace, tk_log_trace = '''', tk_log_span = ''''\<rparr>"

definition no_ctx :: task_ctx where
  "no_ctx = \<lparr>tk_trace = None, tk_log_trace = '''', tk_log_span = ''''\<rparr>"

text \<open>A handler that reports what it was given.\<close>

definition echo :: "task_ctx \<Rightarrow> task \<Rightarrow> ((task_ctx \<times> task) list, gerr option) state" where
  "echo ctx t = State (\<lambda>s. (None, s @ [(ctx, t)]))"

definition order_client :: "unit asynq_client" where
  "order_client = \<lparr>EnqueueContext = (\<lambda>typ payload q. State_Monad.return (Inr (''1'', ''orders''))),
     client_Close = State_Monad.return None\<rparr>"

theorem publish_reaches_handler_witness:
  "\<exists>data. Publish text_codec order_client order_ctx order_task = enqueue order_client order_task (Some data) \<and>
    (case run_state (Handle text_codec ''b'' echo no_ctx ''order:pay'' ''orders'' data ''seed'') [] of
       (r, s) \<Rightarrow> r = None \<and> map (\<lambda>(c, t). (tk_log_trace c, task_Payload t, task_Reply t, task_Priority t)) s =
         [(TraceID sample_trace, Some ''{}'', Some order_reply, 0)])"
proof -
  have "sendable (Some sample_trace) (task_Reply order_task) (task_Metadata order_task)"
    using order_sendable by (simp add: order_task_def)
  from publish_reaches_handler [OF text_codec_ok _ _ sample_trace_ok this, where b = "''{}''" and ctx = order_ctx
      and A = order_client and inst = "''b''" and handler = echo and ctx' = no_ctx and q = "''orders''" and seed = "''seed''"]
  obtain data where "Publish text_codec order_client order_ctx order_task = enqueue order_client order_task (Some data)"
    "Handle text_codec ''b'' echo no_ctx ''order:pay'' ''orders'' data ''seed'' =
      echo (no_ctx\<lparr>tk_trace := Some \<lparr>TraceID = TraceID sample_trace, SpanId = fst (NewSpanId ''seed''),
             ParentSpanId = SpanId sample_trace, InstanceId = ''b'', Sampled = Sampled sample_trace\<rparr>,
           tk_log_trace := TraceID sample_trace, tk_log_span := fst (NewSpanId ''seed'')\<rparr>)
        \<lparr>task_Type = ''order:pay'', task_Payload = Some ''{}'', task_Queue = ''orders'', task_Reply = Some order_reply,
         task_Priority = 0, task_Metadata = Some order_metadata\<rparr>"
    by (auto simp: order_task_def order_ctx_def)
  then show ?thesis by (intro exI [of _ data]) (simp add: echo_def)
qed

text \<open>The polling interval given to asynq is 0 or inside the supported range.\<close>

lemma normalize_interval_range:
  "fst (normalizeTaskCheckInterval i) = 0 \<and> i \<le> 0 \<or>
   MinTaskCheckInterval \<le> fst (normalizeTaskCheckInterval i) \<and> fst (normalizeTaskCheckInterval i) \<le> MaxTaskCheckInterval"
  by (simp add: normalizeTaskCheckInterval_def MinTaskCheckInterval_def MaxTaskCheckInterval_def)

end
