(* ===== verification/Queue_Logged.thy ===== *)
theory Queue_Logged
  imports Queue_Broker Log_Instance
begin

text \<open>
  The task queue as it logs (\<^verbatim>\<open>taskqueue/asynqbroker/logging.go\<close> and the constructors, \<^verbatim>\<open>Publish\<close> and the
  registered handler of \<^verbatim>\<open>broker.go\<close>, \<^verbatim>\<open>consumer.go\<close>): the operations of Queue_Broker composed with the
  logger, on the states of both.
\<close>

section \<open>Loggers of the component\<close>

definition componentAsynqBroker :: string where "componentAsynqBroker = ''asynqbroker''"
definition componentAsynq :: string where "componentAsynq = ''asynq''"

definition resolveRuntimeLogger ::
  "('z, 'g, 'h, 's) zap \<Rightarrow> ('z, 'g, 'h) zap_logger option \<Rightarrow> ('z, 'g, 'h, 's, ('z, 'g, 'h) zap_logger) log_prog" where
  "resolveRuntimeLogger Z ol = do {
     l \<leftarrow> (case ol of Some l \<Rightarrow> State_Monad.return l | None \<Rightarrow> Platform Z);
     State_Monad.return (log_With Z l [AStr FieldComponent, AStr componentAsynqBroker])
   }"

text \<open>The logger asynq gets: one of the caller's, or an \<^verbatim>\<open>asynqLoggerAdapter\<close>.\<close>

datatype ('x, 'l) asynq_logger = Explicit 'x | Adapter 'l

definition resolveFrameworkLogger ::
  "('z, 'g, 'h, 's) zap \<Rightarrow> ('z, 'g, 'h) zap_logger \<Rightarrow> 'x option \<Rightarrow> ('x, ('z, 'g, 'h) zap_logger) asynq_logger" where
  "resolveFrameworkLogger Z runtime explicit =
     (case explicit of
        Some x \<Rightarrow> Explicit x
      | None \<Rightarrow> Adapter (log_With Z runtime [AStr FieldComponent, AStr componentAsynq]))"

text \<open>\<^verbatim>\<open>Debug\<close> to \<^verbatim>\<open>Error\<close> and \<^verbatim>\<open>Fatal\<close> of the adapter; \<open>sprint\<close> is \<^verbatim>\<open>fmt.Sprint\<close>.\<close>

definition adapter_log ::
  "('z, 'g, 'h, 's) zap \<Rightarrow> (goval list \<Rightarrow> string) \<Rightarrow> int \<Rightarrow> ('z, 'g, 'h) zap_logger \<Rightarrow> goval list \<Rightarrow> ('z, 'g, 'h, 's, unit) log_prog" where
  "adapter_log Z sprint level l args = log_at Z level l (sprint args) []"

definition adapter_Fatal ::
  "('z, 'g, 'h, 's) zap \<Rightarrow> (goval list \<Rightarrow> string) \<Rightarrow> ('z, 'g, 'h) zap_logger \<Rightarrow> goval list \<Rightarrow> ('z, 'g, 'h, 's, unit) log_prog" where
  "adapter_Fatal Z sprint l args = log_Fatal Z l (sprint args) []"

section \<open>Both states\<close>

definition on_queue :: "('q, 'a) state \<Rightarrow> ('q \<times> 'w, 'a) state" where
  "on_queue m = State (\<lambda>(s, w). case run_state m s of (x, s') \<Rightarrow> (x, (s', w)))"

definition on_log :: "('w, 'a) state \<Rightarrow> ('q \<times> 'w, 'a) state" where
  "on_log m = State (\<lambda>(s, w). case run_state m w of (x, w') \<Rightarrow> (x, (s, w')))"

lemma run_on [simp]:
  "run_state (on_queue m) (s, w) = (case run_state m s of (x, s') \<Rightarrow> (x, (s', w)))"
  "run_state (on_log m') (s, w) = (case run_state m' w of (x, w') \<Rightarrow> (x, (s, w')))"
  by (simp_all add: on_queue_def on_log_def)

text \<open>The values the logger finds in the context of a task.\<close>

definition log_ctx_of :: "task_ctx \<Rightarrow> 'l log_ctx option" where
  "log_ctx_of ctx = Some \<lparr>cv_trace = tk_trace ctx, cv_log_trace = tk_log_trace ctx,
     cv_log_span = tk_log_span ctx, cv_logger = None\<rparr>"

text \<open>An error as the argument of a log call.\<close>

abbreviation AErr :: "gerr \<Rightarrow> log_arg" where "AErr e \<equiv> AVal (GOther (msg e))"

section \<open>The broker\<close>

record ('q, 'l) asynq_broker =
  bk_client :: "'q asynq_client"
  bk_log :: 'l

definition NewBrokerWithConfig ::
  "('z, 'g, 'h, 's) zap \<Rightarrow> 'q asynq_client \<Rightarrow> ('z, 'g, 'h) zap_logger option
     \<Rightarrow> ('z, 'g, 'h, 's, ('q, ('z, 'g, 'h) zap_logger) asynq_broker) log_prog" where
  "NewBrokerWithConfig Z client cfg_Logger = do {
     l \<leftarrow> resolveRuntimeLogger Z cfg_Logger;
     State_Monad.return \<lparr>bk_client = client, bk_log = l\<rparr>
   }"

definition NewBroker ::
  "('z, 'g, 'h, 's) zap \<Rightarrow> 'q asynq_client \<Rightarrow> ('z, 'g, 'h, 's, ('q, ('z, 'g, 'h) zap_logger) asynq_broker) log_prog" where
  "NewBroker Z client = NewBrokerWithConfig Z client None"

definition broker_Publish ::
  "('z, 'g, 'h, 's) zap \<Rightarrow> codec \<Rightarrow> ('q, ('z, 'g, 'h) zap_logger) asynq_broker \<Rightarrow> task_ctx \<Rightarrow> task
     \<Rightarrow> ('q \<times> ('z, 'g, 'h, 's) log_world, gerr + task_info) state" where
  "broker_Publish Z C b ctx t = do {
     r \<leftarrow> on_queue (EnqueueContext (bk_client b) (task_Type t)
            (wrapWithTrace C (tk_trace ctx) (task_Payload t) (task_Reply t) (task_Metadata t))
            (if task_Queue t \<noteq> '''' then Some (task_Queue t) else None));
     (case r of
        Inl e \<Rightarrow> do {
          on_log (log_context_at Z ErrorLevel (bk_log b) (log_ctx_of ctx :: ('z, 'g, 'h) zap_logger log_ctx option)
            ''failed to enqueue task''
            [AStr FieldTaskType, AStr (task_Type t), AStr FieldQueue, AStr (task_Queue t), AStr FieldError, AErr e]);
          State_Monad.return (Inl (wrap_err ''asynq enqueue failed'' e))
        }
      | Inr (i, q) \<Rightarrow> State_Monad.return (Inr \<lparr>ti_BrokerTaskID = i, ti_Queue = q\<rparr>))
   }"

section \<open>The consumer\<close>

text \<open>
  \<^verbatim>\<open>NewConsumer\<close>: the configuration for asynq, with the logger for it, and the consumer's own logger.
  \<open>show_duration\<close> is the text of a duration.
\<close>

definition NewConsumer_logged ::
  "('z, 'g, 'h, 's) zap \<Rightarrow> (int \<Rightarrow> string) \<Rightarrow> consumer_config \<Rightarrow> 'x option \<Rightarrow> ('z, 'g, 'h) zap_logger option
     \<Rightarrow> ('z, 'g, 'h, 's, consumer_config \<times> ('x, ('z, 'g, 'h) zap_logger) asynq_logger \<times> ('z, 'g, 'h) zap_logger) log_prog" where
  "NewConsumer_logged Z show_duration cfg cfg_Logger cfg_RuntimeLogger = do {
     runtimeLog \<leftarrow> resolveRuntimeLogger Z cfg_RuntimeLogger;
     let (interval, clamped) = normalizeTaskCheckInterval (cc_TaskCheckInterval cfg);
     (if clamped
      then log_at Z WarnLevel runtimeLog ''consumer task check interval clamped''
        [AStr ''original'', AStr (show_duration (cc_TaskCheckInterval cfg)),
         AStr ''clamped'', AStr (show_duration interval)]
      else State_Monad.return ());
     State_Monad.return (NewConsumer cfg, resolveFrameworkLogger Z runtimeLog cfg_Logger, runtimeLog)
   }"

text \<open>The context in which the registered function calls the handler.\<close>

definition handler_ctx :: "codec \<Rightarrow> string \<Rightarrow> task_ctx \<Rightarrow> string \<Rightarrow> string \<Rightarrow> task_ctx" where
  "handler_ctx C inst ctx data supply =
     fst (injectTraceFromMetadata ctx (fst (snd (unwrapEnvelope C data))) inst supply)"

text \<open>The function \<^verbatim>\<open>Handle\<close> registers, with the id of the task from asynq's context. Handlers may log.\<close>

definition consumer_Handle ::
  "('z, 'g, 'h, 's) zap \<Rightarrow> codec \<Rightarrow> ('z, 'g, 'h) zap_logger \<Rightarrow> string
     \<Rightarrow> (task_ctx \<Rightarrow> task \<Rightarrow> ('q \<times> ('z, 'g, 'h, 's) log_world, gerr option) state)
     \<Rightarrow> task_ctx \<Rightarrow> string \<Rightarrow> string \<Rightarrow> string \<Rightarrow> string \<Rightarrow> string
     \<Rightarrow> ('q \<times> ('z, 'g, 'h, 's) log_world, gerr option) state" where
  "consumer_Handle Z C l inst handler ctx typ taskID queueName data supply = do {
     r \<leftarrow> Handle C inst handler ctx typ queueName data supply;
     (case r of
        Some e \<Rightarrow> do {
          on_log (log_context_at Z ErrorLevel l
            (log_ctx_of (handler_ctx C inst ctx data supply) :: ('z, 'g, 'h) zap_logger log_ctx option)
            ''task handler returned error''
            [AStr FieldTaskType, AStr typ, AStr FieldTaskID, AStr taskID, AStr FieldQueue, AStr queueName,
             AStr FieldError, AErr e]);
          State_Monad.return (Some e)
        }
      | None \<Rightarrow> State_Monad.return None)
   }"

section \<open>Correctness\<close>

text \<open>Without the log lines, publishing and handling are those of Queue_Broker.\<close>

lemma broker_Publish_result:
  "fst (run_state (broker_Publish Z C b ctx t) (s, w)) = fst (run_state (Publish C (bk_client b) ctx t) s) \<and>
   fst (snd (run_state (broker_Publish Z C b ctx t) (s, w))) = snd (run_state (Publish C (bk_client b) ctx t) s)"
  by (auto simp: broker_Publish_def Publish_def enqueue_def State_Monad.bind_def State_Monad.return_def
      split: prod.splits sum.splits)

lemma run_consumer_Handle:
  fixes Z :: "('z, 'g, 'h, 's) zap"
  assumes "run_state (Handle C inst handler ctx typ q data supply) (s, w0) = (Some e, (s', w))"
  shows "\<exists>w'. run_state (consumer_Handle Z C l inst handler ctx typ taskID q data supply) (s, w0) = (Some e, (s', w')) \<and>
    w' = snd (run_state (log_context_at Z ErrorLevel l
      (log_ctx_of (handler_ctx C inst ctx data supply) :: ('z, 'g, 'h) zap_logger log_ctx option)
      ''task handler returned error''
      [AStr FieldTaskType, AStr typ, AStr FieldTaskID, AStr taskID, AStr FieldQueue, AStr q, AStr FieldError, AErr e]) w)"
  using assms by (simp add: consumer_Handle_def State_Monad.bind_def State_Monad.return_def case_prod_beta)

lemma runtime_logger:
  "fst (run_state (resolveRuntimeLogger Z (Some l)) w) = log_With Z l [AStr FieldComponent, AStr componentAsynqBroker]"
  by (simp add: resolveRuntimeLogger_def State_Monad.bind_def State_Monad.return_def)

lemma span_nonempty: "fst (NewSpanId seed) \<noteq> ''''"
  using new_ids_valid(2) [of seed] by (auto dest!: valid_hex_nonempty)

text \<open>
  C26. A failed task can be traced. When the handler of a published task returns an error, the
  consumer returns it too, and writes to every output of its logger one error line with the trace id of
  the publisher, the span the handler ran in, the task's type, id and queue, and the error; whatever the program
  and the handler logged before, and whatever the sampling.
\<close>

theorem task_failure_traced:
  fixes Z :: "('z, 'g, 'h, 's) zap"
  assumes C: "codec_ok C" and p: "task_Payload t = Some b" and tc: "tk_trace ctx = Some tc" "trace_ok tc"
    and s: "sendable (Some tc) (task_Reply t) (task_Metadata t)"
    and log: "zap_backend Z" "log_reachable Z w ls" "l \<in> ls"
    and fails: "\<And>c k. tk_trace c = Some \<lparr>TraceID = TraceID tc, SpanId = fst (NewSpanId seed), ParentSpanId = SpanId tc,
          InstanceId = inst, Sampled = Sampled tc\<rparr> \<Longrightarrow> task_Payload k = Some b \<Longrightarrow>
        run_state (handler c k) (q0, w0) = (Some e, (q1, w))"
  defines "runtime \<equiv> fst (run_state (resolveRuntimeLogger Z (Some l)) w)"
  shows "\<exists>data gs w'. Publish C A ctx t = enqueue A t (Some data) \<and>
    run_state (consumer_Handle Z C runtime inst handler ctx' (task_Type t) taskID q data seed) (q0, w0) =
      (Some e, (q1, w')) \<and>
    lw_out w' = lw_out w @
      everywhere (zl_config l) (entry_of (logger_options (zl_config l)) ErrorLevel ''task handler returned error'')
        ((FieldService, AStr (lc_ServiceName (zl_config l))) # gs @
         [(FieldComponent, AStr ''asynqbroker''), (FieldTraceID, AStr (TraceID tc)),
          (FieldSpanID, AStr (fst (NewSpanId seed))), (FieldTaskType, AStr (task_Type t)),
          (FieldTaskID, AStr taskID), (FieldQueue, AStr q), (FieldError, AErr e)])"
proof -
  from published_handled [OF C tc(2) s, of b inst seed] obtain data m
    where w: "wrapWithTrace C (Some tc) (Some b) (task_Reply t) (task_Metadata t) = Some data"
      and u: "unwrapEnvelope C data = (Some b, Some m, task_Reply t, (case task_Metadata t of None \<Rightarrow> [] | Some kvs \<Rightarrow> kvs))"
      and c: "\<And>ctx. fst (injectTraceFromMetadata ctx (Some m) inst seed) =
        ctx\<lparr>tk_trace := Some \<lparr>TraceID = TraceID tc, SpanId = fst (NewSpanId seed), ParentSpanId = SpanId tc,
                InstanceId = inst, Sampled = Sampled tc\<rparr>,
              tk_log_trace := TraceID tc, tk_log_span := fst (NewSpanId seed)\<rparr>"
    by blast
  have ctx: "handler_ctx C inst ctx' data seed =
      ctx'\<lparr>tk_trace := Some \<lparr>TraceID = TraceID tc, SpanId = fst (NewSpanId seed), ParentSpanId = SpanId tc,
              InstanceId = inst, Sampled = Sampled tc\<rparr>,
            tk_log_trace := TraceID tc, tk_log_span := fst (NewSpanId seed)\<rparr>"
    by (simp add: handler_ctx_def u c)
  have "run_state (Handle C inst handler ctx' (task_Type t) q data seed) (q0, w0) = (Some e, (q1, w))"
    by (simp add: Handle_def u c fails)
  note run = run_consumer_Handle [OF this, of Z runtime taskID]
  have ne: "TraceID tc \<noteq> ''''" using tc(2) by (auto simp: trace_ok_def dest!: valid_hex_nonempty)
  obtain gs where "\<And>(cx :: ('z, 'g, 'h) zap_logger log_ctx option) m args extra.
      lw_out (snd (run_state (log_context_at Z ErrorLevel (log_With Z l extra) cx m args) w)) = lw_out w @
      everywhere (zl_config l) (entry_of (logger_options (zl_config l)) ErrorLevel m)
        ((FieldService, AStr (lc_ServiceName (zl_config l))) # gs @ argsToZapFields extra @
          contextToZapFields cx @ argsToZapFields args)"
    using errors_delivered [OF log] by blast
  then show ?thesis
    using run w
    by (intro exI [of _ data] exI [of _ gs])
       (auto simp: Publish_def p tc(1) runtime_def runtime_logger ctx log_ctx_of_def contextToZapFields_def
         TraceIDFromContext_def SpanIDFromContext_def ne span_nonempty componentAsynqBroker_def)
qed

section \<open>A task that fails\<close>

text \<open>A handler that keeps the payloads it gets and declines.\<close>

definition declining ::
  "task_ctx \<Rightarrow> task \<Rightarrow> (string option list \<times> ref_world, gerr option) state" where
  "declining ctx t = State (\<lambda>(s, w). (Some (errors_New ''card declined''), (s @ [task_Payload t], w)))"

theorem task_failure_traced_witness:
  "\<exists>data gs w'. Publish text_codec order_client order_ctx order_task = enqueue order_client order_task (Some data) \<and>
    run_state (consumer_Handle ref_zap text_codec
        (fst (run_state (resolveRuntimeLogger ref_zap (Some (logger_with shop_log_config))) (init_with shop_log_config)))
        ''b'' declining no_ctx ''order:pay'' ''7'' ''orders'' data ''seed'') ([], init_with shop_log_config) =
      (Some (errors_New ''card declined''), ([Some ''{}''], w')) \<and>
    length (lw_out w') = 2 \<and>
    (\<forall>r \<in> set (lw_out w'). wr_fields r = (FieldService, AStr ''shop'') # gs @
      [(FieldComponent, AStr ''asynqbroker''), (FieldTraceID, AStr (TraceID sample_trace)),
       (FieldSpanID, AStr (fst (NewSpanId ''seed''))), (FieldTaskType, AStr ''order:pay''),
       (FieldTaskID, AStr ''7''), (FieldQueue, AStr ''orders''), (FieldError, AErr (errors_New ''card declined''))])"
proof -
  have sendable: "sendable (Some sample_trace) (task_Reply order_task) (task_Metadata order_task)"
    using order_sendable by (simp add: order_task_def)
  have order: "task_Payload order_task = Some ''{}''" "tk_trace order_ctx = Some sample_trace" "task_Type order_task = ''order:pay''"
    by (simp_all add: order_task_def order_ctx_def)
  have fails: "task_Payload k = Some ''{}'' \<Longrightarrow> run_state (declining c k) ([], init_with shop_log_config) =
      (Some (errors_New ''card declined''), ([Some ''{}''], init_with shop_log_config))" for c k
    by (simp add: declining_def)
  have cfg: "lw_out (init_with shop_log_config) = []" "lc_ServiceName (applyDefaults shop_log_config) = ''shop''"
    "lc_Outputs (applyDefaults shop_log_config) \<noteq> []" "length (lc_Outputs (applyDefaults shop_log_config)) = 2"
    by code_simp+
  note failure = task_failure_traced [OF text_codec_ok order(1,2) sample_trace_ok sendable ref.zap_backend_axioms
      reach_logger(1) [OF shop_valid(1)] _ fails, where l = "logger_with shop_log_config" and seed = "''seed''"
      and inst = "''b''" and A = order_client and ctx' = no_ctx and taskID = "''7''" and q = "''orders''", simplified]
  show ?thesis
    using failure unfolding order reach_logger(2) [OF shop_valid(1)] cfg
    by (fastforce simp: everywhere_def cfg)
qed

end
