(* ===== verification/Demo_Server.thy ===== *)
theory Demo_Server
  imports Auth_Middleware Trace_Http Log_Instance
begin

text \<open>
  The demonstration server (\<^verbatim>\<open>examples/server/main.go\<close>, \<^verbatim>\<open>examples/internal/handler\<close>,
  \<^verbatim>\<open>examples/internal/middleware\<close>): the middlewares of the platform composed in one Gin chain, on the
  logger's state and the store of nonces.
\<close>

section \<open>Gin\<close>

text \<open>
  A reply is a response of the handlers in JSON (an empty \<open>trace_id\<close> or no data is left out), or a plain text.
  A Gin context is the part of it that the chain touches; the status is that of its writer, the replies
  are the bodies written.
\<close>

record response =
  rs_Code :: int
  rs_Message :: string
  rs_Data :: "(string \<times> string) list option"
  rs_TraceID :: string

datatype reply = Json response | Plain string

record server_gin =
  sg_request :: ctx_request
  sg_trace_keys :: "(string \<times> trace_context option) list"
  sg_headers :: header
  sg_cred_keys :: "(string \<times> credential) list"
  sg_credential :: "credential option"
  sg_client_ip :: string
  sg_status :: nat
  sg_replies :: "reply list"

text \<open>
  What the code uses of Gin and of the runtime: parsed queries, sizes of bodies, the stack's text, and the headers
  and the body of \<^verbatim>\<open>http.Redirect\<close>'s answer to a request.
\<close>

record gin_lib =
  gl_query :: "string \<Rightarrow> (string \<times> string list) list"
  gl_size :: "reply list \<Rightarrow> int"
  gl_stack :: string
  gl_redirect :: "ctx_request \<Rightarrow> header \<times> string"

text \<open>A handler or the rest of a chain comes back, or panics.\<close>

datatype ended = Returned server_gin | Panicked server_gin string

type_synonym ('z, 'g, 'h, 's) gin_handler = "server_gin \<Rightarrow> ('z, 'g, 'h, 's, ended) log_prog"
type_synonym ('z, 'g, 'h, 's, 'n) gin_chain = "server_gin \<Rightarrow> 'n \<Rightarrow> ('z, 'g, 'h, 's, ended \<times> 'n) log_prog"

text \<open>\<^verbatim>\<open>c.JSON\<close>: the status counts until a body is written.\<close>

definition gin_JSON :: "nat \<Rightarrow> response \<Rightarrow> server_gin \<Rightarrow> server_gin" where
  "gin_JSON status r c = c\<lparr>sg_status := (if sg_replies c = [] then status else sg_status c),
     sg_replies := sg_replies c @ [Json r]\<rparr>"

definition gin_Query :: "stdlib \<Rightarrow> gin_lib \<Rightarrow> string \<Rightarrow> server_gin \<Rightarrow> string" where
  "gin_Query L G key c =
     (case map_of (gl_query G (url_query L (rq_url (sg_request c)))) key of Some (v # _) \<Rightarrow> v | _ \<Rightarrow> '''')"

text \<open>The context of the request, as the logger sees it.\<close>

definition server_ctx :: "server_gin \<Rightarrow> unit log_ctx option" where
  "server_ctx c = Some (trace_ctx.extend (rq_ctx (sg_request c)) \<lparr>cv_logger = None\<rparr>)"

section \<open>Handlers\<close>

definition FieldUserID :: string where "FieldUserID = ''user_id''"
definition FieldModule :: string where "FieldModule = ''module''"
definition FieldMethod :: string where "FieldMethod = ''method''"
definition FieldPath :: string where "FieldPath = ''path''"
definition FieldCode :: string where "FieldCode = ''code''"
definition FieldLatencyMS :: string where "FieldLatencyMS = ''latency_ms''"
definition FieldPeerAddr :: string where "FieldPeerAddr = ''peer_addr''"

definition reply_json :: "nat \<Rightarrow> int \<Rightarrow> string \<Rightarrow> (string \<times> string) list option \<Rightarrow> server_gin \<Rightarrow> ended" where
  "reply_json status code m data c = Returned (gin_JSON status
     \<lparr>rs_Code = code, rs_Message = m, rs_Data = data, rs_TraceID = TraceIDFromContext (server_ctx c)\<rparr> c)"

definition Health :: "('z, 'g, 'h, 's) zap \<Rightarrow> ('z, 'g, 'h, 's) gin_handler" where
  "Health Z c = do {
     global_log_context Z InfoLevel (server_ctx c) ''health check'' [];
     State_Monad.return (reply_json 200 0 ''ok'' None c)
   }"

text \<open>The credential that \<^verbatim>\<open>CredentialFromGin\<close> finds in the keys of the context.\<close>

definition gin_credential :: "server_gin \<Rightarrow> credential option" where
  "gin_credential c = map_of (sg_cred_keys c) ginContextKey"

definition Hello :: "stdlib \<Rightarrow> gin_lib \<Rightarrow> ('z, 'g, 'h, 's) zap \<Rightarrow> ('z, 'g, 'h, 's) gin_handler" where
  "Hello L G Z c = do {
     let name = (if gin_Query L G ''name'' c = '''' then ''World'' else gin_Query L G ''name'' c);
     global_log_context Z InfoLevel (server_ctx c) ''processing hello request'' [AStr ''name'', AStr name];
     let clientLabel = (case gin_credential c of Some cred \<Rightarrow> Label cred | None \<Rightarrow> '''');
     State_Monad.return (reply_json 200 0 (''Hello, '' @ name @ ''!'') (Some [(''client'', clientLabel)]) c)
   }"

definition User :: "stdlib \<Rightarrow> gin_lib \<Rightarrow> ('z, 'g, 'h, 's) zap \<Rightarrow> ('z, 'g, 'h, 's) gin_handler" where
  "User L G Z c =
     (let userID = gin_Query L G ''id'' c in
      if userID = '''' then do {
        global_log_context Z WarnLevel (server_ctx c) ''missing user id parameter'' [];
        State_Monad.return (reply_json 400 400 ''user id is required'' None c)
      }
      else do {
        l \<leftarrow> GetLogger Z;
        let l = log_With Z (log_WithContext Z l (server_ctx c))
          [AStr FieldUserID, AStr userID, AStr FieldModule, AStr ''user-handler''];
        log_at Z InfoLevel l ''fetching user from database'' [];
        let userData = [(''id'', userID), (''name'', ''Demo User''), (''email'', ''demo@example.com'')] @
          (case gin_credential c of Some cred \<Rightarrow> [(''requested_by'', Label cred)] | None \<Rightarrow> []);
        log_at Z InfoLevel l ''user fetched successfully'' [];
        State_Monad.return (reply_json 200 0 ''success'' (Some userData) c)
      })"

definition Error_handler :: "('z, 'g, 'h, 's) zap \<Rightarrow> ('z, 'g, 'h, 's) gin_handler" where
  "Error_handler Z c = do {
     global_log_context Z ErrorLevel (server_ctx c) ''simulated error occurred''
       [AStr FieldError, AStr ''this is a test error'', AStr FieldModule, AStr ''error-handler''];
     State_Monad.return (reply_json 500 500 ''simulated error'' None c)
   }"

definition Panic_handler :: "('z, 'g, 'h, 's) zap \<Rightarrow> ('z, 'g, 'h, 's) gin_handler" where
  "Panic_handler Z c = do {
     global_log_context Z InfoLevel (server_ctx c) ''about to panic'' [];
     State_Monad.return (Panicked c ''simulated panic for testing'')
   }"

section \<open>Middlewares\<close>

text \<open>The panic is caught and answered; \<^verbatim>\<open>AbortWithStatusJSON\<close> writes like \<^verbatim>\<open>c.JSON\<close>.\<close>

definition GinRecovery ::
  "('z, 'g, 'h, 's) zap \<Rightarrow> gin_lib \<Rightarrow> ('z, 'g, 'h, 's, 'n) gin_chain \<Rightarrow> server_gin \<Rightarrow> 'n
     \<Rightarrow> ('z, 'g, 'h, 's, server_gin \<times> 'n) log_prog" where
  "GinRecovery Z G rest c s = do {
     r \<leftarrow> rest c s;
     (case r of
        (Returned c', s') \<Rightarrow> State_Monad.return (c', s')
      | (Panicked c' e, s') \<Rightarrow> do {
          global_log_context Z ErrorLevel (server_ctx c') ''panic recovered''
            [AStr FieldError, AStr e, AStr ''stacktrace'', AStr (gl_stack G)];
          State_Monad.return (gin_JSON 500 \<lparr>rs_Code = 500, rs_Message = ''Internal Server Error'', rs_Data = None,
            rs_TraceID = TraceIDFromContext (server_ctx c')\<rparr> c', s')
        })
   }"

definition completed_level :: "nat \<Rightarrow> int" where
  "completed_level status = (if status \<ge> 500 then ErrorLevel else if status \<ge> 400 then WarnLevel else InfoLevel)"

text \<open>\<open>ms\<close> is the time the rest of the chain took.\<close>

definition GinLogger ::
  "stdlib \<Rightarrow> gin_lib \<Rightarrow> ('z, 'g, 'h, 's) zap \<Rightarrow> int \<Rightarrow> ('z, 'g, 'h, 's, 'n) gin_chain \<Rightarrow> ('z, 'g, 'h, 's, 'n) gin_chain" where
  "GinLogger L G Z ms rest c s = do {
     let path = url_path L (rq_url (sg_request c));
     let query = url_query L (rq_url (sg_request c));
     global_log_context Z InfoLevel (server_ctx c) ''request started''
       [AStr FieldMethod, AStr (rq_method (sg_request c)), AStr FieldPath, AStr path,
        AStr FieldPeerAddr, AStr (sg_client_ip c)];
     r \<leftarrow> rest c s;
     (case r of
        (Panicked c' e, s') \<Rightarrow> State_Monad.return (Panicked c' e, s')
      | (Returned c', s') \<Rightarrow> do {
          global_log_context Z (completed_level (sg_status c')) (server_ctx c') ''request completed''
            ([AStr FieldMethod, AStr (rq_method (sg_request c')), AStr FieldPath, AStr path,
              AStr FieldCode, AVal (GInt (int (sg_status c'))), AStr FieldLatencyMS, AVal (GInt64 ms),
              AStr ''response_size'', AVal (GInt (gl_size G (sg_replies c')))] @
             (if query \<noteq> '''' then [AStr ''query'', AStr query] else []));
          State_Monad.return (Returned c', s')
        })
   }"

text \<open>The middlewares of \<^verbatim>\<open>trace\<close> and \<^verbatim>\<open>auth\<close> see their parts of the context.\<close>

definition trace_part :: "server_gin \<Rightarrow> trace_gin" where
  "trace_part c = \<lparr>tg_request = Some (sg_request c), tg_keys = sg_trace_keys c, tg_response = sg_headers c\<rparr>"

definition with_trace_part :: "trace_gin \<Rightarrow> server_gin \<Rightarrow> server_gin" where
  "with_trace_part g c = c\<lparr>sg_request := (case tg_request g of Some r \<Rightarrow> r | None \<Rightarrow> sg_request c),
     sg_trace_keys := tg_keys g, sg_headers := tg_response g\<rparr>"

definition use_trace :: "string \<Rightarrow> string \<Rightarrow> ('z, 'g, 'h, 's, 'n) gin_chain \<Rightarrow> ('z, 'g, 'h, 's, 'n) gin_chain" where
  "use_trace instanceId supply rest c s =
     (case TraceMiddleware instanceId (trace_part c) supply of
        None \<Rightarrow> State_Monad.return (Panicked c ''nil pointer dereference'', s)
      | Some (g, _) \<Rightarrow> rest (with_trace_part g c) s)"

definition auth_part :: "server_gin \<Rightarrow> gin_context" where
  "auth_part c = \<lparr>gc_request = request.truncate (sg_request c), gc_keys = sg_cred_keys c,
     gc_ctx_credential = sg_credential c, gc_response = None\<rparr>"

definition use_auth ::
  "stdlib \<Rightarrow> 'n verifier \<Rightarrow> middleware_option option \<Rightarrow> int \<Rightarrow> ('z, 'g, 'h, 's) gin_handler
     \<Rightarrow> ('z, 'g, 'h, 's, 'n) gin_chain" where
  "use_auth L v opt t handler c s =
     (case AKSKAuthMiddleware L v opt t (auth_part c) s of
        (Next g, s') \<Rightarrow> do {
          r \<leftarrow> handler (c\<lparr>sg_cred_keys := gc_keys g, sg_credential := gc_ctx_credential g\<rparr>);
          State_Monad.return (r, s')
        }
      | (Abort g, s') \<Rightarrow> State_Monad.return (Returned (case gc_response g of
            Some (status, m) \<Rightarrow> gin_JSON status
              \<lparr>rs_Code = int status, rs_Message = m, rs_Data = None, rs_TraceID = ''''\<rparr> c
          | None \<Rightarrow> c), s'))"

section \<open>The server\<close>

definition server_config :: "bool \<Rightarrow> string \<Rightarrow> log_config" where
  "server_config dev logFile =
     (if dev then DevelopmentConfig ''nsp-demo''
      else if logFile \<noteq> '''' then MultiOutputConfig ''nsp-demo'' logFile
      else log_DefaultConfig ''nsp-demo'')"

definition demo_credentials :: "credential list" where
  "demo_credentials =
     [\<lparr>AccessKey = ''test-ak'', SecretKey = ''test-sk-1234567890abcdef'', Label = ''test-client'', Enabled = True\<rparr>,
      \<lparr>AccessKey = ''demo-ak'', SecretKey = ''demo-sk-abcdef1234567890'', Label = ''demo-client'', Enabled = True\<rparr>]"

definition demo_verifier :: "nonce_store verifier" where
  "demo_verifier = NewVerifier (GetByAK (NewMemoryStore (map Some demo_credentials))) mem_check None"

definition demo_option :: "stdlib \<Rightarrow> middleware_option option" where
  "demo_option L = Some \<lparr>Skipper = Some (NewSkipperByPath L [''/health'']), OnAuthFailed = None\<rparr>"

definition demo_routes ::
  "stdlib \<Rightarrow> gin_lib \<Rightarrow> ('z, 'g, 'h, 's) zap \<Rightarrow> ((string \<times> string) \<times> ('z, 'g, 'h, 's) gin_handler) list" where
  "demo_routes L G Z =
     [((''GET'', ''/health''), Health Z), ((''GET'', ''/hello''), Hello L G Z), ((''GET'', ''/user''), User L G Z),
      ((''GET'', ''/error''), Error_handler Z), ((''GET'', ''/panic''), Panic_handler Z)]"

text \<open>The chain in the order of the calls of \<^verbatim>\<open>r.Use\<close>, then the handler.\<close>

definition demo_chain ::
  "stdlib \<Rightarrow> gin_lib \<Rightarrow> ('z, 'g, 'h, 's) zap \<Rightarrow> string \<Rightarrow> string \<Rightarrow> int \<Rightarrow> int \<Rightarrow> ('z, 'g, 'h, 's) gin_handler
     \<Rightarrow> server_gin \<Rightarrow> nonce_store \<Rightarrow> ('z, 'g, 'h, 's, server_gin \<times> nonce_store) log_prog" where
  "demo_chain L G Z instanceId supply t ms handler =
     GinRecovery Z G (use_trace instanceId supply (GinLogger L G Z ms (use_auth L demo_verifier (demo_option L) t handler)))"

text \<open>
  Gin redirects where no route matches but one does with a slash added or taken away at the end
  (\<^verbatim>\<open>RedirectTrailingSlash\<close>, on in \<^verbatim>\<open>gin.New()\<close>), among the routes of the request's method; not the root,
  nor for CONNECT.
\<close>

definition gin_redirects :: "((string \<times> string) \<times> 'h) list \<Rightarrow> string \<Rightarrow> string \<Rightarrow> bool" where
  "gin_redirects routes meth path \<longleftrightarrow> meth \<noteq> ''CONNECT'' \<and> path \<noteq> ''/'' \<and>
     list_ex (\<lambda>(m, p). m = meth \<and> (path = p @ ''/'' \<or> path @ ''/'' = p)) (map fst routes)"

text \<open>
  One request at time \<open>t\<close>. A redirected one is answered by Gin alone, before any middleware. Without a route Gin
  sets the status 404 before the chain and writes its text after it, unless something was written.
\<close>

definition demo_serve ::
  "stdlib \<Rightarrow> gin_lib \<Rightarrow> ('z, 'g, 'h, 's) zap \<Rightarrow> string \<Rightarrow> string \<Rightarrow> int \<Rightarrow> int \<Rightarrow> string \<Rightarrow> ctx_request \<Rightarrow> nonce_store
     \<Rightarrow> ('z, 'g, 'h, 's, server_gin \<times> nonce_store) log_prog" where
  "demo_serve L G Z instanceId supply t ms ip req s =
     (let c = \<lparr>sg_request = req, sg_trace_keys = [], sg_headers = [], sg_cred_keys = [], sg_credential = None,
            sg_client_ip = ip, sg_status = 200, sg_replies = []\<rparr>
      in case map_of (demo_routes L G Z) (rq_method req, url_path L (rq_url req)) of
           Some handler \<Rightarrow> demo_chain L G Z instanceId supply t ms handler c s
         | None \<Rightarrow>
             if gin_redirects (demo_routes L G Z) (rq_method req) (url_path L (rq_url req))
             then State_Monad.return (c\<lparr>sg_status := (if rq_method req = ''GET'' then 301 else 307),
               sg_headers := fst (gl_redirect G req), sg_replies := [Plain (snd (gl_redirect G req))]\<rparr>, s)
             else do {
             r \<leftarrow> demo_chain L G Z instanceId supply t ms (\<lambda>c. State_Monad.return (Returned c)) (c\<lparr>sg_status := 404\<rparr>) s;
             (case r of (c', s') \<Rightarrow>
                State_Monad.return (if sg_replies c' = [] \<and> sg_status c' = 404
                  then c'\<lparr>sg_replies := [Plain ''404 page not found'']\<rparr> else c', s'))
           })"

section \<open>Lines of one request\<close>

text \<open>
  \<open>traced Z F A m Q\<close>: from any state a program can reach, with the loggers of \<open>A\<close>, the program \<open>m\<close> ends in such a
  state, every line it writes has the fields \<open>F\<close>, and its result is in \<open>Q\<close>.
\<close>

definition traced ::
  "('z, 'g, 'h, 's) zap \<Rightarrow> zap_field set \<Rightarrow> ('z, 'g, 'h) zap_logger set \<Rightarrow> ('z, 'g, 'h, 's, 'a) log_prog \<Rightarrow> ('a \<Rightarrow> bool) \<Rightarrow> bool" where
  "traced Z F A m Q \<longleftrightarrow> (\<forall>w ls x w'. log_reachable Z w ls \<longrightarrow> A \<subseteq> ls \<longrightarrow> run_state m w = (x, w') \<longrightarrow>
     Q x \<and> (\<exists>ls' new. log_reachable Z w' ls' \<and> A \<subseteq> ls' \<and> lw_out w' = lw_out w @ new \<and>
       (\<forall>r \<in> set new. F \<subseteq> set (wr_fields r))))"

lemma tracedI:
  assumes "\<And>w ls x w'. log_reachable Z w ls \<Longrightarrow> A \<subseteq> ls \<Longrightarrow> run_state m w = (x, w') \<Longrightarrow>
    Q x \<and> (\<exists>ls' new. log_reachable Z w' ls' \<and> A \<subseteq> ls' \<and> lw_out w' = lw_out w @ new \<and> (\<forall>r \<in> set new. F \<subseteq> set (wr_fields r)))"
  shows "traced Z F A m Q"
  using assms unfolding traced_def by blast

lemma tracedD:
  assumes "traced Z F A m Q" and "log_reachable Z w ls" "A \<subseteq> ls" "run_state m w = (x, w')"
  shows "Q x" and "\<exists>ls' new. log_reachable Z w' ls' \<and> A \<subseteq> ls' \<and> lw_out w' = lw_out w @ new \<and>
    (\<forall>r \<in> set new. F \<subseteq> set (wr_fields r))"
  using assms unfolding traced_def by blast+

lemma traced_return: "Q x \<Longrightarrow> traced Z F A (State_Monad.return x) Q"
  by (rule tracedI) (auto intro: exI [of _ "[]"])

lemma traced_bind:
  assumes m: "traced Z F A m P" and f: "\<And>x. P x \<Longrightarrow> traced Z F A (f x) Q"
  shows "traced Z F A (m \<bind> f) Q"
proof (rule tracedI)
  fix w ls x w'
  assume w: "log_reachable Z w ls" "A \<subseteq> ls" and run: "run_state (m \<bind> f) w = (x, w')"
  obtain y v where y: "run_state m w = (y, v)" by fastforce
  with run have fy: "run_state (f y) v = (x, w')" by (simp add: run_bind)
  from tracedD [OF m w y] obtain ls1 new1 where 1: "P y" "log_reachable Z v ls1" "A \<subseteq> ls1"
    "lw_out v = lw_out w @ new1" "\<forall>r \<in> set new1. F \<subseteq> set (wr_fields r)" by blast
  from tracedD [OF f [OF 1(1)] 1(2,3) fy] obtain ls2 new2 where 2: "Q x" "log_reachable Z w' ls2" "A \<subseteq> ls2"
    "lw_out w' = lw_out v @ new2" "\<forall>r \<in> set new2. F \<subseteq> set (wr_fields r)" by blast
  show "Q x \<and> (\<exists>ls' new. log_reachable Z w' ls' \<and> A \<subseteq> ls' \<and> lw_out w' = lw_out w @ new \<and>
      (\<forall>r \<in> set new. F \<subseteq> set (wr_fields r)))"
    using 1 2 by (intro conjI exI [of _ ls2] exI [of _ "new1 @ new2"]) auto
qed

lemma traced_weaken: "traced Z F A m P \<Longrightarrow> (\<And>x. P x \<Longrightarrow> Q x) \<Longrightarrow> traced Z F A m Q"
  unfolding traced_def by blast

lemma perform_none: "run_state (gives_none m) w = (None, snd (run_state m w))"
  by (simp add: gives_none_def run_bind split: prod.splits)

lemma GetLogger_reachable:
  assumes "log_reachable Z w ls" and "run_state (GetLogger Z) w = (l, w')"
  shows "log_reachable Z w' (insert l ls) \<and> lw_out w' = lw_out w"
proof -
  have "run_state (perform Z (C_GetLogger :: (_, unit log_ctx) log_call)) w = (Some l, w')"
    using assms(2) by (simp add: gives_def run_bind)
  from log_reachable.call [OF assms(1) _ this] have "log_reachable Z w' (insert l ls)" by simp
  moreover have "lw_out w' = lw_out w"
    using assms(2) by (auto simp: GetLogger_def run_bind newFallbackLogger_def run_newZapLogger
        split: option.splits if_splits)
  ultimately show ?thesis ..
qed

lemma traced_GetLogger:
  assumes "\<And>l. traced Z F (insert l A) (f l) Q"
  shows "traced Z F A (GetLogger Z \<bind> f) Q"
proof (rule tracedI)
  fix w ls x w'
  assume w: "log_reachable Z w ls" "A \<subseteq> ls" and run: "run_state (GetLogger Z \<bind> f) w = (x, w')"
  obtain l v where l: "run_state (GetLogger Z) w = (l, v)" by fastforce
  with run have f: "run_state (f l) v = (x, w')" by (simp add: run_bind)
  from GetLogger_reachable [OF w(1) l] have v: "log_reachable Z v (insert l ls)" "lw_out v = lw_out w" by simp_all
  have "insert l A \<subseteq> insert l ls" using w(2) by auto
  from tracedD [OF assms v(1) this f] v(2)
  show "Q x \<and> (\<exists>ls' new. log_reachable Z w' ls' \<and> A \<subseteq> ls' \<and> lw_out w' = lw_out w @ new \<and>
      (\<forall>r \<in> set new. F \<subseteq> set (wr_fields r)))" by auto
qed

lemma delivered_fields: "r \<in> set (delivered cfg v ent fs) \<Longrightarrow> wr_fields r = fs \<and> wr_entry r = ent"
  by (auto simp: delivered_def write_all_def split: if_splits)

lemma context_line:
  assumes Z: "zap_backend Z" and w: "log_reachable Z w ls" "l \<in> ls"
    and run: "run_state (log_context_at Z lev l (ctx :: unit log_ctx option) m args) w = (x, w')"
  shows "log_reachable Z w' ls" and "\<exists>new. lw_out w' = lw_out w @ new \<and>
    (\<forall>r \<in> set new. set (contextToZapFields ctx) \<subseteq> set (wr_fields r) \<and> en_message (wr_entry r) = m)"
proof -
  have w': "w' = snd (run_state (log_context_at Z lev l ctx m args) w)" using run by simp
  have "run_state (perform Z (C_LogContext lev l ctx m args)) w = (None, w')"
    by (simp add: perform_none w')
  from log_reachable.call [OF w(1) _ this] w(2) show "log_reachable Z w' ls" by simp
  note l = zap_backend.reachable_logger [OF Z w]
  obtain gs where gs: "logs_as Z l gs" using l(2) by blast
  let ?D = "delivered (zl_config l) (lw_levels w ! zl_atomicLevel l) (entry_of (logger_options (zl_config l)) lev m)
      ((FieldService, AStr (lc_ServiceName (zl_config l))) # gs @ contextToZapFields ctx @ argsToZapFields args)"
  have "lw_out w' \<in> {lw_out w, lw_out w @ ?D}"
    using zap_backend.method_delivers [OF Z l(1) gs, where lev = lev and m = m and ctx = ctx and args = args]
    by (simp add: w' Let_def)
  then obtain new where "new \<in> {[], ?D}" "lw_out w' = lw_out w @ new" by auto
  then show "\<exists>new. lw_out w' = lw_out w @ new \<and>
      (\<forall>r \<in> set new. set (contextToZapFields ctx) \<subseteq> set (wr_fields r) \<and> en_message (wr_entry r) = m)"
    by (intro exI [of _ new]) (auto dest!: delivered_fields simp: entry_of_def)
qed

lemma traced_context:
  assumes Z: "zap_backend Z" and F: "F \<subseteq> set (contextToZapFields ctx)" and l: "l \<in> A"
  shows "traced Z F A (log_context_at Z lev l (ctx :: unit log_ctx option) m args) (\<lambda>_. True)"
proof (rule tracedI)
  fix w ls x w'
  assume w: "log_reachable Z w ls" "A \<subseteq> ls" and run: "run_state (log_context_at Z lev l ctx m args) w = (x, w')"
  have "l \<in> ls" using l w(2) by blast
  from context_line [OF Z w(1) this run] w(2) F
  show "True \<and> (\<exists>ls' new. log_reachable Z w' ls' \<and> A \<subseteq> ls' \<and> lw_out w' = lw_out w @ new \<and>
      (\<forall>r \<in> set new. F \<subseteq> set (wr_fields r)))" by fastforce
qed

lemma traced_global:
  assumes "zap_backend Z" and "F \<subseteq> set (contextToZapFields ctx)"
  shows "traced Z F A (global_log_context Z lev (ctx :: unit log_ctx option) m args) (\<lambda>_. True)"
  unfolding global_log_context_def by (rule traced_GetLogger, rule traced_context [OF assms]) simp

lemma context_args: "argsToZapFields (extractContextFields ctx) = contextToZapFields ctx"
  by (cases ctx) (simp_all add: extractContextFields_def contextToZapFields_def TraceIDFromContext_def SpanIDFromContext_def)

lemma logs_as_WithContext:
  assumes "zap_backend Z" and "logs_as Z l gs"
  shows "logs_as Z (log_WithContext Z l ctx) (gs @ contextToZapFields ctx)"
proof (cases "extractContextFields ctx = []")
  case True
  then have "contextToZapFields ctx = []" using context_args [of ctx] by simp
  with True assms(2) show ?thesis by (simp add: log_WithContext_def)
next
  case False
  with zap_backend.logs_as_With [OF assms, of "extractContextFields ctx"] show ?thesis
    by (simp add: log_WithContext_def context_args)
qed

text \<open>A line of a logger derived from \<open>l\<close> with the ids of a context and further fields.\<close>

lemma traced_derived:
  assumes Z: "zap_backend Z" and F: "F \<subseteq> set (contextToZapFields ctx)" and l: "l \<in> A"
  shows "traced Z F A (log_at Z lev (log_With Z (log_WithContext Z l (ctx :: unit log_ctx option)) extra) m args) (\<lambda>_. True)"
    (is "traced Z F A (log_at Z lev ?l m args) _")
proof (rule tracedI)
  fix w ls x w'
  assume w: "log_reachable Z w ls" "A \<subseteq> ls" and run: "run_state (log_at Z lev ?l m args) w = (x, w')"
  have ls: "l \<in> ls" using l w(2) by blast
  let ?lc = "log_WithContext Z l ctx"
  have "run_state (perform Z (C_WithContext l ctx)) w = (Some ?lc, w)"
    by (simp add: gives_def run_bind)
  from log_reachable.call [OF w(1) _ this] ls have 1: "log_reachable Z w (insert ?lc ls)" by simp
  have "run_state (perform Z (C_With ?lc extra :: (_, unit log_ctx) log_call)) w = (Some ?l, w)"
    by (simp add: gives_def run_bind)
  from log_reachable.call [OF 1 _ this] have 2: "log_reachable Z w (insert ?l (insert ?lc ls))" by simp
  have w': "w' = snd (run_state (log_at Z lev ?l m args) w)" using run by simp
  have "run_state (perform Z (C_Log lev ?l m args :: (_, unit log_ctx) log_call)) w = (None, w')"
    by (simp add: perform_none w')
  from log_reachable.call [OF 2 _ this] have reach: "log_reachable Z w' (insert ?l (insert ?lc ls))" by simp
  obtain gs where "logs_as Z l gs" using zap_backend.reachable_logger(2) [OF Z w(1) ls] by blast
  from zap_backend.logs_as_With [OF Z logs_as_WithContext [OF Z this]]
  have gs: "logs_as Z ?l ((gs @ contextToZapFields ctx) @ argsToZapFields extra)" .
  note match = zap_backend.reachable_logger(1) [OF Z 2, of ?l]
  let ?D = "delivered (zl_config ?l) (lw_levels w ! zl_atomicLevel ?l) (entry_of (logger_options (zl_config ?l)) lev m)
      ((FieldService, AStr (lc_ServiceName (zl_config ?l))) #
        ((gs @ contextToZapFields ctx) @ argsToZapFields extra) @ argsToZapFields args)"
  have "fst (g_Log Z (zl_zlogger ?l) (lw_levels w) lev m (argsToZapFields args) (lw_zap w)) \<in> {[], ?D}"
    using zap_backend.log_delivers [OF Z _ gs, of "lw_levels w"] match by simp
  then have "\<exists>new \<in> {[], ?D}. lw_out w' = lw_out w @ new"
    by (auto simp: w' log_at_def zap_write_def split: prod.splits)
  then obtain new where new: "new \<in> {[], ?D}" "lw_out w' = lw_out w @ new" by blast
  have "\<forall>r \<in> set new. F \<subseteq> set (wr_fields r)"
    using new(1) F by (auto dest!: delivered_fields)
  with new(2) reach w(2) show "True \<and> (\<exists>ls' new. log_reachable Z w' ls' \<and> A \<subseteq> ls' \<and> lw_out w' = lw_out w @ new \<and>
      (\<forall>r \<in> set new. F \<subseteq> set (wr_fields r)))" by blast
qed

section \<open>The chain\<close>

text \<open>What every stage behind the trace middleware keeps: the ids of the request's context, the response headers.\<close>

definition on_trace :: "trace_context \<Rightarrow> header \<Rightarrow> server_gin \<Rightarrow> bool" where
  "on_trace tc h c \<longleftrightarrow> rq_ctx (sg_request c) = \<lparr>cv_trace = Some tc, cv_log_trace = TraceID tc, cv_log_span = SpanId tc\<rparr> \<and>
     sg_headers c = h \<and> (\<forall>r. Json r \<in> set (sg_replies c) \<longrightarrow> rs_TraceID r \<in> {'''', TraceID tc})"

fun at_end :: "ended \<Rightarrow> server_gin" where
  "at_end (Returned c) = c"
| "at_end (Panicked c e) = c"

definition trace_fields :: "trace_context \<Rightarrow> zap_field set" where
  "trace_fields tc = {(FieldTraceID, AStr (TraceID tc)), (FieldSpanID, AStr (SpanId tc))}"

lemma on_trace_fields:
  assumes "on_trace tc h c" and "TraceID tc \<noteq> ''''" "SpanId tc \<noteq> ''''"
  shows "trace_fields tc \<subseteq> set (contextToZapFields (server_ctx c))"
    and "TraceIDFromContext (server_ctx c) = TraceID tc"
  using assms by (auto simp: on_trace_def server_ctx_def trace_fields_def contextToZapFields_def
      TraceIDFromContext_def SpanIDFromContext_def trace_ctx.defs)

lemma on_trace_JSON:
  "on_trace tc h c \<Longrightarrow> rs_TraceID r \<in> {'''', TraceID tc} \<Longrightarrow> on_trace tc h (gin_JSON status r c)"
  by (auto simp: on_trace_def gin_JSON_def)

locale traced_request =
  fixes Z :: "('z, 'g, 'h, 's) zap" and tc :: trace_context and h :: header
  assumes Z: "zap_backend Z" and ids: "TraceID tc \<noteq> ''''" "SpanId tc \<noteq> ''''"
begin

lemma line: "on_trace tc h c \<Longrightarrow> traced Z (trace_fields tc) A (global_log_context Z lev (server_ctx c) m args) (\<lambda>_. True)"
  by (rule traced_global [OF Z on_trace_fields(1) [OF _ ids]])

lemma replied: "on_trace tc h c \<Longrightarrow> on_trace tc h (at_end (reply_json status code m data c))"
  using on_trace_fields(2) [OF _ ids] by (simp add: reply_json_def on_trace_JSON)

lemma handlers:
  assumes "on_trace tc h c"
  shows "traced Z (trace_fields tc) A (Health Z c) (\<lambda>e. on_trace tc h (at_end e))"
    and "traced Z (trace_fields tc) A (Hello L G Z c) (\<lambda>e. on_trace tc h (at_end e))"
    and "traced Z (trace_fields tc) A (User L G Z c) (\<lambda>e. on_trace tc h (at_end e))"
    and "traced Z (trace_fields tc) A (Error_handler Z c) (\<lambda>e. on_trace tc h (at_end e))"
    and "traced Z (trace_fields tc) A (Panic_handler Z c) (\<lambda>e. on_trace tc h (at_end e))"
  using assms unfolding Health_def Hello_def User_def Error_handler_def Panic_handler_def Let_def
  by (auto intro!: traced_bind [OF line] traced_return replied traced_GetLogger
      traced_bind [OF traced_derived [OF Z on_trace_fields(1) [OF _ ids]]] simp del: at_end.simps)
     (simp add: assms)

lemma auth_stage:
  assumes on: "on_trace tc h c"
    and handler: "\<And>c A. on_trace tc h c \<Longrightarrow> traced Z (trace_fields tc) A (handler c) (\<lambda>e. on_trace tc h (at_end e))"
  shows "traced Z (trace_fields tc) A (use_auth L v opt t handler c s) (\<lambda>(e, s'). on_trace tc h (at_end e))"
proof (cases "AKSKAuthMiddleware L v opt t (auth_part c) s")
  case (Pair out s')
  show ?thesis
  proof (cases out)
    case (Next g)
    have g: "on_trace tc h (c\<lparr>sg_cred_keys := gc_keys g, sg_credential := gc_ctx_credential g\<rparr>)"
      using on by (simp add: on_trace_def)
    show ?thesis
      by (auto simp: use_auth_def Pair Next intro!: traced_bind [OF handler [OF g]] traced_return)
  next
    case (Abort g)
    then show ?thesis
      using on on_trace_JSON [OF on] by (auto simp: use_auth_def Pair intro!: traced_return split: option.splits)
  qed
qed

lemma logger_stage:
  assumes on: "on_trace tc h c"
    and rest: "\<And>c s A. on_trace tc h c \<Longrightarrow> traced Z (trace_fields tc) A (rest c s) (\<lambda>(e, s'). on_trace tc h (at_end e))"
  shows "traced Z (trace_fields tc) A (GinLogger L G Z ms rest c s) (\<lambda>(e, s'). on_trace tc h (at_end e))"
  unfolding GinLogger_def Let_def
proof (rule traced_bind [OF line [OF on]], rule traced_bind [OF rest [OF on]])
  fix x :: "ended \<times> 'n"
  assume x: "case x of (e, s') \<Rightarrow> on_trace tc h (at_end e)"
  obtain e s' where e: "x = (e, s')" by fastforce
  show "traced Z (trace_fields tc) A (case x of (Returned c', s') \<Rightarrow> do {
      global_log_context Z (completed_level (sg_status c')) (server_ctx c') ''request completed''
        ([AStr FieldMethod, AStr (rq_method (sg_request c')), AStr FieldPath, AStr (url_path L (rq_url (sg_request c))),
          AStr FieldCode, AVal (GInt (int (sg_status c'))), AStr FieldLatencyMS, AVal (GInt64 ms),
          AStr ''response_size'', AVal (GInt (gl_size G (sg_replies c')))] @
         (if url_query L (rq_url (sg_request c)) \<noteq> '''' then [AStr ''query'', AStr (url_query L (rq_url (sg_request c)))] else []));
      State_Monad.return (Returned c', s') }
    | (Panicked c' e, s') \<Rightarrow> State_Monad.return (Panicked c' e, s')) (\<lambda>(e, s'). on_trace tc h (at_end e))"
    using x by (cases e) (auto simp: e intro!: traced_bind [OF line] traced_return)
qed

lemma recovery_stage:
  assumes rest: "traced Z (trace_fields tc) A (rest c s) (\<lambda>(e, s'). on_trace tc h (at_end e))"
  shows "traced Z (trace_fields tc) A (GinRecovery Z G rest c s) (\<lambda>(c', s'). on_trace tc h c')"
  unfolding GinRecovery_def
proof (rule traced_bind [OF rest])
  fix x :: "ended \<times> 'n"
  assume x: "case x of (e, s') \<Rightarrow> on_trace tc h (at_end e)"
  obtain e s' where e: "x = (e, s')" by fastforce
  show "traced Z (trace_fields tc) A (case x of (Returned c', s') \<Rightarrow> State_Monad.return (c', s')
      | (Panicked c' e, s') \<Rightarrow> do {
          global_log_context Z ErrorLevel (server_ctx c') ''panic recovered''
            [AStr FieldError, AStr e, AStr ''stacktrace'', AStr (gl_stack G)];
          State_Monad.return (gin_JSON 500 \<lparr>rs_Code = 500, rs_Message = ''Internal Server Error'', rs_Data = None,
            rs_TraceID = TraceIDFromContext (server_ctx c')\<rparr> c', s') }) (\<lambda>(c', s'). on_trace tc h c')"
    using x on_trace_fields(2) [OF _ ids]
    by (cases e) (auto simp: e intro!: traced_bind [OF line] traced_return on_trace_JSON)
qed

end

text \<open>The stages on the reference zap, for the trace of any request.\<close>

interpretation demo_trace: traced_request ref_zap "received inst hdrs seed" "InjectResponse [] (Some (received inst hdrs seed))"
  for inst hdrs seed
proof (rule traced_request.intro)
  show "zap_backend ref_zap" by (rule ref.zap_backend_axioms)
  show "TraceID (received inst hdrs seed) \<noteq> ''''" "SpanId (received inst hdrs seed) \<noteq> ''''"
    using received_ok [of inst hdrs seed] by (auto simp: trace_ok_def dest!: valid_hex_nonempty)
qed

text \<open>The trace of a request: what the trace middleware extracts from its headers.\<close>

lemma use_trace_eq:
  "use_trace inst supply rest c s = (let tc = received inst (rq_header (sg_request c)) supply
     in rest (c\<lparr>sg_request := (sg_request c)\<lparr>rq_ctx := \<lparr>cv_trace = Some tc, cv_log_trace = TraceID tc, cv_log_span = SpanId tc\<rparr>\<rparr>,
          sg_trace_keys := AList.update ginTraceKey (Some tc) (sg_trace_keys c),
          sg_headers := InjectResponse (sg_headers c) (Some tc)\<rparr>) s)"
proof -
  have "tg_request (trace_part c) = Some (sg_request c)" by (simp add: trace_part_def)
  from TraceMiddleware_eq [OF this, of inst "supply"] show ?thesis
    by (simp add: use_trace_def Let_def with_trace_part_def trace_part_def)
qed


section \<open>Answers\<close>

text \<open>What a program returns does not depend on the logger.\<close>

definition returns :: "('z, 'g, 'h, 's, 'a) log_prog \<Rightarrow> 'a \<Rightarrow> bool" where
  "returns m x \<longleftrightarrow> (\<forall>w. fst (run_state m w) = x)"

lemma returns_return: "returns (State_Monad.return x) x"
  by (simp add: returns_def)

lemma returns_bind: "returns m x \<Longrightarrow> returns (f x) y \<Longrightarrow> returns (m \<bind> f) y"
  by (simp add: returns_def run_bind split: prod.splits) (metis fst_conv)

lemma returns_any: "(\<And>x. returns (f x) y) \<Longrightarrow> returns (m \<bind> f) y"
  by (simp add: returns_def run_bind split: prod.splits)

text \<open>What the handler of a request ends with, in the context the middlewares leave.\<close>

definition handled :: "stdlib \<Rightarrow> gin_lib \<Rightarrow> string \<Rightarrow> string \<Rightarrow> server_gin \<Rightarrow> ended" where
  "handled L G method path c =
     (if method \<noteq> ''GET'' then Returned c
      else if path = ''/health'' then reply_json 200 0 ''ok'' None c
      else if path = ''/hello'' then reply_json 200 0
        (''Hello, '' @ (if gin_Query L G ''name'' c = '''' then ''World'' else gin_Query L G ''name'' c) @ ''!'')
        (Some [(''client'', case gin_credential c of Some cred \<Rightarrow> Label cred | None \<Rightarrow> '''')]) c
      else if path = ''/user'' then (let i = gin_Query L G ''id'' c in
        if i = '''' then reply_json 400 400 ''user id is required'' None c
        else reply_json 200 0 ''success'' (Some ([(''id'', i), (''name'', ''Demo User''), (''email'', ''demo@example.com'')] @
          (case gin_credential c of Some cred \<Rightarrow> [(''requested_by'', Label cred)] | None \<Rightarrow> []))) c)
      else if path = ''/error'' then reply_json 500 500 ''simulated error'' None c
      else if path = ''/panic'' then Panicked c ''simulated panic for testing''
      else Returned c)"

lemma handler_results:
  "returns (Health Z c) (handled L G ''GET'' ''/health'' c)"
  "returns (Hello L G Z c) (handled L G ''GET'' ''/hello'' c)"
  "returns (User L G Z c) (handled L G ''GET'' ''/user'' c)"
  "returns (Error_handler Z c) (handled L G ''GET'' ''/error'' c)"
  "returns (Panic_handler Z c) (handled L G ''GET'' ''/panic'' c)"
  by (auto simp: handled_def Health_def Hello_def User_def Error_handler_def Panic_handler_def Let_def
      intro!: returns_any returns_return)

text \<open>What comes out of the recovery middleware for the end of the chain.\<close>

definition recovered_from :: "ended \<Rightarrow> server_gin" where
  "recovered_from e = (case e of Returned c \<Rightarrow> c
     | Panicked c m \<Rightarrow> gin_JSON 500 \<lparr>rs_Code = 500, rs_Message = ''Internal Server Error'', rs_Data = None,
         rs_TraceID = TraceIDFromContext (server_ctx c)\<rparr> c)"

lemma recovery_result: "returns (rest c s) (e, s') \<Longrightarrow> returns (GinRecovery Z G rest c s) (recovered_from e, s')"
  unfolding GinRecovery_def recovered_from_def
  by (rule returns_bind, assumption) (auto intro!: returns_any returns_return split: ended.split)

lemma logger_result: "returns (rest c s) (e, s') \<Longrightarrow> returns (GinLogger L G Z ms rest c s) (e, s')"
  unfolding GinLogger_def Let_def
  by (rule returns_any, rule returns_bind, assumption) (auto intro!: returns_any returns_return split: ended.split)

text \<open>The context behind the trace middleware, and behind both middlewares.\<close>

definition with_trace :: "trace_context \<Rightarrow> server_gin \<Rightarrow> server_gin" where
  "with_trace tc c = c\<lparr>sg_request := (sg_request c)\<lparr>rq_ctx := \<lparr>cv_trace = Some tc, cv_log_trace = TraceID tc, cv_log_span = SpanId tc\<rparr>\<rparr>,
     sg_trace_keys := AList.update ginTraceKey (Some tc) (sg_trace_keys c),
     sg_headers := InjectResponse (sg_headers c) (Some tc)\<rparr>"

definition with_credential :: "credential \<Rightarrow> server_gin \<Rightarrow> server_gin" where
  "with_credential cred c = c\<lparr>sg_cred_keys := AList.update ginContextKey cred (sg_cred_keys c), sg_credential := Some cred\<rparr>"

lemma truncate_with_trace [simp]:
  "request.truncate (sg_request (with_trace tc c)) = request.truncate (sg_request c)"
  "rq_url (sg_request (with_trace tc c)) = rq_url (sg_request c)"
  "rq_method (sg_request (with_trace tc c)) = rq_method (sg_request c)"
  by (simp_all add: with_trace_def request.defs)

lemma auth_result:
  "returns (use_auth L v (demo_option L) t handler c s) (
     if url_path L (rq_url (sg_request c)) = ''/health''
     then (e0, s)
     else case Verify L v t (request.truncate (sg_request c)) s of
       (Inl e, s') \<Rightarrow> (Returned (gin_JSON (ErrorToHTTPStatus e) \<lparr>rs_Code = int (ErrorToHTTPStatus e), rs_Message = msg e,
          rs_Data = None, rs_TraceID = ''''\<rparr> c), s')
     | (Inr cred, s') \<Rightarrow> (e1 cred, s'))"
  if "returns (handler c) e0" and "\<And>cred. returns (handler (with_credential cred c)) (e1 cred)"
proof -
  note ends = returns_bind [OF that(2) [unfolded with_credential_def]] returns_bind [OF that(1)]
  show ?thesis
    by (auto simp: use_auth_def AKSKAuthMiddleware_def demo_option_def NewSkipperByPath_def auth_part_def
        request.defs ContextWithCredential_def defaultAuthFailedHandler_def split: prod.split sum.split
        intro!: returns_return ends)
qed

lemma chain_result:
  assumes "returns (handler (with_trace tc c)) e0"
    and "\<And>cred. returns (handler (with_credential cred (with_trace tc c))) (e1 cred)"
    and tc: "tc = received inst (rq_header (sg_request c)) seed"
  shows "returns (demo_chain L G Z inst seed t ms handler c s) (
     if url_path L (rq_url (sg_request c)) = ''/health''
     then (recovered_from e0, s)
     else case Verify L demo_verifier t (request.truncate (sg_request c)) s of
       (Inl e, s') \<Rightarrow> (gin_JSON (ErrorToHTTPStatus e) \<lparr>rs_Code = int (ErrorToHTTPStatus e), rs_Message = msg e,
          rs_Data = None, rs_TraceID = ''''\<rparr> (with_trace tc c), s')
     | (Inr cred, s') \<Rightarrow> (recovered_from (e1 cred), s'))"
proof -
  from auth_result [OF assms(1,2), of L demo_verifier t s]
  have "returns (use_auth L demo_verifier (demo_option L) t handler (with_trace tc c) s) (
     if url_path L (rq_url (sg_request c)) = ''/health'' then (e0, s)
     else case Verify L demo_verifier t (request.truncate (sg_request c)) s of
       (Inl e, s') \<Rightarrow> (Returned (gin_JSON (ErrorToHTTPStatus e) \<lparr>rs_Code = int (ErrorToHTTPStatus e), rs_Message = msg e,
          rs_Data = None, rs_TraceID = ''''\<rparr> (with_trace tc c)), s')
     | (Inr cred, s') \<Rightarrow> (e1 cred, s'))" (is "returns _ ?x")
    unfolding truncate_with_trace .
  moreover obtain e s' where x: "?x = (e, s')" by fastforce
  ultimately have "returns (use_trace inst seed (GinLogger L G Z ms (use_auth L demo_verifier (demo_option L) t handler)) c s) (e, s')"
    unfolding use_trace_eq Let_def tc [symmetric] with_trace_def [symmetric] by (auto intro: logger_result)
  then have "returns (demo_chain L G Z inst seed t ms handler c s) (recovered_from e, s')"
    unfolding demo_chain_def by (rule recovery_result)
  with x show ?thesis by (auto simp: recovered_from_def split: if_splits prod.splits sum.splits)
qed

text \<open>The context of a new request.\<close>

definition new_gin :: "string \<Rightarrow> ctx_request \<Rightarrow> server_gin" where
  "new_gin ip req = \<lparr>sg_request = req, sg_trace_keys = [], sg_headers = [], sg_cred_keys = [], sg_credential = None,
     sg_client_ip = ip, sg_status = 200, sg_replies = []\<rparr>"

lemma routed_handler:
  "case map_of (demo_routes L G Z) (meth, path) of
     Some handler \<Rightarrow> (\<forall>c. returns (handler c) (handled L G meth path c)) \<and> meth = ''GET'' \<and>
       path \<in> {''/health'', ''/hello'', ''/user'', ''/error'', ''/panic''}
   | None \<Rightarrow> (\<forall>c. handled L G meth path c = Returned c)"
proof (cases "meth = ''GET'' \<and> path \<in> {''/health'', ''/hello'', ''/user'', ''/error'', ''/panic''}")
  case True
  then have m: "meth = ''GET''" and p: "path \<in> {''/health'', ''/hello'', ''/user'', ''/error'', ''/panic''}" by blast+
  from p consider "path = ''/health''" | "path = ''/hello''" | "path = ''/user''" | "path = ''/error''" | "path = ''/panic''"
    by blast
  then show ?thesis
    by cases (simp_all add: m demo_routes_def handler_results)
next
  case False
  then have "map_of (demo_routes L G Z) (meth, path) = None" by (auto simp: demo_routes_def)
  moreover have "handled L G meth path c = Returned c" for c using False by (auto simp: handled_def)
  ultimately show ?thesis by simp
qed

definition routed :: "string \<Rightarrow> string \<Rightarrow> bool" where
  "routed meth path \<longleftrightarrow> meth = ''GET'' \<and> path \<in> {''/health'', ''/hello'', ''/user'', ''/error'', ''/panic''}"

text \<open>The requests Gin redirects, and its answer.\<close>

definition redirected :: "string \<Rightarrow> string \<Rightarrow> bool" where
  "redirected meth path \<longleftrightarrow> meth = ''GET'' \<and> path \<in> {''/health/'', ''/hello/'', ''/user/'', ''/error/'', ''/panic/''}"

definition redirect_answer :: "gin_lib \<Rightarrow> string \<Rightarrow> ctx_request \<Rightarrow> server_gin" where
  "redirect_answer G ip req = (new_gin ip req)\<lparr>sg_status := 301, sg_headers := fst (gl_redirect G req),
     sg_replies := [Plain (snd (gl_redirect G req))]\<rparr>"

lemma redirects_iff:
  "map_of (demo_routes L G Z) (meth, path) = None \<and> gin_redirects (demo_routes L G Z) meth path
     \<longleftrightarrow> redirected meth path"
proof -
  have no: "path @ ''/'' \<noteq> p" if "p \<in> {''/health'', ''/hello'', ''/user'', ''/error'', ''/panic''}" for p
    using that by (auto dest: arg_cong [where f = last])
  have "gin_redirects (demo_routes L G Z) meth path \<longleftrightarrow> redirected meth path"
    using no by (simp add: gin_redirects_def demo_routes_def redirected_def) auto
  moreover have "map_of (demo_routes L G Z) (meth, path) = None" if "redirected meth path"
    using that by (auto simp: redirected_def demo_routes_def)
  ultimately show ?thesis by blast
qed

lemma serve_redirected:
  assumes "redirected (rq_method req) (url_path L (rq_url req))"
  shows "demo_serve L G Z inst seed t ms ip req s = State_Monad.return (redirect_answer G ip req, s)"
proof -
  have "rq_method req = ''GET''" using assms by (simp add: redirected_def)
  then show ?thesis
    using redirects_iff [of L G Z "rq_method req" "url_path L (rq_url req)"] assms
    by (simp add: demo_serve_def redirect_answer_def new_gin_def)
qed

lemma serve_unrouted:
  assumes "\<not> redirected (rq_method req) (url_path L (rq_url req))"
    and "map_of (demo_routes L G Z) (rq_method req, url_path L (rq_url req)) = None"
  shows "\<not> gin_redirects (demo_routes L G Z) (rq_method req) (url_path L (rq_url req))"
  using assms redirects_iff by blast

text \<open>The context a handler of the request gets, but for the credential, and Gin's text where nothing was written.\<close>

definition received_gin :: "stdlib \<Rightarrow> string \<Rightarrow> string \<Rightarrow> string \<Rightarrow> ctx_request \<Rightarrow> server_gin" where
  "received_gin L inst seed ip req = with_trace (received inst (rq_header req) seed)
     (if routed (rq_method req) (url_path L (rq_url req)) then new_gin ip req else (new_gin ip req)\<lparr>sg_status := 404\<rparr>)"

definition finished :: "server_gin \<Rightarrow> server_gin" where
  "finished c = (if sg_replies c = [] \<and> sg_status c = 404 then c\<lparr>sg_replies := [Plain ''404 page not found'']\<rparr> else c)"

lemma finished_replied: "sg_replies c \<noteq> [] \<Longrightarrow> finished c = c"
  by (simp add: finished_def)

lemma JSON_replies [simp]: "sg_replies (gin_JSON st r c) = sg_replies c @ [Json r]"
  by (simp add: gin_JSON_def)

lemma routed_replies:
  "routed m p \<Longrightarrow> length (sg_replies (recovered_from (handled L G m p c))) = Suc (length (sg_replies c))"
  by (auto simp: routed_def handled_def recovered_from_def reply_json_def Let_def)

lemma serve_result:
  fixes L G inst seed ip req
  defines "m \<equiv> rq_method req" and "p \<equiv> url_path L (rq_url req)" and "c \<equiv> received_gin L inst seed ip req"
  assumes direct: "\<not> redirected m p"
  shows "returns (demo_serve L G Z inst seed t ms ip req s) (
     if p = ''/health'' then (finished (recovered_from (handled L G m p c)), s)
     else case Verify L demo_verifier t (request.truncate req) s of
       (Inl e, s') \<Rightarrow> (finished (gin_JSON (ErrorToHTTPStatus e) \<lparr>rs_Code = int (ErrorToHTTPStatus e), rs_Message = msg e,
          rs_Data = None, rs_TraceID = ''''\<rparr> c), s')
     | (Inr cred, s') \<Rightarrow> (finished (recovered_from (handled L G m p (with_credential cred c))), s'))"
proof -
  have url: "rq_url (sg_request (new_gin ip req)) = rq_url req"
    "request.truncate (sg_request (new_gin ip req)) = request.truncate req"
    "rq_header (sg_request (new_gin ip req)) = rq_header req"
    "sg_request ((new_gin ip req)\<lparr>sg_status := 404\<rparr>) = sg_request (new_gin ip req)"
    by (simp_all add: new_gin_def)
  show ?thesis
  proof (cases "map_of (demo_routes L G Z) (m, p)")
    case (Some handler)
    with routed_handler [where L = L and G = G and Z = Z and meth = m and path = p]
    have h: "returns (handler c) (handled L G m p c)" for c by auto
    have r: "routed m p"
      using Some routed_handler [where L = L and G = G and Z = Z and meth = m and path = p] by (simp add: routed_def)
    have c: "c = with_trace (received inst (rq_header req) seed) (new_gin ip req)"
      using r by (simp add: c_def received_gin_def m_def p_def)
    have final: "finished (recovered_from (handled L G m p d)) = recovered_from (handled L G m p d)" for d
      using routed_replies [OF r, of L G d] by (intro finished_replied) auto
    have refused: "finished (gin_JSON st rs d) = gin_JSON st rs d" for st rs d
      by (rule finished_replied) simp
    have serve: "demo_serve L G Z inst seed t ms ip req s = demo_chain L G Z inst seed t ms handler (new_gin ip req) s"
      using Some by (simp add: demo_serve_def new_gin_def m_def p_def)
    show ?thesis
      using chain_result [where handler = handler and c = "new_gin ip req" and inst = inst and seed = seed, OF h h refl,
        of L G Z t ms s]
      unfolding serve final refused unfolding url c p_def .
  next
    case None
    with routed_handler [where L = L and G = G and Z = Z and meth = m and path = p]
    have h: "handled L G m p c = Returned c" for c by simp
    have r: "\<not> routed m p"
      using None by (auto simp: routed_def demo_routes_def split: if_splits)
    let ?h = "\<lambda>c. State_Monad.return (Returned c) :: (_, _, _, _, ended) log_prog"
    let ?c = "(new_gin ip req)\<lparr>sg_status := 404\<rparr>"
    have c: "c = with_trace (received inst (rq_header req) seed) ?c"
      using r by (simp add: c_def received_gin_def m_def p_def)
    have "returns (?h d) (Returned d)" for d by (rule returns_return)
    note chain_result [where handler = ?h and c = ?c and inst = inst and seed = seed, OF this this refl,
        of L G Z t ms s, unfolded url]
    then have "returns (demo_chain L G Z inst seed t ms ?h ?c s) (
         if p = ''/health'' then (recovered_from (handled L G m p c), s)
         else case Verify L demo_verifier t (request.truncate req) s of
           (Inl e, s') \<Rightarrow> (gin_JSON (ErrorToHTTPStatus e) \<lparr>rs_Code = int (ErrorToHTTPStatus e), rs_Message = msg e,
              rs_Data = None, rs_TraceID = ''''\<rparr> c, s')
         | (Inr cred, s') \<Rightarrow> (recovered_from (handled L G m p (with_credential cred c)), s'))" (is "returns ?m ?x")
      unfolding h unfolding c p_def .
    then have "returns (?m \<bind> (\<lambda>r. case r of (c', s') \<Rightarrow> State_Monad.return (finished c', s'))) (finished (fst ?x), snd ?x)"
      by (rule returns_bind) (simp add: returns_return case_prod_beta)
    moreover have "demo_serve L G Z inst seed t ms ip req s =
        ?m \<bind> (\<lambda>r. case r of (c', s') \<Rightarrow> State_Monad.return (finished c', s'))"
      using None serve_unrouted [OF direct [unfolded m_def p_def], of G Z]
      by (simp add: demo_serve_def new_gin_def m_def p_def finished_def if_distrib cong: if_cong)
    moreover have "(finished (fst ?x), snd ?x) = (if p = ''/health'' then (finished (recovered_from (handled L G m p c)), s)
     else case Verify L demo_verifier t (request.truncate req) s of
       (Inl e, s') \<Rightarrow> (finished (gin_JSON (ErrorToHTTPStatus e) \<lparr>rs_Code = int (ErrorToHTTPStatus e), rs_Message = msg e,
          rs_Data = None, rs_TraceID = ''''\<rparr> c), s')
     | (Inr cred, s') \<Rightarrow> (finished (recovered_from (handled L G m p (with_credential cred c))), s'))"
      by (simp split: prod.split sum.split)
    ultimately show ?thesis by simp
  qed
qed

section \<open>Correctness\<close>





lemma with_credential_keys: "gin_credential (with_credential cred c) = Some cred"
  by (simp add: gin_credential_def with_credential_def update_conv')

lemma handled_credential:
  "gin_credential (recovered_from (handled L G m p c)) = gin_credential c"
  by (simp add: handled_def recovered_from_def reply_json_def gin_JSON_def gin_credential_def Let_def)

lemma finished_keeps:
  "gin_credential (finished c) = gin_credential c" "sg_headers (finished c) = sg_headers c"
  by (simp_all add: finished_def gin_credential_def)

lemma one_reply:
  assumes "c = received_gin L inst seed ip req \<or> c = with_credential cred (received_gin L inst seed ip req)"
  shows "length (sg_replies (finished (recovered_from (handled L G (rq_method req) (url_path L (rq_url req)) c)))) = 1"
    and "length (sg_replies (finished (gin_JSON st r c))) = 1"
proof -
  have c: "sg_replies c = []" "sg_status c = (if routed (rq_method req) (url_path L (rq_url req)) then 200 else 404)"
    using assms by (auto simp: received_gin_def with_trace_def with_credential_def new_gin_def)
  then show "length (sg_replies (finished (gin_JSON st r c))) = 1" by (simp add: finished_replied)
  show "length (sg_replies (finished (recovered_from (handled L G (rq_method req) (url_path L (rq_url req)) c)))) = 1"
  proof (cases "routed (rq_method req) (url_path L (rq_url req))")
    case True
    note one = routed_replies [OF True, of L G c]
    then have "sg_replies (recovered_from (handled L G (rq_method req) (url_path L (rq_url req)) c)) \<noteq> []" by auto
    from finished_replied [OF this] one c(1) show ?thesis by simp
  next
    case False
    then have "handled L G (rq_method req) (url_path L (rq_url req)) c = Returned c" by (auto simp: routed_def handled_def)
    with False c show ?thesis by (simp add: recovered_from_def finished_def)
  qed
qed

lemma demo_table:
  "NewMemoryStore (map Some demo_credentials) = map (\<lambda>c. (AccessKey c, c)) demo_credentials"
  "distinct (map AccessKey demo_credentials)" "list_all Enabled demo_credentials"
  by code_simp+

lemma demo_store:
  "v_store demo_verifier ak = Inr (Some cred) \<longleftrightarrow> cred \<in> set demo_credentials \<and> AccessKey cred = ak"
proof -
  have "v_store demo_verifier ak = Inr (map_of (map (\<lambda>c. (AccessKey c, c)) demo_credentials) ak)"
    by (simp only: demo_verifier_def NewVerifier_def GetByAK_def demo_table verifier.select_convs)
  moreover have "distinct (map fst (map (\<lambda>c. (AccessKey c, c)) demo_credentials))"
    using demo_table(2) by (simp add: o_def)
  from map_of_eq_Some_iff [OF this, of ak cred]
  have "map_of (map (\<lambda>c. (AccessKey c, c)) demo_credentials) ak = Some cred \<longleftrightarrow>
      cred \<in> set demo_credentials \<and> AccessKey cred = ak" by auto
  ultimately show ?thesis by simp
qed

text \<open>
  C7. Nobody gets past the demonstration server without a key. Whatever a request asks for, other than
  the health check, one body is written: Gin's redirect of a GET of a route with a slash at the end, which runs nothing
  of the program and changes nothing; the refusal of the verifier, with its status; or the
  answer to a request that is signed with the secret of one of the two credentials, over the hash of its own body,
  which is then the credential the handler finds.
\<close>

theorem server_gate:
  assumes run: "run_state (demo_serve L G Z inst seed t ms ip req s) w = ((c', s'), w')"
    and path: "url_path L (rq_url req) \<noteq> ''/health''"
  shows "length (sg_replies c') = 1 \<and>
    (if rq_method req = ''GET'' \<and> url_path L (rq_url req) \<in> {''/health/'', ''/hello/'', ''/user/'', ''/error/'', ''/panic/''}
     then sg_status c' = 301 \<and> sg_replies c' = [Plain (snd (gl_redirect G req))] \<and> gin_credential c' = None \<and>
       s' = s \<and> w' = w
     else
      (\<exists>e. fst (Verify L demo_verifier t (request.truncate req) s) = Inl e \<and> sg_status c' = ErrorToHTTPStatus e \<and>
        sg_replies c' = [Json \<lparr>rs_Code = int (ErrorToHTTPStatus e), rs_Message = msg e, rs_Data = None, rs_TraceID = ''''\<rparr>] \<and>
        gin_credential c' = None) \<or>
      (\<exists>cred \<in> set demo_credentials. \<exists>sig h.
        parseAuthHeader (get_header (request.truncate req) HeaderAuthorization) = Inr (AccessKey cred, sig) \<and>
        fst (hashRequestBody L (request.truncate req)) = Inr h \<and>
        sig = computeHMACSHA256 L (SecretKey cred)
          (buildStringToSign L (request.truncate req) (signed_headers (request.truncate req)) h) \<and>
        gin_credential c' = Some cred))"
proof (cases "redirected (rq_method req) (url_path L (rq_url req))")
  case True
  from run have "c' = redirect_answer G ip req" "w' = w" "s' = s" by (simp_all add: serve_redirected [OF True])
  with True show ?thesis by (simp add: redirected_def redirect_answer_def new_gin_def gin_credential_def)
next
  case direct: False
  let ?c = "received_gin L inst seed ip req" and ?m = "rq_method req" and ?p = "url_path L (rq_url req)"
  have c: "sg_replies ?c = []" "gin_credential ?c = None"
    by (simp_all add: received_gin_def with_trace_def new_gin_def gin_credential_def)
  have res: "(c', s') = (case Verify L demo_verifier t (request.truncate req) s of
       (Inl e, s') \<Rightarrow> (finished (gin_JSON (ErrorToHTTPStatus e) \<lparr>rs_Code = int (ErrorToHTTPStatus e), rs_Message = msg e,
          rs_Data = None, rs_TraceID = ''''\<rparr> ?c), s')
     | (Inr cred, s') \<Rightarrow> (finished (recovered_from (handled L G ?m ?p (with_credential cred ?c))), s'))"
    using serve_result [where Z = Z and L = L and G = G and inst = inst and seed = seed and ip = ip and req = req
        and t = t and ms = ms and s = s, OF direct, unfolded returns_def, THEN spec, of w]
    unfolding run fst_conv if_not_P [OF path] .
  obtain r v where V: "Verify L demo_verifier t (request.truncate req) s = (r, v)" by fastforce
  note simple = direct [unfolded redirected_def]
  show ?thesis
  proof (cases r)
    case (Inl e)
    then have c': "c' = finished (gin_JSON (ErrorToHTTPStatus e) \<lparr>rs_Code = int (ErrorToHTTPStatus e), rs_Message = msg e,
          rs_Data = None, rs_TraceID = ''''\<rparr> ?c)" using res V by simp
    have "sg_replies c' = [Json \<lparr>rs_Code = int (ErrorToHTTPStatus e), rs_Message = msg e, rs_Data = None, rs_TraceID = ''''\<rparr>]"
      "sg_status c' = ErrorToHTTPStatus e" "gin_credential c' = None"
      using c by (simp_all add: c' finished_replied gin_JSON_def gin_credential_def)
    with V Inl show ?thesis unfolding if_not_P [OF simple] by simp
  next
    case (Inr cred)
    then have c': "c' = finished (recovered_from (handled L G ?m ?p (with_credential cred ?c)))" using res V by simp
    have "gin_credential c' = Some cred"
      by (simp add: c' finished_keeps handled_credential with_credential_keys)
    moreover have "length (sg_replies c') = 1" unfolding c' by (rule one_reply(1)) blast
    moreover have "fst (Verify L demo_verifier t (request.truncate req) s) = Inr cred" using V Inr by simp
    then obtain ak sig h where "parseAuthHeader (get_header (request.truncate req) HeaderAuthorization) = Inr (ak, sig)"
      "v_store demo_verifier ak = Inr (Some cred)" "fst (hashRequestBody L (request.truncate req)) = Inr h"
      "sig = computeHMACSHA256 L (SecretKey cred)
         (buildStringToSign L (request.truncate req) (signed_headers (request.truncate req)) h)"
      by (auto simp: verify_accepts)
    ultimately show ?thesis unfolding demo_store if_not_P [OF simple] by blast
  qed
qed

section \<open>A panic\<close>

text \<open>A line through the global logger of an initialised package.\<close>

definition logs_through :: "('z, 'g, 'h, 's) zap \<Rightarrow> ('z, 'g, 'h) zap_logger \<Rightarrow> ('z, 'g, 'h, 's) log_world \<Rightarrow> bool" where
  "logs_through Z l w \<longleftrightarrow> lw_initialized w \<and> lw_global w = Some l \<and> (\<exists>ls. log_reachable Z w ls \<and> l \<in> ls)"

lemma run_global:
  assumes "logs_through Z l w"
  shows "run_state (global_log_context Z lev ctx m args) w = run_state (log_context_at Z lev l ctx m args) w"
  using assms by (simp add: logs_through_def global_log_context_def run_bind GetLogger_def)

lemma global_line:
  assumes Z: "zap_backend Z" and w: "logs_through Z l w"
    and run: "run_state (global_log_context Z lev (ctx :: unit log_ctx option) m args) w = (x, w')"
  shows "logs_through Z l w'" and "\<exists>new. lw_out w' = lw_out w @ new \<and> (\<forall>r \<in> set new. en_message (wr_entry r) = m)"
proof -
  obtain ls where ls: "log_reachable Z w ls" "l \<in> ls" using w by (auto simp: logs_through_def)
  note run' = run [unfolded run_global [OF w]]
  note line = context_line [OF Z ls run']
  have "lw_initialized w' = lw_initialized w" "lw_global w' = lw_global w"
    using run' by (auto simp: log_context_at_def zap_write_def modifies_def split: prod.splits)
  with w line(1) ls(2) show "logs_through Z l w'" by (auto simp: logs_through_def)
  show "\<exists>new. lw_out w' = lw_out w @ new \<and> (\<forall>r \<in> set new. en_message (wr_entry r) = m)" using line(2) by blast
qed

text \<open>An error line in a context without a logger of its own.\<close>

lemma errors_written:
  assumes Z: "zap_backend Z" and w: "log_reachable Z w ls" "l \<in> ls"
  shows "\<exists>gs. lw_out (snd (run_state (log_context_at Z ErrorLevel l (ctx :: unit log_ctx option) m args) w)) = lw_out w @
      everywhere (zl_config l) (entry_of (logger_options (zl_config l)) ErrorLevel m)
        ((FieldService, AStr (lc_ServiceName (zl_config l))) # gs @ contextToZapFields ctx @ argsToZapFields args)"
proof -
  note l = zap_backend.reachable_logger [OF Z w]
  obtain gs where gs: "logs_as Z l gs" using l(2) by blast
  have valid: "valid_level (lw_levels w ! zl_atomicLevel l)" using l(1) by (simp add: levels_match_def)
  show ?thesis
    using zap_backend.method_delivers [OF Z l(1) gs, where lev = ErrorLevel and m = m and ctx = ctx and args = args]
    by (intro exI [of _ gs]) (simp add: Let_def delivered_error [OF valid] entry_of_def)
qed

lemma panic_run:
  fixes Z :: "('z, 'g, 'h, 's) zap" and L G inst seed ip req
  assumes ok: "Verify L demo_verifier t (request.truncate req) s = (Inr cred, v)"
    and route: "rq_method req = ''GET''" "url_path L (rq_url req) = ''/panic''"
  defines "c \<equiv> received_gin L inst seed ip req"
  shows "demo_serve L G Z inst seed t ms ip req s = do {
     global_log_context Z InfoLevel (server_ctx c) ''request started''
       [AStr FieldMethod, AStr ''GET'', AStr FieldPath, AStr ''/panic'', AStr FieldPeerAddr, AStr ip];
     global_log_context Z InfoLevel (server_ctx c) ''about to panic'' [];
     global_log_context Z ErrorLevel (server_ctx c) ''panic recovered''
       [AStr FieldError, AStr ''simulated panic for testing'', AStr ''stacktrace'', AStr (gl_stack G)];
     State_Monad.return (gin_JSON 500 \<lparr>rs_Code = 500, rs_Message = ''Internal Server Error'', rs_Data = None,
       rs_TraceID = TraceIDFromContext (server_ctx c)\<rparr> (with_credential cred c), v) }"
proof -
  let ?d = "with_credential cred c"
  have r: "routed (rq_method req) (url_path L (rq_url req))" using route by (simp add: routed_def)
  have c: "c = with_trace (received inst (rq_header req) seed) (new_gin ip req)"
    using r by (simp add: c_def received_gin_def)
  have parts: "rq_method (sg_request c) = ''GET''" "url_path L (rq_url (sg_request c)) = ''/panic''"
    "request.truncate (sg_request c) = request.truncate req" "sg_client_ip c = ip" "server_ctx ?d = server_ctx c"
    using route by (simp_all add: c with_trace_def new_gin_def with_credential_def server_ctx_def request.defs)
  have auth: "use_auth L demo_verifier (demo_option L) t (Panic_handler Z) c s = do {
      global_log_context Z InfoLevel (server_ctx c) ''about to panic'' [];
      State_Monad.return (Panicked ?d ''simulated panic for testing'', v) }"
    using ok parts(2,3,5)
    by (simp add: use_auth_def AKSKAuthMiddleware_def demo_option_def NewSkipperByPath_def auth_part_def
        request.defs ContextWithCredential_def Panic_handler_def with_credential_def)
  have "map_of (demo_routes L G Z) (''GET'', ''/panic'') = Some (Panic_handler Z)" by (simp add: demo_routes_def)
  then have "demo_serve L G Z inst seed t ms ip req s = demo_chain L G Z inst seed t ms (Panic_handler Z) (new_gin ip req) s"
    by (simp add: demo_serve_def new_gin_def route)
  also have "\<dots> = GinRecovery Z G (\<lambda>_ _. GinLogger L G Z ms (use_auth L demo_verifier (demo_option L) t (Panic_handler Z)) c s) (new_gin ip req) s"
  proof -
    have "sg_request (new_gin ip req) = req" by (simp add: new_gin_def)
    then show ?thesis
      unfolding demo_chain_def GinRecovery_def use_trace_eq Let_def with_trace_def [symmetric] c by simp
  qed
  finally show ?thesis
    by (simp add: GinRecovery_def GinLogger_def auth parts Let_def)
qed

text \<open>
  C9. A panic is answered and reported. A verified request to the panicking handler gets status 500 and one
  body with the trace id of the request; every output of the global logger gets one error line
  ''panic recovered'' with the ids of the trace, the panic's value and the stack. Before it there are only the
  lines of the start of the request and of the handler: the access line ''request completed'' is missing.
\<close>

theorem panic_answered:
  fixes Z :: "('z, 'g, 'h, 's) zap"
  assumes Z: "zap_backend Z" and w: "log_reachable Z w ls" "l \<in> ls" "lw_initialized w" "lw_global w = Some l"
    and ok: "fst (Verify L demo_verifier t (request.truncate req) s) = Inr cred"
    and route: "rq_method req = ''GET''" "url_path L (rq_url req) = ''/panic''"
    and run: "run_state (demo_serve L G Z inst seed t ms ip req s) w = ((c', s'), w')"
  shows "\<exists>tc pre gs. tc = received inst (rq_header req) seed \<and> sg_status c' = 500 \<and>
    sg_replies c' = [Json \<lparr>rs_Code = 500, rs_Message = ''Internal Server Error'', rs_Data = None, rs_TraceID = TraceID tc\<rparr>] \<and>
    (\<forall>r \<in> set pre. en_message (wr_entry r) \<in> {''request started'', ''about to panic''}) \<and>
    lw_out w' = lw_out w @ pre @
      everywhere (zl_config l) (entry_of (logger_options (zl_config l)) ErrorLevel ''panic recovered'')
        ((FieldService, AStr (lc_ServiceName (zl_config l))) # gs @
         [(FieldTraceID, AStr (TraceID tc)), (FieldSpanID, AStr (SpanId tc)),
          (FieldError, AStr ''simulated panic for testing''), (''stacktrace'', AStr (gl_stack G))])"
proof -
  let ?c = "received_gin L inst seed ip req" and ?tc = "received inst (rq_header req) seed"
  obtain v where V: "Verify L demo_verifier t (request.truncate req) s = (Inr cred, v)"
    using ok by (cases "Verify L demo_verifier t (request.truncate req) s") auto
  have ids: "TraceID ?tc \<noteq> ''''" "SpanId ?tc \<noteq> ''''"
    using received_ok [of inst "rq_header req" seed] by (auto simp: trace_ok_def dest!: valid_hex_nonempty)
  have ctx: "contextToZapFields (server_ctx ?c) = [(FieldTraceID, AStr (TraceID ?tc)), (FieldSpanID, AStr (SpanId ?tc))]"
    "TraceIDFromContext (server_ctx ?c) = TraceID ?tc" "sg_replies (with_credential cred ?c) = []"
    using ids by (simp_all add: received_gin_def with_trace_def new_gin_def with_credential_def server_ctx_def
        contextToZapFields_def TraceIDFromContext_def SpanIDFromContext_def trace_ctx.defs)
  let ?started = "global_log_context Z InfoLevel (server_ctx ?c) ''request started''
       [AStr FieldMethod, AStr ''GET'', AStr FieldPath, AStr ''/panic'', AStr FieldPeerAddr, AStr ip]"
  let ?about = "global_log_context Z InfoLevel (server_ctx ?c) ''about to panic'' []"
  let ?args = "[AStr FieldError, AStr ''simulated panic for testing'', AStr ''stacktrace'', AStr (gl_stack G)]"
  let ?failed = "global_log_context Z ErrorLevel (server_ctx ?c) ''panic recovered'' ?args"
  obtain x1 w1 where 1: "run_state ?started w = (x1, w1)" using prod.exhaust by blast
  obtain x2 w2 where 2: "run_state ?about w1 = (x2, w2)" using prod.exhaust by blast
  have w0: "logs_through Z l w" using w by (auto simp: logs_through_def)
  note w1 = global_line [OF Z w0 1]
  note w2 = global_line [OF Z w1(1) 2]
  obtain pre where pre: "lw_out w2 = lw_out w @ pre"
    "\<forall>r \<in> set pre. en_message (wr_entry r) \<in> {''request started'', ''about to panic''}"
    using w1(2) w2(2) by fastforce
  obtain ls2 where ls2: "log_reachable Z w2 ls2" "l \<in> ls2" using w2(1) by (auto simp: logs_through_def)
  have w': "w' = snd (run_state (log_context_at Z ErrorLevel l (server_ctx ?c) ''panic recovered'' ?args) w2)"
    and c': "c' = gin_JSON 500 \<lparr>rs_Code = 500, rs_Message = ''Internal Server Error'', rs_Data = None,
       rs_TraceID = TraceID ?tc\<rparr> (with_credential cred ?c)"
    using run unfolding panic_run [OF V route] by (auto simp: run_bind 1 2 run_global [OF w2(1)] ctx(2) split: prod.splits)
  obtain gs where "lw_out w' = lw_out w2 @
      everywhere (zl_config l) (entry_of (logger_options (zl_config l)) ErrorLevel ''panic recovered'')
        ((FieldService, AStr (lc_ServiceName (zl_config l))) # gs @ contextToZapFields (server_ctx ?c) @ argsToZapFields ?args)"
    unfolding w' using errors_written [OF Z ls2] by blast
  then show ?thesis
    using pre c' ctx(1,3) by (intro exI [of _ ?tc] exI [of _ pre] exI [of _ gs]) (simp add: gin_JSON_def)
qed

end
