(* ===== verification/Demo_Client.thy ===== *)
theory Demo_Client
  imports Demo_Server
begin

text \<open>
  The test client of the demonstration server (\<^verbatim>\<open>examples/testclient/main.go\<close>), in its \<^verbatim>\<open>net/http\<close> form, and
  what the server of theory Demo_Server answers it.
\<close>

section \<open>Requests\<close>

definition test_signer :: signer where
  "test_signer = NewSigner ''test-ak'' ''test-sk-1234567890abcdef''"

definition test_url :: string where "test_url = ''http://localhost:8080''"

text \<open>
  \<^verbatim>\<open>http.NewRequest\<close> (whose error the client ignores: signing a nil request panics), the headers, and \<^verbatim>\<open>Sign\<close>
  at clock \<open>t\<close> with the random bytes \<open>rnd\<close>.
\<close>

definition test_call ::
  "stdlib \<Rightarrow> signer \<Rightarrow> gerr option \<Rightarrow> int \<Rightarrow> string \<Rightarrow> string \<Rightarrow> string \<Rightarrow> (string \<times> string) list \<Rightarrow> string option
     \<Rightarrow> gerr + request" where
  "test_call L signer rand_err t rnd method path hdrs body =
     (case NewRequest L method (test_url @ path) body of
        Inl e \<Rightarrow> Inl (errors_New ''nil pointer dereference'')
      | Inr r \<Rightarrow> fst (Sign L rand_err signer t rnd (fold (\<lambda>(k, v) r. set_header r k v) hdrs r)))"

definition testGET :: "stdlib \<Rightarrow> gerr option \<Rightarrow> int \<Rightarrow> string \<Rightarrow> gerr + request" where
  "testGET L rand_err t rnd = test_call L test_signer rand_err t rnd ''GET'' ''/hello?name=Test'' [] None"

definition testUser :: "stdlib \<Rightarrow> gerr option \<Rightarrow> int \<Rightarrow> string \<Rightarrow> gerr + request" where
  "testUser L rand_err t rnd = test_call L test_signer rand_err t rnd ''GET'' ''/user?id=123'' [] None"

text \<open>The name of the payload is in UTF-8.\<close>

definition test_payload :: string where
  "test_payload = ''{\"name\":\"'' @ map char_of [0xE5, 0xBC, 0xA0, 0xE4, 0xB8, 0x89 :: nat] @ ''\",\"age\":25}''"

definition testPOST :: "stdlib \<Rightarrow> gerr option \<Rightarrow> int \<Rightarrow> string \<Rightarrow> gerr + request" where
  "testPOST L rand_err t rnd = test_call L test_signer rand_err t rnd ''POST'' ''/hello''
     [(''Content-Type'', ''application/json'')] (Some test_payload)"

definition testWrongSK :: "stdlib \<Rightarrow> gerr option \<Rightarrow> int \<Rightarrow> string \<Rightarrow> gerr + request" where
  "testWrongSK L rand_err t rnd =
     test_call L (NewSigner ''test-ak'' ''wrong-secret-key'') rand_err t rnd ''GET'' ''/hello'' [] None"

definition testWrongAK :: "stdlib \<Rightarrow> gerr option \<Rightarrow> int \<Rightarrow> string \<Rightarrow> gerr + request" where
  "testWrongAK L rand_err t rnd =
     test_call L (NewSigner ''nonexistent-ak'' ''some-secret-key'') rand_err t rnd ''GET'' ''/hello'' [] None"

section \<open>The wire\<close>

text \<open>
  What the server reads of a request: the same method, path, query and body (an absent body reads as an empty one),
  and the same values of the headers that authentication looks at; other headers may be added, and
  the URL has lost its host.
\<close>

definition arrives_as :: "stdlib \<Rightarrow> request \<Rightarrow> request \<Rightarrow> bool" where
  "arrives_as L r r' \<longleftrightarrow> rq_method r' = rq_method r \<and> url_path L (rq_url r') = url_path L (rq_url r) \<and>
     url_query L (rq_url r') = url_query L (rq_url r) \<and> rq_body_err r' = None \<and> rq_body_err r = None \<and>
     (rq_body r' = rq_body r \<or> rq_body r = None \<and> rq_body r' = Some '''') \<and>
     (\<forall>k \<in> {HeaderAuthorization, HeaderTimestamp, HeaderNonce, HeaderSignedHeaders,
         ''content-type'', ''x-nsp-nonce'', ''x-nsp-timestamp''}. get_header r' k = get_header r k)"

lemma arrives_hash: "arrives_as L r r' \<Longrightarrow> fst (hashRequestBody L r') = fst (hashRequestBody L r)"
  by (cases "rq_body r") (auto simp: arrives_as_def hashRequestBody_def)

lemma trim_keys:
  "trim_space ''content-type'' = ''content-type''" "trim_space ''x-nsp-nonce'' = ''x-nsp-nonce''"
  "trim_space ''x-nsp-timestamp'' = ''x-nsp-timestamp''"
  by code_simp+

lemma arrives_string:
  assumes "arrives_as L r r'"
  shows "buildStringToSign L r' DefaultSignedHeaders h = buildStringToSign L r DefaultSignedHeaders h"
proof -
  have "buildCanonicalHeaders (rq_header r') DefaultSignedHeaders = buildCanonicalHeaders (rq_header r) DefaultSignedHeaders"
    unfolding buildCanonicalHeaders_def default_list
    using assms by (simp add: arrives_as_def get_header_def trim_keys Let_def)
  with assms show ?thesis by (simp add: buildStringToSign_def arrives_as_def)
qed

text \<open>A request accepted at the client's end is accepted on the other one.\<close>

lemma arrives_accepted:
  assumes wire: "arrives_as L r r'" and signed: "signed_headers r = DefaultSignedHeaders"
    and ok: "fst (Verify L v t r s) = Inr cred"
  shows "fst (Verify L v t r' s) = Inr cred"
proof -
  have same: "get_header r' k = get_header r k"
    if "k \<in> {HeaderAuthorization, HeaderTimestamp, HeaderNonce, HeaderSignedHeaders}" for k
    using wire that by (auto simp: arrives_as_def)
  have sh: "signed_headers r' = DefaultSignedHeaders"
    using signed same [of HeaderSignedHeaders] by (simp add: signed_headers_def)
  show ?thesis
    using ok same arrives_hash [OF wire] arrives_string [OF wire] signed sh
    unfolding verify_accepts by simp
qed

section \<open>Signed requests\<close>

lemma Sign_frame:
  assumes "fst (Sign L rand_err s t rnd r) = Inr r'"
  shows "rq_method r' = rq_method r \<and> rq_url r' = rq_url r \<and> rq_body r' = rq_body r \<and> rq_body_err r' = rq_body_err r"
  using assms
  by (auto simp: Sign_def generateNonce_def case_prod_beta Let_def set_header_frame
      split: option.splits sum.splits dest!: hash_ok [OF prod.collapse [symmetric, THEN trans]])
     (auto simp: hashRequestBody_def split: option.splits if_splits)

lemma fold_headers:
  "rq_method (fold (\<lambda>(k, v) r. set_header r k v) hdrs r) = rq_method r \<and>
   rq_url (fold (\<lambda>(k, v) r. set_header r k v) hdrs r) = rq_url r \<and>
   rq_body (fold (\<lambda>(k, v) r. set_header r k v) hdrs r) = rq_body r \<and>
   rq_body_err (fold (\<lambda>(k, v) r. set_header r k v) hdrs r) = rq_body_err r"
  by (induction hdrs arbitrary: r) auto

lemma test_call_request:
  assumes "test_call L signer rand_err t rnd method path hdrs body = Inr r" and "method \<noteq> ''''"
  obtains r0 where "fst (Sign L rand_err signer t rnd r0) = Inr r"
    "rq_method r = method" "rq_url r = test_url @ path" "rq_body r = body" "rq_body_err r = None"
proof -
  obtain q where q: "NewRequest L method (test_url @ path) body = Inr q"
    "fst (Sign L rand_err signer t rnd (fold (\<lambda>(k, v) r. set_header r k v) hdrs q)) = Inr r"
    using assms(1) by (auto simp: test_call_def split: sum.splits)
  then show ?thesis
    using that [OF q(2)] Sign_frame [OF q(2)] fold_headers [of hdrs q] assms(2)
    by (auto simp: NewRequest_def split: option.splits)
qed

definition in_time :: "int \<Rightarrow> int \<Rightarrow> bool" where
  "in_time t t' \<longleftrightarrow> 0 \<le> t \<and> t \<le> int64_max \<and> 0 \<le> t' \<and> t' \<le> int64_max \<and>
     \<bar>t' - t div 10 ^ 9 * 10 ^ 9\<bar> \<le> DefaultTimestampTolerance"

definition unseen :: "string \<Rightarrow> nonce_store \<Rightarrow> bool" where
  "unseen nonce s \<longleftrightarrow> nonce \<notin> fst ` set (nonces s)"

lemma demo_verifier_parts:
  "timestampTolerance demo_verifier = DefaultTimestampTolerance"
  "unseen nonce s \<Longrightarrow> fst (v_check demo_verifier t nonce ttl s) = Inr False"
  by (simp_all add: demo_verifier_def NewVerifier_def mem_check_def CheckAndStore_def unseen_def)

text \<open>What of a signed request holds at the server, whoever signed it.\<close>

lemma signed_arrives:
  assumes sign: "fst (Sign L rand_err signer t rnd r0) = Inr r" and wire: "arrives_as L r r'"
    and hmac: "\<And>k d. header_safe (hmac_sha256_hex L k d)" and key: "header_safe (accessKey signer)"
    and time: "in_time t t'"
  obtains ts h where "parseAuthHeader (get_header r' HeaderAuthorization) = Inr (accessKey signer,
      computeHMACSHA256 L (secretKey signer) (buildStringToSign L r' DefaultSignedHeaders h))"
    "parseAndValidateTimestamp t' (get_header r' HeaderTimestamp) DefaultTimestampTolerance = Inr ts"
    "get_header r' HeaderNonce = get_header r HeaderNonce" "get_header r' HeaderNonce \<noteq> ''''"
    "signed_headers r' = DefaultSignedHeaders" "fst (hashRequestBody L r') = Inr h"
proof -
  let ?ts = "t div 10 ^ 9"
  obtain h where h: "fst (hashRequestBody L r) = Inr h"
    "get_header r HeaderTimestamp = itoa ?ts"
    "get_header r HeaderNonce = hex_encode (fst (take_bytes 16 rnd))"
    "get_header r HeaderSignedHeaders = DefaultSignedHeaders"
    "get_header r HeaderAuthorization = auth_header (accessKey signer)
       (computeHMACSHA256 L (secretKey signer) (buildStringToSign L r DefaultSignedHeaders h))"
    by (rule Sign_result [OF sign])
  have same: "get_header r' k = get_header r k"
    if "k \<in> {HeaderAuthorization, HeaderTimestamp, HeaderNonce, HeaderSignedHeaders}" for k
    using wire that by (auto simp: arrives_as_def)
  have "?ts * 10 ^ 9 \<le> t" "0 \<le> ?ts" using time by (auto simp: in_time_def div_times_less_eq_dividend)
  then have "t' - ?ts * 10 ^ 9 \<in> {int64_min <.. int64_max}" "int64_min \<le> ?ts" "?ts \<le> int64_max"
    using time by (auto simp: in_time_def int64_min_def int64_max_def)
  then have "parseAndValidateTimestamp t' (get_header r' HeaderTimestamp) DefaultTimestampTolerance = Inr ?ts"
    using time time_window [OF atoi_itoa, of ?ts t' DefaultTimestampTolerance]
    by (simp add: same h(2) in_time_def)
  moreover have "parseAuthHeader (get_header r' HeaderAuthorization) = Inr (accessKey signer,
      computeHMACSHA256 L (secretKey signer) (buildStringToSign L r' DefaultSignedHeaders h))"
    using hmac key unfolding arrives_string [OF wire]
    by (simp add: same h(5) parse_auth_header computeHMACSHA256_def)
  moreover have "get_header r HeaderNonce \<noteq> ''''"
    using h(3) take_bytes_nonempty [of 16 rnd] by (simp add: hex_nonempty)
  moreover have "signed_headers r' = DefaultSignedHeaders"
    using h(4) same [of HeaderSignedHeaders] by (simp add: signed_headers_def)
  ultimately show ?thesis
    using that h(1) same [of HeaderNonce] arrives_hash [OF wire] by simp
qed

lemma refused_unknown:
  assumes "parseAuthHeader (get_header r HeaderAuthorization) = Inr (ak, sig)"
    "parseAndValidateTimestamp t (get_header r HeaderTimestamp) (timestampTolerance v) = Inr ts"
    "get_header r HeaderNonce \<noteq> ''''" "fst (v_check v t (get_header r HeaderNonce) (nonceTTL v) s) = Inr False"
    and "v_store v ak = Inr None"
  shows "fst (Verify L v t r s) = Inl (auth_err ErrAKNotFound)"
  using assms by (auto simp: Verify_def Let_def split: prod.splits)

lemma refused_signature:
  assumes "parseAuthHeader (get_header r HeaderAuthorization) = Inr (ak, sig)"
    "parseAndValidateTimestamp t (get_header r HeaderTimestamp) (timestampTolerance v) = Inr ts"
    "get_header r HeaderNonce \<noteq> ''''" "fst (v_check v t (get_header r HeaderNonce) (nonceTTL v) s) = Inr False"
    and "v_store v ak = Inr (Some cred)" "Enabled cred" "fst (hashRequestBody L r) = Inr h"
    and "sig \<noteq> computeHMACSHA256 L (SecretKey cred) (buildStringToSign L r (signed_headers r) h)"
  shows "fst (Verify L v t r s) = Inl (auth_err ErrSignatureMismatch)"
proof -
  from assms(7) have "hashRequestBody L r = (Inr h, r)"
    by (cases "hashRequestBody L r") (auto dest: hash_ok)
  with assms show ?thesis by (auto simp: Verify_def Let_def signed_headers_def split: prod.splits)
qed

section \<open>What the server answers\<close>

lemma test_credential:
  "\<lparr>AccessKey = ''test-ak'', SecretKey = ''test-sk-1234567890abcdef'', Label = ''test-client'', Enabled = True\<rparr>
     \<in> set demo_credentials"
  by (simp add: demo_credentials_def)

lemma test_keys:
  "header_safe (accessKey test_signer)" "accessKey test_signer = ''test-ak''"
  "secretKey test_signer = ''test-sk-1234567890abcdef''"
  "header_safe ''nonexistent-ak''" "''nonexistent-ak'' \<notin> AccessKey ` set demo_credentials"
  by code_simp+

lemma test_accepted:
  assumes sign: "fst (Sign L rand_err test_signer t rnd r0) = Inr r" and wire: "arrives_as L r r'"
    and hmac: "\<And>k d. header_safe (hmac_sha256_hex L k d)" and time: "in_time t t'"
    and fresh: "unseen (get_header r HeaderNonce) s"
  shows "fst (Verify L demo_verifier t' r' s) = Inr \<lparr>AccessKey = ''test-ak'', SecretKey = ''test-sk-1234567890abcdef'',
    Label = ''test-client'', Enabled = True\<rparr>"
proof -
  obtain ts h where p: "parseAuthHeader (get_header r' HeaderAuthorization) = Inr (accessKey test_signer,
      computeHMACSHA256 L (secretKey test_signer) (buildStringToSign L r' DefaultSignedHeaders h))"
    "parseAndValidateTimestamp t' (get_header r' HeaderTimestamp) DefaultTimestampTolerance = Inr ts"
    "get_header r' HeaderNonce = get_header r HeaderNonce" "get_header r' HeaderNonce \<noteq> ''''"
    "signed_headers r' = DefaultSignedHeaders" "fst (hashRequestBody L r') = Inr h"
    by (rule signed_arrives [OF sign wire hmac test_keys(1) time])
  have "fst (v_check demo_verifier t' (get_header r' HeaderNonce) (nonceTTL demo_verifier) s) = Inr False"
    using fresh by (simp add: p(3) demo_verifier_parts)
  then show ?thesis
    unfolding verify_accepts demo_verifier_parts demo_store
    using p test_credential by (simp add: test_keys)
qed

lemma served_accepted:
  assumes ok: "fst (Verify L demo_verifier t (request.truncate req) s) = Inr cred"
    and path: "url_path L (rq_url req) \<noteq> ''/health''"
    and direct: "\<not> redirected (rq_method req) (url_path L (rq_url req))"
    and run: "run_state (demo_serve L G Z inst seed t ms ip req s) w = ((c', s'), w')"
  shows "c' = finished (recovered_from (handled L G (rq_method req) (url_path L (rq_url req))
    (with_credential cred (received_gin L inst seed ip req))))"
proof -
  from ok obtain v where V: "Verify L demo_verifier t (request.truncate req) s = (Inr cred, v)"
    by (cases "Verify L demo_verifier t (request.truncate req) s") auto
  show ?thesis
    using serve_result [where Z = Z and L = L and G = G and inst = inst and seed = seed and ip = ip and req = req
        and t = t and ms = ms and s = s, OF direct, unfolded returns_def, THEN spec, of w]
    unfolding run fst_conv if_not_P [OF path] V by simp
qed

lemma served_refused:
  assumes no: "fst (Verify L demo_verifier t (request.truncate req) s) = Inl e"
    and path: "url_path L (rq_url req) \<noteq> ''/health''"
    and direct: "\<not> redirected (rq_method req) (url_path L (rq_url req))"
    and run: "run_state (demo_serve L G Z inst seed t ms ip req s) w = ((c', s'), w')"
  shows "sg_status c' = ErrorToHTTPStatus e \<and> sg_replies c' =
    [Json \<lparr>rs_Code = int (ErrorToHTTPStatus e), rs_Message = msg e, rs_Data = None, rs_TraceID = ''''\<rparr>]"
proof -
  from no obtain v where V: "Verify L demo_verifier t (request.truncate req) s = (Inl e, v)"
    by (cases "Verify L demo_verifier t (request.truncate req) s") auto
  have c: "sg_replies (received_gin L inst seed ip req) = []"
    by (simp add: received_gin_def with_trace_def new_gin_def)
  have "c' = finished (gin_JSON (ErrorToHTTPStatus e) \<lparr>rs_Code = int (ErrorToHTTPStatus e), rs_Message = msg e,
      rs_Data = None, rs_TraceID = ''''\<rparr> (received_gin L inst seed ip req))"
    using serve_result [where Z = Z and L = L and G = G and inst = inst and seed = seed and ip = ip and req = req
        and t = t and ms = ms and s = s, OF direct, unfolded returns_def, THEN spec, of w]
    unfolding run fst_conv if_not_P [OF path] V by simp
  then show ?thesis using c by (simp add: finished_replied gin_JSON_def)
qed

text \<open>Gin's parameters on the queries of the client.\<close>

definition test_paths :: "stdlib \<Rightarrow> gin_lib \<Rightarrow> bool" where
  "test_paths L G \<longleftrightarrow> url_path L (test_url @ ''/hello?name=Test'') = ''/hello'' \<and>
     url_path L (test_url @ ''/user?id=123'') = ''/user'' \<and> url_path L (test_url @ ''/hello'') = ''/hello'' \<and>
     map_of (gl_query G (url_query L (test_url @ ''/hello?name=Test''))) ''name'' = Some [''Test''] \<and>
     map_of (gl_query G (url_query L (test_url @ ''/user?id=123''))) ''id'' = Some [''123'']"

lemma answered:
  fixes inst seed :: string
  assumes c: "c = with_credential \<lparr>AccessKey = ''test-ak'', SecretKey = ''test-sk-1234567890abcdef'',
      Label = ''test-client'', Enabled = True\<rparr> (received_gin L inst seed ip req)"
    and m: "rq_method req = ''GET''"
  defines "i \<equiv> TraceID (received inst (rq_header req) seed)"
  shows "url_path L (rq_url req) = ''/hello'' \<Longrightarrow> map_of (gl_query G (url_query L (rq_url req))) ''name'' = Some [''Test''] \<Longrightarrow>
      c' = finished (recovered_from (handled L G ''GET'' ''/hello'' c)) \<Longrightarrow> sg_status c' = 200 \<and>
      sg_replies c' = [Json \<lparr>rs_Code = 0, rs_Message = ''Hello, Test!'', rs_Data = Some [(''client'', ''test-client'')], rs_TraceID = i\<rparr>]"
    and "url_path L (rq_url req) = ''/user'' \<Longrightarrow> map_of (gl_query G (url_query L (rq_url req))) ''id'' = Some [''123''] \<Longrightarrow>
      c' = finished (recovered_from (handled L G ''GET'' ''/user'' c)) \<Longrightarrow> sg_status c' = 200 \<and>
      sg_replies c' = [Json \<lparr>rs_Code = 0, rs_Message = ''success'', rs_Data = Some [(''id'', ''123''), (''name'', ''Demo User''),
        (''email'', ''demo@example.com''), (''requested_by'', ''test-client'')], rs_TraceID = i\<rparr>]"
proof -
  have key: "gin_credential c = Some \<lparr>AccessKey = ''test-ak'', SecretKey = ''test-sk-1234567890abcdef'',
      Label = ''test-client'', Enabled = True\<rparr>" by (simp add: c with_credential_keys)
  have q: "gin_Query L G k c = (case map_of (gl_query G (url_query L (rq_url req))) k of Some (v # _) \<Rightarrow> v | _ \<Rightarrow> '''')" for k
    by (simp add: gin_Query_def c with_credential_def received_gin_def with_trace_def new_gin_def)
  have i: "TraceIDFromContext (server_ctx c) = i"
    by (simp add: c with_credential_def received_gin_def with_trace_def new_gin_def server_ctx_def
        TraceIDFromContext_def trace_ctx.defs i_def)
  have r: "sg_replies c = []" by (simp add: c with_credential_def received_gin_def with_trace_def new_gin_def)
  show "url_path L (rq_url req) = ''/hello'' \<Longrightarrow> map_of (gl_query G (url_query L (rq_url req))) ''name'' = Some [''Test''] \<Longrightarrow>
      c' = finished (recovered_from (handled L G ''GET'' ''/hello'' c)) \<Longrightarrow> sg_status c' = 200 \<and>
      sg_replies c' = [Json \<lparr>rs_Code = 0, rs_Message = ''Hello, Test!'', rs_Data = Some [(''client'', ''test-client'')], rs_TraceID = i\<rparr>]"
    by (simp add: handled_def q key i r reply_json_def recovered_from_def finished_replied)
       (simp add: gin_JSON_def r)
  show "url_path L (rq_url req) = ''/user'' \<Longrightarrow> map_of (gl_query G (url_query L (rq_url req))) ''id'' = Some [''123''] \<Longrightarrow>
      c' = finished (recovered_from (handled L G ''GET'' ''/user'' c)) \<Longrightarrow> sg_status c' = 200 \<and>
      sg_replies c' = [Json \<lparr>rs_Code = 0, rs_Message = ''success'', rs_Data = Some [(''id'', ''123''), (''name'', ''Demo User''),
        (''email'', ''demo@example.com''), (''requested_by'', ''test-client'')], rs_TraceID = i\<rparr>]"
    by (simp add: handled_def q key i r reply_json_def recovered_from_def finished_replied)
       (simp add: gin_JSON_def r)
qed

lemma verified_unknown:
  assumes sign: "fst (Sign L rand_err signer t rnd r0) = Inr r" and wire: "arrives_as L r r'"
    and hmac: "\<And>k d. header_safe (hmac_sha256_hex L k d)" and time: "in_time t t'"
    and fresh: "unseen (get_header r HeaderNonce) s"
    and key: "header_safe (accessKey signer)" "v_store demo_verifier (accessKey signer) = Inr None"
  shows "fst (Verify L demo_verifier t' r' s) = Inl (auth_err ErrAKNotFound)"
proof -
  obtain ts h where p: "parseAuthHeader (get_header r' HeaderAuthorization) = Inr (accessKey signer,
      computeHMACSHA256 L (secretKey signer) (buildStringToSign L r' DefaultSignedHeaders h))"
    "parseAndValidateTimestamp t' (get_header r' HeaderTimestamp) DefaultTimestampTolerance = Inr ts"
    "get_header r' HeaderNonce = get_header r HeaderNonce" "get_header r' HeaderNonce \<noteq> ''''"
    by (rule signed_arrives [OF sign wire hmac key(1) time])
  have check: "fst (v_check demo_verifier t' (get_header r' HeaderNonce) (nonceTTL demo_verifier) s) = Inr False"
    using fresh by (simp add: p(3) demo_verifier_parts)
  show ?thesis
    by (rule refused_unknown [OF p(1) _ p(4) check key(2)]) (simp add: demo_verifier_parts p(2))
qed

lemma verified_mismatch:
  assumes sign: "fst (Sign L rand_err signer t rnd r0) = Inr r" and wire: "arrives_as L r r'"
    and hmac: "\<And>k d. header_safe (hmac_sha256_hex L k d)" and time: "in_time t t'"
    and fresh: "unseen (get_header r HeaderNonce) s"
    and key: "header_safe (accessKey signer)" "v_store demo_verifier (accessKey signer) = Inr (Some cred)" "Enabled cred"
    and no: "\<forall>d. hmac_sha256_hex L (secretKey signer) d \<noteq> hmac_sha256_hex L (SecretKey cred) d"
  shows "fst (Verify L demo_verifier t' r' s) = Inl (auth_err ErrSignatureMismatch)"
proof -
  obtain ts h where p: "parseAuthHeader (get_header r' HeaderAuthorization) = Inr (accessKey signer,
      computeHMACSHA256 L (secretKey signer) (buildStringToSign L r' DefaultSignedHeaders h))"
    "parseAndValidateTimestamp t' (get_header r' HeaderTimestamp) DefaultTimestampTolerance = Inr ts"
    "get_header r' HeaderNonce = get_header r HeaderNonce" "get_header r' HeaderNonce \<noteq> ''''"
    "signed_headers r' = DefaultSignedHeaders" "fst (hashRequestBody L r') = Inr h"
    by (rule signed_arrives [OF sign wire hmac key(1) time])
  have check: "fst (v_check demo_verifier t' (get_header r' HeaderNonce) (nonceTTL demo_verifier) s) = Inr False"
    using fresh by (simp add: p(3) demo_verifier_parts)
  show ?thesis
    by (rule refused_signature [OF p(1) _ p(4) check key(2,3) p(6)])
       (use no in \<open>simp_all add: demo_verifier_parts p(2,5) computeHMACSHA256_def\<close>)
qed

text \<open>
  C10. The test client is served. A request of the client that reaches the demonstration server within the
  tolerance, with its nonce unseen, whatever the transport adds to it, is answered with the greeting, or
  the user, the label of the client's key and the trace id of the request; the POST to \<^verbatim>\<open>/hello\<close>,
  though authenticated, has no route and ends in Gin's 404.
\<close>

theorem client_answered:
  fixes inst seed :: string
  assumes hmac: "\<And>k d. header_safe (hmac_sha256_hex L k d)" and time: "in_time t t'" and paths: "test_paths L G"
    and wire: "arrives_as L r (request.truncate req)" and fresh: "unseen (get_header r HeaderNonce) s"
    and run: "run_state (demo_serve L G Z inst seed t' ms ip req s) w = ((c', s'), w')"
  defines "i \<equiv> TraceID (received inst (rq_header req) seed)"
  shows "(testGET L rand_err t rnd = Inr r \<longrightarrow> sg_status c' = 200 \<and> sg_replies c' = [Json \<lparr>rs_Code = 0,
      rs_Message = ''Hello, Test!'', rs_Data = Some [(''client'', ''test-client'')], rs_TraceID = i\<rparr>]) \<and>
    (testUser L rand_err t rnd = Inr r \<longrightarrow> sg_status c' = 200 \<and> sg_replies c' = [Json \<lparr>rs_Code = 0,
      rs_Message = ''success'', rs_Data = Some [(''id'', ''123''), (''name'', ''Demo User''),
        (''email'', ''demo@example.com''), (''requested_by'', ''test-client'')], rs_TraceID = i\<rparr>]) \<and>
    (testPOST L rand_err t rnd = Inr r \<longrightarrow> sg_status c' = 404 \<and> sg_replies c' = [Plain ''404 page not found''])"
proof -
  let ?cred = "\<lparr>AccessKey = ''test-ak'', SecretKey = ''test-sk-1234567890abcdef'', Label = ''test-client'', Enabled = True\<rparr>"
  let ?c = "with_credential ?cred (received_gin L inst seed ip req)"
  have at: "rq_method req = rq_method r" "url_path L (rq_url req) = url_path L (rq_url r)"
    "url_query L (rq_url req) = url_query L (rq_url r)"
    using wire by (simp_all add: arrives_as_def request.defs)
  have served: "c' = finished (recovered_from (handled L G m (url_path L (test_url @ p)) ?c)) \<and>
      rq_method req = m \<and> url_path L (rq_url req) = url_path L (test_url @ p) \<and> url_query L (rq_url req) = url_query L (test_url @ p)"
    if call: "test_call L test_signer rand_err t rnd m p hdrs body = Inr r" and m: "m \<noteq> ''''"
      and p: "url_path L (test_url @ p) \<noteq> ''/health''" "\<not> redirected m (url_path L (test_url @ p))" for m p hdrs body
  proof -
    obtain r0 where r: "fst (Sign L rand_err test_signer t rnd r0) = Inr r" "rq_method r = m" "rq_url r = test_url @ p"
      by (rule test_call_request [OF call m])
    from served_accepted [OF test_accepted [OF r(1) wire hmac time fresh] _ _ run] p show ?thesis
      by (simp add: at r(2,3))
  qed
  have hello: "sg_status c' = 200 \<and> sg_replies c' = [Json \<lparr>rs_Code = 0, rs_Message = ''Hello, Test!'',
      rs_Data = Some [(''client'', ''test-client'')], rs_TraceID = i\<rparr>]" if "testGET L rand_err t rnd = Inr r"
  proof -
    note called = served [OF that [unfolded testGET_def]]
    show ?thesis
      using called answered(1) [OF refl, of req L G c' inst seed ip] paths by (simp add: test_paths_def i_def redirected_def)
  qed
  have user: "sg_status c' = 200 \<and> sg_replies c' = [Json \<lparr>rs_Code = 0, rs_Message = ''success'',
      rs_Data = Some [(''id'', ''123''), (''name'', ''Demo User''), (''email'', ''demo@example.com''),
        (''requested_by'', ''test-client'')], rs_TraceID = i\<rparr>]" if "testUser L rand_err t rnd = Inr r"
  proof -
    note called = served [OF that [unfolded testUser_def]]
    show ?thesis
      using called answered(2) [OF refl, of req L G c' inst seed ip] paths by (simp add: test_paths_def i_def redirected_def)
  qed
  have post: "sg_status c' = 404 \<and> sg_replies c' = [Plain ''404 page not found'']" if "testPOST L rand_err t rnd = Inr r"
  proof -
    note called = served [OF that [unfolded testPOST_def]]
    then have "c' = finished ?c" "rq_method req = ''POST''" using paths by (simp_all add: test_paths_def handled_def recovered_from_def redirected_def)
    then show ?thesis
      by (simp add: finished_def with_credential_def received_gin_def with_trace_def new_gin_def routed_def)
  qed
  show ?thesis using hello user post by blast
qed

text \<open>
  Wrong keys are refused. A request signed with a key pair the server does not know is answered
  with 401 and \<open>ErrAKNotFound\<close>; one signed with the wrong secret for a known key with 401
  and \<open>ErrSignatureMismatch\<close>, unless the two keyed hashes collide.
\<close>

theorem client_refused:
  assumes hmac: "\<And>k d. header_safe (hmac_sha256_hex L k d)" and time: "in_time t t'" and paths: "test_paths L G"
    and wire: "arrives_as L r (request.truncate req)" and fresh: "unseen (get_header r HeaderNonce) s"
    and run: "run_state (demo_serve L G Z inst seed t' ms ip req s) w = ((c', s'), w')"
  shows "(testWrongAK L rand_err t rnd = Inr r \<longrightarrow> sg_status c' = 401 \<and> sg_replies c' = [Json \<lparr>rs_Code = 401,
      rs_Message = msg (auth_err ErrAKNotFound), rs_Data = None, rs_TraceID = ''''\<rparr>]) \<and>
    (testWrongSK L rand_err t rnd = Inr r \<longrightarrow>
      (\<forall>d. hmac_sha256_hex L ''wrong-secret-key'' d \<noteq> hmac_sha256_hex L ''test-sk-1234567890abcdef'' d) \<longrightarrow>
      sg_status c' = 401 \<and> sg_replies c' = [Json \<lparr>rs_Code = 401,
      rs_Message = msg (auth_err ErrSignatureMismatch), rs_Data = None, rs_TraceID = ''''\<rparr>])"
proof -
  have at: "url_path L (rq_url req) = url_path L (rq_url r)" using wire by (simp add: arrives_as_def request.defs)
  have status: "ErrorToHTTPStatus (auth_err ErrAKNotFound) = 401" "ErrorToHTTPStatus (auth_err ErrSignatureMismatch) = 401"
    by code_simp+
  have refused: "sg_status c' = 401 \<and> sg_replies c' = [Json \<lparr>rs_Code = 401, rs_Message = msg e, rs_Data = None, rs_TraceID = ''''\<rparr>]"
    if "fst (Verify L demo_verifier t' (request.truncate req) s) = Inl e" "ErrorToHTTPStatus e = 401"
      "rq_url r = test_url @ ''/hello''" for e
    using served_refused [OF that(1) _ _ run] paths that(2,3) by (simp add: at test_paths_def redirected_def)
  have ak: "sg_status c' = 401 \<and> sg_replies c' = [Json \<lparr>rs_Code = 401,
      rs_Message = msg (auth_err ErrAKNotFound), rs_Data = None, rs_TraceID = ''''\<rparr>]" if call: "testWrongAK L rand_err t rnd = Inr r"
  proof -
    obtain r0 where r: "fst (Sign L rand_err (NewSigner ''nonexistent-ak'' ''some-secret-key'') t rnd r0) = Inr r"
      "rq_url r = test_url @ ''/hello''"
      by (rule test_call_request [OF call [unfolded testWrongAK_def]]) simp_all
    have "v_store demo_verifier ''nonexistent-ak'' = Inr None" by code_simp
    then show ?thesis
      by (intro refused [OF verified_unknown [OF r(1) wire hmac time fresh] status(1) r(2)])
         (simp_all add: NewSigner_def test_keys(4))
  qed
  have sk: "sg_status c' = 401 \<and> sg_replies c' = [Json \<lparr>rs_Code = 401,
      rs_Message = msg (auth_err ErrSignatureMismatch), rs_Data = None, rs_TraceID = ''''\<rparr>]"
    if call: "testWrongSK L rand_err t rnd = Inr r"
      and no: "\<forall>d. hmac_sha256_hex L ''wrong-secret-key'' d \<noteq> hmac_sha256_hex L ''test-sk-1234567890abcdef'' d"
  proof -
    obtain r0 where r: "fst (Sign L rand_err (NewSigner ''test-ak'' ''wrong-secret-key'') t rnd r0) = Inr r"
      "rq_url r = test_url @ ''/hello''"
      by (rule test_call_request [OF call [unfolded testWrongSK_def]]) simp_all
    let ?cred = "\<lparr>AccessKey = ''test-ak'', SecretKey = ''test-sk-1234567890abcdef'', Label = ''test-client'', Enabled = True\<rparr>"
    have "v_store demo_verifier ''test-ak'' = Inr (Some ?cred)"
      using test_credential by (simp add: demo_store)
    then show ?thesis
      using no test_keys(1,2)
      by (intro refused [OF verified_mismatch [where cred = ?cred, OF r(1) wire hmac time fresh] status(2) r(2)])
         (simp_all add: NewSigner_def)
  qed
  show ?thesis using ak sk by blast
qed

section \<open>A run\<close>

definition demo_lib :: stdlib where
  "demo_lib = sample_lib\<lparr>hmac_sha256_hex := (\<lambda>k d. if k = ''wrong-secret-key'' then ''b2'' else ''a1''),
     url_path := (\<lambda>u. if u = test_url @ ''/user?id=123'' then ''/user'' else if u = test_url @ ''/panic'' then ''/panic'' else ''/hello''),
     url_query := (\<lambda>u. if u = test_url @ ''/user?id=123'' then ''id=123'' else ''name=Test'')\<rparr>"

definition demo_gin :: gin_lib where
  "demo_gin = \<lparr>gl_query = (\<lambda>q. if q = ''id=123'' then [(''id'', [''123''])] else [(''name'', [''Test''])]),
     gl_size = (\<lambda>bs. int (length bs)), gl_stack = ''goroutine 1'',
     gl_redirect = (\<lambda>req. ([(''Location'', [''/hello''])], ''Moved Permanently''))\<rparr>"

lemma demo_laws: "test_paths demo_lib demo_gin" "header_safe (hmac_sha256_hex demo_lib k d)" "in_time (1700000000 * 10 ^ 9) (1700000100 * 10 ^ 9)"
proof -
  show "test_paths demo_lib demo_gin" by code_simp
  have "header_safe ''a1''" "header_safe ''b2''" by code_simp+
  then show "header_safe (hmac_sha256_hex demo_lib k d)" by (simp add: demo_lib_def)
  show "in_time (1700000000 * 10 ^ 9) (1700000100 * 10 ^ 9)"
    by (simp add: in_time_def int64_max_def DefaultTimestampTolerance_def)
qed

text \<open>A request of the client as it arrives, in a fresh context.\<close>

definition arrived :: "gerr + request \<Rightarrow> ctx_request" where
  "arrived r = with_ctx \<lparr>cv_trace = None, cv_log_trace = '''', cv_log_span = ''''\<rparr> (projr r)"

lemma arrived_same: "rq_body_err (projr r) = None \<Longrightarrow> arrives_as L (projr r) (request.truncate (arrived r))"
  by (simp add: arrived_def with_ctx_def arrives_as_def request.defs get_header_def)

definition demo_answer :: "gerr + request \<Rightarrow> server_gin" where
  "demo_answer r = fst (fst (run_state (demo_serve demo_lib demo_gin ref_zap ''node-1'' ''seed'' (1700000100 * 10 ^ 9) 3
     ''10.0.0.7'' (arrived r) NewMemoryNonceStore) (init_with shop_log_config)))"

lemma demo_runs:
  "\<exists>s' w'. run_state (demo_serve demo_lib demo_gin ref_zap ''node-1'' ''seed'' (1700000100 * 10 ^ 9) 3 ''10.0.0.7''
     (arrived r) NewMemoryNonceStore) (init_with shop_log_config) = ((demo_answer r, s'), w')"
  unfolding demo_answer_def by (metis prod.collapse)

lemma demo_signed:
  "testGET demo_lib None (1700000000 * 10 ^ 9) ''seed'' = Inr (projr (testGET demo_lib None (1700000000 * 10 ^ 9) ''seed''))"
  "testWrongSK demo_lib None (1700000000 * 10 ^ 9) ''seed'' = Inr (projr (testWrongSK demo_lib None (1700000000 * 10 ^ 9) ''seed''))"
  by (simp_all add: testGET_def testWrongSK_def test_call_def NewRequest_def demo_lib_def sample_lib_def test_url_def Sign_def
      generateNonce_def case_prod_beta Let_def hashRequestBody_def set_header_def)

lemma demo_body_err:
  "rq_body_err (projr (testGET demo_lib None (1700000000 * 10 ^ 9) ''seed'')) = None"
  "rq_body_err (projr (testWrongSK demo_lib None (1700000000 * 10 ^ 9) ''seed'')) = None"
  using demo_signed unfolding testGET_def testWrongSK_def by (metis test_call_request list.distinct(1))+

theorem client_answered_witness:
  "sg_status (demo_answer (testGET demo_lib None (1700000000 * 10 ^ 9) ''seed'')) = 200 \<and>
   sg_replies (demo_answer (testGET demo_lib None (1700000000 * 10 ^ 9) ''seed'')) = [Json \<lparr>rs_Code = 0,
      rs_Message = ''Hello, Test!'', rs_Data = Some [(''client'', ''test-client'')],
      rs_TraceID = TraceID (received ''node-1'' (rq_header (arrived (testGET demo_lib None (1700000000 * 10 ^ 9) ''seed''))) ''seed'')\<rparr>]"
proof -
  let ?r = "testGET demo_lib None (1700000000 * 10 ^ 9) ''seed''"
  obtain s' w' where run: "run_state (demo_serve demo_lib demo_gin ref_zap ''node-1'' ''seed'' (1700000100 * 10 ^ 9) 3 ''10.0.0.7''
     (arrived ?r) NewMemoryNonceStore) (init_with shop_log_config) = ((demo_answer ?r, s'), w')" using demo_runs by blast
  have fresh: "unseen (get_header (projr ?r) HeaderNonce) NewMemoryNonceStore" by (simp add: unseen_def NewMemoryNonceStore_def)
  from client_answered [OF demo_laws(2,3,1) arrived_same [OF demo_body_err(1)] fresh run] demo_signed(1) show ?thesis by blast
qed

theorem client_refused_witness:
  "sg_status (demo_answer (testWrongSK demo_lib None (1700000000 * 10 ^ 9) ''seed'')) = 401"
proof -
  let ?r = "testWrongSK demo_lib None (1700000000 * 10 ^ 9) ''seed''"
  obtain s' w' where run: "run_state (demo_serve demo_lib demo_gin ref_zap ''node-1'' ''seed'' (1700000100 * 10 ^ 9) 3 ''10.0.0.7''
     (arrived ?r) NewMemoryNonceStore) (init_with shop_log_config) = ((demo_answer ?r, s'), w')" using demo_runs by blast
  have fresh: "unseen (get_header (projr ?r) HeaderNonce) NewMemoryNonceStore" by (simp add: unseen_def NewMemoryNonceStore_def)
  have keys: "\<forall>d. hmac_sha256_hex demo_lib ''wrong-secret-key'' d \<noteq> hmac_sha256_hex demo_lib ''test-sk-1234567890abcdef'' d"
    by (simp add: demo_lib_def)
  from client_refused [OF demo_laws(2,3,1) arrived_same [OF demo_body_err(2)] fresh run] demo_signed(2) keys show ?thesis by blast
qed

lemma demo_direct:
  "\<not> (m = ''GET'' \<and> url_path demo_lib u \<in> {''/health/'', ''/hello/'', ''/user/'', ''/error/'', ''/panic/''})"
  by (simp add: demo_lib_def)

theorem server_gate_witness:
  "length (sg_replies (demo_answer (testGET demo_lib None (1700000000 * 10 ^ 9) ''seed''))) = 1 \<and>
   (gin_credential (demo_answer (testGET demo_lib None (1700000000 * 10 ^ 9) ''seed'')) \<in> Some ` set demo_credentials \<or>
   (\<exists>e. sg_status (demo_answer (testGET demo_lib None (1700000000 * 10 ^ 9) ''seed'')) = ErrorToHTTPStatus e))"
proof -
  let ?r = "testGET demo_lib None (1700000000 * 10 ^ 9) ''seed''"
  obtain s' w' where run: "run_state (demo_serve demo_lib demo_gin ref_zap ''node-1'' ''seed'' (1700000100 * 10 ^ 9) 3 ''10.0.0.7''
     (arrived ?r) NewMemoryNonceStore) (init_with shop_log_config) = ((demo_answer ?r, s'), w')" using demo_runs by blast
  have "url_path demo_lib u \<noteq> ''/health''" for u by (simp add: demo_lib_def)
  from server_gate [OF run this] show ?thesis unfolding if_not_P [OF demo_direct] by blast
qed


text \<open>A client that asks for the panic.\<close>

definition testPanic :: "gerr + request" where
  "testPanic = test_call demo_lib test_signer None (1700000000 * 10 ^ 9) ''seed'' ''GET'' ''/panic'' [] None"

lemma panic_signed: "testPanic = Inr (projr testPanic)"
  by (simp add: testPanic_def test_call_def NewRequest_def demo_lib_def sample_lib_def test_url_def Sign_def
      generateNonce_def case_prod_beta Let_def hashRequestBody_def set_header_def)

lemma global_of_program:
  assumes "log_Validate cfg = None"
  shows "lw_initialized (init_with cfg) \<and> lw_global (init_with cfg) = Some (logger_with cfg)"
proof -
  have init: "init_with cfg = (fresh_world 0)\<lparr>lw_levels := parseZapLevel (lc_Level (applyDefaults cfg)) #
        map (output_level (applyDefaults cfg)) (lc_Outputs (applyDefaults cfg)),
      lw_global := Some (new_logger ref_zap (applyDefaults cfg) 0), lw_initialized := True\<rparr>"
    using assms
    by (simp add: init_with_def gives_none_def run_bind log_Init_def Let_def run_newZapLogger set_global_def fresh_world_def)
  then show ?thesis by (simp add: logger_with_def gives_def run_bind GetLogger_def)
qed

theorem panic_answered_witness:
  "sg_status (demo_answer testPanic) = 500 \<and>
   (\<exists>r \<in> set (lw_out (snd (run_state (demo_serve demo_lib demo_gin ref_zap ''node-1'' ''seed'' (1700000100 * 10 ^ 9) 3
      ''10.0.0.7'' (arrived testPanic) NewMemoryNonceStore) (init_with shop_log_config)))).
      en_message (wr_entry r) = ''panic recovered'')"
proof -
  obtain r0 where r: "fst (Sign demo_lib None test_signer (1700000000 * 10 ^ 9) ''seed'' r0) = Inr (projr testPanic)"
    "rq_method (projr testPanic) = ''GET''" "rq_url (projr testPanic) = test_url @ ''/panic''" "rq_body_err (projr testPanic) = None"
    by (rule test_call_request [OF panic_signed [unfolded testPanic_def]]) (simp_all add: testPanic_def)
  have fresh: "unseen (get_header (projr testPanic) HeaderNonce) NewMemoryNonceStore" by (simp add: unseen_def NewMemoryNonceStore_def)
  note ok = test_accepted [OF r(1) arrived_same [OF r(4)] demo_laws(2,3) fresh]
  obtain s' w' where run: "run_state (demo_serve demo_lib demo_gin ref_zap ''node-1'' ''seed'' (1700000100 * 10 ^ 9) 3 ''10.0.0.7''
     (arrived testPanic) NewMemoryNonceStore) (init_with shop_log_config) = ((demo_answer testPanic, s'), w')" using demo_runs by blast
  have route: "rq_method (arrived testPanic) = ''GET''" "url_path demo_lib (rq_url (arrived testPanic)) = ''/panic''"
    using r(2,3) by (simp_all add: arrived_def with_ctx_def request.defs demo_lib_def test_url_def)
  have global: "lw_initialized (init_with shop_log_config)" "lw_global (init_with shop_log_config) = Some (logger_with shop_log_config)"
    using global_of_program [OF shop_valid(1)] by simp_all
  have outs: "lc_Outputs (applyDefaults shop_log_config) \<noteq> []" by code_simp
  obtain tc :: trace_context and pre gs where p: "sg_status (demo_answer testPanic) = 500"
    "lw_out w' = lw_out (init_with shop_log_config) @ pre @
      everywhere (zl_config (logger_with shop_log_config))
        (entry_of (logger_options (zl_config (logger_with shop_log_config))) ErrorLevel ''panic recovered'')
        ((FieldService, AStr (lc_ServiceName (zl_config (logger_with shop_log_config)))) # gs @
         [(FieldTraceID, AStr (TraceID tc)), (FieldSpanID, AStr (SpanId tc)),
          (FieldError, AStr ''simulated panic for testing''), (''stacktrace'', AStr (gl_stack demo_gin))])"
    using panic_answered [OF ref.zap_backend_axioms reach_logger(1) [OF shop_valid(1)] singletonI global ok route run]
    by blast
  obtain out outs' where o: "lc_Outputs (applyDefaults shop_log_config) = out # outs'" using outs by (cases "lc_Outputs (applyDefaults shop_log_config)") auto
  have "\<exists>r \<in> set (lw_out w'). en_message (wr_entry r) = ''panic recovered''"
    unfolding p(2) reach_logger(2) [OF shop_valid(1)] by (simp add: everywhere_def o entry_of_def)
  with p(1) show ?thesis unfolding run by simp
qed

end
