(* ===== verification/Go_Float.thy ===== *)
theory Go_Float
  imports Prelude
begin

text \<open>
  Arithmetic on Go's \<^verbatim>\<open>float64\<close>: IEEE 754 binary64 with rounding to nearest, ties to even. The saga
  module only passes such numbers on (\<open>float64\<close> of Go_Value); the calculation service of Demo_Reply
  computes with them.
\<close>

section \<open>Numbers\<close>

text \<open>
  \<open>DFin s n e\<close> is the number \<open>n * 2 ^ e\<close>, negative if \<open>s\<close>, in the one form \<open>double_ok\<close> admits: 53 bits of
  mantissa, or the least exponent. Zero has a sign; NaNs are not told apart.
\<close>

datatype double = DFin bool nat int | DInf bool | DNaN

fun double_ok :: "double \<Rightarrow> bool" where
  "double_ok (DFin s n e) \<longleftrightarrow> n < 2 ^ 53 \<and> - 1074 \<le> e \<and> e \<le> 971 \<and> (2 ^ 52 \<le> n \<or> e = - 1074)"
| "double_ok _ \<longleftrightarrow> True"

fun finite_double :: "double \<Rightarrow> bool" where
  "finite_double (DFin s n e) \<longleftrightarrow> True"
| "finite_double _ \<longleftrightarrow> False"

fun double_is_zero :: "double \<Rightarrow> bool" where
  "double_is_zero (DFin s n e) \<longleftrightarrow> n = 0"
| "double_is_zero _ \<longleftrightarrow> False"

section \<open>Rounding\<close>

fun bits :: "nat \<Rightarrow> nat" where
  "bits n = (if n = 0 then 0 else Suc (bits (n div 2)))"

declare bits.simps [simp del]

definition round_even :: "nat \<Rightarrow> nat \<Rightarrow> nat" where
  "round_even n k =
     (let q = n div 2 ^ k; r = 2 * (n mod 2 ^ k)
      in if 2 ^ k < r \<or> r = 2 ^ k \<and> odd q then q + 1 else q)"

definition zero_double :: "bool \<Rightarrow> double" where
  "zero_double s = DFin s 0 (- 1074)"

text \<open>A mantissa of at most \<open>2 ^ 53\<close>, which rounding can reach; above the largest number it is infinite.\<close>

definition packed :: "bool \<Rightarrow> nat \<Rightarrow> int \<Rightarrow> double" where
  "packed s q e =
     (if q = 2 ^ 53 then if 971 < e + 1 then DInf s else DFin s (2 ^ 52) (e + 1)
      else if 971 < e then DInf s else DFin s q e)"

text \<open>The number nearest to \<open>n * 2 ^ e\<close>.\<close>

definition to_double :: "bool \<Rightarrow> nat \<Rightarrow> int \<Rightarrow> double" where
  "to_double s n e =
     (if n = 0 then zero_double s
      else let k = max (int (bits n) - 53) (- 1074 - e)
           in packed s (if 0 \<le> k then round_even n (nat k) else n * 2 ^ nat (- k)) (e + k))"

definition double_of_int :: "int \<Rightarrow> double" where
  "double_of_int i = to_double (i < 0) (nat \<bar>i\<bar>) 0"

section \<open>Operations\<close>

fun double_neg :: "double \<Rightarrow> double" where
  "double_neg (DFin s n e) = DFin (\<not> s) n e"
| "double_neg (DInf s) = DInf (\<not> s)"
| "double_neg DNaN = DNaN"

definition signed :: "bool \<Rightarrow> nat \<Rightarrow> int" where
  "signed s n = (if s then - int n else int n)"

fun double_add :: "double \<Rightarrow> double \<Rightarrow> double" where
  "double_add (DFin s m a) (DFin t n b) =
     (let e = min a b; x = signed s m * 2 ^ nat (a - e) + signed t n * 2 ^ nat (b - e)
      in if x = 0 then zero_double (s \<and> t) else to_double (x < 0) (nat \<bar>x\<bar>) e)"
| "double_add (DInf s) (DInf t) = (if s = t then DInf s else DNaN)"
| "double_add (DInf s) (DFin t n b) = DInf s"
| "double_add (DFin s m a) (DInf t) = DInf t"
| "double_add _ _ = DNaN"

definition double_sub :: "double \<Rightarrow> double \<Rightarrow> double" where
  "double_sub x y = double_add x (double_neg y)"

fun double_mul :: "double \<Rightarrow> double \<Rightarrow> double" where
  "double_mul (DFin s m a) (DFin t n b) = to_double (s \<noteq> t) (m * n) (a + b)"
| "double_mul (DInf s) (DInf t) = DInf (s \<noteq> t)"
| "double_mul (DInf s) (DFin t n b) = (if n = 0 then DNaN else DInf (s \<noteq> t))"
| "double_mul (DFin s m a) (DInf t) = (if m = 0 then DNaN else DInf (s \<noteq> t))"
| "double_mul _ _ = DNaN"

text \<open>
  A quotient of at least 55 bits, and one bit more that says whether it is inexact, round to the same
  number as the exact quotient.
\<close>

fun double_div :: "double \<Rightarrow> double \<Rightarrow> double" where
  "double_div (DFin s m a) (DFin t n b) =
     (if n = 0 then (if m = 0 then DNaN else DInf (s \<noteq> t))
      else
        let p = 55 + bits n - bits m; q = m * 2 ^ p div n
        in to_double (s \<noteq> t) (2 * q + (if q * n = m * 2 ^ p then 0 else 1)) (a - b - int p - 1))"
| "double_div (DInf s) (DInf t) = DNaN"
| "double_div (DInf s) (DFin t n b) = DInf (s \<noteq> t)"
| "double_div (DFin s m a) (DInf t) = zero_double (s \<noteq> t)"
| "double_div _ _ = DNaN"

section \<open>Every result is a number of the format\<close>

lemma bits_0 [simp]: "bits 0 = 0"
  by (subst bits.simps) simp

lemma bits_numeral [simp]:
  "bits (Suc 0) = 1"
  "bits (numeral (num.Bit0 m)) = Suc (bits (numeral m))"
  "bits (numeral (num.Bit1 m)) = Suc (bits (numeral m))"
  by (simp_all add: bits.simps [of "Suc 0"] bits.simps [of "numeral _"])

lemma bits_le: "bits n \<le> k \<longleftrightarrow> n < 2 ^ k"
proof (induction n arbitrary: k rule: bits.induct)
  case (1 n)
  then show ?case
    by (cases k) (auto simp: bits.simps [of n] div_less_iff_less_mult mult.commute)
qed

lemma less_bits: "k < bits n \<longleftrightarrow> 2 ^ k \<le> n"
  using bits_le [of n k] by linarith

lemma round_even_range:
  assumes "n < 2 ^ (k + j)"
  shows "round_even n k \<le> 2 ^ j" and "n div 2 ^ k \<le> round_even n k"
proof -
  have "n div 2 ^ k < 2 ^ j"
    using assms by (simp add: div_less_iff_less_mult power_add mult.commute)
  then show "round_even n k \<le> 2 ^ j" "n div 2 ^ k \<le> round_even n k"
    by (auto simp: round_even_def Let_def)
qed

lemma to_double_ok [simp]: "double_ok (to_double s n e)"
proof (cases "n = 0")
  case True
  then show ?thesis by (simp add: to_double_def zero_double_def)
next
  case False
  define k where "k = max (int (bits n) - 53) (- 1074 - e)"
  define q where "q = (if 0 \<le> k then round_even n (nat k) else n * 2 ^ nat (- k))"
  have b: "n < 2 ^ bits n" using bits_le [of n "bits n"] by simp
  obtain j where j: "bits n = Suc j" using False by (cases "bits n") (auto simp: bits.simps [of n])
  then have lo: "2 ^ j \<le> n" using less_bits [of j n] by simp
  have q: "q \<le> 2 ^ 53 \<and> (2 ^ 52 \<le> q \<or> e + k = - 1074)"
  proof (cases "0 \<le> k")
    case True
    then have "bits n \<le> nat k + 53" by (simp add: k_def)
    then have n: "n < 2 ^ (nat k + 53)" using bits_le by blast
    have "2 ^ 52 \<le> n div 2 ^ nat k" if "k = int (bits n) - 53"
    proof -
      have "j = nat k + 52" using that True j by simp
      with lo show ?thesis by (simp add: less_eq_div_iff_mult_less_eq power_add mult.commute)
    qed
    with round_even_range [OF n] True show ?thesis
      by (auto simp: q_def k_def max_def split: if_splits)
  next
    case False
    then have "(2 :: nat) ^ (bits n + nat (- k)) \<le> 2 ^ 53" by (intro power_increasing) (simp_all add: k_def)
    with b have "n * 2 ^ nat (- k) < 2 ^ 53"
      by (metis mult_less_mono1 order_less_le_trans power_add zero_less_numeral zero_less_power)
    moreover have "2 ^ 52 \<le> n * 2 ^ nat (- k)" if "k = int (bits n) - 53"
    proof -
      have "52 = j + nat (- k)" using that False j by simp
      then have "2 ^ 52 = 2 ^ j * (2 :: nat) ^ nat (- k)" by (metis power_add)
      also have "\<dots> \<le> n * 2 ^ nat (- k)" using lo by (rule mult_le_mono1)
      finally show ?thesis .
    qed
    ultimately show ?thesis using False by (auto simp: q_def k_def max_def split: if_splits)
  qed
  have "- 1074 \<le> e + k" by (simp add: k_def)
  with q have "double_ok (packed s q (e + k))" by (auto simp: packed_def)
  with False show ?thesis unfolding to_double_def Let_def q_def k_def by simp
qed

lemma zero_double_ok [simp]: "double_ok (zero_double s)"
  by (simp add: zero_double_def)

lemma neg_ok [simp]: "double_ok x \<Longrightarrow> double_ok (double_neg x)"
  by (cases x) auto

lemma arithmetic_ok [simp]:
  "double_ok (double_add x y)" "double_ok (double_sub x y)" "double_ok (double_mul x y)" "double_ok (double_div x y)"
proof -
  show add: "double_ok (double_add x y)" for x y by (cases x; cases y) (simp_all add: Let_def)
  show "double_ok (double_sub x y)" by (simp add: double_sub_def add)
  show "double_ok (double_mul x y)" by (cases x; cases y) simp_all
  show "double_ok (double_div x y)" by (cases x; cases y) (simp_all add: Let_def)
qed

lemmas double_eval = double_of_int_def to_double_def packed_def zero_double_def round_even_def signed_def double_sub_def

lemma double_of_int_ok [simp]: "double_ok (double_of_int i)"
  by (simp add: double_of_int_def)

end
