(* ===== verification/Demo_Calc.thy ===== *)
theory Demo_Calc
  imports Queue_Broker Go_Float
begin

text \<open>
  The calculation service of \<^verbatim>\<open>examples/taskqueue-reply-demo\<close>: its messages (\<^verbatim>\<open>types.go\<close>), as
  \<^verbatim>\<open>encoding/json\<close> writes and reads them, and the consumer (\<^verbatim>\<open>cmd/consumer/main.go\<close>). Log lines are left
  out; Queue_Logged has those of broker and consumer.
\<close>

section \<open>Messages\<close>

definition CalcRequestQueue :: string where "CalcRequestQueue = ''calc:request:incoming''"
definition CalcResponseQueue :: string where "CalcResponseQueue = ''calc:response:outgoing''"
definition TaskTypeCalc :: string where "TaskTypeCalc = ''calc:task''"
definition TaskTypeCalcReply :: string where "TaskTypeCalcReply = ''calc:reply''"

record calc_task =
  ct_TaskID :: string
  ct_Operation :: string
  ct_Operands :: "double list option"

record calc_result =
  cr_TaskID :: string
  cr_Result :: double
  cr_Error :: string

text \<open>
  The texts of numbers, and the errors of \<^verbatim>\<open>json.Unmarshal\<close> and \<^verbatim>\<open>json.Marshal\<close>, which are only passed on.
\<close>

record number_codec =
  float_text :: "double \<Rightarrow> string"
  float_parse :: "string \<Rightarrow> double option"
  unmarshal_error :: "string option \<Rightarrow> gerr"
  marshal_error :: "double list \<Rightarrow> gerr"

text \<open>Infinities and NaN have no JSON text.\<close>

definition numbers_json :: "number_codec \<Rightarrow> double list option \<Rightarrow> json option" where
  "numbers_json F xs =
     (case xs of
        None \<Rightarrow> Some JNull
      | Some ys \<Rightarrow> (if list_all finite_double ys then Some (JArr (map (\<lambda>y. JNum (float_text F y)) ys)) else None))"

definition task_json :: "number_codec \<Rightarrow> calc_task \<Rightarrow> json option" where
  "task_json F t = map_option
     (\<lambda>v. JObj [(''task_id'', JStr (ct_TaskID t)), (''operation'', JStr (ct_Operation t)), (''operands'', v)])
     (numbers_json F (ct_Operands t))"

definition result_json :: "number_codec \<Rightarrow> calc_result \<Rightarrow> json option" where
  "result_json F r =
     (if finite_double (cr_Result r)
      then Some (JObj ([(''task_id'', JStr (cr_TaskID r)), (''result'', JNum (float_text F (cr_Result r)))] @
             omit_string ''error'' (cr_Error r)))
      else None)"

definition marshal_task :: "codec \<Rightarrow> number_codec \<Rightarrow> calc_task \<Rightarrow> string option" where
  "marshal_task C F t = Option.bind (task_json F t) (json_text C)"

definition marshal_result :: "codec \<Rightarrow> number_codec \<Rightarrow> calc_result \<Rightarrow> string option" where
  "marshal_result C F r = Option.bind (result_json F r) (json_text C)"

definition decode_number :: "number_codec \<Rightarrow> double \<Rightarrow> json \<Rightarrow> double option" where
  "decode_number F old v = (case v of JNum s \<Rightarrow> float_parse F s | JNull \<Rightarrow> Some old | _ \<Rightarrow> None)"

definition decode_numbers :: "number_codec \<Rightarrow> json \<Rightarrow> double list option option" where
  "decode_numbers F v =
     (case v of
        JNull \<Rightarrow> Some None
      | JArr vs \<Rightarrow> map_option Some (those (map (decode_number F (zero_double False)) vs))
      | _ \<Rightarrow> None)"

definition task_member :: "number_codec \<Rightarrow> calc_task \<Rightarrow> string \<times> json \<Rightarrow> calc_task option" where
  "task_member F t kv = (case kv of (k, v) \<Rightarrow>
     if same_key k ''task_id'' then map_option (\<lambda>s. t\<lparr>ct_TaskID := s\<rparr>) (decode_string (ct_TaskID t) v)
     else if same_key k ''operation'' then map_option (\<lambda>s. t\<lparr>ct_Operation := s\<rparr>) (decode_string (ct_Operation t) v)
     else if same_key k ''operands'' then map_option (\<lambda>xs. t\<lparr>ct_Operands := xs\<rparr>) (decode_numbers F v)
     else Some t)"

definition result_member :: "number_codec \<Rightarrow> calc_result \<Rightarrow> string \<times> json \<Rightarrow> calc_result option" where
  "result_member F r kv = (case kv of (k, v) \<Rightarrow>
     if same_key k ''task_id'' then map_option (\<lambda>s. r\<lparr>cr_TaskID := s\<rparr>) (decode_string (cr_TaskID r) v)
     else if same_key k ''result'' then map_option (\<lambda>x. r\<lparr>cr_Result := x\<rparr>) (decode_number F (cr_Result r) v)
     else if same_key k ''error'' then map_option (\<lambda>s. r\<lparr>cr_Error := s\<rparr>) (decode_string (cr_Error r) v)
     else Some r)"

text \<open>\<^verbatim>\<open>json.Unmarshal\<close> into a zero struct; empty bytes are no JSON text.\<close>

definition unmarshal_struct ::
  "codec \<Rightarrow> ('a \<Rightarrow> string \<times> json \<Rightarrow> 'a option) \<Rightarrow> 'a \<Rightarrow> string option \<Rightarrow> 'a option" where
  "unmarshal_struct C f zero payload =
     Option.bind (Option.bind payload (json_parse C)) (decode_struct f zero)"

definition unmarshal_task :: "codec \<Rightarrow> number_codec \<Rightarrow> string option \<Rightarrow> calc_task option" where
  "unmarshal_task C F =
     unmarshal_struct C (task_member F) \<lparr>ct_TaskID = '''', ct_Operation = '''', ct_Operands = None\<rparr>"

definition unmarshal_result :: "codec \<Rightarrow> number_codec \<Rightarrow> string option \<Rightarrow> calc_result option" where
  "unmarshal_result C F =
     unmarshal_struct C (result_member F) \<lparr>cr_TaskID = '''', cr_Result = zero_double False, cr_Error = ''''\<rparr>"

section \<open>The consumer\<close>

definition calculate :: "calc_task \<Rightarrow> calc_result" where
  "calculate t =
     (let res = \<lparr>cr_TaskID = ct_TaskID t, cr_Result = zero_double False, cr_Error = ''''\<rparr>
      in case ct_Operands t of
           Some (a # b # _) \<Rightarrow>
             if ct_Operation t = ''add'' then res\<lparr>cr_Result := double_add a b\<rparr>
             else if ct_Operation t = ''subtract'' then res\<lparr>cr_Result := double_sub a b\<rparr>
             else if ct_Operation t = ''multiply'' then res\<lparr>cr_Result := double_mul a b\<rparr>
             else if ct_Operation t = ''divide'' then
               (if double_is_zero b then res\<lparr>cr_Error := ''division by zero''\<rparr>
                else res\<lparr>cr_Result := double_div a b\<rparr>)
             else res\<lparr>cr_Error := ''unknown operation: '' @ ct_Operation t\<rparr>
         | _ \<Rightarrow> res\<lparr>cr_Error := ''need at least 2 operands''\<rparr>)"

definition reply_task :: "string \<Rightarrow> string \<Rightarrow> task" where
  "reply_task queue payload = \<lparr>task_Type = TaskTypeCalcReply, task_Payload = Some payload, task_Queue = queue,
     task_Reply = None, task_Priority = 0, task_Metadata = None\<rparr>"

text \<open>The handler the consumer registers for \<^verbatim>\<open>TaskTypeCalc\<close>.\<close>

definition calc_handler ::
  "codec \<Rightarrow> number_codec \<Rightarrow> 'q asynq_client \<Rightarrow> task_ctx \<Rightarrow> task \<Rightarrow> ('q, gerr option) state" where
  "calc_handler C F A ctx t =
     (case unmarshal_task C F (task_Payload t) of
        None \<Rightarrow> State_Monad.return (Some (unmarshal_error F (task_Payload t)))
      | Some calcTask \<Rightarrow>
          let result = calculate calcTask
          in case task_Reply t of
               None \<Rightarrow> State_Monad.return None
             | Some spec \<Rightarrow>
                 if reply_Queue spec = '''' then State_Monad.return None
                 else case marshal_result C F result of
                   None \<Rightarrow> State_Monad.return (Some (marshal_error F [cr_Result result]))
                 | Some replyPayload \<Rightarrow> do {
                     r \<leftarrow> Publish C A ctx (reply_task (reply_Queue spec) replyPayload);
                     State_Monad.return (case r of Inl e \<Rightarrow> Some e | Inr _ \<Rightarrow> None)
                   })"

section \<open>Messages come through unchanged\<close>

fun number_json :: "number_codec \<Rightarrow> json \<Rightarrow> bool" where
  "number_json F (JStr s) \<longleftrightarrow> ascii s"
| "number_json F (JNum s) \<longleftrightarrow> (\<exists>x. double_ok x \<and> finite_double x \<and> s = float_text F x)"
| "number_json F (JArr vs) \<longleftrightarrow> (\<forall>v \<in> set vs. number_json F v)"
| "number_json F (JObj kvs) \<longleftrightarrow> (\<forall>(k, v) \<in> set kvs. ascii k \<and> number_json F v)"
| "number_json F _ \<longleftrightarrow> True"

text \<open>The shortest text that names a finite number is read as that number.\<close>

definition numbers_ok :: "codec \<Rightarrow> number_codec \<Rightarrow> bool" where
  "numbers_ok C F \<longleftrightarrow> codec_ok C \<and>
     (\<forall>x. double_ok x \<longrightarrow> finite_double x \<longrightarrow> float_parse F (float_text F x) = Some x) \<and>
     (\<forall>v. number_json F v \<longrightarrow> (\<exists>t. json_text C v = Some t \<and> json_parse C t = Some v))"

definition task_fine :: "calc_task \<Rightarrow> bool" where
  "task_fine t \<longleftrightarrow> ascii (ct_TaskID t) \<and> ascii (ct_Operation t) \<and>
     (case ct_Operands t of None \<Rightarrow> True | Some xs \<Rightarrow> \<forall>x \<in> set xs. double_ok x \<and> finite_double x)"

lemma ascii_Cons: "ascii (c # s) \<longleftrightarrow> (of_char c :: nat) < 128 \<and> ascii s"
  by (simp add: ascii_def)

lemma ascii_calc:
  "ascii ''task_id''" "ascii ''operation''" "ascii ''operands''" "ascii ''result''" "ascii ''error''"
  "ascii ''division by zero''" "ascii ''unknown operation: ''" "ascii ''need at least 2 operands''" "ascii ''''"
  "ascii CalcResponseQueue"
  by code_simp+

lemma lower_calc [simp]:
  "to_lower ''task_id'' = ''task_id''" "to_lower ''operation'' = ''operation''" "to_lower ''operands'' = ''operands''"
  "to_lower ''result'' = ''result''" "to_lower ''error'' = ''error''"
  by code_simp+

lemma number_text:
  "numbers_ok C F \<Longrightarrow> number_json F v \<Longrightarrow> json_text C v = Some p \<Longrightarrow> json_parse C p = Some v"
  unfolding numbers_ok_def by (metis option.inject)

lemma those_numbers:
  "(\<And>x. x \<in> set xs \<Longrightarrow> f (g x) = Some x) \<Longrightarrow> those (map f (map g xs)) = Some xs"
  by (induction xs) auto

lemma task_roundtrip:
  assumes C: "numbers_ok C F" and t: "task_fine t"
  obtains p where "marshal_task C F t = Some p" "unmarshal_task C F (Some p) = Some t"
proof -
  from t obtain v where v: "numbers_json F (ct_Operands t) = Some v"
    by (auto simp: numbers_json_def task_fine_def list_all_iff split: option.splits)
  have d: "decode_numbers F v = Some (ct_Operands t)"
    using v t C those_numbers [of _ "decode_number F (zero_double False)" "\<lambda>y. JNum (float_text F y)"]
    by (fastforce simp: numbers_json_def decode_numbers_def decode_number_def numbers_ok_def task_fine_def
        split: option.splits if_splits)
  have "number_json F v"
    using v t by (fastforce simp: numbers_json_def task_fine_def split: option.splits if_splits)
  then have "number_json F (JObj [(''task_id'', JStr (ct_TaskID t)), (''operation'', JStr (ct_Operation t)), (''operands'', v)])"
    using t by (simp add: task_fine_def ascii_calc)
  with C obtain p where "json_text C (JObj [(''task_id'', JStr (ct_TaskID t)), (''operation'', JStr (ct_Operation t)), (''operands'', v)]) = Some p"
    "json_parse C p = Some (JObj [(''task_id'', JStr (ct_TaskID t)), (''operation'', JStr (ct_Operation t)), (''operands'', v)])"
    unfolding numbers_ok_def by blast
  then show thesis
    by (intro that [of p])
       (simp_all add: marshal_task_def task_json_def v unmarshal_task_def unmarshal_struct_def decode_struct_def
         task_member_def same_key_def d)
qed

lemma calculate_fine:
  assumes "task_fine t"
  shows "cr_TaskID (calculate t) = ct_TaskID t" "ascii (cr_TaskID (calculate t))"
    "ascii (cr_Error (calculate t))" "double_ok (cr_Result (calculate t))"
  using assms by (auto simp: calculate_def Let_def task_fine_def ascii_calc ascii_Cons split: option.splits list.splits)

text \<open>A reply is no envelope: none of its members has the name of one of the envelope's.\<close>

lemma result_roundtrip:
  assumes C: "numbers_ok C F" and t: "task_fine t" and p: "marshal_result C F (calculate t) = Some p"
  shows "unmarshal_result C F (Some p) = Some (calculate t)" and "unwrapEnvelope C p = (Some p, None, None, [])"
proof -
  let ?r = "calculate t"
  let ?v = "JObj ([(''task_id'', JStr (cr_TaskID ?r)), (''result'', JNum (float_text F (cr_Result ?r)))] @
      omit_string ''error'' (cr_Error ?r))"
  from p have fin: "finite_double (cr_Result ?r)" and js: "json_text C ?v = Some p"
    by (auto simp: marshal_result_def result_json_def split: if_splits bind_splits)
  have "number_json F ?v"
    using calculate_fine [OF t] fin by (auto simp: ascii_calc omit_string_def)
  with js have parse: "json_parse C p = Some ?v" by (intro number_text [OF C])
  have num: "float_parse F (float_text F (cr_Result ?r)) = Some (cr_Result ?r)"
    using C fin calculate_fine(4) [OF t] by (simp add: numbers_ok_def)
  show "unmarshal_result C F (Some p) = Some ?r"
    by (simp add: unmarshal_result_def unmarshal_struct_def parse decode_struct_def result_member_def same_key_def
        decode_number_def num omit_string_def)
  show "unwrapEnvelope C p = (Some p, None, None, [])"
    by (simp add: unwrapEnvelope_def parse decode_struct_def probe_member_def same_key_def omit_string_def is_envelope_def)
qed

text \<open>What the producer sends, and what the consumer's registered function does with it.\<close>

definition request_task :: "string \<Rightarrow> task" where
  "request_task payload = \<lparr>task_Type = TaskTypeCalc, task_Payload = Some payload, task_Queue = CalcRequestQueue,
     task_Reply = Some (ReplySpec CalcResponseQueue), task_Priority = 0, task_Metadata = None\<rparr>"

lemma no_trace_metadata [simp]: "injectTraceFromMetadata ctx None inst seed = (ctx, seed)"
  by (simp add: injectTraceFromMetadata_def TraceFromMetadata_def)

lemma queues_named [simp]:
  "CalcResponseQueue \<noteq> ''''" "CalcRequestQueue \<noteq> ''''"
  "CalcResponseQueue \<noteq> CalcRequestQueue" "CalcRequestQueue \<noteq> CalcResponseQueue"
  by (simp_all add: CalcResponseQueue_def CalcRequestQueue_def)

lemma request_task_sel [simp]:
  "task_Type (request_task p) = TaskTypeCalc" "task_Queue (request_task p) = CalcRequestQueue"
  by (simp_all add: request_task_def)

definition request_bytes :: "codec \<Rightarrow> string \<Rightarrow> string option" where
  "request_bytes C payload = wrapWithTrace C None (Some payload) (Some (ReplySpec CalcResponseQueue)) None"

lemma publish_request: "Publish C A no_ctx (request_task p) = enqueue A (request_task p) (request_bytes C p)"
  by (simp add: Publish_def request_task_def no_ctx_def request_bytes_def)

lemma request_handled:
  assumes C: "numbers_ok C F" and t: "task_fine t" and p: "marshal_task C F t = Some p"
  obtains data where "request_bytes C p = Some data"
    "Handle C inst (calc_handler C F B) no_ctx typ q data seed =
      (case marshal_result C F (calculate t) of
         None \<Rightarrow> State_Monad.return (Some (marshal_error F [cr_Result (calculate t)]))
       | Some r \<Rightarrow> do {
           x \<leftarrow> enqueue B (reply_task CalcResponseQueue r) (Some r);
           State_Monad.return (case x of Inl e \<Rightarrow> Some e | Inr _ \<Rightarrow> None)
         })"
proof -
  have "codec_ok C" using C by (simp add: numbers_ok_def)
  moreover have "sendable None (Some (ReplySpec CalcResponseQueue)) None" by (simp add: sendable_def ascii_calc)
  moreover have "needs_envelope None (Some (ReplySpec CalcResponseQueue)) None" by (simp add: needs_envelope_def)
  ultimately obtain data where w: "wrapWithTrace C None (Some p) (Some (ReplySpec CalcResponseQueue)) None = Some data"
    and u: "unwrapEnvelope C data = (Some p, None, Some (ReplySpec CalcResponseQueue), [])"
    by (auto dest!: wrap_unwrap [of C _ _ _ p])
  from task_roundtrip [OF C t] p have "unmarshal_task C F (Some p) = Some t" by auto
  then have "Handle C inst (calc_handler C F B) no_ctx typ q data seed =
      (case marshal_result C F (calculate t) of
         None \<Rightarrow> State_Monad.return (Some (marshal_error F [cr_Result (calculate t)]))
       | Some r \<Rightarrow> do {
           x \<leftarrow> Publish C B no_ctx (reply_task CalcResponseQueue r);
           State_Monad.return (case x of Inl e \<Rightarrow> Some e | Inr _ \<Rightarrow> None)
         })"
    by (simp add: Handle_def u calc_handler_def Let_def split: option.split)
  moreover have "Publish C B no_ctx (reply_task CalcResponseQueue r) = enqueue B (reply_task CalcResponseQueue r) (Some r)" for r
    by (simp add: Publish_def reply_task_def wrapWithTrace_def no_ctx_def cloneMetadata_def)
  moreover have "request_bytes C p = Some data" by (simp add: request_bytes_def w)
  ultimately show thesis by (intro that) (simp_all cong: option.case_cong)
qed

end
