(* ===== verification/Queue_Inspector.thy ===== *)
theory Queue_Inspector
  imports Queue_Codec
begin

text \<open>
  Inspecting and controlling the queues (\<^verbatim>\<open>taskqueue/inspector.go\<close>,
  \<^verbatim>\<open>taskqueue/asynqbroker/inspector.go\<close>). asynq's own inspector is a parameter; log lines are left out.
\<close>

section \<open>The data model of the package\<close>

definition errQueueNotFound :: gerr where
  "errQueueNotFound = GErr [ErrQueueNotFound] ''taskqueue: queue not found''"

definition errTaskNotFound :: gerr where
  "errTaskNotFound = GErr [ErrTaskNotFound] ''taskqueue: task not found''"

datatype task_state =
    TaskStatePending | TaskStateScheduled | TaskStateActive | TaskStateRetry | TaskStateFailed
  | TaskStateCompleted | TaskStateOther string

record queue_stats =
  qs_Queue :: string
  qs_Pending :: int
  qs_Scheduled :: int
  qs_Active :: int
  qs_Retry :: int
  qs_Failed :: int
  qs_Completed :: int
  qs_Paused :: bool
  qs_Timestamp :: int

record task_detail =
  td_ID :: string
  td_Queue :: string
  td_Type :: string
  td_State :: task_state
  td_MaxRetry :: int
  td_Retried :: int
  td_LastError :: string
  td_NextProcessAt :: "int option"
  td_CreatedAt :: "int option"
  td_CompletedAt :: "int option"
  td_Payload :: "string option"

record list_options =
  lo_Page :: int
  lo_PageSize :: int

record task_list =
  tl_Tasks :: "task_detail list"
  tl_Total :: int

record worker_info =
  wi_ID :: string
  wi_Host :: string
  wi_PID :: int
  wi_Queues :: "string list"
  wi_StartedAt :: int
  wi_ActiveTasks :: int

definition DefaultListOptions :: list_options where
  "DefaultListOptions = \<lparr>lo_Page = 1, lo_PageSize = 30\<rparr>"

definition Normalize :: "list_options \<Rightarrow> list_options" where
  "Normalize o1 =
     (let o2 = (if lo_Page o1 < 1 then o1\<lparr>lo_Page := 1\<rparr> else o1);
          o3 = (if lo_PageSize o2 < 1 then o2\<lparr>lo_PageSize := 30\<rparr> else o2)
      in if lo_PageSize o3 > 100 then o3\<lparr>lo_PageSize := 100\<rparr> else o3)"

section \<open>asynq's inspector\<close>

datatype aq_state =
    AQ_Active | AQ_Pending | AQ_Scheduled | AQ_Retry | AQ_Archived | AQ_Completed | AQ_Aggregating | AQ_Other int

record aq_task =
  at_ID :: string
  at_Queue :: string
  at_Type :: string
  at_Payload :: string
  at_State :: aq_state
  at_MaxRetry :: int
  at_Retried :: int
  at_LastErr :: string
  at_NextProcessAt :: "int option"
  at_CompletedAt :: "int option"

record aq_queue =
  aq_Queue :: string
  aq_Pending :: int
  aq_Scheduled :: int
  aq_Active :: int
  aq_Retry :: int
  aq_Archived :: int
  aq_Completed :: int
  aq_Aggregating :: int
  aq_Paused :: bool

record aq_server =
  as_ID :: string
  as_Host :: string
  as_PID :: int
  as_Queues :: "(string \<times> int) list"
  as_Started :: int
  as_ActiveWorkers :: nat

text \<open>
  The calls the package makes. \<open>ListBy\<close>, \<open>DeleteAllBy\<close>, \<open>RunAllBy\<close> and \<open>ArchiveAllBy\<close> stand for one
  method per state (\<^verbatim>\<open>ListPendingTasks\<close>, \<^verbatim>\<open>ListScheduledTasks\<close> and so on); the numbers are page size
  and page. A zero time is \<open>None\<close>.
\<close>

record 's asynq_inspector =
  InnerQueues :: "('s, gerr + string list) state"
  GetQueueInfo :: "string \<Rightarrow> ('s, gerr + aq_queue) state"
  InnerServers :: "('s, gerr + aq_server list) state"
  InnerClose :: "('s, gerr option) state"
  InnerTaskInfo :: "string \<Rightarrow> string \<Rightarrow> ('s, gerr + aq_task) state"
  ListBy :: "aq_state \<Rightarrow> string \<Rightarrow> int \<Rightarrow> int \<Rightarrow> ('s, gerr + aq_task list) state"
  InnerGroups :: "string \<Rightarrow> ('s, gerr + string list) state"
  ListAggregatingTasks :: "string \<Rightarrow> string \<Rightarrow> int \<Rightarrow> int \<Rightarrow> ('s, gerr + aq_task list) state"
  InnerDelete :: "string \<Rightarrow> string \<Rightarrow> ('s, gerr option) state"
  InnerRun :: "string \<Rightarrow> string \<Rightarrow> ('s, gerr option) state"
  InnerArchive :: "string \<Rightarrow> string \<Rightarrow> ('s, gerr option) state"
  CancelProcessing :: "string \<Rightarrow> ('s, gerr option) state"
  DeleteAllBy :: "aq_state \<Rightarrow> string \<Rightarrow> ('s, gerr + int) state"
  DeleteAllAggregatingTasks :: "string \<Rightarrow> string \<Rightarrow> ('s, gerr + int) state"
  RunAllBy :: "aq_state \<Rightarrow> string \<Rightarrow> ('s, gerr + int) state"
  ArchiveAllBy :: "aq_state \<Rightarrow> string \<Rightarrow> ('s, gerr + int) state"
  InnerPause :: "string \<Rightarrow> ('s, gerr option) state"
  InnerUnpause :: "string \<Rightarrow> ('s, gerr option) state"
  InnerDeleteQueue :: "string \<Rightarrow> bool \<Rightarrow> ('s, gerr option) state"

section \<open>Errors and conversions\<close>

definition isQueueNotFoundErr :: "gerr \<Rightarrow> bool" where
  "isQueueNotFoundErr e = errors_Is e asynq_ErrQueueNotFound"

definition isTaskNotFoundErr :: "gerr \<Rightarrow> bool" where
  "isTaskNotFoundErr e = errors_Is e asynq_ErrTaskNotFound"

definition wrapQueueErr :: "gerr \<Rightarrow> gerr" where
  "wrapQueueErr e = (if isQueueNotFoundErr e then errQueueNotFound else e)"

text \<open>The same mapping with the task first, as the operations on one task have it.\<close>

definition task_err :: "gerr \<Rightarrow> gerr" where
  "task_err e = (if isTaskNotFoundErr e then errTaskNotFound
     else if isQueueNotFoundErr e then errQueueNotFound else e)"

fun convertState :: "aq_state \<Rightarrow> task_state" where
  "convertState AQ_Pending = TaskStatePending"
| "convertState AQ_Scheduled = TaskStateScheduled"
| "convertState AQ_Active = TaskStateActive"
| "convertState AQ_Retry = TaskStateRetry"
| "convertState AQ_Archived = TaskStateFailed"
| "convertState AQ_Completed = TaskStateCompleted"
| "convertState AQ_Aggregating = TaskStatePending"
| "convertState (AQ_Other i) = TaskStatePending"

definition convertTaskInfo :: "codec \<Rightarrow> aq_task \<Rightarrow> task_detail" where
  "convertTaskInfo C t =
     \<lparr>td_ID = at_ID t, td_Queue = at_Queue t, td_Type = at_Type t, td_State = convertState (at_State t),
      td_MaxRetry = at_MaxRetry t, td_Retried = at_Retried t, td_LastError = at_LastErr t,
      td_NextProcessAt = at_NextProcessAt t, td_CreatedAt = None, td_CompletedAt = at_CompletedAt t,
      td_Payload = fst (unwrapEnvelope C (at_Payload t))\<rparr>"

section \<open>Queues and workers\<close>

definition Queues :: "'s asynq_inspector \<Rightarrow> ('s, gerr + string list) state" where
  "Queues A = InnerQueues A"

text \<open>The time of the snapshot is an argument.\<close>

definition GetQueueStats :: "'s asynq_inspector \<Rightarrow> int \<Rightarrow> string \<Rightarrow> ('s, gerr + queue_stats) state" where
  "GetQueueStats A t queue = do {
     r \<leftarrow> GetQueueInfo A queue;
     State_Monad.return (case r of
         Inl e \<Rightarrow> Inl (if isQueueNotFoundErr e then errQueueNotFound else e)
       | Inr i \<Rightarrow> Inr \<lparr>qs_Queue = aq_Queue i, qs_Pending = aq_Pending i, qs_Scheduled = aq_Scheduled i,
           qs_Active = aq_Active i, qs_Retry = aq_Retry i, qs_Failed = aq_Archived i,
           qs_Completed = aq_Completed i, qs_Paused = aq_Paused i, qs_Timestamp = t\<rparr>)
   }"

definition ListWorkers :: "'s asynq_inspector \<Rightarrow> ('s, gerr + worker_info list) state" where
  "ListWorkers A = do {
     r \<leftarrow> InnerServers A;
     State_Monad.return (case r of
         Inl e \<Rightarrow> Inl e
       | Inr servers \<Rightarrow> Inr (map (\<lambda>s. \<lparr>wi_ID = as_ID s, wi_Host = as_Host s, wi_PID = as_PID s,
           wi_Queues = map fst (as_Queues s), wi_StartedAt = as_Started s,
           wi_ActiveTasks = int (as_ActiveWorkers s)\<rparr>) servers))
   }"

text \<open>\<^verbatim>\<open>Close\<close>, with the flag \<^verbatim>\<open>closed\<close>.\<close>

definition inspector_Close :: "'s asynq_inspector \<Rightarrow> bool \<Rightarrow> ('s, gerr option \<times> bool) state" where
  "inspector_Close A closed =
     (if closed then State_Monad.return (None, True)
      else do { e \<leftarrow> InnerClose A; State_Monad.return (e, True) })"

section \<open>Tasks\<close>

definition GetTaskInfo :: "codec \<Rightarrow> 's asynq_inspector \<Rightarrow> string \<Rightarrow> string \<Rightarrow> ('s, gerr + task_detail) state" where
  "GetTaskInfo C A queue taskID = do {
     r \<leftarrow> InnerTaskInfo A queue taskID;
     State_Monad.return (case r of Inl e \<Rightarrow> Inl (task_err e) | Inr t \<Rightarrow> Inr (convertTaskInfo C t))
   }"

text \<open>The tasks of all groups; an error of a call counts as an empty answer.\<close>

definition ok_or :: "'a \<Rightarrow> gerr + 'a \<Rightarrow> 'a" where
  "ok_or d r = (case r of Inl _ \<Rightarrow> d | Inr x \<Rightarrow> x)"

fun aggregating :: "'s asynq_inspector \<Rightarrow> string \<Rightarrow> list_options \<Rightarrow> string list \<Rightarrow> ('s, aq_task list) state" where
  "aggregating A queue op [] = State_Monad.return []"
| "aggregating A queue op (g # gs) = do {
     r \<leftarrow> ListAggregatingTasks A queue g (lo_PageSize op) (lo_Page op);
     ts \<leftarrow> aggregating A queue op gs;
     State_Monad.return (ok_or [] r @ ts)
   }"

text \<open>The part every state of \<^verbatim>\<open>ListTasks\<close> shares: list, convert, count.\<close>

definition list_state ::
  "codec \<Rightarrow> 's asynq_inspector \<Rightarrow> string \<Rightarrow> list_options \<Rightarrow> aq_state \<Rightarrow> ('s, aq_task list) state
    \<Rightarrow> (aq_queue \<Rightarrow> int) \<Rightarrow> ('s, gerr + task_list) state" where
  "list_state C A queue op st others count = do {
     r \<leftarrow> ListBy A st queue (lo_PageSize op) (lo_Page op);
     case r of
       Inl e \<Rightarrow> State_Monad.return (Inl (wrapQueueErr e))
     | Inr ts \<Rightarrow> do {
         extra \<leftarrow> others;
         i \<leftarrow> GetQueueInfo A queue;
         State_Monad.return (Inr \<lparr>tl_Tasks = map (convertTaskInfo C) ts @ map (convertTaskInfo C) extra,
           tl_Total = (case i of Inl _ \<Rightarrow> 0 | Inr q \<Rightarrow> count q)\<rparr>)
       }
   }"

definition ListTasks ::
  "codec \<Rightarrow> 's asynq_inspector \<Rightarrow> string \<Rightarrow> task_state \<Rightarrow> list_options option \<Rightarrow> ('s, gerr + task_list) state" where
  "ListTasks C A queue st opts =
     (let op = Normalize (case opts of None \<Rightarrow> DefaultListOptions | Some x \<Rightarrow> x);
          nothing = State_Monad.return []
      in case st of
           TaskStatePending \<Rightarrow>
             list_state C A queue op AQ_Pending
               (do { groups \<leftarrow> InnerGroups A queue; aggregating A queue op (ok_or [] groups) })
               (\<lambda>i. aq_Pending i + aq_Aggregating i)
         | TaskStateScheduled \<Rightarrow> list_state C A queue op AQ_Scheduled nothing aq_Scheduled
         | TaskStateActive \<Rightarrow> list_state C A queue op AQ_Active nothing aq_Active
         | TaskStateRetry \<Rightarrow> list_state C A queue op AQ_Retry nothing aq_Retry
         | TaskStateFailed \<Rightarrow> list_state C A queue op AQ_Archived nothing aq_Archived
         | TaskStateCompleted \<Rightarrow> list_state C A queue op AQ_Completed nothing aq_Completed
         | TaskStateOther _ \<Rightarrow> State_Monad.return (Inr \<lparr>tl_Tasks = [], tl_Total = 0\<rparr>))"

section \<open>Control\<close>

definition with_task_err :: "('s, gerr option) state \<Rightarrow> ('s, gerr option) state" where
  "with_task_err m = do { e \<leftarrow> m; State_Monad.return (map_option task_err e) }"

definition DeleteTask :: "'s asynq_inspector \<Rightarrow> string \<Rightarrow> string \<Rightarrow> ('s, gerr option) state" where
  "DeleteTask A queue taskID = with_task_err (InnerDelete A queue taskID)"

definition RunTask :: "'s asynq_inspector \<Rightarrow> string \<Rightarrow> string \<Rightarrow> ('s, gerr option) state" where
  "RunTask A queue taskID = with_task_err (InnerRun A queue taskID)"

definition ArchiveTask :: "'s asynq_inspector \<Rightarrow> string \<Rightarrow> string \<Rightarrow> ('s, gerr option) state" where
  "ArchiveTask A queue taskID = with_task_err (InnerArchive A queue taskID)"

definition CancelTask :: "'s asynq_inspector \<Rightarrow> string \<Rightarrow> ('s, gerr option) state" where
  "CancelTask A taskID = CancelProcessing A taskID"

text \<open>The common end of the batch operations.\<close>

definition batch :: "('s, gerr + int) state \<Rightarrow> ('s, gerr + int) state" where
  "batch m = do {
     r \<leftarrow> m;
     State_Monad.return (case r of Inl e \<Rightarrow> Inl (wrapQueueErr e) | Inr n \<Rightarrow> Inr n)
   }"

fun delete_groups :: "'s asynq_inspector \<Rightarrow> string \<Rightarrow> string list \<Rightarrow> int \<Rightarrow> ('s, int) state" where
  "delete_groups A queue [] deleted = State_Monad.return deleted"
| "delete_groups A queue (g # gs) deleted = do {
     n \<leftarrow> DeleteAllAggregatingTasks A queue g;
     delete_groups A queue gs (deleted + ok_or 0 n)
   }"

definition BatchDeleteTasks :: "'s asynq_inspector \<Rightarrow> string \<Rightarrow> task_state \<Rightarrow> ('s, gerr + int) state" where
  "BatchDeleteTasks A queue st =
     (case st of
        TaskStatePending \<Rightarrow> do {
          r \<leftarrow> DeleteAllBy A AQ_Pending queue;
          case r of
            Inl e \<Rightarrow> State_Monad.return (Inl (wrapQueueErr e))
          | Inr deleted \<Rightarrow> do {
              groups \<leftarrow> InnerGroups A queue;
              n \<leftarrow> delete_groups A queue (ok_or [] groups) deleted;
              State_Monad.return (Inr n)
            }
        }
      | TaskStateScheduled \<Rightarrow> batch (DeleteAllBy A AQ_Scheduled queue)
      | TaskStateRetry \<Rightarrow> batch (DeleteAllBy A AQ_Retry queue)
      | TaskStateFailed \<Rightarrow> batch (DeleteAllBy A AQ_Archived queue)
      | TaskStateCompleted \<Rightarrow> batch (DeleteAllBy A AQ_Completed queue)
      | _ \<Rightarrow> State_Monad.return (Inr 0))"

definition BatchRunTasks :: "'s asynq_inspector \<Rightarrow> string \<Rightarrow> task_state \<Rightarrow> ('s, gerr + int) state" where
  "BatchRunTasks A queue st =
     (case st of
        TaskStateScheduled \<Rightarrow> batch (RunAllBy A AQ_Scheduled queue)
      | TaskStateRetry \<Rightarrow> batch (RunAllBy A AQ_Retry queue)
      | TaskStateFailed \<Rightarrow> batch (RunAllBy A AQ_Archived queue)
      | _ \<Rightarrow> State_Monad.return (Inr 0))"

definition BatchArchiveTasks :: "'s asynq_inspector \<Rightarrow> string \<Rightarrow> task_state \<Rightarrow> ('s, gerr + int) state" where
  "BatchArchiveTasks A queue st =
     (case st of
        TaskStatePending \<Rightarrow> batch (ArchiveAllBy A AQ_Pending queue)
      | TaskStateScheduled \<Rightarrow> batch (ArchiveAllBy A AQ_Scheduled queue)
      | TaskStateRetry \<Rightarrow> batch (ArchiveAllBy A AQ_Retry queue)
      | _ \<Rightarrow> State_Monad.return (Inr 0))"

definition with_queue_err :: "('s, gerr option) state \<Rightarrow> ('s, gerr option) state" where
  "with_queue_err m = do { e \<leftarrow> m; State_Monad.return (map_option wrapQueueErr e) }"

definition PauseQueue :: "'s asynq_inspector \<Rightarrow> string \<Rightarrow> ('s, gerr option) state" where
  "PauseQueue A queue = with_queue_err (InnerPause A queue)"

definition UnpauseQueue :: "'s asynq_inspector \<Rightarrow> string \<Rightarrow> ('s, gerr option) state" where
  "UnpauseQueue A queue = with_queue_err (InnerUnpause A queue)"

definition DeleteQueue :: "'s asynq_inspector \<Rightarrow> string \<Rightarrow> bool \<Rightarrow> ('s, gerr option) state" where
  "DeleteQueue A queue force =
     with_queue_err (if force then InnerDeleteQueue A queue True else InnerDeleteQueue A queue False)"

section \<open>Correctness\<close>

text \<open>An error that does not mention asynq's own not-found errors.\<close>

definition hides_queue :: "gerr \<Rightarrow> bool" where
  "hides_queue e \<longleftrightarrow> \<not> errors_Is e asynq_ErrQueueNotFound"

definition hides_task :: "gerr \<Rightarrow> bool" where
  "hides_task e \<longleftrightarrow> hides_queue e \<and> \<not> errors_Is e asynq_ErrTaskNotFound"

lemma hides_wrapped [simp]: "hides_queue (wrapQueueErr e)" "hides_task (task_err e)"
  by (simp_all add: hides_queue_def hides_task_def wrapQueueErr_def task_err_def isQueueNotFoundErr_def
      isTaskNotFoundErr_def errQueueNotFound_def errTaskNotFound_def)

definition sum_error :: "gerr + 'a \<Rightarrow> gerr option" where
  "sum_error r = (case r of Inl e \<Rightarrow> Some e | Inr _ \<Rightarrow> None)"

lemma sum_error_simps [simp]: "sum_error (Inl e) = Some e" "sum_error (Inr x) = None"
  by (simp_all add: sum_error_def)

text \<open>The operations, each with the error it answers.\<close>

datatype queue_op =
    QStats int string | QTaskInfo string string | QList string task_state "list_options option"
  | QDelete string string | QRun string string | QArchive string string
  | QBatchDelete string task_state | QBatchRun string task_state | QBatchArchive string task_state
  | QPause string | QUnpause string | QDeleteQueue string bool

definition outcome :: "('s, gerr + 'a) state \<Rightarrow> ('s, gerr option) state" where
  "outcome m = do { r \<leftarrow> m; State_Monad.return (sum_error r) }"

fun run_queue_op :: "codec \<Rightarrow> 's asynq_inspector \<Rightarrow> queue_op \<Rightarrow> ('s, gerr option) state" where
  "run_queue_op C A (QStats t q) = outcome (GetQueueStats A t q)"
| "run_queue_op C A (QTaskInfo q i) = outcome (GetTaskInfo C A q i)"
| "run_queue_op C A (QList q st opts) = outcome (ListTasks C A q st opts)"
| "run_queue_op C A (QDelete q i) = DeleteTask A q i"
| "run_queue_op C A (QRun q i) = RunTask A q i"
| "run_queue_op C A (QArchive q i) = ArchiveTask A q i"
| "run_queue_op C A (QBatchDelete q st) = outcome (BatchDeleteTasks A q st)"
| "run_queue_op C A (QBatchRun q st) = outcome (BatchRunTasks A q st)"
| "run_queue_op C A (QBatchArchive q st) = outcome (BatchArchiveTasks A q st)"
| "run_queue_op C A (QPause q) = PauseQueue A q"
| "run_queue_op C A (QUnpause q) = UnpauseQueue A q"
| "run_queue_op C A (QDeleteQueue q f) = DeleteQueue A q f"

fun on_task :: "queue_op \<Rightarrow> bool" where
  "on_task (QTaskInfo q i) = True"
| "on_task (QDelete q i) = True"
| "on_task (QRun q i) = True"
| "on_task (QArchive q i) = True"
| "on_task _ = False"

lemma outcome_error: "run_state (outcome m) s = (Some e, s') \<Longrightarrow> run_state m s = (Inl e, s')"
  by (auto simp: outcome_def sum_error_def split: prod.splits sum.splits)

lemma with_task_err_hides: "run_state (with_task_err m) s = (Some e, s') \<Longrightarrow> hides_task e"
  by (auto simp: with_task_err_def split: prod.splits)

lemma with_queue_err_hides: "run_state (with_queue_err m) s = (Some e, s') \<Longrightarrow> hides_queue e"
  by (auto simp: with_queue_err_def split: prod.splits)

lemma batch_hides: "run_state (batch m) s = (Inl e, s') \<Longrightarrow> hides_queue e"
  by (auto simp: batch_def split: prod.splits sum.splits)

lemma list_state_hides: "run_state (list_state C A q op st others count) s = (Inl e, s') \<Longrightarrow> hides_queue e"
  by (auto simp: list_state_def split: prod.splits sum.splits)

lemma hides_task_queue: "hides_task e \<Longrightarrow> hides_queue e"
  by (simp add: hides_task_def)

lemma batch_delete_hides: "run_state (BatchDeleteTasks A q st) s = (Inl e, s') \<Longrightarrow> hides_queue e"
  by (cases st) (auto simp: BatchDeleteTasks_def dest: batch_hides split: prod.splits sum.splits)

text \<open>
  The package's own errors only. No operation on queues or tasks, CancelTask apart, lets asynq's
  queue-not-found error through; the operations on one task hide its task-not-found error too.
\<close>

theorem not_found_errors_hidden:
  assumes run: "run_state (run_queue_op C A oper) s = (Some e, s')"
  shows "hides_queue e \<and> (on_task oper \<longrightarrow> hides_task e)"
proof (cases oper)
  case (QStats t q)
  with run show ?thesis
    by (auto simp: GetQueueStats_def hides_queue_def isQueueNotFoundErr_def errQueueNotFound_def
        dest!: outcome_error split: prod.splits sum.splits if_splits)
next
  case (QTaskInfo q i)
  with run have "hides_task e"
    by (auto simp: GetTaskInfo_def dest!: outcome_error split: prod.splits sum.splits)
  then show ?thesis by (simp add: hides_task_queue)
next
  case (QList q st opts)
  with run have "run_state (ListTasks C A q st opts) s = (Inl e, s')" by (simp add: outcome_error)
  then have "hides_queue e"
    by (cases st) (auto simp: ListTasks_def Let_def dest: list_state_hides)
  with QList show ?thesis by simp
next
  case (QBatchDelete q st)
  with run show ?thesis by (auto dest!: outcome_error batch_delete_hides)
next
  case (QBatchRun q st)
  with run show ?thesis
    by (cases st) (auto simp: BatchRunTasks_def dest!: outcome_error batch_hides)
next
  case (QBatchArchive q st)
  with run show ?thesis
    by (cases st) (auto simp: BatchArchiveTasks_def dest!: outcome_error batch_hides)
qed (use run in \<open>auto simp: DeleteTask_def RunTask_def ArchiveTask_def PauseQueue_def UnpauseQueue_def
    DeleteQueue_def dest!: with_task_err_hides with_queue_err_hides intro: hides_task_queue\<close>)

text \<open>asynq's listings: only tasks of the state asked for, and at most a page of them.\<close>

definition lists_by_state :: "'s asynq_inspector \<Rightarrow> bool" where
  "lists_by_state A \<longleftrightarrow>
     (\<forall>st q n p s ts s'. run_state (ListBy A st q n p) s = (Inr ts, s') \<longrightarrow>
        (\<forall>t \<in> set ts. at_State t = st) \<and> length ts \<le> nat n) \<and>
     (\<forall>q g n p s ts s'. run_state (ListAggregatingTasks A q g n p) s = (Inr ts, s') \<longrightarrow>
        (\<forall>t \<in> set ts. at_State t = AQ_Aggregating) \<and> length ts \<le> nat n)"

lemma lists_by_stateD:
  assumes "lists_by_state A"
  shows "run_state (ListBy A st q n p) s = (Inr ts, s') \<Longrightarrow> (\<forall>t \<in> set ts. at_State t = st) \<and> length ts \<le> nat n"
    and "run_state (ListAggregatingTasks A q g n p) s = (Inr ts, s')
      \<Longrightarrow> (\<forall>t \<in> set ts. at_State t = AQ_Aggregating) \<and> length ts \<le> nat n"
  using assms unfolding lists_by_state_def by blast+

lemma aggregating_state:
  assumes "lists_by_state A" and "run_state (aggregating A q op gs) s = (ts, s')"
  shows "(\<forall>t \<in> set ts. at_State t = AQ_Aggregating) \<and> length ts \<le> length gs * nat (lo_PageSize op)"
  using assms(2)
proof (induction gs arbitrary: s ts s')
  case (Cons g gs)
  obtain r s1 where r: "run_state (ListAggregatingTasks A q g (lo_PageSize op) (lo_Page op)) s = (r, s1)" by fastforce
  obtain ts' s2 where ts': "run_state (aggregating A q op gs) s1 = (ts', s2)" by fastforce
  have ts: "ts = ok_or [] r @ ts'" using Cons.prems r ts' by simp
  have "(\<forall>t \<in> set (ok_or [] r). at_State t = AQ_Aggregating) \<and> length (ok_or [] r) \<le> nat (lo_PageSize op)"
    using lists_by_stateD(2) [OF assms(1)] r by (cases r) (simp_all add: ok_or_def)
  with Cons.IH [OF ts'] show ?case by (auto simp: ts)
qed simp

lemma Normalize_range: "1 \<le> lo_Page (Normalize op)" "1 \<le> lo_PageSize (Normalize op)" "lo_PageSize (Normalize op) \<le> 100"
  by (simp_all add: Normalize_def Let_def)

lemma list_state_result:
  assumes law: "lists_by_state A" and run: "run_state (list_state C A q op st others count) s = (Inr r, s')"
    and others: "\<And>s ts s'. run_state others s = (ts, s') \<Longrightarrow> \<forall>t \<in> set ts. at_State t \<in> S"
  shows "\<exists>ts extra. tl_Tasks r = map (convertTaskInfo C) (ts @ extra) \<and> length ts \<le> nat (lo_PageSize op) \<and>
    (\<forall>t \<in> set ts. at_State t = st) \<and> (\<forall>t \<in> set extra. at_State t \<in> S)"
proof -
  obtain x s1 where x: "run_state (ListBy A st q (lo_PageSize op) (lo_Page op)) s = (x, s1)" by fastforce
  with run obtain ts where ts: "x = Inr ts" by (cases x) (simp_all add: list_state_def)
  obtain extra s2 where e: "run_state others s1 = (extra, s2)" by fastforce
  have "tl_Tasks r = map (convertTaskInfo C) (ts @ extra)"
    using run x ts e by (auto simp: list_state_def split: prod.splits)
  moreover have "(\<forall>t \<in> set ts. at_State t = st) \<and> length ts \<le> nat (lo_PageSize op)"
    using lists_by_stateD(1) [OF law] x ts by blast
  ultimately show ?thesis using others [OF e] e by blast
qed

lemma ListTasks_other:
  assumes "st \<noteq> TaskStatePending" and "\<nexists>x. st = TaskStateOther x"
  obtains aq count where "convertState aq = st"
    "ListTasks C A q st opts = list_state C A q
       (Normalize (case opts of None \<Rightarrow> DefaultListOptions | Some x \<Rightarrow> x)) aq (State_Monad.return []) count"
  using assms that [of AQ_Scheduled] that [of AQ_Active] that [of AQ_Retry] that [of AQ_Archived] that [of AQ_Completed]
  by (cases st) (simp_all add: ListTasks_def Let_def)

text \<open>
  What ListTasks returns. With a backend that lists by state, every task returned is in the state
  asked for, as the package names states, with its payload out of the envelope; apart from pending,
  where aggregating tasks are added, a result has at most a page of 100 tasks.
\<close>

theorem list_tasks_by_state:
  assumes law: "lists_by_state A" and run: "run_state (ListTasks C A q st opts) s = (Inr r, s')"
  shows "(\<forall>d \<in> set (tl_Tasks r). td_State d = st \<and> (\<exists>t. d = convertTaskInfo C t)) \<and>
    (st \<noteq> TaskStatePending \<longrightarrow> length (tl_Tasks r) \<le> 100)"
proof -
  define op where "op = Normalize (case opts of None \<Rightarrow> DefaultListOptions | Some x \<Rightarrow> x)"
  have page: "nat (lo_PageSize op) \<le> 100" unfolding op_def using Normalize_range(3) nat_mono by fastforce
  show ?thesis
  proof (cases "st = TaskStatePending \<or> (\<exists>x. st = TaskStateOther x)")
    case False
    then obtain aq count where aq: "convertState aq = st"
        "ListTasks C A q st opts = list_state C A q op aq (State_Monad.return []) count"
      using ListTasks_other unfolding op_def by metis
    have "\<exists>ts extra. tl_Tasks r = map (convertTaskInfo C) (ts @ extra) \<and> length ts \<le> nat (lo_PageSize op) \<and>
        (\<forall>t \<in> set ts. at_State t = aq) \<and> (\<forall>t \<in> set extra. at_State t \<in> {})"
      by (rule list_state_result [OF law run [unfolded aq(2)]]) simp
    then obtain ts where "tl_Tasks r = map (convertTaskInfo C) ts" "length ts \<le> nat (lo_PageSize op)"
        "\<forall>t \<in> set ts. at_State t = aq" by auto
    with aq(1) page show ?thesis by (auto simp: convertTaskInfo_def)
  next
    case other: True
    show ?thesis
    proof (cases st)
    case TaskStatePending
    let ?others = "do { groups \<leftarrow> InnerGroups A q; aggregating A q op (ok_or [] groups) }"
    have run': "run_state (list_state C A q op AQ_Pending ?others (\<lambda>i. aq_Pending i + aq_Aggregating i)) s = (Inr r, s')"
      using run TaskStatePending by (simp add: ListTasks_def op_def Let_def)
    have only: "\<forall>t \<in> set ts. at_State t \<in> {AQ_Aggregating}" if "run_state ?others s1 = (ts, s2)" for s1 ts s2
      using that aggregating_state [OF law] by (fastforce split: prod.splits)
    have "\<exists>ts extra. tl_Tasks r = map (convertTaskInfo C) (ts @ extra) \<and> length ts \<le> nat (lo_PageSize op) \<and>
        (\<forall>t \<in> set ts. at_State t = AQ_Pending) \<and> (\<forall>t \<in> set extra. at_State t \<in> {AQ_Aggregating})"
      by (rule list_state_result [OF law run']) (rule only)
    then obtain ts extra
      where "tl_Tasks r = map (convertTaskInfo C) (ts @ extra)" "\<forall>t \<in> set ts. at_State t = AQ_Pending"
        "\<forall>t \<in> set extra. at_State t = AQ_Aggregating" by auto
    with TaskStatePending show ?thesis by (auto simp: convertTaskInfo_def)
  next
    case (TaskStateOther x)
    with run show ?thesis by (auto simp: ListTasks_def Let_def)
  qed (use other in auto)
  qed
qed

section \<open>An in-memory backend\<close>

text \<open>One queue with one group, whose tasks are the state.\<close>

definition page_of :: "int \<Rightarrow> int \<Rightarrow> 'a list \<Rightarrow> 'a list" where
  "page_of n p ts = take (nat n) (drop (nat ((p - 1) * n)) ts)"

definition by_state :: "aq_state \<Rightarrow> aq_task list \<Rightarrow> aq_task list" where
  "by_state st ts = filter (\<lambda>t. at_State t = st) ts"

definition count_state :: "aq_state \<Rightarrow> aq_task list \<Rightarrow> int" where
  "count_state st ts = int (length (by_state st ts))"

definition no_queue :: gerr where
  "no_queue = GErr [asynq_ErrQueueNotFound] ''asynq: queue not found''"

definition no_task :: gerr where
  "no_task = GErr [asynq_ErrTaskNotFound] ''asynq: task not found''"

definition drop_task :: "string \<Rightarrow> string \<Rightarrow> (aq_task list, gerr option) state" where
  "drop_task q i = State (\<lambda>ts.
     if q \<noteq> ''orders'' then (Some no_queue, ts)
     else if i \<notin> at_ID ` set ts then (Some no_task, ts)
     else (None, filter (\<lambda>t. at_ID t \<noteq> i) ts))"

definition drop_state :: "aq_state \<Rightarrow> string \<Rightarrow> (aq_task list, gerr + int) state" where
  "drop_state st q = State (\<lambda>ts.
     if q \<noteq> ''orders'' then (Inl no_queue, ts)
     else (Inr (count_state st ts), filter (\<lambda>t. at_State t \<noteq> st) ts))"

definition sample_inspector :: "aq_task list asynq_inspector" where
  "sample_inspector = \<lparr>
     InnerQueues = State_Monad.return (Inr [''orders'']),
     GetQueueInfo = (\<lambda>q. State (\<lambda>ts. (if q \<noteq> ''orders'' then Inl no_queue
        else Inr \<lparr>aq_Queue = q, aq_Pending = count_state AQ_Pending ts, aq_Scheduled = count_state AQ_Scheduled ts,
          aq_Active = count_state AQ_Active ts, aq_Retry = count_state AQ_Retry ts, aq_Archived = count_state AQ_Archived ts,
          aq_Completed = count_state AQ_Completed ts, aq_Aggregating = count_state AQ_Aggregating ts, aq_Paused = False\<rparr>, ts))),
     InnerServers = State_Monad.return (Inr []),
     InnerClose = State_Monad.return None,
     InnerTaskInfo = (\<lambda>q i. State (\<lambda>ts. (case find (\<lambda>t. at_ID t = i) ts of None \<Rightarrow> Inl no_task | Some t \<Rightarrow> Inr t, ts))),
     ListBy = (\<lambda>st q n p. State (\<lambda>ts. (if q \<noteq> ''orders'' then Inl no_queue else Inr (page_of n p (by_state st ts)), ts))),
     InnerGroups = (\<lambda>q. State_Monad.return (Inr [''batch''])),
     ListAggregatingTasks = (\<lambda>q g n p. State (\<lambda>ts. (Inr (page_of n p (by_state AQ_Aggregating ts)), ts))),
     InnerDelete = drop_task, InnerRun = drop_task, InnerArchive = drop_task,
     CancelProcessing = (\<lambda>i. State_Monad.return None),
     DeleteAllBy = drop_state, DeleteAllAggregatingTasks = (\<lambda>q g. drop_state AQ_Aggregating q),
     RunAllBy = drop_state, ArchiveAllBy = drop_state,
     InnerPause = (\<lambda>q. State_Monad.return None), InnerUnpause = (\<lambda>q. State_Monad.return None),
     InnerDeleteQueue = (\<lambda>q f. State_Monad.return None)\<rparr>"

definition sample_task :: "string \<Rightarrow> aq_state \<Rightarrow> aq_task" where
  "sample_task i st = \<lparr>at_ID = i, at_Queue = ''orders'', at_Type = ''order:pay'', at_Payload = ''{}'', at_State = st,
     at_MaxRetry = 3, at_Retried = 0, at_LastErr = '''', at_NextProcessAt = None, at_CompletedAt = None\<rparr>"

definition sample_tasks :: "aq_task list" where
  "sample_tasks = [sample_task ''1'' AQ_Pending, sample_task ''2'' AQ_Active, sample_task ''3'' AQ_Aggregating]"

lemma sample_lists: "lists_by_state sample_inspector"
  by (auto simp: lists_by_state_def sample_inspector_def page_of_def by_state_def
      dest!: in_set_takeD in_set_dropD split: if_splits)

theorem not_found_errors_hidden_witness:
  "\<exists>e. run_state (run_queue_op text_codec sample_inspector (QDelete ''orders'' ''9'')) sample_tasks = (Some e, sample_tasks)
     \<and> hides_task e"
proof -
  have "run_state (run_queue_op text_codec sample_inspector (QDelete ''orders'' ''9'')) sample_tasks
      = (Some errTaskNotFound, sample_tasks)"
    by code_simp
  from not_found_errors_hidden [OF this] this show ?thesis by auto
qed

text \<open>At a page size of one, two pending tasks come back.\<close>

theorem list_tasks_by_state_witness:
  "\<exists>r s'. run_state (ListTasks text_codec sample_inspector ''orders'' TaskStatePending (Some \<lparr>lo_Page = 1, lo_PageSize = 1\<rparr>))
       sample_tasks = (Inr r, s') \<and>
     length (tl_Tasks r) = 2 \<and> (\<forall>d \<in> set (tl_Tasks r). td_State d = TaskStatePending)"
proof -
  obtain r s' where run: "run_state (ListTasks text_codec sample_inspector ''orders'' TaskStatePending
        (Some \<lparr>lo_Page = 1, lo_PageSize = 1\<rparr>)) sample_tasks = (Inr r, s')"
    and two: "length (tl_Tasks r) = 2"
    by (simp add: ListTasks_def list_state_def sample_inspector_def Normalize_def sample_tasks_def sample_task_def
        page_of_def by_state_def ok_or_def)
  from list_tasks_by_state [OF sample_lists run] run two show ?thesis by blast
qed

end
