(* ===== verification/Demo_Reply.thy ===== *)
theory Demo_Reply
  imports Demo_Calc Queue_Inspector "HOL-Library.Sublist"
begin

text \<open>
  The producer of \<^verbatim>\<open>examples/taskqueue-reply-demo\<close> (\<^verbatim>\<open>cmd/producer/main.go\<close>) together with any number of
  consumers (Demo_Calc) and asynq's queues between them, as steps that interleave in any way. asynq
  delivers what it stored at least once, in any order. Log lines are left out.
\<close>

section \<open>The producer\<close>

record pending_item =
  pi_task :: calc_task
  pi_result :: "calc_result option"

datatype summary_row =
    Answered "double list option" string double string
  | Timed_Out "double list option" string string

text \<open>
  Where the main goroutine stands: before a task, before and after \<^verbatim>\<open>Publish\<close>, waiting (no task left), after the
  wait (were all replies received?), after the summary, gone. A panic of any goroutine ends the program.
\<close>

datatype main_at =
    Main_Send "calc_task list"
  | Main_Publish string string "calc_task list"
  | Main_Check string "gerr + task_info" "calc_task list"
  | Main_Reported bool
  | Main_Summed bool "summary_row list"
  | Main_Exit
  | Main_Panic

text \<open>The map \<^verbatim>\<open>pending\<close>, the counter of \<^verbatim>\<open>wg\<close>, and whether the reply handler is before its \<^verbatim>\<open>wg.Done\<close>.\<close>

type_synonym pending = "(string \<times> pending_item) list"

record 'q reply_demo =
  rd_asynq :: 'q
  rd_main :: main_at
  rd_pending :: pending
  rd_wg :: int
  rd_owing :: bool

text \<open>The part of the reply handler up to the end of its critical section.\<close>

definition reply_handler ::
  "codec \<Rightarrow> number_codec \<Rightarrow> task_ctx \<Rightarrow> task \<Rightarrow> (pending \<times> bool, gerr option) state" where
  "reply_handler C F ctx t = State (\<lambda>(pending, owing).
     case unmarshal_result C F (task_Payload t) of
       None \<Rightarrow> (Some (unmarshal_error F (task_Payload t)), (pending, owing))
     | Some result \<Rightarrow>
         (case map_of pending (cr_TaskID result) of
            Some item \<Rightarrow>
              (None, (AList.update (cr_TaskID result) (item\<lparr>pi_result := Some result\<rparr>) pending, True))
          | None \<Rightarrow> (None, (pending, owing))))"

text \<open>A line of the summary; slicing a shorter id panics.\<close>

definition summary_line :: "pending_item \<Rightarrow> summary_row option" where
  "summary_line item =
     (let t = pi_task item
      in if length (ct_TaskID t) < 8 then None
         else Some (case pi_result item of
           Some r \<Rightarrow> Answered (ct_Operands t) (ct_Operation t) (cr_Result r) (take 8 (ct_TaskID t))
         | None \<Rightarrow> Timed_Out (ct_Operands t) (ct_Operation t) (take 8 (ct_TaskID t))))"

definition demo_tasks :: "calc_task list" where
  "demo_tasks =
     [\<lparr>ct_TaskID = '''', ct_Operation = ''add'', ct_Operands = Some [double_of_int 10, double_of_int 20]\<rparr>,
      \<lparr>ct_TaskID = '''', ct_Operation = ''subtract'', ct_Operands = Some [double_of_int 100, double_of_int 35]\<rparr>,
      \<lparr>ct_TaskID = '''', ct_Operation = ''multiply'', ct_Operands = Some [double_of_int 7, double_of_int 8]\<rparr>]"

section \<open>Around the exchange\<close>

definition redis_addr :: "string \<Rightarrow> string" where
  "redis_addr env = (if env = '''' then ''localhost:6379'' else env)"

text \<open>The configurations of the consumer of replies and of the consumer of tasks.\<close>

definition reply_consumer_config :: consumer_config where
  "reply_consumer_config = \<lparr>cc_Concurrency = 1, cc_Queues = [(CalcResponseQueue, 1)], cc_StrictPriority = False,
     cc_TaskCheckInterval = 0\<rparr>"

definition calc_consumer_config :: consumer_config where
  "calc_consumer_config = \<lparr>cc_Concurrency = 5, cc_Queues = [(CalcRequestQueue, 1)], cc_StrictPriority = False,
     cc_TaskCheckInterval = 0\<rparr>"

fun state_text :: "task_state \<Rightarrow> string" where
  "state_text TaskStatePending = ''pending''"
| "state_text TaskStateScheduled = ''scheduled''"
| "state_text TaskStateActive = ''active''"
| "state_text TaskStateRetry = ''retry''"
| "state_text TaskStateFailed = ''failed''"
| "state_text TaskStateCompleted = ''completed''"
| "state_text (TaskStateOther s) = s"

text \<open>
  What the producer prints about the queues in the end; errors of the first and the last part are only logged.
  Slicing a shorter task id panics.
\<close>

definition stats_line :: "string \<Rightarrow> gerr + queue_stats \<Rightarrow> string" where
  "stats_line q r = (case r of
       Inl e \<Rightarrow> ''  '' @ q @ '': (not found)''
     | Inr st \<Rightarrow> ''  '' @ q @ '': pending='' @ itoa (qs_Pending st) @ '' active='' @ itoa (qs_Active st) @
         '' completed='' @ itoa (qs_Completed st) @ '' failed='' @ itoa (qs_Failed st))"

definition completed_line :: "task_detail \<Rightarrow> string option" where
  "completed_line t =
     (if length (td_ID t) < 8 then None
      else Some (''  id='' @ take 8 (td_ID t) @ '' type='' @ td_Type t @ '' state='' @ state_text (td_State t)))"

definition inspection :: "codec \<Rightarrow> 's asynq_inspector \<Rightarrow> int \<Rightarrow> ('s, string list option) state" where
  "inspection C A now = do {
     qs \<leftarrow> Queues A;
     req \<leftarrow> GetQueueStats A now CalcRequestQueue;
     resp \<leftarrow> GetQueueStats A now CalcResponseQueue;
     ts \<leftarrow> ListTasks C A CalcRequestQueue TaskStateCompleted None;
     State_Monad.return (case those (case ts of Inl e \<Rightarrow> [] | Inr l \<Rightarrow>
           Some (''  Total completed: '' @ itoa (tl_Total l)) # map completed_line (tl_Tasks l)) of
         None \<Rightarrow> None
       | Some completed \<Rightarrow> Some (
           ['''', ''=== Inspector: Queues ===''] @ (case qs of Inl e \<Rightarrow> [] | Inr l \<Rightarrow> map ((@) ''  '') l) @
           ['''', ''=== Inspector: Queue Stats ==='', stats_line CalcRequestQueue req, stats_line CalcResponseQueue resp] @
           ['''', ''=== Inspector: Completed Tasks ==='']  @ completed))
   }"

section \<open>The system\<close>

text \<open>A message: type, queue, payload. \<open>re_stored\<close> lists what asynq has stored so far.\<close>

type_synonym message = "string \<times> string \<times> string option"

record 'q reply_env =
  re_codec :: codec
  re_numbers :: number_codec
  re_client :: "'q asynq_client"
  re_stored :: "'q \<Rightarrow> message list"
  re_instance :: string

datatype reply_act =
    Send string | Enqueue | Check | Notice | Timeout | Summarise | Quit
  | Deliver string "string option" string | Done
  | Serve string "string option" string

definition bytes_of :: "string option \<Rightarrow> string" where
  "bytes_of p = (case p of None \<Rightarrow> '''' | Some b \<Rightarrow> b)"

definition done_wg :: "main_at \<Rightarrow> 'q reply_demo \<Rightarrow> 'q reply_demo" where
  "done_wg m s = s\<lparr>rd_wg := rd_wg s - 1, rd_main := (if rd_wg s - 1 < 0 then Main_Panic else m)\<rparr>"

text \<open>
  \<open>Send\<close>: one iteration of the loop up to \<^verbatim>\<open>Publish\<close>, with the id \<^verbatim>\<open>uuid.New\<close> returned. \<open>Enqueue\<close> is the call,
  \<open>Check\<close> what follows it. \<open>Notice\<close> and \<open>Timeout\<close> are the cases of the \<^verbatim>\<open>select\<close>. \<open>Deliver\<close>: asynq calls the
  function registered for replies (one at a time: \<^verbatim>\<open>Concurrency\<close> is 1), \<open>Done\<close> is its end. \<open>Serve\<close>: asynq
  calls the function a consumer registered for tasks. A registered pattern matches the types it is a prefix of.
\<close>

fun reply_step :: "'q reply_env \<Rightarrow> reply_act \<Rightarrow> 'q reply_demo \<Rightarrow> 'q reply_demo option" where
  "reply_step E (Send u) s =
     (case rd_main s of
        Main_Send (ct # cts) \<Rightarrow>
          let ct = ct\<lparr>ct_TaskID := u\<rparr>
          in Some (case marshal_task (re_codec E) (re_numbers E) ct of
               None \<Rightarrow> s\<lparr>rd_main := Main_Exit\<rparr>
             | Some payload \<Rightarrow>
                 s\<lparr>rd_wg := rd_wg s + 1,
                   rd_pending := AList.update u \<lparr>pi_task = ct, pi_result = None\<rparr> (rd_pending s),
                   rd_main := Main_Publish u payload cts\<rparr>)
      | _ \<Rightarrow> None)"
| "reply_step E Enqueue s =
     (case rd_main s of
        Main_Publish u payload cts \<Rightarrow>
          (case run_state (Publish (re_codec E) (re_client E) no_ctx (request_task payload)) (rd_asynq s) of
             (r, q) \<Rightarrow> Some (s\<lparr>rd_asynq := q, rd_main := Main_Check u r cts\<rparr>))
      | _ \<Rightarrow> None)"
| "reply_step E Check s =
     (case rd_main s of
        Main_Check u (Inr info) cts \<Rightarrow> Some (s\<lparr>rd_main := Main_Send cts\<rparr>)
      | Main_Check u (Inl e) cts \<Rightarrow> Some (done_wg Main_Exit (s\<lparr>rd_pending := AList.delete u (rd_pending s)\<rparr>))
      | _ \<Rightarrow> None)"
| "reply_step E Notice s =
     (if rd_main s = Main_Send [] \<and> rd_wg s = 0 then Some (s\<lparr>rd_main := Main_Reported True\<rparr>) else None)"
| "reply_step E Timeout s =
     (if rd_main s = Main_Send [] then Some (s\<lparr>rd_main := Main_Reported False\<rparr>) else None)"
| "reply_step E Summarise s =
     (case rd_main s of
        Main_Reported all \<Rightarrow>
          Some (s\<lparr>rd_main := (case those (map (\<lambda>(u, item). summary_line item) (rd_pending s)) of
             None \<Rightarrow> Main_Panic | Some rows \<Rightarrow> Main_Summed all rows)\<rparr>)
      | _ \<Rightarrow> None)"
| "reply_step E Quit s =
     (case rd_main s of Main_Summed all rows \<Rightarrow> Some (s\<lparr>rd_main := Main_Exit\<rparr>) | _ \<Rightarrow> None)"
| "reply_step E (Deliver typ p seed) s =
     (if rd_main s \<notin> {Main_Exit, Main_Panic} \<and> \<not> rd_owing s \<and> prefix TaskTypeCalcReply typ \<and>
         (typ, CalcResponseQueue, p) \<in> set (re_stored E (rd_asynq s))
      then case run_state (Handle (re_codec E) (re_instance E) (reply_handler (re_codec E) (re_numbers E)) no_ctx
               typ CalcResponseQueue (bytes_of p) seed) (rd_pending s, False) of
             (e, (pending, owing)) \<Rightarrow> Some (s\<lparr>rd_pending := pending, rd_owing := owing\<rparr>)
      else None)"
| "reply_step E Done s =
     (if rd_main s \<notin> {Main_Exit, Main_Panic} \<and> rd_owing s
      then Some (done_wg (rd_main s) (s\<lparr>rd_owing := False\<rparr>)) else None)"
| "reply_step E (Serve typ p seed) s =
     (if prefix TaskTypeCalc typ \<and> (typ, CalcRequestQueue, p) \<in> set (re_stored E (rd_asynq s))
      then case run_state (Handle (re_codec E) (re_instance E)
               (calc_handler (re_codec E) (re_numbers E) (re_client E)) no_ctx
               typ CalcRequestQueue (bytes_of p) seed) (rd_asynq s) of
             (e, q) \<Rightarrow> Some (s\<lparr>rd_asynq := q\<rparr>)
      else None)"

fun reply_run :: "'q reply_env \<Rightarrow> reply_act list \<Rightarrow> 'q reply_demo \<Rightarrow> 'q reply_demo option" where
  "reply_run E [] s = Some s"
| "reply_run E (a # as) s = Option.bind (reply_step E a s) (reply_run E as)"

definition reply_start :: "calc_task list \<Rightarrow> 'q \<Rightarrow> 'q reply_demo" where
  "reply_start tasks q =
     \<lparr>rd_asynq = q, rd_main = Main_Send tasks, rd_pending = [], rd_wg = 0, rd_owing = False\<rparr>"

lemma reply_run_append: "reply_run E (as @ bs) s = Option.bind (reply_run E as s) (reply_run E bs)"
  by (induction as arbitrary: s) (auto split: bind_splits)

section \<open>What the queues hold\<close>

text \<open>\<^verbatim>\<open>EnqueueContext\<close> stores the task it is given, or not; nothing else.\<close>

definition enqueues_only :: "'q asynq_client \<Rightarrow> ('q \<Rightarrow> message list) \<Rightarrow> bool" where
  "enqueues_only A stored \<longleftrightarrow> (\<forall>typ p queue s.
     set (stored (snd (run_state (EnqueueContext A typ p queue) s)))
       \<subseteq> insert (typ, (case queue of None \<Rightarrow> ''default'' | Some q \<Rightarrow> q), p) (set (stored s)))"

definition env_ok :: "'q reply_env \<Rightarrow> bool" where
  "env_ok E \<longleftrightarrow> numbers_ok (re_codec E) (re_numbers E) \<and> enqueues_only (re_client E) (re_stored E)"

text \<open>The id a message of the response queue carries for the reply handler.\<close>

definition reply_id :: "'q reply_env \<Rightarrow> string option \<Rightarrow> string option" where
  "reply_id E p = map_option cr_TaskID
     (unmarshal_result (re_codec E) (re_numbers E) (fst (unwrapEnvelope (re_codec E) (bytes_of p))))"

text \<open>Left over from earlier runs: replies to other ids, no tasks.\<close>

definition left_over :: "'q reply_env \<Rightarrow> string set \<Rightarrow> message list \<Rightarrow> bool" where
  "left_over E ids ms \<longleftrightarrow> (\<forall>(typ, queue, p) \<in> set ms. queue \<noteq> CalcRequestQueue \<and>
     (queue = CalcResponseQueue \<longrightarrow> reply_id E p \<notin> Some ` ids))"

fun sent_ids :: "reply_act list \<Rightarrow> string list" where
  "sent_ids [] = []"
| "sent_ids (Send u # as) = u # sent_ids as"
| "sent_ids (_ # as) = sent_ids as"

fun replies_delivered :: "reply_act list \<Rightarrow> string option list" where
  "replies_delivered [] = []"
| "replies_delivered (Deliver typ p seed # as) = p # replies_delivered as"
| "replies_delivered (_ # as) = replies_delivered as"

lemma acts_append:
  "sent_ids (as @ bs) = sent_ids as @ sent_ids bs" "replies_delivered (as @ bs) = replies_delivered as @ replies_delivered bs"
  by (induction as rule: sent_ids.induct; simp) (induction as rule: replies_delivered.induct; simp)

section \<open>Every result is the one of its task\<close>

definition sent_fine :: "calc_task list \<Rightarrow> string set \<Rightarrow> (string \<rightharpoonup> calc_task) \<Rightarrow> bool" where
  "sent_fine tasks ids sent \<longleftrightarrow> (\<forall>u t. sent u = Some t \<longrightarrow> u \<in> ids \<and> task_fine t \<and>
     (\<exists>t0 \<in> set tasks. t = t0\<lparr>ct_TaskID := u\<rparr>))"

definition request_of :: "'q reply_env \<Rightarrow> calc_task \<Rightarrow> string option \<Rightarrow> bool" where
  "request_of E t p \<longleftrightarrow> (\<exists>b. marshal_task (re_codec E) (re_numbers E) t = Some b \<and> p = request_bytes (re_codec E) b)"

definition reply_of :: "'q reply_env \<Rightarrow> calc_task \<Rightarrow> string option \<Rightarrow> bool" where
  "reply_of E t p \<longleftrightarrow> p \<noteq> None \<and> marshal_result (re_codec E) (re_numbers E) (calculate t) = p"

definition messages_ok :: "'q reply_env \<Rightarrow> string set \<Rightarrow> (string \<rightharpoonup> calc_task) \<Rightarrow> message list \<Rightarrow> bool" where
  "messages_ok E ids sent ms \<longleftrightarrow> (\<forall>(typ, queue, p) \<in> set ms.
     (queue = CalcRequestQueue \<longrightarrow> (\<exists>t \<in> ran sent. request_of E t p)) \<and>
     (queue = CalcResponseQueue \<longrightarrow> reply_id E p \<notin> Some ` ids \<or> (\<exists>t \<in> ran sent. reply_of E t p)))"

definition pending_ok :: "(string \<rightharpoonup> calc_task) \<Rightarrow> pending \<Rightarrow> bool" where
  "pending_ok sent pending \<longleftrightarrow> distinct (map fst pending) \<and> (\<forall>u item. map_of pending u = Some item \<longrightarrow>
     sent u = Some (pi_task item) \<and> (\<forall>r. pi_result item = Some r \<longrightarrow> r = calculate (pi_task item)))"

fun row_ok :: "calc_task list \<Rightarrow> summary_row \<Rightarrow> bool" where
  "row_ok tasks (Answered xs operation x i) \<longleftrightarrow> (\<exists>t \<in> set tasks. ct_Operands t = xs \<and>
     ct_Operation t = operation \<and> cr_Result (calculate t) = x)"
| "row_ok tasks (Timed_Out xs operation i) \<longleftrightarrow> (\<exists>t \<in> set tasks. ct_Operands t = xs \<and> ct_Operation t = operation)"

fun main_ok :: "'q reply_env \<Rightarrow> calc_task list \<Rightarrow> (string \<rightharpoonup> calc_task) \<Rightarrow> main_at \<Rightarrow> bool" where
  "main_ok E tasks sent (Main_Send ts) \<longleftrightarrow> set ts \<subseteq> set tasks"
| "main_ok E tasks sent (Main_Publish u p ts) \<longleftrightarrow> set ts \<subseteq> set tasks \<and>
     (\<exists>t. sent u = Some t \<and> marshal_task (re_codec E) (re_numbers E) t = Some p)"
| "main_ok E tasks sent (Main_Check u r ts) \<longleftrightarrow> set ts \<subseteq> set tasks"
| "main_ok E tasks sent (Main_Summed b rows) \<longleftrightarrow> (\<forall>row \<in> set rows. row_ok tasks row)"
| "main_ok E tasks sent _ \<longleftrightarrow> True"

definition correlated ::
  "'q reply_env \<Rightarrow> calc_task list \<Rightarrow> string set \<Rightarrow> (string \<rightharpoonup> calc_task) \<Rightarrow> 'q reply_demo \<Rightarrow> bool" where
  "correlated E tasks ids sent s \<longleftrightarrow> sent_fine tasks ids sent \<and>
     messages_ok E ids sent (re_stored E (rd_asynq s)) \<and> pending_ok sent (rd_pending s) \<and>
     main_ok E tasks sent (rd_main s)"

lemmas correlated_defs = correlated_def sent_fine_def pending_ok_def

text \<open>What the registered functions do.\<close>

lemma enqueued:
  assumes "enqueues_only A stored"
  shows "set (stored (snd (run_state (enqueue A t p) s)))
    \<subseteq> insert (task_Type t, (if task_Queue t = '''' then ''default'' else task_Queue t), p) (set (stored s))"
  using assms [unfolded enqueues_only_def, rule_format,
      of "task_Type t" p "if task_Queue t \<noteq> '''' then Some (task_Queue t) else None" s]
  by (auto simp: enqueue_def State_Monad.bind_def State_Monad.return_def split: prod.splits if_splits)

lemma served:
  assumes E: "env_ok E" and t: "task_fine t" and p: "request_of E t p"
  shows "set (re_stored E (snd (run_state (Handle (re_codec E) i
      (calc_handler (re_codec E) (re_numbers E) (re_client E)) no_ctx typ q (bytes_of p) seed) s)))
    \<subseteq> {m. \<exists>d. m = (TaskTypeCalcReply, CalcResponseQueue, d) \<and> reply_of E t d} \<union> set (re_stored E s)"
proof -
  from p obtain b where b: "marshal_task (re_codec E) (re_numbers E) t = Some b" "p = request_bytes (re_codec E) b"
    by (auto simp: request_of_def)
  have C: "numbers_ok (re_codec E) (re_numbers E)" and A: "enqueues_only (re_client E) (re_stored E)"
    using E by (simp_all add: env_ok_def)
  from request_handled [OF C t b(1)] obtain data where d: "request_bytes (re_codec E) b = Some data"
    and h: "Handle (re_codec E) i (calc_handler (re_codec E) (re_numbers E) (re_client E)) no_ctx typ q data seed =
      (case marshal_result (re_codec E) (re_numbers E) (calculate t) of
         None \<Rightarrow> State_Monad.return (Some (marshal_error (re_numbers E) [cr_Result (calculate t)]))
       | Some r \<Rightarrow> do {
           x \<leftarrow> enqueue (re_client E) (reply_task CalcResponseQueue r) (Some r);
           State_Monad.return (case x of Inl e \<Rightarrow> Some e | Inr _ \<Rightarrow> None)
         })" by blast
  show ?thesis
  proof (cases "marshal_result (re_codec E) (re_numbers E) (calculate t)")
    case None
    then show ?thesis by (auto simp: b(2) d bytes_of_def h State_Monad.return_def)
  next
    case (Some r)
    have "set (re_stored E (snd (run_state (enqueue (re_client E) (reply_task CalcResponseQueue r) (Some r)) s)))
        \<subseteq> insert (TaskTypeCalcReply, CalcResponseQueue, Some r) (set (re_stored E s))"
      using enqueued [OF A, of "reply_task CalcResponseQueue r" "Some r" s] by (simp add: reply_task_def)
    with Some show ?thesis
      by (auto simp: b(2) d bytes_of_def h reply_of_def State_Monad.bind_def State_Monad.return_def split: prod.splits)
  qed
qed

lemma reply_read:
  assumes "env_ok E" and "task_fine t" and "reply_of E t p"
  shows "unwrapEnvelope (re_codec E) (bytes_of p) = (p, None, None, [])"
    "unmarshal_result (re_codec E) (re_numbers E) p = Some (calculate t)"
    "reply_id E p = Some (ct_TaskID t)"
  using assms result_roundtrip [of "re_codec E" "re_numbers E" t] calculate_fine(1) [of t]
  by (auto simp: env_ok_def reply_of_def bytes_of_def reply_id_def)

definition deliver :: "'q reply_env \<Rightarrow> string \<Rightarrow> string option \<Rightarrow> string \<Rightarrow> pending \<Rightarrow> pending \<times> bool" where
  "deliver E typ p seed pending =
     snd (run_state (Handle (re_codec E) (re_instance E) (reply_handler (re_codec E) (re_numbers E)) no_ctx
       typ CalcResponseQueue (bytes_of p) seed) (pending, False))"

lemma deliver_simp:
  "deliver E typ p seed pending =
     (case unmarshal_result (re_codec E) (re_numbers E) (fst (unwrapEnvelope (re_codec E) (bytes_of p))) of
        None \<Rightarrow> (pending, False)
      | Some r \<Rightarrow>
          (case map_of pending (cr_TaskID r) of
             None \<Rightarrow> (pending, False)
           | Some item \<Rightarrow> (AList.update (cr_TaskID r) (item\<lparr>pi_result := Some r\<rparr>) pending, True)))"
  by (simp add: deliver_def Handle_def reply_handler_def split: prod.splits option.splits)

lemma deliver_foreign:
  "reply_id E p \<notin> Some ` ids \<Longrightarrow> fst ` set pending \<subseteq> ids \<Longrightarrow> deliver E typ p seed pending = (pending, False)"
proof -
  assume p: "reply_id E p \<notin> Some ` ids" and k: "fst ` set pending \<subseteq> ids"
  show "deliver E typ p seed pending = (pending, False)"
  proof (cases "unmarshal_result (re_codec E) (re_numbers E) (fst (unwrapEnvelope (re_codec E) (bytes_of p)))")
    case (Some r)
    with p k have "cr_TaskID r \<notin> fst ` set pending" by (auto simp: reply_id_def)
    then have "map_of pending (cr_TaskID r) = None" by (simp add: map_of_eq_None_iff)
    with Some show ?thesis by (simp add: deliver_simp)
  qed (simp add: deliver_simp)
qed

lemma deliver_reply:
  assumes "env_ok E" and "task_fine t" and "reply_of E t p"
  shows "deliver E typ p seed pending =
    (case map_of pending (ct_TaskID t) of
       None \<Rightarrow> (pending, False)
     | Some item \<Rightarrow> (AList.update (ct_TaskID t) (item\<lparr>pi_result := Some (calculate t)\<rparr>) pending, True))"
  using reply_read [OF assms] calculate_fine(1) [OF assms(2)] by (simp add: deliver_simp split: option.split)

lemma sent_fineD:
  assumes "sent_fine tasks ids sent" and "sent u = Some t"
  shows "u \<in> ids" "task_fine t" "ct_TaskID t = u" "\<exists>t0 \<in> set tasks. t = t0\<lparr>ct_TaskID := u\<rparr>"
  using assms unfolding sent_fine_def by fastforce+

lemma pending_okD:
  assumes "pending_ok sent pending" and "map_of pending u = Some item"
  shows "sent u = Some (pi_task item)" "pi_result item = Some r \<Longrightarrow> r = calculate (pi_task item)"
  using assms unfolding pending_ok_def by blast+

lemma pending_ok_update:
  assumes "pending_ok sent pending" and "sent u = Some (pi_task item)"
    and "\<And>r. pi_result item = Some r \<Longrightarrow> r = calculate (pi_task item)"
  shows "pending_ok sent (AList.update u item pending)"
  unfolding pending_ok_def
proof (intro conjI allI impI)
  show "distinct (map fst (AList.update u item pending))" using assms(1) by (simp add: pending_ok_def distinct_update)
  fix v i r assume "map_of (AList.update u item pending) v = Some i"
  then have i: "v = u \<and> i = item \<or> map_of pending v = Some i" by (auto simp: update_conv' split: if_splits)
  then show "sent v = Some (pi_task i)" using assms pending_okD(1) by blast
  assume "pi_result i = Some r"
  with i show "r = calculate (pi_task i)" using assms pending_okD(2) by blast
qed

lemma pending_keys: "sent_fine tasks ids sent \<Longrightarrow> pending_ok sent pending \<Longrightarrow> fst ` set pending \<subseteq> ids"
proof
  fix u assume s: "sent_fine tasks ids sent" and p: "pending_ok sent pending" and "u \<in> fst ` set pending"
  then obtain item where "map_of pending u = Some item"
    by (cases "map_of pending u") (auto simp: map_of_eq_None_iff)
  then show "u \<in> ids" using sent_fineD(1) [OF s] pending_okD(1) [OF p] by blast
qed

text \<open>A delivery keeps the results right.\<close>

lemma delivered_ok:
  assumes E: "env_ok E" and sent: "sent_fine tasks ids sent" and m: "messages_ok E ids sent ms"
    and p: "(typ, CalcResponseQueue, p) \<in> set ms" and ok: "pending_ok sent pending"
  shows "pending_ok sent (fst (deliver E typ p seed pending))"
proof -
  consider "reply_id E p \<notin> Some ` ids" | t where "t \<in> ran sent" "reply_of E t p"
    using m p by (fastforce simp: messages_ok_def)
  then show ?thesis
  proof cases
    case 1
    then show ?thesis using deliver_foreign [OF 1 pending_keys [OF sent ok]] ok by simp
  next
    case 2
    then obtain u where u: "sent u = Some t" by (auto simp: ran_def)
    note t = sent_fineD(2,3) [OF sent u]
    show ?thesis
    proof (cases "map_of pending u")
      case (Some item)
      with u have "pi_task item = t" using pending_okD(1) [OF ok Some] by simp
      with u Some show ?thesis
        by (simp add: deliver_reply [OF E t(1) 2(2)] t(2) del: map_of_eq_Some_iff) (rule pending_ok_update [OF ok], simp_all)
    qed (simp add: deliver_reply [OF E t(1) 2(2)] t(2) ok)
  qed
qed

lemma those_some: "those (map f xs) = Some ys \<Longrightarrow> y \<in> set ys \<Longrightarrow> \<exists>x \<in> set xs. f x = Some y"
  by (induction xs arbitrary: ys) (auto split: option.splits)

lemma rows_right:
  assumes sent: "sent_fine tasks ids sent" and ok: "pending_ok sent pending"
    and rows: "those (map (\<lambda>(u, item). summary_line item) pending) = Some rows" and row: "row \<in> set rows"
  shows "row_ok tasks row"
proof -
  from those_some [OF rows row] obtain u item
    where i: "(u, item) \<in> set pending" "summary_line item = Some row" by auto
  then have "map_of pending u = Some item" using ok by (simp add: pending_ok_def)
  note i' = pending_okD [OF ok this]
  from sent_fineD(4) [OF sent i'(1)] obtain t where t: "t \<in> set tasks" "pi_task item = t\<lparr>ct_TaskID := u\<rparr>" by blast
  have "cr_Result (calculate (t\<lparr>ct_TaskID := u\<rparr>)) = cr_Result (calculate t)"
    by (auto simp: calculate_def Let_def split: option.splits list.splits)
  with t i'(2) i(2) show ?thesis
    by (auto simp: summary_line_def Let_def split: option.splits if_splits)
qed

text \<open>A step keeps the system correlated; only \<open>Send\<close> extends what was sent.\<close>

lemma more_sent:
  assumes "sent u = None"
  shows "messages_ok E ids sent ms \<Longrightarrow> messages_ok E ids (sent(u \<mapsto> t)) ms"
    "pending_ok sent pending \<Longrightarrow> pending_ok (sent(u \<mapsto> t)) pending"
proof -
  have "ran (sent(u \<mapsto> t)) = insert t (ran sent)" using assms by (rule ran_map_upd)
  then show "messages_ok E ids sent ms \<Longrightarrow> messages_ok E ids (sent(u \<mapsto> t)) ms"
    by (fastforce simp: messages_ok_def)
  show "pending_ok sent pending \<Longrightarrow> pending_ok (sent(u \<mapsto> t)) pending"
    using assms by (auto simp: pending_ok_def simp del: map_of_eq_Some_iff)
qed

lemma correlated_send:
  assumes c: "correlated E tasks ids sent s" and step: "reply_step E (Send u) s = Some s'"
    and tasks: "\<And>t. t \<in> set tasks \<Longrightarrow> task_fine t" and u: "u \<in> ids" "ascii u" "sent u = None"
  shows "\<exists>t. correlated E tasks ids (sent(u \<mapsto> t)) s'"
proof -
  from step obtain ct cts where m: "rd_main s = Main_Send (ct # cts)"
    by (auto split: main_at.splits list.splits)
  define t where "t = ct\<lparr>ct_TaskID := u\<rparr>"
  from c have parts: "sent_fine tasks ids sent" "messages_ok E ids sent (re_stored E (rd_asynq s))"
      "pending_ok sent (rd_pending s)" "ct \<in> set tasks" "set cts \<subseteq> set tasks"
    by (simp_all add: correlated_def m)
  have t: "task_fine t" using tasks [OF parts(4)] u(2) by (simp add: t_def task_fine_def)
  have "sent_fine tasks ids (sent(u \<mapsto> t))"
    using parts(1,4) t u(1) by (auto simp: sent_fine_def t_def)
  moreover note more_sent(1) [OF u(3) parts(2), of t]
  moreover have "pending_ok (sent(u \<mapsto> t)) (AList.update u \<lparr>pi_task = t, pi_result = None\<rparr> (rd_pending s))"
    using more_sent(2) [OF u(3) parts(3), of t] by (rule pending_ok_update) simp_all
  ultimately have "correlated E tasks ids (sent(u \<mapsto> t)) s'"
    using step parts(5) more_sent(2) [OF u(3) parts(3), of t]
    by (auto simp: correlated_def m Let_def simp flip: t_def split: option.splits)
  then show ?thesis ..
qed

lemma correlated_enqueue:
  assumes E: "env_ok E" and c: "correlated E tasks ids sent s" and step: "reply_step E Enqueue s = Some s'"
  shows "correlated E tasks ids sent s'"
proof -
  from step obtain u p ts where m: "rd_main s = Main_Publish u p ts"
    by (auto split: main_at.splits)
  with c obtain t where t: "sent u = Some t" "marshal_task (re_codec E) (re_numbers E) t = Some p"
    by (auto simp: correlated_def)
  have A: "enqueues_only (re_client E) (re_stored E)" using E by (simp add: env_ok_def)
  obtain r q where run: "run_state (enqueue (re_client E) (request_task p) (request_bytes (re_codec E) p)) (rd_asynq s) = (r, q)"
    by fastforce
  have s': "s' = s\<lparr>rd_asynq := q, rd_main := Main_Check u r ts\<rparr>"
    using step by (simp add: m publish_request run)
  have "set (re_stored E q) \<subseteq>
      insert (TaskTypeCalc, CalcRequestQueue, request_bytes (re_codec E) p) (set (re_stored E (rd_asynq s)))"
    using enqueued [OF A, of "request_task p" "request_bytes (re_codec E) p" "rd_asynq s"]
    by (simp add: run)
  moreover have "\<exists>t \<in> ran sent. request_of E t (request_bytes (re_codec E) p)"
    using t by (auto simp: request_of_def ran_def)
  moreover note queues_named
  ultimately have "messages_ok E ids sent (re_stored E q)"
    using c unfolding correlated_def messages_ok_def by fast
  with c show ?thesis by (simp add: correlated_def s' m)
qed

lemma correlated_serve:
  assumes E: "env_ok E" and c: "correlated E tasks ids sent s" and step: "reply_step E (Serve typ p seed) s = Some s'"
  shows "correlated E tasks ids sent s'"
proof -
  from step have m: "(typ, CalcRequestQueue, p) \<in> set (re_stored E (rd_asynq s))"
    by (auto split: if_splits)
  with c obtain t where t: "t \<in> ran sent" "request_of E t p" unfolding correlated_def messages_ok_def by blast
  then obtain u where "sent u = Some t" by (auto simp: ran_def)
  with c have fine: "task_fine t" using sent_fineD(2) unfolding correlated_def by blast
  obtain e q where run: "run_state (Handle (re_codec E) (re_instance E)
      (calc_handler (re_codec E) (re_numbers E) (re_client E)) no_ctx typ CalcRequestQueue (bytes_of p) seed) (rd_asynq s) = (e, q)"
    by fastforce
  have s': "s' = s\<lparr>rd_asynq := q\<rparr>" using step by (simp add: run split: if_splits)
  have "set (re_stored E q) \<subseteq> {m. \<exists>d. m = (TaskTypeCalcReply, CalcResponseQueue, d) \<and> reply_of E t d} \<union>
      set (re_stored E (rd_asynq s))"
    using served [OF E fine t(2), of "re_instance E" "typ" CalcRequestQueue seed "rd_asynq s"] by (simp add: run)
  moreover note queues_named
  ultimately have "messages_ok E ids sent (re_stored E q)"
    using c t(1) unfolding correlated_def messages_ok_def by fast
  with c show ?thesis by (simp add: correlated_def s')
qed

lemma correlated_deliver:
  assumes E: "env_ok E" and c: "correlated E tasks ids sent s" and step: "reply_step E (Deliver typ p seed) s = Some s'"
  shows "correlated E tasks ids sent s'"
proof -
  from step have m: "(typ, CalcResponseQueue, p) \<in> set (re_stored E (rd_asynq s))"
    and s': "s' = s\<lparr>rd_pending := fst (deliver E typ p seed (rd_pending s)), rd_owing := snd (deliver E typ p seed (rd_pending s))\<rparr>"
    by (auto simp: deliver_def split: if_splits prod.splits)
  from c m have "pending_ok sent (fst (deliver E typ p seed (rd_pending s)))"
    unfolding correlated_def by (intro delivered_ok [OF E]) auto
  with c show ?thesis by (simp add: correlated_def s')
qed

lemma pending_ok_delete: "pending_ok sent pending \<Longrightarrow> pending_ok sent (AList.delete u pending)"
  by (auto simp: pending_ok_def distinct_delete delete_conv' simp del: map_of_eq_Some_iff)

lemma correlated_others:
  assumes c: "correlated E tasks ids sent s" and step: "reply_step E a s = Some s'"
    and a: "a \<in> {Check, Notice, Timeout, Summarise, Quit, Done}"
  shows "correlated E tasks ids sent s'"
proof -
  from c have parts: "sent_fine tasks ids sent" "messages_ok E ids sent (re_stored E (rd_asynq s))"
      "pending_ok sent (rd_pending s)" "main_ok E tasks sent (rd_main s)"
    by (simp_all add: correlated_def)
  note rows = rows_right [OF parts(1,3)]
  from a step parts rows show ?thesis
    by (auto simp: correlated_def done_wg_def pending_ok_delete split: main_at.splits sum.splits if_splits option.splits)
qed

lemma correlated_step:
  assumes "env_ok E" and "correlated E tasks ids sent s" and "reply_step E a s = Some s'"
    and "\<And>t. t \<in> set tasks \<Longrightarrow> task_fine t"
    and "\<And>u. a = Send u \<Longrightarrow> u \<in> ids \<and> ascii u \<and> sent u = None"
  shows "\<exists>sent'. correlated E tasks ids sent' s' \<and> dom sent' \<subseteq> dom sent \<union> set (sent_ids [a])"
proof (cases "\<exists>u. a = Send u")
  case True
  then obtain u where a: "a = Send u" ..
  from correlated_send [OF assms(2) assms(3) [unfolded a] assms(4)] assms(5) [OF a]
  obtain t where "correlated E tasks ids (sent(u \<mapsto> t)) s'" by metis
  with a show ?thesis by (intro exI [of _ "sent(u \<mapsto> t)"]) auto
next
  case False
  then consider "a = Enqueue" | k p seed where "a = Serve k p seed" | k p seed where "a = Deliver k p seed"
    | "a \<in> {Check, Notice, Timeout, Summarise, Quit, Done}" by (cases a) auto
  then have "correlated E tasks ids sent s'"
    using assms(3) correlated_enqueue [OF assms(1,2)] correlated_serve [OF assms(1,2)]
      correlated_deliver [OF assms(1,2)] correlated_others [OF assms(2)]
    by cases blast+
  then show ?thesis by blast
qed

lemma correlated_run:
  assumes "env_ok E" and "\<And>t. t \<in> set tasks \<Longrightarrow> task_fine t" and "left_over E ids (re_stored E q)"
    and "distinct (sent_ids as)" and "set (sent_ids as) \<subseteq> ids" and "\<And>u. u \<in> ids \<Longrightarrow> ascii u"
    and "reply_run E as (reply_start tasks q) = Some s"
  shows "\<exists>sent. correlated E tasks ids sent s \<and> dom sent \<subseteq> set (sent_ids as)"
  using assms(4,5,7)
proof (induction as arbitrary: s rule: rev_induct)
  case Nil
  have "messages_ok E ids Map.empty (re_stored E q)"
    using assms(3) unfolding messages_ok_def left_over_def by fast
  with Nil show ?case
    by (intro exI [of _ Map.empty]) (auto simp: reply_start_def correlated_defs)
next
  case (snoc a as)
  from snoc.prems(3) obtain s1 where s1: "reply_run E as (reply_start tasks q) = Some s1" "reply_step E a s1 = Some s"
    by (auto simp: reply_run_append split: bind_splits)
  have d: "distinct (sent_ids as)" "set (sent_ids as) \<subseteq> ids" using snoc.prems by (auto simp: acts_append)
  from snoc.IH [OF d s1(1)] obtain sent where c: "correlated E tasks ids sent s1" "dom sent \<subseteq> set (sent_ids as)" by blast
  have "u \<in> ids \<and> ascii u \<and> sent u = None" if "a = Send u" for u
    using snoc.prems(1,2) c(2) assms(6) that by (auto simp: acts_append)
  from correlated_step [OF assms(1) c(1) s1(2) assms(2) this] c(2) show ?case
    by (fastforce simp: acts_append)
qed

text \<open>
  C28. Every reply is matched with its own task. However the producer's steps, the deliveries of asynq and any
  number of consumers interleave, and however often and in whatever order tasks and replies are delivered: a
  result recorded for an id is the calculation of the task sent under that id, and every row of the summary
  shows operands and operation of one of the tasks with the result of that calculation.
\<close>

theorem replies_correlated:
  assumes "env_ok E" and "list_all task_fine tasks"
    and "distinct (sent_ids acts)" and "list_all ascii (sent_ids acts)"
    and "left_over E (set (sent_ids acts)) (re_stored E q)"
    and "reply_run E acts (reply_start tasks q) = Some s"
  shows "(\<forall>u item. map_of (rd_pending s) u = Some item \<longrightarrow>
      (\<exists>t \<in> set tasks. pi_task item = t\<lparr>ct_TaskID := u\<rparr>) \<and>
      (\<forall>r. pi_result item = Some r \<longrightarrow> r = calculate (pi_task item))) \<and>
    (\<forall>all rows. rd_main s = Main_Summed all rows \<longrightarrow> list_all (row_ok tasks) rows)"
proof -
  have fine: "\<And>t. t \<in> set tasks \<Longrightarrow> task_fine t" "\<And>u. u \<in> set (sent_ids acts) \<Longrightarrow> ascii u"
    using assms(2,4) by (simp_all add: list_all_iff)
  from correlated_run [OF assms(1) fine(1) assms(5,3) order_refl fine(2) assms(6)]
  obtain sent where c: "sent_fine tasks (set (sent_ids acts)) sent" "pending_ok sent (rd_pending s)"
    "main_ok E tasks sent (rd_main s)" by (auto simp: correlated_def)
  show ?thesis
  proof (intro conjI allI impI)
    fix u item assume i: "map_of (rd_pending s) u = Some item"
    show "\<exists>t \<in> set tasks. pi_task item = t\<lparr>ct_TaskID := u\<rparr>" using sent_fineD(4) [OF c(1) pending_okD(1) [OF c(2) i]] .
    show "r = calculate (pi_task item)" if "pi_result item = Some r" for r using pending_okD(2) [OF c(2) i that] .
  next
    fix all rows assume "rd_main s = Main_Summed all rows"
    with c(3) show "list_all (row_ok tasks) rows" by (simp add: list_all_iff)
  qed
qed

section \<open>Counting the replies\<close>

definition open_items :: "pending \<Rightarrow> nat" where
  "open_items pending = length (filter (\<lambda>(u, item). pi_result item = None) pending)"

fun to_send :: "main_at \<Rightarrow> calc_task list" where
  "to_send (Main_Send ts) = ts" | "to_send (Main_Publish u p ts) = ts" | "to_send (Main_Check u r ts) = ts"
| "to_send _ = []"

fun row_answered :: "summary_row \<Rightarrow> bool" where
  "row_answered (Answered xs operation x i) \<longleftrightarrow> True"
| "row_answered (Timed_Out xs operation i) \<longleftrightarrow> False"

fun all_answered :: "pending \<Rightarrow> main_at \<Rightarrow> bool" where
  "all_answered pending (Main_Reported True) \<longleftrightarrow> open_items pending = 0"
| "all_answered pending (Main_Summed True rows) \<longleftrightarrow> open_items pending = 0 \<and> length rows = length pending \<and>
     list_all row_answered rows"
| "all_answered pending _ \<longleftrightarrow> True"

text \<open>\<open>seen\<close> are the replies delivered so far.\<close>

definition counted :: "'q reply_env \<Rightarrow> nat \<Rightarrow> string option set \<Rightarrow> 'q reply_demo \<Rightarrow> bool" where
  "counted E n seen s \<longleftrightarrow> rd_main s \<in> {Main_Exit, Main_Panic} \<or>
     rd_wg s = int (open_items (rd_pending s)) + (if rd_owing s then 1 else 0) \<and>
     length (rd_pending s) + length (to_send (rd_main s)) = n \<and>
     (\<forall>u item. map_of (rd_pending s) u = Some item \<longrightarrow> pi_result item \<noteq> None \<longrightarrow>
        (\<exists>d \<in> seen. reply_of E (pi_task item) d)) \<and>
     all_answered (rd_pending s) (rd_main s)"

lemma open_items_simps [simp]:
  "open_items [] = 0"
  "open_items (x # xs) = (if pi_result (snd x) = None then Suc (open_items xs) else open_items xs)"
  "open_items (xs @ ys) = open_items xs + open_items ys"
  by (auto simp: open_items_def split: prod.splits)

lemma open_items_answer:
  "distinct (map fst pending) \<Longrightarrow> map_of pending u = Some item \<Longrightarrow> pi_result item = None \<Longrightarrow>
     open_items pending = Suc (open_items (AList.update u (item\<lparr>pi_result := Some r\<rparr>) pending))"
proof (induction pending)
  case (Cons x xs)
  then show ?case by (cases x) (auto split: if_splits)
qed simp

lemma open_items_none: "map_of pending u = Some item \<Longrightarrow> open_items pending = 0 \<Longrightarrow> pi_result item \<noteq> None"
  by (induction pending) (auto split: if_splits)

lemma update_known_length: "map_of xs u = Some v \<Longrightarrow> length (AList.update u w xs) = length xs"
  by (induction xs) (auto split: if_splits)

lemma counted_deliver:
  assumes E: "env_ok E" and c: "correlated E tasks ids sent s" and k: "counted E n seen s"
    and step: "reply_step E (Deliver typ p seed) s = Some s'" and p: "p \<notin> seen"
  shows "counted E n (insert p seen) s'"
proof -
  from step have m: "(typ, CalcResponseQueue, p) \<in> set (re_stored E (rd_asynq s))"
    and live: "rd_main s \<notin> {Main_Exit, Main_Panic}" "\<not> rd_owing s"
    and s': "s' = s\<lparr>rd_pending := fst (deliver E typ p seed (rd_pending s)), rd_owing := snd (deliver E typ p seed (rd_pending s))\<rparr>"
    by (auto simp: deliver_def split: if_splits prod.splits)
  from c have parts: "sent_fine tasks ids sent" "pending_ok sent (rd_pending s)"
    "messages_ok E ids sent (re_stored E (rd_asynq s))" by (simp_all add: correlated_def)
  have same: "counted E n (insert p seen) s'" if "deliver E typ p seed (rd_pending s) = (rd_pending s, False)"
    using k live(2) by (auto simp: counted_def s' that)
  consider "reply_id E p \<notin> Some ` ids" | t where "t \<in> ran sent" "reply_of E t p"
    using parts(3) m by (fastforce simp: messages_ok_def)
  then show ?thesis
  proof cases
    case 1
    show ?thesis by (rule same) (rule deliver_foreign [OF 1 pending_keys [OF parts(1,2)]])
  next
    case 2
    then obtain u where u: "sent u = Some t" by (auto simp: ran_def)
    note t = sent_fineD(2,3) [OF parts(1) u] and d = deliver_reply [OF E _ 2(2), of "typ" seed "rd_pending s"]
    show ?thesis
    proof (cases "map_of (rd_pending s) u")
      case None
      show ?thesis by (rule same) (simp add: d [OF t(1)] t(2) None)
    next
      case (Some item)
      have i: "pi_task item = t" using pending_okD(1) [OF parts(2) Some] u by simp
      have none: "pi_result item = None"
      proof (rule ccontr)
        assume "pi_result item \<noteq> None"
        with k live(1) Some obtain d where "d \<in> seen" "reply_of E t d" unfolding counted_def i [symmetric] by blast
        with 2(2) p show False by (simp add: reply_of_def)
      qed
      have dist: "distinct (map fst (rd_pending s))" using parts(2) by (simp add: pending_ok_def)
      from open_items_none [OF Some] none have "0 < open_items (rd_pending s)" by auto
      with k live(1) have "\<not> (\<exists>rows. rd_main s \<in> {Main_Reported True, Main_Summed True rows})"
        by (auto simp: counted_def)
      then have all: "all_answered pending (rd_main s)" for pending
        by (cases "(pending, rd_main s)" rule: all_answered.cases) auto
      let ?p = "AList.update u (item\<lparr>pi_result := Some (calculate t)\<rparr>) (rd_pending s)"
      have s'': "s' = s\<lparr>rd_pending := ?p, rd_owing := True\<rparr>"
        by (simp add: s' d [OF t(1)] t(2) Some del: map_of_eq_Some_iff)
      have "\<exists>d \<in> insert p seen. reply_of E (pi_task j) d" if "map_of ?p v = Some j" "pi_result j \<noteq> None" for v j
        using that k live(1) 2(2) i unfolding counted_def
        by (cases "v = u") (auto simp: update_conv' simp del: map_of_eq_Some_iff)
      then show ?thesis
        using k live open_items_answer [OF dist Some none, of "calculate t"] update_known_length [OF Some] all
        by (simp add: counted_def s'' del: map_of_eq_Some_iff)
    qed
  qed
qed

text \<open>No step but \<open>Done\<close>, \<open>Check\<close> and \<open>Send\<close> touches the counter, and no \<open>Done\<close> makes it negative.\<close>

lemma counted_done:
  assumes k: "counted E n seen s" and step: "reply_step E Done s = Some s'"
  shows "counted E n seen s' \<and> rd_main s' \<noteq> Main_Panic"
proof -
  from step have live: "rd_main s \<notin> {Main_Exit, Main_Panic}" "rd_owing s"
    and s': "s' = done_wg (rd_main s) (s\<lparr>rd_owing := False\<rparr>)"
    by (auto split: if_splits)
  with k show ?thesis by (auto simp: counted_def done_wg_def)
qed

lemma counted_send:
  assumes c: "correlated E tasks ids sent s" and k: "counted E n seen s"
    and step: "reply_step E (Send u) s = Some s'" and u: "sent u = None"
  shows "counted E n seen s'"
proof -
  from step obtain ct cts where m: "rd_main s = Main_Send (ct # cts)"
    by (auto split: main_at.splits list.splits)
  have "pending_ok sent (rd_pending s)" using c by (simp add: correlated_def)
  then have "map_of (rd_pending s) u = None" using u pending_okD(1) by (metis not_None_eq option.distinct(1))
  then have fresh: "u \<notin> fst ` set (rd_pending s)" by (simp add: map_of_eq_None_iff)
  have "\<exists>d \<in> seen. reply_of E (pi_task j) d"
    if "map_of (rd_pending s @ [(u, \<lparr>pi_task = t, pi_result = None\<rparr>)]) v = Some j" "pi_result j \<noteq> None" for v j t
    using that k m unfolding counted_def
    by (auto simp: map_add_def simp del: map_of_eq_Some_iff split: option.splits if_splits)
  then show ?thesis
    using step k by (auto simp: counted_def m Let_def update_fresh [OF fresh] simp del: map_of_eq_Some_iff split: option.splits)
qed

lemma answered_line: "summary_line item = Some row \<Longrightarrow> pi_result item \<noteq> None \<Longrightarrow> row_answered row"
  by (auto simp: summary_line_def Let_def split: if_splits)

lemma answered_rows:
  "those (map (\<lambda>(u, item). summary_line item) pending) = Some rows \<Longrightarrow> open_items pending = 0 \<Longrightarrow>
    length rows = length pending \<and> list_all row_answered rows"
proof (induction pending arbitrary: rows)
  case (Cons x xs)
  obtain u item where x: "x = (u, item)" by fastforce
  from Cons.prems obtain row rows' where r: "summary_line item = Some row" "rows = row # rows'"
    "those (map (\<lambda>(u, item). summary_line item) xs) = Some rows'"
    by (auto simp: x split: option.splits)
  from Cons.prems(2) have o: "pi_result item \<noteq> None" "open_items xs = 0" by (auto simp: x split: if_splits)
  show ?case using Cons.IH [OF r(3) o(2)] answered_line [OF r(1) o(1)] r(2) by simp
qed simp

lemma counted_others:
  assumes k: "counted E n seen s"
  shows "reply_step E Enqueue s = Some s' \<Longrightarrow> counted E n seen s'"
    and "reply_step E Check s = Some s' \<Longrightarrow> counted E n seen s'"
    and "reply_step E Notice s = Some s' \<Longrightarrow> counted E n seen s'"
    and "reply_step E Timeout s = Some s' \<Longrightarrow> counted E n seen s'"
    and "reply_step E Summarise s = Some s' \<Longrightarrow> counted E n seen s'"
    and "reply_step E Quit s = Some s' \<Longrightarrow> counted E n seen s'"
    and "reply_step E (Serve k p seed) s = Some s' \<Longrightarrow> counted E n seen s'"
proof -
  show "reply_step E Enqueue s = Some s' \<Longrightarrow> counted E n seen s'"
    using k by (auto simp: counted_def simp del: map_of_eq_Some_iff split: main_at.splits prod.splits)
  show "reply_step E Check s = Some s' \<Longrightarrow> counted E n seen s'"
    using k by (auto simp: counted_def done_wg_def simp del: map_of_eq_Some_iff split: main_at.splits sum.splits if_splits)
  show "reply_step E Notice s = Some s' \<Longrightarrow> counted E n seen s'"
    using k by (auto simp: counted_def simp del: map_of_eq_Some_iff split: if_splits)
  show "reply_step E Timeout s = Some s' \<Longrightarrow> counted E n seen s'"
    using k by (auto simp: counted_def simp del: map_of_eq_Some_iff split: if_splits)
  show "reply_step E Quit s = Some s' \<Longrightarrow> counted E n seen s'"
    by (auto simp: counted_def split: main_at.splits)
  show "reply_step E (Serve k p seed) s = Some s' \<Longrightarrow> counted E n seen s'"
    using k by (auto simp: counted_def simp del: map_of_eq_Some_iff split: if_splits prod.splits)
  assume step: "reply_step E Summarise s = Some s'"
  then obtain all where m: "rd_main s = Main_Reported all" by (auto split: main_at.splits)
  show "counted E n seen s'"
  proof (cases "those (map (\<lambda>(u, item). summary_line item) (rd_pending s))")
    case None
    with step m show ?thesis by (auto simp: counted_def)
  next
    case (Some rows)
    with step m have s': "s' = s\<lparr>rd_main := Main_Summed all rows\<rparr>" by simp
    show ?thesis using k answered_rows [OF Some]
      by (cases all) (auto simp: counted_def s' m simp del: map_of_eq_Some_iff)
  qed
qed

lemma counted_run:
  assumes "env_ok E" and "\<And>t. t \<in> set tasks \<Longrightarrow> task_fine t" and "left_over E ids (re_stored E q)"
    and "distinct (sent_ids as)" and "set (sent_ids as) \<subseteq> ids" and "\<And>u. u \<in> ids \<Longrightarrow> ascii u"
    and "distinct (replies_delivered as)" and "reply_run E as (reply_start tasks q) = Some s"
  shows "counted E (length tasks) (set (replies_delivered as)) s \<and> (rd_main s = Main_Panic \<longrightarrow> last as \<noteq> Done)"
  using assms(4,5,7,8)
proof (induction as arbitrary: s rule: rev_induct)
  case Nil
  then show ?case by (auto simp: reply_start_def counted_def)
next
  case (snoc a as)
  from snoc.prems(4) obtain s1 where s1: "reply_run E as (reply_start tasks q) = Some s1" "reply_step E a s1 = Some s"
    by (auto simp: reply_run_append split: bind_splits)
  have d: "distinct (sent_ids as)" "set (sent_ids as) \<subseteq> ids" "distinct (replies_delivered as)"
    using snoc.prems by (auto simp: acts_append)
  have k: "counted E (length tasks) (set (replies_delivered as)) s1" using snoc.IH [OF d s1(1)] ..
  obtain sent where c: "correlated E tasks ids sent s1" "dom sent \<subseteq> set (sent_ids as)"
    using correlated_run [OF assms(1-3) d(1,2) assms(6) s1(1)] by blast
  show ?case
  proof (cases a)
    case (Send u)
    with snoc.prems(1) c(2) have "sent u = None" by (auto simp: acts_append)
    from counted_send [OF c(1) k s1(2) [unfolded Send] this] Send show ?thesis by (simp add: acts_append)
  next
    case (Deliver k' p seed)
    with snoc.prems(3) have "p \<notin> set (replies_delivered as)" by (simp add: acts_append)
    from counted_deliver [OF assms(1) c(1) k s1(2) [unfolded Deliver] this] Deliver show ?thesis by (simp add: acts_append)
  next
    case Done
    from counted_done [OF k s1(2) [unfolded Done]] Done show ?thesis by (simp add: acts_append)
  next
    case Enqueue
    from counted_others(1) [OF k s1(2) [unfolded Enqueue]] Enqueue show ?thesis by (simp add: acts_append)
  next
    case Check
    from counted_others(2) [OF k s1(2) [unfolded Check]] Check show ?thesis by (simp add: acts_append)
  next
    case Notice
    from counted_others(3) [OF k s1(2) [unfolded Notice]] Notice show ?thesis by (simp add: acts_append)
  next
    case Timeout
    from counted_others(4) [OF k s1(2) [unfolded Timeout]] Timeout show ?thesis by (simp add: acts_append)
  next
    case Summarise
    from counted_others(5) [OF k s1(2) [unfolded Summarise]] Summarise show ?thesis by (simp add: acts_append)
  next
    case Quit
    from counted_others(6) [OF k s1(2) [unfolded Quit]] Quit show ?thesis by (simp add: acts_append)
  next
    case (Serve k' p seed)
    from counted_others(7) [OF k s1(2) [unfolded Serve]] Serve show ?thesis by (simp add: acts_append)
  qed
qed

text \<open>
  C29. The wait group counts the open tasks, as long as no reply is delivered twice: until the program ends,
  its counter is the number of tasks without a result, plus one while the reply handler is before its
  \<^verbatim>\<open>wg.Done\<close>; \<^verbatim>\<open>wg.Done\<close> in the handler never makes it negative; and a summary printed after ``all replies
  received'' has one row per task, none of them a timeout.
\<close>

theorem replies_counted:
  assumes "env_ok E" and "list_all task_fine tasks"
    and "distinct (sent_ids acts)" and "list_all ascii (sent_ids acts)"
    and "left_over E (set (sent_ids acts)) (re_stored E q)"
    and "distinct (replies_delivered acts)"
    and "reply_run E acts (reply_start tasks q) = Some s"
  shows "(rd_main s \<in> {Main_Exit, Main_Panic} \<or>
      rd_wg s = int (open_items (rd_pending s)) + (if rd_owing s then 1 else 0)) \<and>
    (rd_main s = Main_Panic \<longrightarrow> last acts \<noteq> Done) \<and>
    (\<forall>rows. rd_main s = Main_Summed True rows \<longrightarrow> length rows = length tasks \<and> list_all row_answered rows)"
proof -
  have fine: "\<And>t. t \<in> set tasks \<Longrightarrow> task_fine t" "\<And>u. u \<in> set (sent_ids acts) \<Longrightarrow> ascii u"
    using assms(2,4) by (simp_all add: list_all_iff)
  from counted_run [OF assms(1) fine(1) assms(5,3) order_refl fine(2) assms(6,7)]
  show ?thesis by (auto simp: counted_def)
qed

end
