(* ===== verification/Demo_Reply_Run.thy ===== *)
theory Demo_Reply_Run
  imports Demo_Reply
begin

text \<open>
  Runs of the system of Demo_Reply, on an asynq that stores every task: every task answered, to which the
  properties are applied, and a reply that is delivered again.
\<close>

section \<open>A run, and a redelivered reply\<close>

text \<open>An asynq that stores every task, and where its messages can be seen.\<close>

definition accepting :: "message list reply_env \<Rightarrow> bool" where
  "accepting E \<longleftrightarrow> numbers_ok (re_codec E) (re_numbers E) \<and> re_stored E = id \<and>
     (\<forall>typ p queue ms. \<exists>i. run_state (EnqueueContext (re_client E) typ p queue) ms =
        (Inr i, ms @ [(typ, (case queue of None \<Rightarrow> ''default'' | Some q \<Rightarrow> q), p)]))"

lemma accepting_ok: "accepting E \<Longrightarrow> env_ok E"
  unfolding accepting_def env_ok_def enqueues_only_def
  by (metis Un_insert_right append_Nil2 id_apply list.set(2) set_append snd_conv subset_refl)

lemma enqueue_accepted:
  assumes "accepting E"
  obtains i where "run_state (enqueue (re_client E) t p) ms =
    (Inr i, ms @ [(task_Type t, (if task_Queue t = '''' then ''default'' else task_Queue t), p)])"
proof -
  let ?q = "if task_Queue t \<noteq> '''' then Some (task_Queue t) else None"
  obtain x where "run_state (EnqueueContext (re_client E) (task_Type t) p ?q) ms =
      (Inr x, ms @ [(task_Type t, (case ?q of None \<Rightarrow> ''default'' | Some q \<Rightarrow> q), p)])"
    using assms unfolding accepting_def by blast
  then show thesis
    by (cases x) (auto simp: enqueue_def State_Monad.bind_def State_Monad.return_def intro: that split: if_splits)
qed

lemma sending:
  assumes E: "accepting E" and t: "task_fine (ct\<lparr>ct_TaskID := u\<rparr>)" and m: "rd_main s = Main_Send (ct # cts)"
    and u: "u \<notin> fst ` set (rd_pending s)"
  obtains p where "request_of E (ct\<lparr>ct_TaskID := u\<rparr>) p"
    "reply_run E [Send u, Enqueue, Check] s =
      Some (s\<lparr>rd_asynq := rd_asynq s @ [(TaskTypeCalc, CalcRequestQueue, p)],
        rd_pending := rd_pending s @ [(u, \<lparr>pi_task = ct\<lparr>ct_TaskID := u\<rparr>, pi_result = None\<rparr>)],
        rd_wg := rd_wg s + 1, rd_main := Main_Send cts\<rparr>)"
proof -
  have "numbers_ok (re_codec E) (re_numbers E)" using E by (simp add: accepting_def)
  from task_roundtrip [OF this t] obtain p where p: "marshal_task (re_codec E) (re_numbers E) (ct\<lparr>ct_TaskID := u\<rparr>) = Some p"
    by blast
  obtain i where i: "run_state (enqueue (re_client E) (request_task p) (request_bytes (re_codec E) p)) (rd_asynq s) =
      (Inr i, rd_asynq s @ [(TaskTypeCalc, CalcRequestQueue, request_bytes (re_codec E) p)])"
    using enqueue_accepted [OF E, of "request_task p" "request_bytes (re_codec E) p" "rd_asynq s"] by auto
  have "request_of E (ct\<lparr>ct_TaskID := u\<rparr>) (request_bytes (re_codec E) p)" using p by (simp add: request_of_def)
  then show thesis
    by (rule that) (simp add: m p publish_request i update_fresh [OF u])
qed

lemma serving:
  assumes E: "accepting E" and t: "task_fine t" "request_of E t p" "reply_of E t d"
    and m: "(TaskTypeCalc, CalcRequestQueue, p) \<in> set (rd_asynq s)"
  shows "reply_step E (Serve TaskTypeCalc p seed) s =
    Some (s\<lparr>rd_asynq := rd_asynq s @ [(TaskTypeCalcReply, CalcResponseQueue, d)]\<rparr>)"
proof -
  from t(2) obtain b where b: "marshal_task (re_codec E) (re_numbers E) t = Some b" "p = request_bytes (re_codec E) b"
    by (auto simp: request_of_def)
  from t(3) obtain r where r: "d = Some r" "marshal_result (re_codec E) (re_numbers E) (calculate t) = Some r"
    by (cases d) (auto simp: reply_of_def)
  have C: "numbers_ok (re_codec E) (re_numbers E)" "re_stored E = id" using E by (simp_all add: accepting_def)
  from request_handled [OF C(1) t(1) b(1)] obtain data where "request_bytes (re_codec E) b = Some data"
    and "Handle (re_codec E) (re_instance E) (calc_handler (re_codec E) (re_numbers E) (re_client E)) no_ctx
        TaskTypeCalc CalcRequestQueue data seed = do {
           x \<leftarrow> enqueue (re_client E) (reply_task CalcResponseQueue r) (Some r);
           State_Monad.return (case x of Inl e \<Rightarrow> Some e | Inr _ \<Rightarrow> None)
         }" by (simp add: r(2)) blast
  moreover obtain i where "run_state (enqueue (re_client E) (reply_task CalcResponseQueue r) (Some r)) (rd_asynq s) =
      (Inr i, rd_asynq s @ [(TaskTypeCalcReply, CalcResponseQueue, Some r)])"
    using enqueue_accepted [OF E, of "reply_task CalcResponseQueue r" "Some r" "rd_asynq s"] by (auto simp: reply_task_def)
  ultimately show ?thesis
    using m by (simp add: C(2) b(2) bytes_of_def r(1) State_Monad.bind_def State_Monad.return_def)
qed

lemma delivering:
  assumes E: "accepting E" and t: "task_fine t" "reply_of E t d"
    and m: "(TaskTypeCalcReply, CalcResponseQueue, d) \<in> set (rd_asynq s)"
    and s: "rd_main s \<notin> {Main_Exit, Main_Panic}" "\<not> rd_owing s"
    and item: "map_of (rd_pending s) (ct_TaskID t) = Some item"
  shows "reply_run E [Deliver TaskTypeCalcReply d seed, Done] s =
    Some (s\<lparr>rd_pending := AList.update (ct_TaskID t) (item\<lparr>pi_result := Some (calculate t)\<rparr>) (rd_pending s),
      rd_wg := rd_wg s - 1, rd_main := (if rd_wg s - 1 < 0 then Main_Panic else rd_main s)\<rparr>)"
proof -
  have "reply_step E (Deliver TaskTypeCalcReply d seed) s =
      Some (s\<lparr>rd_pending := fst (deliver E TaskTypeCalcReply d seed (rd_pending s)),
        rd_owing := snd (deliver E TaskTypeCalcReply d seed (rd_pending s))\<rparr>)"
    using m s E by (auto simp: deliver_def accepting_def split: prod.splits)
  then show ?thesis
    using s item deliver_reply [OF accepting_ok [OF E] t, of TaskTypeCalcReply seed "rd_pending s"]
    by (simp add: done_wg_def del: map_of_eq_Some_iff)
qed

text \<open>A queue and a codec to compute with: numbers as mantissa and exponent in decimal.\<close>

definition plain_numbers :: number_codec where
  "plain_numbers = \<lparr>
     float_text = (\<lambda>x. case x of
         DFin s n e \<Rightarrow> (if s then CHR ''-'' else CHR ''+'') # put_string (itoa (int n)) @ itoa e
       | _ \<Rightarrow> ''''),
     float_parse = (\<lambda>s. case s of [] \<Rightarrow> None | c # r \<Rightarrow>
         (case get_string 0 r of None \<Rightarrow> None | Some (a, b) \<Rightarrow>
           (case (atoi a, atoi b) of (Some n, Some e) \<Rightarrow> Some (DFin (c = CHR ''-'') (nat n) e) | _ \<Rightarrow> None))),
     unmarshal_error = (\<lambda>_. errors_New ''invalid JSON''),
     marshal_error = (\<lambda>_. errors_New ''unsupported value'')\<rparr>"

lemma plain_numbers_ok: "numbers_ok text_codec plain_numbers"
proof -
  have "float_parse plain_numbers (float_text plain_numbers x) = Some x"
    if ok: "double_ok x" and fin: "finite_double x" for x
  proof -
    obtain s n e where x: "x = DFin s n e" using fin by (cases x) auto
    with ok have "n < 2 ^ 53" "- 1074 \<le> e" "e \<le> 971" by auto
    then have "atoi (itoa (int n)) = Some (int n)" "atoi (itoa e) = Some e"
      by (auto intro!: atoi_itoa simp: int64_min_def int64_max_def)
    then show ?thesis by (auto simp: plain_numbers_def x)
  qed
  moreover have "json_text text_codec v = Some (put_json v) \<and> json_parse text_codec (put_json v) = Some v" for v
    using get_put_json [OF size_bound [of v], of "[]"] by (simp add: text_codec_def)
  ultimately show ?thesis using text_codec_ok by (auto simp: numbers_ok_def)
qed

definition list_client :: "message list asynq_client" where
  "list_client = \<lparr>
     EnqueueContext = (\<lambda>typ p queue. let q = (case queue of None \<Rightarrow> ''default'' | Some q \<Rightarrow> q)
       in State (\<lambda>ms. (Inr (itoa (int (length ms)), q), ms @ [(typ, q, p)]))),
     client_Close = State_Monad.return None\<rparr>"

definition demo_env :: "message list reply_env" where
  "demo_env = \<lparr>re_codec = text_codec, re_numbers = plain_numbers, re_client = list_client, re_stored = id,
     re_instance = ''demo''\<rparr>"

lemma demo_accepting: "accepting demo_env"
  by (simp add: accepting_def demo_env_def plain_numbers_ok list_client_def Let_def)

lemma demo_results:
  "cr_Result (calculate (demo_tasks ! 0)) = double_of_int 30"
  "cr_Result (calculate (demo_tasks ! 1)) = double_of_int 65"
  "cr_Result (calculate (demo_tasks ! 2)) = double_of_int 56"
  by (simp_all add: demo_tasks_def calculate_def Let_def double_eval)

lemma demo_tasks_fine: "list_all task_fine demo_tasks"
  by (simp add: demo_tasks_def task_fine_def ascii_calc ascii_Cons) (simp add: double_eval)

text \<open>A task sent, served and answered; then a list of them.\<close>

lemma reply_exists:
  assumes "accepting E" and "task_fine t" and "finite_double (cr_Result (calculate t))"
  obtains d where "reply_of E t d"
proof -
  let ?v = "JObj ([(''task_id'', JStr (cr_TaskID (calculate t))),
      (''result'', JNum (float_text (re_numbers E) (cr_Result (calculate t))))] @ omit_string ''error'' (cr_Error (calculate t)))"
  have "number_json (re_numbers E) ?v"
    using assms(3) calculate_fine [OF assms(2)] by (auto simp: ascii_calc omit_string_def)
  with assms(1) obtain d where "json_text (re_codec E) ?v = Some d" unfolding accepting_def numbers_ok_def by blast
  then show thesis using assms(3)
    by (intro that [of "Some d"]) (simp add: reply_of_def marshal_result_def result_json_def)
qed

lemma update_last: "u \<notin> fst ` set xs \<Longrightarrow> AList.update u x (xs @ [(u, y)]) = xs @ [(u, x)]"
  by (induction xs) auto

lemma exchange:
  assumes E: "accepting E" and t: "task_fine (ct\<lparr>ct_TaskID := u\<rparr>)" "reply_of E (ct\<lparr>ct_TaskID := u\<rparr>) d"
    and m: "rd_main s = Main_Send (ct # cts)" and u: "u \<notin> fst ` set (rd_pending s)"
    and s: "\<not> rd_owing s" "0 \<le> rd_wg s"
  shows "\<exists>acts s'. reply_run E acts s = Some s' \<and> sent_ids acts = [u] \<and> replies_delivered acts = [d] \<and>
    rd_pending s' = rd_pending s @
      [(u, \<lparr>pi_task = ct\<lparr>ct_TaskID := u\<rparr>, pi_result = Some (calculate (ct\<lparr>ct_TaskID := u\<rparr>))\<rparr>)] \<and>
    rd_main s' = Main_Send cts \<and> rd_wg s' = rd_wg s \<and> \<not> rd_owing s' \<and>
    (TaskTypeCalcReply, CalcResponseQueue, d) \<in> set (rd_asynq s')"
proof -
  let ?t = "ct\<lparr>ct_TaskID := u\<rparr>"
  from sending [OF E t(1) m u] obtain p where p: "request_of E ?t p" and r1: "reply_run E [Send u, Enqueue, Check] s =
      Some (s\<lparr>rd_asynq := rd_asynq s @ [(TaskTypeCalc, CalcRequestQueue, p)],
        rd_pending := rd_pending s @ [(u, \<lparr>pi_task = ?t, pi_result = None\<rparr>)],
        rd_wg := rd_wg s + 1, rd_main := Main_Send cts\<rparr>)"
    (is "_ = Some ?s1") by blast
  have r2: "reply_step E (Serve TaskTypeCalc p ''seed'') ?s1 =
      Some (?s1\<lparr>rd_asynq := rd_asynq ?s1 @ [(TaskTypeCalcReply, CalcResponseQueue, d)]\<rparr>)" (is "_ = Some ?s2")
    by (rule serving [OF E t(1) p t(2)]) simp
  have u': "map_of (rd_pending s) u = None" using u by (simp add: map_of_eq_None_iff)
  then have i: "map_of (rd_pending ?s2) (ct_TaskID ?t) = Some \<lparr>pi_task = ?t, pi_result = None\<rparr>"
    by (simp add: map_add_def del: map_of_eq_Some_iff)
  note r3 = delivering [OF E t _ _ _ i, of "''seed''"]
  note upd = update_last [OF u]
  have "reply_run E ([Send u, Enqueue, Check] @ [Serve TaskTypeCalc p ''seed''] @
      [Deliver TaskTypeCalcReply d ''seed'', Done]) s = Some (?s2\<lparr>rd_pending := rd_pending s @
        [(u, \<lparr>pi_task = ?t, pi_result = Some (calculate ?t)\<rparr>)], rd_wg := rd_wg s\<rparr>)"
    unfolding reply_run_append r1 using r2 r3 s by (simp add: upd m del: reply_step.simps)
  then show ?thesis
    by (intro exI conjI) (assumption, simp_all add: s)
qed

lemma exchanges:
  assumes E: "accepting E" and len: "length us = length ts" and "distinct us"
    and "list_all (\<lambda>t. task_fine t \<and> finite_double (cr_Result (calculate t))) ts" and "list_all ascii us"
    and "set us \<inter> fst ` set (rd_pending s) = {}"
    and "rd_main s = Main_Send ts" and "\<not> rd_owing s" and "0 \<le> rd_wg s"
  shows "\<exists>acts s'. reply_run E acts s = Some s' \<and> sent_ids acts = us \<and>
    map (reply_id E) (replies_delivered acts) = map Some us \<and>
    rd_pending s' = rd_pending s @ map2 (\<lambda>u t. (u, \<lparr>pi_task = t\<lparr>ct_TaskID := u\<rparr>,
      pi_result = Some (calculate (t\<lparr>ct_TaskID := u\<rparr>))\<rparr>)) us ts \<and>
    rd_main s' = Main_Send [] \<and> rd_wg s' = rd_wg s \<and> \<not> rd_owing s'"
  using assms(2-)
proof (induction us ts arbitrary: s rule: list_induct2)
  case Nil
  then show ?case by (intro exI [of _ "[]"] exI [of _ s]) simp
next
  case (Cons u us t ts)
  let ?t = "t\<lparr>ct_TaskID := u\<rparr>"
  have fine: "task_fine ?t" using Cons.prems by (simp add: task_fine_def)
  have "cr_Result (calculate ?t) = cr_Result (calculate t)"
    by (auto simp: calculate_def Let_def split: option.splits list.splits)
  then have "finite_double (cr_Result (calculate ?t))" using Cons.prems by simp
  from reply_exists [OF E fine this] obtain d where d: "reply_of E ?t d" by blast
  have u: "u \<notin> fst ` set (rd_pending s)" using Cons.prems by auto
  from exchange [OF E fine d Cons.prems(5) u Cons.prems(6,7)] obtain acts s1 where
    1: "reply_run E acts s = Some s1" "sent_ids acts = [u]" "replies_delivered acts = [d]"
      "rd_pending s1 = rd_pending s @ [(u, \<lparr>pi_task = ?t, pi_result = Some (calculate ?t)\<rparr>)]"
      "rd_main s1 = Main_Send ts" "rd_wg s1 = rd_wg s" "\<not> rd_owing s1" by blast
  have "reply_id E d = Some u" using reply_read(3) [OF accepting_ok [OF E] fine d] by simp
  moreover obtain acts2 s2 where "reply_run E acts2 s1 = Some s2" "sent_ids acts2 = us"
    "map (reply_id E) (replies_delivered acts2) = map Some us"
    "rd_pending s2 = rd_pending s1 @ map2 (\<lambda>u t. (u, \<lparr>pi_task = t\<lparr>ct_TaskID := u\<rparr>,
      pi_result = Some (calculate (t\<lparr>ct_TaskID := u\<rparr>))\<rparr>)) us ts"
    "rd_main s2 = Main_Send []" "rd_wg s2 = rd_wg s1" "\<not> rd_owing s2"
    using Cons.IH [of s1] Cons.prems 1 by auto
  ultimately show ?case using 1
    by (intro exI [of _ "acts @ acts2"] exI [of _ s2]) (simp add: reply_run_append acts_append)
qed

text \<open>The demonstration's own tasks, served and answered one by one.\<close>

definition demo_ids :: "string list" where
  "demo_ids = [''0e02b2c3'', ''47cc4372'', ''58d10b2c'']"

definition demo_rows :: "summary_row list" where
  "demo_rows =
     [Answered (Some [double_of_int 10, double_of_int 20]) ''add'' (double_of_int 30) ''0e02b2c3'',
      Answered (Some [double_of_int 100, double_of_int 35]) ''subtract'' (double_of_int 65) ''47cc4372'',
      Answered (Some [double_of_int 7, double_of_int 8]) ''multiply'' (double_of_int 56) ''58d10b2c'']"

lemma demo_run:
  obtains acts s where "reply_run demo_env acts (reply_start demo_tasks []) = Some s"
    "sent_ids acts = demo_ids" "distinct (replies_delivered acts)"
    "rd_main s = Main_Summed True demo_rows"
proof -
  have "list_all (\<lambda>t. task_fine t \<and> finite_double (cr_Result (calculate t))) demo_tasks"
    using demo_tasks_fine by (simp add: demo_tasks_def calculate_def Let_def double_eval)
  from exchanges [OF demo_accepting _ _ this, of demo_ids "reply_start demo_tasks []"] obtain acts s where
    r: "reply_run demo_env acts (reply_start demo_tasks []) = Some s" and i: "sent_ids acts = demo_ids"
      "map (reply_id demo_env) (replies_delivered acts) = map Some demo_ids" and
    p: "rd_pending s = map2 (\<lambda>u t. (u, \<lparr>pi_task = t\<lparr>ct_TaskID := u\<rparr>,
      pi_result = Some (calculate (t\<lparr>ct_TaskID := u\<rparr>))\<rparr>)) demo_ids demo_tasks" and
    m: "rd_main s = Main_Send []" "rd_wg s = 0"
    by (auto simp: reply_start_def demo_ids_def demo_tasks_def ascii_Cons ascii_calc)
  have "distinct (map (reply_id demo_env) (replies_delivered acts))" unfolding i(2) by (simp add: demo_ids_def)
  then have d: "distinct (replies_delivered acts)" by (simp add: distinct_map)
  have "reply_run demo_env [Notice, Summarise] s = Some (s\<lparr>rd_main := Main_Summed True demo_rows\<rparr>)"
    by (simp add: m p demo_ids_def demo_tasks_def summary_line_def Let_def calculate_def demo_rows_def) (simp add: double_eval)
  with r i d show thesis
    by (intro that [of "acts @ [Notice, Summarise]" "s\<lparr>rd_main := Main_Summed True demo_rows\<rparr>"]) (simp_all add: reply_run_append acts_append del: reply_run.simps)
qed

text \<open>Nothing is left over in empty queues.\<close>

lemma demo_hypotheses:
  "env_ok demo_env" "list_all ascii demo_ids" "distinct demo_ids" "left_over demo_env ids (re_stored demo_env [])"
  by (simp_all add: accepting_ok demo_accepting)
     (simp_all add: demo_ids_def ascii_Cons ascii_calc left_over_def demo_env_def)

theorem replies_correlated_witness:
  "list_all (row_ok demo_tasks) demo_rows \<and> length demo_rows = 3"
proof -
  from demo_run obtain acts s where "reply_run demo_env acts (reply_start demo_tasks []) = Some s"
    "sent_ids acts = demo_ids" "rd_main s = Main_Summed True demo_rows" by blast
  with replies_correlated [OF demo_hypotheses(1) demo_tasks_fine _ _ _ this(1)] demo_hypotheses
  have "list_all (row_ok demo_tasks) demo_rows" by auto
  then show ?thesis by (simp only: demo_rows_def) simp
qed

theorem replies_counted_witness:
  "list_all row_answered demo_rows \<and> length demo_rows = length demo_tasks"
proof -
  from demo_run obtain acts s where "reply_run demo_env acts (reply_start demo_tasks []) = Some s"
    "sent_ids acts = demo_ids" "distinct (replies_delivered acts)" "rd_main s = Main_Summed True demo_rows" by blast
  with replies_counted [OF demo_hypotheses(1) demo_tasks_fine _ _ _ this(3,1)] demo_hypotheses
  show ?thesis by simp
qed

text \<open>
  C30. A reply delivered again is counted again. The first task is answered and its reply delivered twice more:
  the counter reaches zero, ``all replies received'' is reported and the summary shows the two other tasks as timed
  out; one more delivery of the same reply makes the counter negative, and the program panics.
\<close>

theorem redelivery_miscounted:
  "\<exists>acts s d s'. reply_run demo_env acts (reply_start demo_tasks []) = Some s \<and>
    rd_main s = Main_Summed True
      [Answered (Some [double_of_int 10, double_of_int 20]) ''add'' (double_of_int 30) ''0e02b2c3'',
       Timed_Out (Some [double_of_int 100, double_of_int 35]) ''subtract'' ''47cc4372'',
       Timed_Out (Some [double_of_int 7, double_of_int 8]) ''multiply'' ''58d10b2c''] \<and>
    replies_delivered acts = [d, d, d] \<and> sent_ids acts = demo_ids \<and>
    reply_run demo_env [Deliver TaskTypeCalcReply d ''seed'', Done] s = Some s' \<and> rd_main s' = Main_Panic"
proof -
  define t0 t1 t2 where t: "t0 = (demo_tasks ! 0)\<lparr>ct_TaskID := ''0e02b2c3''\<rparr>"
    "t1 = (demo_tasks ! 1)\<lparr>ct_TaskID := ''47cc4372''\<rparr>" "t2 = (demo_tasks ! 2)\<lparr>ct_TaskID := ''58d10b2c''\<rparr>"
  note defs = t demo_tasks_def
  have fine: "task_fine t0" "task_fine t1" "task_fine t2"
    using demo_tasks_fine by (simp_all add: defs task_fine_def ascii_Cons ascii_calc)
  have "finite_double (cr_Result (calculate t0))"
    by (simp add: defs calculate_def Let_def double_eval)
  from reply_exists [OF demo_accepting fine(1) this] obtain d where d: "reply_of demo_env t0 d" by blast
  have start: "rd_main (reply_start demo_tasks []) = Main_Send [demo_tasks ! 0, demo_tasks ! 1, demo_tasks ! 2]"
    by (simp add: reply_start_def demo_tasks_def)
  from exchange [OF demo_accepting fine(1) [unfolded t] d [unfolded t] start]
  obtain acts0 s0 where 0: "reply_run demo_env acts0 (reply_start demo_tasks []) = Some s0"
      "sent_ids acts0 = [''0e02b2c3'']" "replies_delivered acts0 = [d]"
      "rd_pending s0 = [(''0e02b2c3'', \<lparr>pi_task = t0, pi_result = Some (calculate t0)\<rparr>)]"
      "rd_main s0 = Main_Send [demo_tasks ! 1, demo_tasks ! 2]" "rd_wg s0 = 0" "\<not> rd_owing s0"
      "(TaskTypeCalcReply, CalcResponseQueue, d) \<in> set (rd_asynq s0)"
    by (auto simp: reply_start_def t)
  from sending [OF demo_accepting fine(2) [unfolded t] 0(5)] obtain p1 where
    1: "reply_run demo_env [Send ''47cc4372'', Enqueue, Check] s0 = Some (s0\<lparr>
        rd_asynq := rd_asynq s0 @ [(TaskTypeCalc, CalcRequestQueue, p1)],
        rd_pending := rd_pending s0 @ [(''47cc4372'', \<lparr>pi_task = t1, pi_result = None\<rparr>)], rd_wg := 1,
        rd_main := Main_Send [demo_tasks ! 2]\<rparr>)"
      (is "_ = Some ?s1") by (auto simp: 0 t)
  have m1: "rd_main ?s1 = Main_Send [demo_tasks ! 2]" by simp
  from sending [OF demo_accepting fine(3) [unfolded t] m1] obtain p2 where
    2: "reply_run demo_env [Send ''58d10b2c'', Enqueue, Check] ?s1 = Some (?s1\<lparr>
        rd_asynq := rd_asynq ?s1 @ [(TaskTypeCalc, CalcRequestQueue, p2)],
        rd_pending := rd_pending ?s1 @ [(''58d10b2c'', \<lparr>pi_task = t2, pi_result = None\<rparr>)], rd_wg := 2,
        rd_main := Main_Send []\<rparr>)"
      (is "_ = Some ?s2") by (auto simp: 0 t)
  have again: "reply_run demo_env [Deliver TaskTypeCalcReply d ''seed'', Done] (?s2\<lparr>rd_wg := n, rd_main := m\<rparr>) =
      Some (?s2\<lparr>rd_wg := n - 1, rd_main := (if n - 1 < 0 then Main_Panic else m)\<rparr>)"
    if "m \<notin> {Main_Exit, Main_Panic}" for n m
    using delivering [OF demo_accepting fine(1) d, of "?s2\<lparr>rd_wg := n, rd_main := m\<rparr>"] that 0
    by (simp add: t)
  let ?rows = "Main_Summed True
      [Answered (Some [double_of_int 10, double_of_int 20]) ''add'' (double_of_int 30) ''0e02b2c3'',
       Timed_Out (Some [double_of_int 100, double_of_int 35]) ''subtract'' ''47cc4372'',
       Timed_Out (Some [double_of_int 7, double_of_int 8]) ''multiply'' ''58d10b2c'']"
  let ?D = "[Deliver TaskTypeCalcReply d ''seed'', Done]"
  have r1: "reply_run demo_env ?D ?s2 = Some (?s2\<lparr>rd_wg := 1, rd_main := Main_Send []\<rparr>)" (is "_ = Some ?s3")
    using again [of "Main_Send []" 2] by (simp del: reply_run.simps)
  have r2: "reply_run demo_env ?D ?s3 = Some (?s2\<lparr>rd_wg := 0, rd_main := Main_Send []\<rparr>)" (is "_ = Some ?s4")
    using again [of "Main_Send []" 1] by (simp del: reply_run.simps)
  have r3: "reply_run demo_env [Notice, Summarise] ?s4 = Some (?s2\<lparr>rd_wg := 0, rd_main := ?rows\<rparr>)" (is "_ = Some ?s5")
    by (simp add: 0 summary_line_def Let_def defs calculate_def) (simp add: double_eval)
  have r4: "reply_run demo_env ?D ?s5 = Some (?s2\<lparr>rd_wg := - 1, rd_main := Main_Panic\<rparr>)" (is "_ = Some ?s6")
    using again [of ?rows 0] by (simp del: reply_run.simps)
  let ?acts = "acts0 @ [Send ''47cc4372'', Enqueue, Check] @ [Send ''58d10b2c'', Enqueue, Check] @ ?D @ ?D @ [Notice, Summarise]"
  have "reply_run demo_env ?acts (reply_start demo_tasks []) = Some ?s5"
    by (simp only: reply_run_append 0(1) 1 2 r1 r2 r3 bind.simps)
  moreover have "replies_delivered ?acts = [d, d, d]" "sent_ids ?acts = demo_ids"
    by (simp_all add: acts_append 0(2,3) demo_ids_def)
  ultimately show ?thesis
    using r4 by (intro exI [of _ ?acts] exI [of _ ?s5] exI [of _ d] exI [of _ ?s6]) (simp del: reply_run.simps)
qed

end
