(* ===== verification/Spec2Isabelle.thy ===== *)
theory Spec2Isabelle
  imports Auth_Middleware Auth_Binding Saga_Status Saga_Lease Saga_Rollback Saga_Store_Laws Saga_Lifecycle
    Sagactl Config_Loader Log_Instance Lock_Instance Lock_Watchdog Queue_Logged Demo_Client Demo_Reply_Run
begin

text \<open>
  A verification development for the NSP platform library, a set of Go modules that services import:
  a saga engine over PostgreSQL with an observer and a command line (\<^verbatim>\<open>saga/\<close>, \<^verbatim>\<open>cmd/sagactl/\<close>),
  request authentication by access key and secret (\<^verbatim>\<open>auth/\<close>), a distributed lock over Redis
  (\<^verbatim>\<open>lock/\<close>), a task queue over asynq (\<^verbatim>\<open>taskqueue/\<close>), trace propagation (\<^verbatim>\<open>trace/\<close>), structured
  logging over zap (\<^verbatim>\<open>logger/\<close>) and configuration over viper (\<^verbatim>\<open>config/\<close>).

  \<^bold>\<open>How the parts interact.\<close> A service receives requests through the Gin middlewares of \<^verbatim>\<open>trace\<close> and
  \<^verbatim>\<open>auth\<close>. It submits a saga to the engine, which stores the transaction and its steps and hands the
  transaction to the coordinator. A worker of the coordinator claims the transaction (a lease in its
  row), executes the next step through the executor (one HTTP request, with the trace in its headers and
  a signature where the step asks for one), and, for an asynchronous step, waits for the poller, which
  polls the peer and notifies it. A failed step or a timeout turns the transaction to compensation, which undoes
  the steps in reverse order. Several engine instances share the tables; the leases keep
  them apart. The observer and \<^verbatim>\<open>sagactl\<close> read the same tables. The task queue wraps payloads in an
  envelope that carries the trace to the consumer. All modules log through \<^verbatim>\<open>logger\<close>.

  \<^bold>\<open>Theories.\<close>
  \<^item> Prelude: Go errors as values (sentinels and message, \<^verbatim>\<open>errors.Is\<close>, wrapping), programs as
    \<^verbatim>\<open>State_Monad\<close> computations, the rely/guarantee judgement \<open>ensures\<close> with one rule per program
    constructor (collection \<open>ensures_rules\<close>), the string routines of Go's library on bytes.
    Go_Value: dynamic values, maps that may be nil, the functions of the standard library that are parameters
    (record \<open>stdlib\<close>). Http: headers with canonical keys, requests.
  \<^item> Trace (\<^verbatim>\<open>trace/context.go\<close>, \<^verbatim>\<open>generator.go\<close>, \<^verbatim>\<open>propagator.go\<close>) and Trace_Http
    (\<^verbatim>\<open>trace/middleware.go\<close>, \<^verbatim>\<open>client.go\<close>): identifiers, extraction and injection; a trace crosses from
    service to service.
  \<^item> Auth_Store (\<^verbatim>\<open>auth/store.go\<close>, \<^verbatim>\<open>nonce.go\<close>), Auth_Sign (\<^verbatim>\<open>auth/aksk.go\<close>), Auth_Replay,
    Auth_Binding, Auth_Middleware (\<^verbatim>\<open>auth/middleware.go\<close>): when a request is accepted, that a signed request
    is, that none is accepted twice (from the locale \<open>nonce_contract\<close>, interpreted on the store of
    nonces), what a signature binds (the signed text taken apart line by line, under the laws \<open>url_laws\<close>), the
    window of timestamps including its overflow, and what the middleware lets through.
  \<^item> Saga_Definition (\<^verbatim>\<open>saga/definition.go\<close>), Saga_Jsonpath (\<^verbatim>\<open>jsonpath.go\<close>), Saga_Template
    (\<^verbatim>\<open>template.go\<close>): the data model, the builder, paths and templates; the locale \<open>path_splitter\<close>
    is what the two path parsers share.
  \<^item> Saga_World (\<^verbatim>\<open>migrations/saga.sql\<close>, \<^verbatim>\<open>runtime_context.go\<close>), Saga_Store (\<^verbatim>\<open>store.go\<close>),
    Saga_Executor (\<^verbatim>\<open>executor.go\<close>), Saga_Poller (\<^verbatim>\<open>poller.go\<close>), Saga_Coordinator (\<^verbatim>\<open>coordinator.go\<close>),
    Saga_Engine (\<^verbatim>\<open>engine.go\<close>): the engine, in the order its files call each other. The state of a
    program is the record \<open>world\<close>: tables, clock, queue, channels, answers of the peers, requests sent.
  \<^item> Saga_Guarantee, Saga_Status, Saga_Lease: rely/guarantee proofs for whole runs of an
    instance. The locales \<open>transition\<close>, \<open>db_guarantee\<close>, \<open>tx_guarantee\<close> and \<open>instance_guarantee\<close> carry a
    relation between database states through every operation up to \<open>run_instance\<close>; the interpretations
    are the state machine of transactions (statuses are an \<open>order_bot\<close> along it) and the exclusion of leases.
  \<^item> Saga_View, Saga_Store_Laws: the transaction and the steps a reader gets, and that the updates of
    the store refine updates of that view; atomic creation; the timeout listing.
  \<^item> Saga_Requests: the HTTP requests of forward steps and of compensation, in every run.
    Saga_Quiet, Saga_Forward, Saga_Rollback: the runs nothing disturbs, to success and through
    compensation.
  \<^item> Saga_Lifecycle: the goroutines of one engine (workers, scans, poll loop, callers of \<^verbatim>\<open>Submit\<close> and
    \<^verbatim>\<open>Stop\<close>) as step relations over the queue, the set of active transactions and the stop channels, with the
    invariants of what is where; the sequential Submit refines it, and \<^verbatim>\<open>Stop\<close> ends everything and can finish.
  \<^item> Saga_Observer (\<^verbatim>\<open>saga/observer/reader.go\<close>), Sagactl_Flags and Sagactl (\<^verbatim>\<open>cmd/sagactl/main.go\<close>):
    the observer shows what the engine itself reads; a listing from arguments to output.
  \<^item> Lock_Client (\<^verbatim>\<open>lock/lock.go\<close>, \<^verbatim>\<open>option.go\<close>, \<^verbatim>\<open>redis.go\<close>), Lock_Service (its guarantees in any
    interleaving of instances, over the laws \<open>lease_service\<close> of redsync), Lock_Instance (a reference
    Redis that satisfies the laws), Lock_Watchdog (the goroutines of one lock as step relations of
    callers and watchdogs, with the mutex and the channels).
  \<^item> Queue_Envelope (\<^verbatim>\<open>taskqueue/asynqbroker/trace_envelope.go\<close>), Queue_Codec (a codec that satisfies
    \<open>codec_ok\<close>), Queue_Broker (\<^verbatim>\<open>broker.go\<close>, \<^verbatim>\<open>consumer.go\<close>), Queue_Logged (\<^verbatim>\<open>logging.go\<close>, and the two composed with the
    logger: a failed task leaves an error line with the publisher's trace id), Queue_Inspector (\<^verbatim>\<open>taskqueue/inspector.go\<close>,
    \<^verbatim>\<open>asynqbroker/inspector.go\<close>, over the law \<open>lists_by_state\<close> of asynq).
  \<^item> Log_Config (\<^verbatim>\<open>logger/config.go\<close>, \<^verbatim>\<open>fields.go\<close> and the configurations of \<^verbatim>\<open>category.go\<close>), Log_Zap
    (zap as a parameter, the core around the sampler), Log_Logger (\<^verbatim>\<open>zap_logger.go\<close>, \<^verbatim>\<open>sugar.go\<close>,
    \<^verbatim>\<open>context.go\<close>), Log_Global (\<^verbatim>\<open>logger.go\<close>, \<^verbatim>\<open>category.go\<close>), Log_Access (\<^verbatim>\<open>access_middleware.go\<close>,
    \<^verbatim>\<open>writer.go\<close>, \<^verbatim>\<open>saga/logging.go\<close>). Log_Typing holds the locale \<open>zap_backend\<close> and a store typing for
    the atomic levels (judgement \<open>typed\<close>, rules in \<open>typed_rules\<close>), Log_Guarantee the properties, Log_Instance
    a reference zap that interprets the locale.
  \<^item> Config_Loader (\<^verbatim>\<open>config/config.go\<close>, \<^verbatim>\<open>viper.go\<close>): the loader, and its watcher, timer and callback
    goroutines as a step relation with an invariant.
  \<^item> Demo_Server (\<^verbatim>\<open>examples/server/main.go\<close>, \<^verbatim>\<open>examples/internal\<close>): the middlewares of \<^verbatim>\<open>trace\<close>,
    \<^verbatim>\<open>auth\<close> and the logger composed in one Gin chain with recovery, its handlers and routes, and Gin's redirects before it: who gets through, that all
    lines and answers of a request carry one trace (judgement \<open>traced\<close>, locale \<open>traced_request\<close>), panics. Demo_Client
    (\<^verbatim>\<open>examples/testclient/main.go\<close>): what the client signs and what the server answers it.
  \<^item> Demo_Calc, Demo_Reply, Demo_Reply_Run (\<^verbatim>\<open>examples/taskqueue-reply-demo\<close>): a producer that matches replies
    with its tasks, consumers that calculate with the binary64 arithmetic of Go_Float, and asynq's queues between them
    as steps in any order: every result is its task's (\<open>correlated\<close>), what the wait group counts (\<open>counted\<close>), and
    that a redelivered reply is counted twice.
\<close>

text \<open>
  \<^bold>\<open>Conventions.\<close> A Go function is a definition of the same name where that name is free, else with a prefix
  (\<open>engine_Submit\<close>, \<open>log_With\<close>, \<open>config_Load\<close>). Errors are values of a sum or option; the state after an
  error is kept. Times are nanoseconds as \<open>int\<close>; where the width matters (durations, the nonce ttl, the
  age of a timestamp, backoffs) the wrap-around and saturation of 64 bits are written out. Strings are
  byte strings. Maps are association lists, so that a property about their order has to say it.

  Every call of the saga engine that takes time consumes one \<open>tick\<close> of the world: the clock advances, the
  context may be cancelled or the component stopped, a statement of the call may fail, without
  effect or with its acknowledgement lost, some rows may be locked, and the other sessions write before the
  call takes effect, as the rely of a property allows. The HTTP peers are the list of their answers.
  What the goroutines and tickers of an instance do to the tables are the activities of a run, in any order;
  how they start, meet and end is Saga_Lifecycle, where a drive or a scan is one stretch between two steps.

  \<^bold>\<open>Fuel.\<close> \<open>drive_loop\<close> (the loop of \<^verbatim>\<open>driveTransaction\<close>) and \<open>wait_loop\<close> (\<^verbatim>\<open>SubmitAndWait\<close>) may not end; they take a
  number of rounds and report running out of it. The properties that say they succeed prove that fuel is
  enough: the number of steps plus two for the run to success, one round for compensation. The
  invariants hold with any fuel. \<open>watch_loop\<close> of \<^verbatim>\<open>sagactl\<close> makes one round per wait that ended. The loop of
  compensation attempts is bounded by the code; the retries of Acquire are redsync's.

  \<^bold>\<open>Parameters.\<close> Code that is not in the repository is an argument: SHA-256, HMAC, JSON, float and \<^verbatim>\<open>%v\<close>
  formats, URL parsing, base64 (\<open>stdlib\<close>, \<open>codec\<close>), go-redis and redsync, asynq, zap, slog and lumberjack, viper, Gin's context,
  the \<^verbatim>\<open>->>\<close> operator of PostgreSQL, number parsers and formats of \<^verbatim>\<open>sagactl\<close>. What a property relies
  on is a named law (\<open>url_laws\<close>, \<open>lease_service\<close>, \<open>codec_ok\<close>, \<open>numbers_ok\<close>, \<open>enqueues_only\<close>, \<open>lists_by_state\<close>, \<open>zap_backend\<close>), shown satisfiable by a concrete
  instance on which its witness runs.

  \<^bold>\<open>Abstractions.\<close> The database and an instance share one clock; the rounding of database times below a
  microsecond is ignored. Widths of columns, unique ids and lost connections appear as faults of statements.
  The order of rows that tie in an \<^verbatim>\<open>ORDER BY\<close> is that of the table. The goroutines of one
  poll scan run one after the other. Log lines of the modules are left out, except in the theories of the logger and in Queue_Logged.
  Counters of the queue inspector are unbounded integers; \<^verbatim>\<open>ListTasks\<close> normalises the
  caller's options in place, which only its result shows. The laws of redsync assume that Redis
  does not lose keys, as a failover may. The mutexes of the loggers and of the configuration
  loader make their critical sections single steps. The texts of errors that Go's \<^verbatim>\<open>net/url\<close> and \<^verbatim>\<open>net/http\<close> make are
  inputs or left out.

  \<^bold>\<open>Not modelled.\<close> The demonstrations of saga, lock, configuration and logger under \<^verbatim>\<open>examples/\<close> only call the modules
  and print; of the calculation demonstration log lines, signals and the formats of printed numbers are left out; of
  the server and the client, starting and stopping the HTTP server, the \<^verbatim>\<open>net/http\<close> variants of the middlewares and the go-resty
  form of the client are left out. Test helpers
  (\<^verbatim>\<open>resetCategoryManager\<close>), \<^verbatim>\<open>syncableCore\<close> of the logger, which nothing uses, the opening of database
  connections (what it returns is an input), and cancellation inside a query of \<^verbatim>\<open>sagactl\<close> are left out. The data
  races of Go's memory model are outside: shared fields are read and written atomically.
\<close>

end
